(* ===== verification/Prelude.thy ===== *)
theory Prelude
  imports Main "HOL-Library.Word"
begin

text \<open>
  What the components share: the names of the C integer types, the C integer conversions, and
  the lemmas on ring indices, on list updates and on power-of-two masks that the buffers and
  the queues of the firmware use.  \<open>ring_simps\<close> collects the index lemmas and
  \<open>frame_simps\<close> the facts that say which part of a state an operation leaves alone.
\<close>

unbundle bit_operations_syntax

named_theorems ring_simps \<open>index arithmetic of circular buffers\<close>
named_theorems frame_simps \<open>what an operation leaves unchanged\<close>
named_theorems wf_intros \<open>well-formedness is kept by an operation\<close>

subsection \<open>C integer types\<close>

type_synonym u8 = "8 word"
type_synonym u16 = "16 word"
type_synonym u32 = "32 word"
type_synonym u64 = "64 word"

text \<open>
  Signed C integers are \<^typ>\<open>int\<close> with the conversion written where the code converts: a
  value converted to \<open>int16_t\<close> or \<open>int32_t\<close> keeps its low bits, read as two's complement
  (what GCC documents for the implementation-defined conversion).
\<close>

definition to_i16 :: "int \<Rightarrow> int" where
  "to_i16 x = signed_take_bit 15 x"

definition to_i32 :: "int \<Rightarrow> int" where
  "to_i32 x = signed_take_bit 31 x"

definition to_u16 :: "int \<Rightarrow> int" where
  "to_u16 x = x mod 2 ^ 16"

definition to_u32 :: "int \<Rightarrow> int" where
  "to_u32 x = x mod 2 ^ 32"

lemma to_i16_id [simp]: "- 32768 \<le> x \<Longrightarrow> x < 32768 \<Longrightarrow> to_i16 x = x"
  unfolding to_i16_def by (rule signed_take_bit_int_eq_self) simp_all

lemma to_i32_id [simp]: "- 2147483648 \<le> x \<Longrightarrow> x < 2147483648 \<Longrightarrow> to_i32 x = x"
  unfolding to_i32_def by (rule signed_take_bit_int_eq_self) simp_all

lemma to_u16_id [simp]: "0 \<le> x \<Longrightarrow> x < 65536 \<Longrightarrow> to_u16 x = x"
  by (simp add: to_u16_def)

lemma to_u32_id [simp]: "0 \<le> x \<Longrightarrow> x < 4294967296 \<Longrightarrow> to_u32 x = x"
  by (simp add: to_u32_def)

lemma to_i16_range: "- 32768 \<le> to_i16 x \<and> to_i16 x < 32768"
  unfolding to_i16_def
  using signed_take_bit_int_greater_eq_minus_exp [of 15 x] signed_take_bit_int_less_exp [of 15 x]
  by simp

lemma to_i32_range: "- 2147483648 \<le> to_i32 x \<and> to_i32 x < 2147483648"
  unfolding to_i32_def
  using signed_take_bit_int_greater_eq_minus_exp [of 31 x] signed_take_bit_int_less_exp [of 31 x]
  by simp

lemma to_u32_range: "0 \<le> to_u32 x \<and> to_u32 x < 4294967296"
  by (simp add: to_u32_def)

text \<open>C's division and remainder truncate towards zero.\<close>

definition cdiv :: "int \<Rightarrow> int \<Rightarrow> int" where
  "cdiv a b = sgn a * sgn b * (\<bar>a\<bar> div \<bar>b\<bar>)"

lemma cdiv_nonneg: "0 \<le> a \<Longrightarrow> 0 < b \<Longrightarrow> cdiv a b = a div b"
  by (cases "a = 0") (auto simp: cdiv_def)

subsection \<open>Ring indices\<close>

definition ring_slice :: "'a list \<Rightarrow> nat \<Rightarrow> nat \<Rightarrow> 'a list" where
  \<comment> \<open>the \<open>n\<close> elements of the circular array \<open>xs\<close> from index \<open>h\<close> on\<close>
  "ring_slice xs h n = map (\<lambda>i. xs ! ((h + i) mod length xs)) [0..<n]"

lemma length_ring_slice [simp]: "length (ring_slice xs h n) = n"
  by (simp add: ring_slice_def)

lemma ring_slice_0 [simp]: "ring_slice xs h 0 = []"
  by (simp add: ring_slice_def)

lemma ring_slice_eq_Nil_iff [simp]: "ring_slice xs h n = [] \<longleftrightarrow> n = 0"
  by (simp add: ring_slice_def)

lemma ring_slice_hd: "0 < n \<Longrightarrow> h < length xs \<Longrightarrow> hd (ring_slice xs h n) = xs ! h"
  by (simp add: ring_slice_def hd_map)

lemma ring_slice_Suc:
  assumes "h < length xs"
  shows "ring_slice xs h (Suc n) = xs ! h # ring_slice xs ((h + 1) mod length xs) n"
proof (rule nth_equalityI)
  show "length (ring_slice xs h (Suc n)) =
      length (xs ! h # ring_slice xs ((h + 1) mod length xs) n)"
    by simp
next
  fix i assume "i < length (ring_slice xs h (Suc n))"
  then have i: "i < Suc n" by simp
  show "ring_slice xs h (Suc n) ! i = (xs ! h # ring_slice xs ((h + 1) mod length xs) n) ! i"
  proof (cases i)
    case 0
    with assms show ?thesis by (simp add: ring_slice_def del: upt_Suc)
  next
    case (Suc j)
    with i have "j < n" by simp
    moreover have "((h + 1) mod length xs + j) mod length xs = (h + Suc j) mod length xs"
      by (simp add: mod_simps)
    ultimately show ?thesis using Suc i by (simp add: ring_slice_def del: upt_Suc)
  qed
qed

lemma ring_slice_snoc:
  "ring_slice xs h (Suc n) = ring_slice xs h n @ [xs ! ((h + n) mod length xs)]"
  by (simp add: ring_slice_def)

lemma ring_index_inj:
  assumes "i < n" "j < n" "(h + i) mod n = (h + j) mod (n::nat)"
  shows "i = j"
proof -
  have "(i = j)" if "i \<le> j" "i < n" "j < n" "(h + i) mod n = (h + j) mod n" for i j :: nat
  proof -
    have "n dvd (h + j) - (h + i)"
      using that(1,4) by (metis add_le_cancel_left mod_eq_dvd_iff_nat)
    then have "n dvd j - i" by simp
    then show "i = j" using that by (auto dest: dvd_imp_le)
  qed
  from this [of i j] this [of j i] assms show ?thesis by (cases "i \<le> j") auto
qed

lemma ring_slice_update_other:
  assumes "n \<le> k" "k < length xs"
  shows "ring_slice (xs[(h + k) mod length xs := v]) h n = ring_slice xs h n"
proof (rule nth_equalityI)
  show "length (ring_slice (xs[(h + k) mod length xs := v]) h n) = length (ring_slice xs h n)"
    by simp
next
  fix i assume "i < length (ring_slice (xs[(h + k) mod length xs := v]) h n)"
  then have i: "i < n" by simp
  have "(h + i) mod length xs \<noteq> (h + k) mod length xs"
    using ring_index_inj [of i "length xs" k h] i assms by auto
  then show "ring_slice (xs[(h + k) mod length xs := v]) h n ! i = ring_slice xs h n ! i"
    using i by (simp add: ring_slice_def)
qed

lemma ring_slice_push:
  assumes "n < length xs"
  shows "ring_slice (xs[(h + n) mod length xs := v]) h (Suc n) = ring_slice xs h n @ [v]"
proof -
  have "0 < length xs" using assms by (rule le_less_trans [OF le0])
  then have "(h + n) mod length xs < length xs" by (rule mod_less_divisor)
  then show ?thesis
    using assms ring_slice_update_other [of n n xs h v] by (simp add: ring_slice_snoc)
qed

lemma ring_slice_clear_head:
  assumes "h < length xs" "n < length xs"
  shows "ring_slice (xs[h := v]) ((h + 1) mod length xs) n = ring_slice xs ((h + 1) mod length xs) n"
proof -
  have "((h + 1) mod length xs + (length xs - 1)) mod length xs
      = (h + 1 + (length xs - 1)) mod length xs"
    by (simp only: mod_add_left_eq)
  also have "h + 1 + (length xs - 1) = h + length xs" using assms by simp
  finally have "((h + 1) mod length xs + (length xs - 1)) mod length xs = h"
    using assms by simp
  then show ?thesis
    using assms ring_slice_update_other [of n "length xs - 1" xs "(h + 1) mod length xs" v]
    by simp
qed

lemma ring_pop_index [ring_simps]:
  "0 < n \<Longrightarrow> (Suc h mod m + n - Suc 0) mod m = (h + n) mod (m::nat)"
  by (cases n) (simp_all add: mod_simps)

subsection \<open>Masks of power-of-two sizes\<close>

lemma unat_and_mask: "unat (w AND (2 ^ k - 1) :: 'a::len word) = unat w mod 2 ^ k"
  by (metis mask_eq_exp_minus_1 take_bit_eq_mask take_bit_eq_mod unsigned_take_bit_eq)

end
