(* ===== verification/FifoSpec.thy ===== *)
theory FifoSpec
  imports Prelude
begin

text \<open>
  The contracts of the queues of the firmware.  A first-in first-out buffer of bounded capacity
  is seen through its \<open>contents\<close>, oldest element first.  \<open>fifo\<close> is what every reader relies
  on; the two extensions say what a writer gets when the buffer is full: the receive rings of
  the streams refuse the new element (\<open>fifo_drop_newest\<close>), the message queue of
  \<open>rahman/buf\<close> overwrites the oldest one (\<open>fifo_drop_oldest\<close>).  The client lemmas (what a
  sequence of writes leaves behind, what a reader that drains the buffer sees) are proved once
  here and reach each implementation by interpretation.
\<close>

subsection \<open>Draining a buffer\<close>

fun drain :: "('s \<Rightarrow> 'a option \<times> 's) \<Rightarrow> nat \<Rightarrow> 's \<Rightarrow> 'a list \<times> 's" where
  \<comment> \<open>a reader that reads until the buffer is empty, at most \<open>n\<close> times\<close>
  "drain rd 0 s = ([], s)"
| "drain rd (Suc n) s =
     (case rd s of
        (None, s') \<Rightarrow> ([], s')
      | (Some x, s') \<Rightarrow> (case drain rd n s' of (xs, s'') \<Rightarrow> (x # xs, s'')))"

subsection \<open>The reader's contract\<close>

locale fifo =
  fixes inv :: "'s \<Rightarrow> bool"
    and contents :: "'s \<Rightarrow> 'a list"
    and cap :: nat
    and rd :: "'s \<Rightarrow> 'a option \<times> 's"
    and clear :: "'s \<Rightarrow> 's"
  assumes bounded: "inv s \<Longrightarrow> length (contents s) \<le> cap"
    and rd_nil: "inv s \<Longrightarrow> contents s = [] \<Longrightarrow> rd s = (None, s)"
    and rd_cons: "inv s \<Longrightarrow> contents s = x # xs \<Longrightarrow>
      fst (rd s) = Some x \<and> contents (snd (rd s)) = xs \<and> inv (snd (rd s))"
    and clear_inv: "inv s \<Longrightarrow> inv (clear s)"
    and clear_contents: "inv s \<Longrightarrow> contents (clear s) = []"
begin

lemma rd_contents: "inv s \<Longrightarrow> contents (snd (rd s)) = tl (contents s)"
  by (cases "contents s") (auto simp: rd_nil dest: rd_cons)

lemma rd_inv: "inv s \<Longrightarrow> inv (snd (rd s))"
  by (cases "contents s") (auto simp: rd_nil dest: rd_cons)

lemma rd_None_iff: "inv s \<Longrightarrow> fst (rd s) = None \<longleftrightarrow> contents s = []"
  by (cases "contents s") (auto simp: rd_nil dest: rd_cons)

lemma drain_spec:
  "inv s \<Longrightarrow>
     fst (drain rd n s) = take n (contents s) \<and>
     contents (snd (drain rd n s)) = drop n (contents s) \<and>
     inv (snd (drain rd n s))"
proof (induction n arbitrary: s)
  case 0
  then show ?case by simp
next
  case (Suc n)
  show ?case
  proof (cases "contents s")
    case Nil
    with Suc.prems show ?thesis by (simp add: rd_nil)
  next
    case (Cons x xs)
    from rd_cons [OF Suc.prems Cons] obtain s' where
      s': "rd s = (Some x, s')" "contents s' = xs" "inv s'"
      by (cases "rd s") auto
    from Suc.IH [OF s'(3)] s' Cons show ?thesis
      by (cases "drain rd n s'") simp
  qed
qed

lemma drain_all: "inv s \<Longrightarrow> cap \<le> n \<Longrightarrow> fst (drain rd n s) = contents s"
  using drain_spec [of s n] bounded [of s] by simp

end

subsection \<open>A writer that is refused when the buffer is full\<close>

locale fifo_drop_newest = fifo inv contents cap rd clear
  for inv :: "'s \<Rightarrow> bool" and contents :: "'s \<Rightarrow> 'a list" and cap :: nat
    and rd :: "'s \<Rightarrow> 'a option \<times> 's" and clear :: "'s \<Rightarrow> 's" +
  fixes put :: "'a \<Rightarrow> 's \<Rightarrow> 's"
  assumes put_room: "inv s \<Longrightarrow> length (contents s) < cap \<Longrightarrow> contents (put x s) = contents s @ [x]"
    and put_full: "inv s \<Longrightarrow> length (contents s) = cap \<Longrightarrow> contents (put x s) = contents s"
    and put_inv: "inv s \<Longrightarrow> inv (put x s)"
begin

lemma fold_put_inv: "inv s \<Longrightarrow> inv (fold put xs s)"
  by (induction xs arbitrary: s) (auto simp: put_inv)

lemma fold_put:
  "inv s \<Longrightarrow> contents (fold put xs s) = contents s @ take (cap - length (contents s)) xs"
proof (induction xs arbitrary: s)
  case Nil
  then show ?case by simp
next
  case (Cons x xs)
  show ?case
  proof (cases "length (contents s) < cap")
    case True
    then have "take (cap - length (contents s)) (x # xs) =
        x # take (cap - Suc (length (contents s))) xs"
      by (simp add: take_Cons')
    with True Cons show ?thesis by (simp add: put_inv put_room)
  next
    case False
    with bounded [OF Cons.prems] have "length (contents s) = cap" by simp
    with Cons show ?thesis by (simp add: put_inv put_full)
  qed
qed

lemma fold_put_fits:
  "inv s \<Longrightarrow> length (contents s) + length xs \<le> cap \<Longrightarrow>
     contents (fold put xs s) = contents s @ xs"
  by (simp add: fold_put)

lemma write_then_drain:
  "inv s \<Longrightarrow> length (contents s) + length xs \<le> cap \<Longrightarrow> cap \<le> n \<Longrightarrow>
     fst (drain rd n (fold put xs s)) = contents s @ xs"
  by (simp add: drain_all fold_put_inv fold_put_fits)

end

subsection \<open>A writer that overwrites the oldest element\<close>

locale fifo_drop_oldest = fifo inv contents cap rd clear
  for inv :: "'s \<Rightarrow> bool" and contents :: "'s \<Rightarrow> 'a list" and cap :: nat
    and rd :: "'s \<Rightarrow> 'a option \<times> 's" and clear :: "'s \<Rightarrow> 's" +
  fixes put :: "'a \<Rightarrow> 's \<Rightarrow> 's"
  assumes cap_pos: "0 < cap"
    and put_room: "inv s \<Longrightarrow> length (contents s) < cap \<Longrightarrow> contents (put x s) = contents s @ [x]"
    and put_full: "inv s \<Longrightarrow> length (contents s) = cap \<Longrightarrow> contents (put x s) = tl (contents s) @ [x]"
    and put_inv: "inv s \<Longrightarrow> inv (put x s)"
begin

lemma fold_put_inv: "inv s \<Longrightarrow> inv (fold put xs s)"
  by (induction xs arbitrary: s) (auto simp: put_inv)

lemma fold_put:
  "inv s \<Longrightarrow> contents (fold put xs s) = drop (length (contents s) + length xs - cap) (contents s @ xs)"
proof (induction xs arbitrary: s)
  case Nil
  then show ?case using bounded [of s] by simp
next
  case (Cons x xs)
  show ?case
  proof (cases "length (contents s) < cap")
    case True
    have "contents (fold put (x # xs) s) =
        drop (length (contents s @ [x]) + length xs - cap) ((contents s @ [x]) @ xs)"
      using Cons.IH [OF put_inv [OF Cons.prems, of x]] Cons.prems True
      by (simp add: put_room del: append_assoc)
    then show ?thesis by simp
  next
    case False
    with bounded [OF Cons.prems] have full: "length (contents s) = cap" by simp
    with cap_pos obtain y ys where c: "contents s = y # ys"
      by (cases "contents s") auto
    have "contents (fold put (x # xs) s) =
        drop (length (ys @ [x]) + length xs - cap) ((ys @ [x]) @ xs)"
      using Cons.IH [OF put_inv [OF Cons.prems, of x]] Cons.prems full c
      by (simp add: put_full del: append_assoc drop_append)
    with full c show ?thesis by (auto simp del: drop_append)
  qed
qed

end

end
