(* ===== verification/MsgQueue.thy ===== *)
theory MsgQueue
  imports FifoSpec
begin

text \<open>
  \<open>main/rahman/buf/buf.c\<close>: a queue of eight message pointers kept in a circular array, which
  overwrites the oldest pointer when it is full.  The globals \<open>q\<close>, \<open>head\<close>, \<open>tail\<close> and
  \<open>size\<close> are the record \<open>mq\<close>; the three \<open>int8_t\<close> counters stay in \<open>0..8\<close> (the invariant),
  so they are \<^typ>\<open>nat\<close>.  A message pointer is an address or \<open>None\<close> for \<open>NULL\<close>, and the
  messages themselves live in a memory that \<open>poll\<close> and \<open>peek\<close> copy in.
\<close>

subsection \<open>Data\<close>

record m_t =
  m_type :: u8
  m_id :: u8
  m_data :: "nat list"

type_synonym m_ptr = "nat option"
type_synonym m_mem = "nat \<Rightarrow> m_t"

record mq =
  mq_q :: "m_ptr list"
  mq_head :: nat
  mq_tail :: nat
  mq_size :: nat

definition Q_MAX_SIZE :: nat where
  "Q_MAX_SIZE = 8"

subsection \<open>Operations\<close>

function mq_clear_loop :: "nat \<Rightarrow> m_ptr list \<Rightarrow> m_ptr list" where
  "mq_clear_loop i qs =
     (if i < Q_MAX_SIZE then mq_clear_loop (i + 1) (qs[i := None]) else qs)"
  by pat_completeness auto
termination
  by (relation "measure (\<lambda>(i, qs). Q_MAX_SIZE - i)") auto

declare mq_clear_loop.simps [simp del]

definition mq_clear :: "mq \<Rightarrow> mq" where
  "mq_clear s = s\<lparr>mq_head := 0, mq_tail := 0, mq_size := 0,
     mq_q := mq_clear_loop 0 (mq_q s)\<rparr>"

definition mq_add :: "m_ptr \<Rightarrow> mq \<Rightarrow> mq" where
  "mq_add data s =
     (let s = s\<lparr>mq_q := (mq_q s)[mq_tail s := data]\<rparr>;
          s = s\<lparr>mq_tail := (mq_tail s + 1) mod Q_MAX_SIZE\<rparr>
      in if mq_size s < Q_MAX_SIZE
         then s\<lparr>mq_size := mq_size s + 1\<rparr>
         else s\<lparr>mq_head := (mq_head s + 1) mod Q_MAX_SIZE\<rparr>)"

definition mq_copy_out :: "m_ptr \<Rightarrow> m_ptr \<Rightarrow> m_mem \<Rightarrow> m_mem" where
  \<comment> \<open>\<open>if (data != NULL && q[head] != NULL) *data = *q[head];\<close>\<close>
  "mq_copy_out data src mem =
     (case (data, src) of (Some d, Some p) \<Rightarrow> mem(d := mem p) | _ \<Rightarrow> mem)"

definition mq_poll :: "m_ptr \<Rightarrow> m_mem \<Rightarrow> mq \<Rightarrow> bool \<times> m_mem \<times> mq" where
  "mq_poll data mem s =
     (if mq_size s > 0 then
        (let mem = mq_copy_out data (mq_q s ! mq_head s) mem;
             s = s\<lparr>mq_q := (mq_q s)[mq_head s := None]\<rparr>;
             s = s\<lparr>mq_head := (mq_head s + 1) mod Q_MAX_SIZE\<rparr>;
             s = s\<lparr>mq_size := mq_size s - 1\<rparr>
         in (True, mem, s))
      else (False, mem, s))"

definition mq_poll_void :: "mq \<Rightarrow> bool \<times> mq" where
  "mq_poll_void s =
     (if mq_size s > 0 then
        (let s = s\<lparr>mq_q := (mq_q s)[mq_head s := None]\<rparr>;
             s = s\<lparr>mq_head := (mq_head s + 1) mod Q_MAX_SIZE\<rparr>;
             s = s\<lparr>mq_size := mq_size s - 1\<rparr>
         in (True, s))
      else (False, s))"

definition mq_peek :: "m_ptr \<Rightarrow> m_mem \<Rightarrow> mq \<Rightarrow> bool \<times> m_mem" where
  "mq_peek data mem s =
     (if mq_size s > 0 then (True, mq_copy_out data (mq_q s ! mq_head s) mem)
      else (False, mem))"

subsection \<open>Invariant and abstraction\<close>

definition mq_inv :: "mq \<Rightarrow> bool" where
  "mq_inv s \<longleftrightarrow>
     length (mq_q s) = Q_MAX_SIZE \<and> mq_head s < Q_MAX_SIZE \<and> mq_size s \<le> Q_MAX_SIZE \<and>
     mq_tail s = (mq_head s + mq_size s) mod Q_MAX_SIZE"

definition mq_contents :: "mq \<Rightarrow> m_ptr list" where
  "mq_contents s = ring_slice (mq_q s) (mq_head s) (mq_size s)"

lemma length_mq_clear_loop [simp]: "length (mq_clear_loop i qs) = length qs"
proof (induction i qs rule: mq_clear_loop.induct)
  case (1 i qs)
  then show ?case by (subst mq_clear_loop.simps) simp
qed

lemma mq_clear_inv: "length (mq_q s) = Q_MAX_SIZE \<Longrightarrow> mq_inv (mq_clear s)"
  by (simp add: mq_inv_def mq_clear_def Q_MAX_SIZE_def)

lemma mq_contents_clear [simp]: "mq_contents (mq_clear s) = []"
  by (simp add: mq_contents_def mq_clear_def)

lemma mq_add_inv [wf_intros]: "mq_inv s \<Longrightarrow> mq_inv (mq_add p s)"
  by (auto simp: mq_inv_def mq_add_def Q_MAX_SIZE_def Let_def mod_simps)

lemma mq_add_room:
  assumes "mq_inv s" "length (mq_contents s) < Q_MAX_SIZE"
  shows "mq_contents (mq_add p s) = mq_contents s @ [p]"
  using assms ring_slice_push [of "mq_size s" "mq_q s" "mq_head s" p]
  by (simp add: mq_inv_def mq_contents_def mq_add_def Let_def)

lemma mq_add_full:
  assumes inv: "mq_inv s" and full: "length (mq_contents s) = Q_MAX_SIZE"
  shows "mq_contents (mq_add p s) = tl (mq_contents s) @ [p]"
proof -
  let ?q = "mq_q s" and ?h = "mq_head s"
  have 8: "mq_size s = Suc 7" "length ?q = 8" "?h < 8" "mq_tail s = ?h"
    using inv full by (auto simp: mq_inv_def mq_contents_def Q_MAX_SIZE_def)
  let ?h' = "(?h + 1) mod 8"
  have t: "(?h' + 7) mod length ?q = ?h" using 8 by (simp add: mod_simps)
  have "ring_slice (?q[?h := p]) ?h' (Suc 7) = ring_slice ?q ?h' 7 @ [p]"
    using ring_slice_push [of 7 ?q ?h' p] 8 t by simp
  moreover have "ring_slice ?q ?h (Suc 7) = ?q ! ?h # ring_slice ?q ?h' 7"
    using ring_slice_Suc [of ?h ?q 7] 8 by simp
  ultimately show ?thesis
    using 8 by (simp add: mq_contents_def mq_add_def Let_def Q_MAX_SIZE_def)
qed

lemma mq_poll_void_eq:
  "mq_poll data mem s =
     (if fst (mq_poll_void s)
      then (True, mq_copy_out data (mq_q s ! mq_head s) mem, snd (mq_poll_void s))
      else (False, mem, s))"
  by (simp add: mq_poll_def mq_poll_void_def Let_def)

lemma mq_poll_void_inv [wf_intros]: "mq_inv s \<Longrightarrow> mq_inv (snd (mq_poll_void s))"
  by (auto simp: mq_inv_def mq_poll_void_def Let_def ring_simps Q_MAX_SIZE_def)

lemma mq_poll_void_contents:
  assumes inv: "mq_inv s" and "0 < mq_size s"
  shows "mq_contents s = mq_q s ! mq_head s # mq_contents (snd (mq_poll_void s))"
proof -
  from assms obtain n where n: "mq_size s = Suc n" by (cases "mq_size s") auto
  have l: "mq_head s < length (mq_q s)" "length (mq_q s) = Q_MAX_SIZE" "n < length (mq_q s)"
    using inv n by (auto simp: mq_inv_def)
  show ?thesis
    using l n ring_slice_Suc [of "mq_head s" "mq_q s" n] ring_slice_clear_head [OF l(1,3), of None]
    by (simp add: mq_contents_def mq_poll_void_def Let_def)
qed

lemma mq_contents_Nil_iff: "mq_contents s = [] \<longleftrightarrow> mq_size s = 0"
  by (simp add: mq_contents_def)

subsection \<open>The queue contract\<close>

definition mq_rd :: "mq \<Rightarrow> m_ptr option \<times> mq" where
  \<comment> \<open>a poll together with the slot it consumes\<close>
  "mq_rd s = (if fst (mq_poll_void s) then Some (mq_q s ! mq_head s) else None,
              snd (mq_poll_void s))"

interpretation mqueue: fifo_drop_oldest mq_inv mq_contents Q_MAX_SIZE mq_rd mq_clear mq_add
proof unfold_locales
  fix s :: mq and p x :: m_ptr and xs
  assume inv: "mq_inv s"
  show "length (mq_contents s) \<le> Q_MAX_SIZE"
    using inv by (simp add: mq_contents_def mq_inv_def)
  show "mq_rd s = (None, s)" if "mq_contents s = []"
    using that by (simp add: mq_contents_Nil_iff mq_rd_def mq_poll_void_def)
  show "fst (mq_rd s) = Some x \<and> mq_contents (snd (mq_rd s)) = xs \<and> mq_inv (snd (mq_rd s))"
    if c: "mq_contents s = x # xs"
  proof -
    from c have "0 < mq_size s" using mq_contents_Nil_iff [of s] by auto
    with c inv mq_poll_void_contents [OF inv] mq_poll_void_inv [OF inv] show ?thesis
      by (simp add: mq_rd_def) (simp add: mq_poll_void_def Let_def)
  qed
  show "mq_inv (mq_clear s)" using inv mq_clear_inv [of s] by (simp add: mq_inv_def [of s])
  show "mq_contents (mq_clear s) = []" by simp
  show "mq_contents (mq_add p s) = mq_contents s @ [p]" if "length (mq_contents s) < Q_MAX_SIZE"
    using inv that by (rule mq_add_room)
  show "mq_contents (mq_add p s) = tl (mq_contents s) @ [p]"
    if "length (mq_contents s) = Q_MAX_SIZE"
    using inv that by (rule mq_add_full)
  show "mq_inv (mq_add p s)" using inv by (rule mq_add_inv)
qed (simp add: Q_MAX_SIZE_def)

subsection \<open>Properties\<close>

text \<open>
  The message queue is a bounded first-in first-out queue that drops its oldest entries:
  from any state that satisfies the invariant, after a sequence of \<open>add\<close> calls it holds
  exactly the last eight of its old entries followed by the added ones, in order.
\<close>

theorem mq_add_keeps_newest:
  assumes "mq_inv s"
  shows "mq_contents (fold mq_add ps s) =
      drop (length (mq_contents s) + length ps - Q_MAX_SIZE) (mq_contents s @ ps)"
  using assms by (rule mqueue.fold_put)

definition mq_example :: mq where
  "mq_example = \<lparr>mq_q = replicate 8 None, mq_head = 6, mq_tail = 6, mq_size = 0\<rparr>"

theorem mq_add_keeps_newest_witness:
  "mq_inv mq_example \<and>
   mq_contents (fold mq_add [Some 0, Some 1, None, Some 3, Some 4, Some 5, Some 6, Some 7, Some 8, Some 9]
     mq_example) = [None, Some 3, Some 4, Some 5, Some 6, Some 7, Some 8, Some 9]"
proof -
  have inv: "mq_inv mq_example"
    by (simp add: mq_inv_def mq_example_def Q_MAX_SIZE_def)
  have empty: "mq_contents mq_example = []"
    by (simp add: mq_contents_def mq_example_def)
  show ?thesis
    using mq_add_keeps_newest [OF inv, of "[Some 0, Some 1, None, Some 3, Some 4, Some 5, Some 6,
        Some 7, Some 8, Some 9]"] inv empty
    by (simp add: Q_MAX_SIZE_def)
qed

text \<open>
  A \<open>poll\<close> on a non-empty queue removes the oldest pointer and, when that pointer and the
  destination are not \<open>NULL\<close>, copies the message it points to; a following queue state is well
  formed.  When the stored pointer is \<open>NULL\<close> the call still reports success, and the memory is
  left as it was.  \<open>peek\<close> copies out the same message and leaves the queue alone.
\<close>

theorem mq_poll_copies_oldest:
  assumes "mq_inv s" and "mq_contents s = p # rest"
  shows "\<exists>s'. mq_poll (Some d) mem s =
      (True, (case p of None \<Rightarrow> mem | Some a \<Rightarrow> mem(d := mem a)), s') \<and>
      mq_contents s' = rest \<and> mq_inv s' \<and>
      mq_peek (Some d) mem s = (True, (case p of None \<Rightarrow> mem | Some a \<Rightarrow> mem(d := mem a)))"
proof -
  have pos: "0 < mq_size s" using assms(2) mq_contents_Nil_iff [of s] by auto
  have p: "mq_q s ! mq_head s = p" "mq_contents (snd (mq_poll_void s)) = rest"
    using mq_poll_void_contents [OF assms(1) pos] assms(2) by auto
  have "mq_poll (Some d) mem s =
      (True, (case p of None \<Rightarrow> mem | Some a \<Rightarrow> mem(d := mem a)), snd (mq_poll_void s))"
    using pos p(1) by (simp add: mq_poll_void_eq mq_copy_out_def) (simp add: mq_poll_void_def Let_def)
  moreover have "mq_peek (Some d) mem s =
      (True, (case p of None \<Rightarrow> mem | Some a \<Rightarrow> mem(d := mem a)))"
    using pos p(1) by (simp add: mq_peek_def mq_copy_out_def)
  ultimately show ?thesis using p(2) mq_poll_void_inv [OF assms(1)] by blast
qed

definition mem_example :: m_mem where
  "mem_example a = \<lparr>m_type = 1, m_id = of_nat a, m_data = []\<rparr>"

theorem mq_poll_copies_oldest_witness:
  "\<exists>s'. mq_poll (Some 9) mem_example (mq_add (Some 5) mq_example) =
      (True, mem_example(9 := mem_example 5), s') \<and> mq_contents s' = []"
proof -
  have e: "mq_inv mq_example" "mq_contents mq_example = []"
    by (simp_all add: mq_inv_def mq_contents_def mq_example_def Q_MAX_SIZE_def)
  have inv: "mq_inv (mq_add (Some 5) mq_example)" using e(1) by (rule mq_add_inv)
  have c: "mq_contents (mq_add (Some 5) mq_example) = [Some 5]"
    using mq_add_room [of mq_example "Some 5"] e by (simp add: Q_MAX_SIZE_def)
  from mq_poll_copies_oldest [OF inv c, of 9 mem_example] show ?thesis by auto
qed

end
