(* ===== verification/SpiSlave.thy ===== *)
theory SpiSlave
  imports Prelude "HOL-Library.Multiset"
begin

text \<open>
  \<open>main/rahman/spi/spi_s.c\<close> and \<open>spi_c.h\<close>: the SPI slave that receives G-code lines.  A pool of
  twelve receive buffers circulates between a free queue, the transfer in progress, a work queue
  of ten accepted buffers, and the consumer.  The FreeRTOS queues are not part of the repository:
  their operations are the argument \<open>api\<close> and \<open>queue_api_ok\<close> states their documented
  behaviour (a bounded first-in first-out queue of buffer pointers).
\<close>

subsection \<open>Packets and queues\<close>

record spi_payload =
  pl_id :: u32
  pl_type :: u8
  pl_packet_ack :: u32
  pl_packet_done :: u32
  pl_rx_free :: u8
  pl_data :: "u8 list"

definition QUEUE_CAPACITY :: nat where "QUEUE_CAPACITY = 10"

definition BUFFER_POOL_SIZE :: nat where "BUFFER_POOL_SIZE = QUEUE_CAPACITY + 2"

text \<open>Buffer pointers are indices into \<open>rx_pool\<close>; a Boolean result is \<open>== pdTRUE\<close>.\<close>

record 'q queue_api =
  xQueueCreate :: "nat \<Rightarrow> 'q"
  xQueueSend :: "'q \<Rightarrow> nat \<Rightarrow> bool \<times> 'q"
  xQueueReceive :: "'q \<Rightarrow> nat option \<times> 'q"
  uxQueueMessagesWaiting :: "'q \<Rightarrow> nat"

definition queue_api_ok ::
  "'q queue_api \<Rightarrow> ('q \<Rightarrow> nat list) \<Rightarrow> ('q \<Rightarrow> nat) \<Rightarrow> bool" where
  "queue_api_ok api items limit \<longleftrightarrow>
     (\<forall>n. items (xQueueCreate api n) = [] \<and> limit (xQueueCreate api n) = n) \<and>
     (\<forall>q x. if length (items q) < limit q
            then fst (xQueueSend api q x) \<and> items (snd (xQueueSend api q x)) = items q @ [x] \<and>
                 limit (snd (xQueueSend api q x)) = limit q
            else xQueueSend api q x = (False, q)) \<and>
     (\<forall>q. items q = [] \<longrightarrow> xQueueReceive api q = (None, q)) \<and>
     (\<forall>q x xs. items q = x # xs \<longrightarrow>
        fst (xQueueReceive api q) = Some x \<and> items (snd (xQueueReceive api q)) = xs \<and>
        limit (snd (xQueueReceive api q)) = limit q) \<and>
     (\<forall>q. uxQueueMessagesWaiting api q = length (items q))"

record 'q slave =
  work_queue :: 'q
  free_queue :: 'q
  tx_msg :: spi_payload
  rx_pool :: "nat \<Rightarrow> spi_payload"
  last_received_id :: u32
  last_completed_id :: u32

subsection \<open>Operations\<close>

partial_function (option) flush_loop :: "'q queue_api \<Rightarrow> 'q \<Rightarrow> 'q \<Rightarrow> ('q \<times> 'q) option" where
  "flush_loop api work free =
     (case xQueueReceive api work of
        (None, work') \<Rightarrow> Some (work', free)
      | (Some payload_ptr, work') \<Rightarrow>
          flush_loop api work' (snd (xQueueSend api free payload_ptr)))"

definition flush_work_queue :: "'q queue_api \<Rightarrow> 'q slave \<Rightarrow> 'q slave option" where
  "flush_work_queue api s =
     (case flush_loop api (work_queue s) (free_queue s) of
        None \<Rightarrow> None
      | Some (work', free') \<Rightarrow>
          Some (s\<lparr>work_queue := work', free_queue := free',
                  last_received_id := 0, last_completed_id := 0\<rparr>))"

definition spi_slave_receive_command :: "'q queue_api \<Rightarrow> 'q slave \<Rightarrow> nat option \<times> 'q slave" where
  "spi_slave_receive_command api s =
     (case xQueueReceive api (work_queue s) of
        (Some p, q') \<Rightarrow> (Some p, s\<lparr>work_queue := q'\<rparr>)
      | (None, q') \<Rightarrow> (None, s\<lparr>work_queue := q'\<rparr>))"

definition spi_slave_acknowledge_done ::
  "'q queue_api \<Rightarrow> nat option \<Rightarrow> 'q slave \<Rightarrow> 'q slave option" where
  \<comment> \<open>the send waits for room (\<open>portMAX_DELAY\<close>): \<open>None\<close> is a call that waits\<close>
  "spi_slave_acknowledge_done api payload s =
     (case payload of
        None \<Rightarrow> Some s
      | Some p \<Rightarrow>
          (let s = s\<lparr>last_completed_id := pl_id (rx_pool s p)\<rparr> in
           case xQueueSend api (free_queue s) p of
             (True, q') \<Rightarrow> Some (s\<lparr>free_queue := q'\<rparr>)
           | (False, _) \<Rightarrow> None))"

definition spi_slave_init :: "'q queue_api \<Rightarrow> 'q slave \<Rightarrow> 'q slave" where
  \<comment> \<open>the queues are created and every buffer of the pool is put in the free queue\<close>
  "spi_slave_init api s =
     s\<lparr>work_queue := xQueueCreate api QUEUE_CAPACITY,
       free_queue := fold (\<lambda>i q. snd (xQueueSend api q i)) [0..<BUFFER_POOL_SIZE]
                       (xQueueCreate api BUFFER_POOL_SIZE)\<rparr>"

definition spi_slave_prepare :: "'q queue_api \<Rightarrow> 'q slave \<Rightarrow> (nat \<times> 'q slave) option" where
  \<comment> \<open>the loop body up to \<open>spi_slave_transmit\<close>; \<open>None\<close>: it waits for a free buffer\<close>
  "spi_slave_prepare api s =
     (let items_in_queue = uxQueueMessagesWaiting api (work_queue s);
          s = s\<lparr>tx_msg := (tx_msg s)\<lparr>
                  pl_rx_free := (if items_in_queue \<ge> QUEUE_CAPACITY then 0
                                 else of_nat (QUEUE_CAPACITY - items_in_queue)),
                  pl_packet_ack := last_received_id s,
                  pl_packet_done := last_completed_id s\<rparr>\<rparr>
      in case xQueueReceive api (free_queue s) of
           (None, _) \<Rightarrow> None
         | (Some current_rx_buf, q') \<Rightarrow> Some (current_rx_buf, s\<lparr>free_queue := q'\<rparr>))"

definition give_back :: "'q queue_api \<Rightarrow> nat \<Rightarrow> 'q slave \<Rightarrow> 'q slave" where
  "give_back api cur s = s\<lparr>free_queue := snd (xQueueSend api (free_queue s) cur)\<rparr>"

definition spi_slave_complete ::
  "'q queue_api \<Rightarrow> bool \<Rightarrow> nat \<Rightarrow> 'q slave \<Rightarrow> 'q slave option" where
  \<comment> \<open>the loop body after \<open>spi_slave_transmit\<close> returned (\<open>ok\<close>: \<open>ESP_OK\<close>)\<close>
  "spi_slave_complete api ok cur s =
     (if ok then
        (let p = rx_pool s cur in
         if pl_type p = 2 then map_option (give_back api cur) (flush_work_queue api s)
         else if pl_type p = 1 \<and> pl_id p = last_received_id s + 1 then
           (case xQueueSend api (work_queue s) cur of
              (True, q') \<Rightarrow> Some (s\<lparr>work_queue := q', last_received_id := pl_id p\<rparr>)
            | (False, q') \<Rightarrow> Some (give_back api cur (s\<lparr>work_queue := q'\<rparr>)))
         else Some (give_back api cur s))
      else Some (give_back api cur s))"

subsection \<open>The slave with its consumer as a step relation\<close>

text \<open>
  \<open>cur\<close> is the buffer of the transfer in progress (the local \<open>current_rx_buf\<close>), \<open>held\<close> the
  buffers the consumer has received and not yet acknowledged.  A transfer leaves any packet in
  the buffer and ends with any status; the task and its consumer interleave between the queue
  operations of the loop.
\<close>

record 'q slave_sys =
  sl :: "'q slave"
  cur :: "nat option"
  held :: "nat list"

inductive slave_step :: "'q queue_api \<Rightarrow> 'q slave_sys \<Rightarrow> 'q slave_sys \<Rightarrow> bool" for api where
  prepare: "cur s = None \<Longrightarrow> spi_slave_prepare api (sl s) = Some (i, t) \<Longrightarrow>
     slave_step api s (s\<lparr>sl := t, cur := Some i\<rparr>)"
| transfer: "cur s = Some i \<Longrightarrow>
     spi_slave_complete api ok i ((sl s)\<lparr>rx_pool := (rx_pool (sl s))(i := p)\<rparr>) = Some t \<Longrightarrow>
     slave_step api s (s\<lparr>sl := t, cur := None\<rparr>)"
| consume: "spi_slave_receive_command api (sl s) = (Some i, t) \<Longrightarrow>
     slave_step api s (s\<lparr>sl := t, held := i # held s\<rparr>)"
| acknowledge: "i \<in> set (held s) \<Longrightarrow> spi_slave_acknowledge_done api (Some i) (sl s) = Some t \<Longrightarrow>
     slave_step api s (s\<lparr>sl := t, held := remove1 i (held s)\<rparr>)"

inductive slave_reachable :: "'q queue_api \<Rightarrow> 'q slave_sys \<Rightarrow> bool" for api where
  start: "last_received_id s = 0 \<Longrightarrow>
     slave_reachable api \<lparr>sl = spi_slave_init api s, cur = None, held = []\<rparr>"
| step: "slave_reachable api s \<Longrightarrow> slave_step api s t \<Longrightarrow> slave_reachable api t"

subsection \<open>Lemmas on the queue interface\<close>

lemma send_room:
  assumes "queue_api_ok api items limit" "length (items q) < limit q"
  shows "\<exists>q'. xQueueSend api q x = (True, q') \<and> items q' = items q @ [x] \<and> limit q' = limit q"
proof -
  from assms have "fst (xQueueSend api q x) \<and> items (snd (xQueueSend api q x)) = items q @ [x] \<and>
      limit (snd (xQueueSend api q x)) = limit q"
    unfolding queue_api_ok_def by presburger
  then show ?thesis by (cases "xQueueSend api q x") simp
qed

lemma send_full:
  "queue_api_ok api items limit \<Longrightarrow> \<not> length (items q) < limit q \<Longrightarrow>
     xQueueSend api q x = (False, q)"
  by (auto simp: queue_api_ok_def split: if_splits)

lemma recv_nil:
  "queue_api_ok api items limit \<Longrightarrow> items q = [] \<Longrightarrow> xQueueReceive api q = (None, q)"
  by (simp add: queue_api_ok_def)

lemma recv_cons:
  assumes "queue_api_ok api items limit" "items q = x # xs"
  shows "\<exists>q'. xQueueReceive api q = (Some x, q') \<and> items q' = xs \<and> limit q' = limit q"
proof -
  from assms have "fst (xQueueReceive api q) = Some x \<and> items (snd (xQueueReceive api q)) = xs \<and>
      limit (snd (xQueueReceive api q)) = limit q"
    unfolding queue_api_ok_def by blast
  then show ?thesis by (cases "xQueueReceive api q") simp
qed

lemma recv_SomeD:
  assumes "queue_api_ok api items limit" "xQueueReceive api q = (Some x, q')"
  shows "items q = x # items q' \<and> limit q' = limit q"
proof (cases "items q")
  case Nil
  with assms recv_nil show ?thesis by fastforce
next
  case (Cons y ys)
  with assms recv_cons [OF assms(1) Cons] show ?thesis by auto
qed

lemma waiting_length:
  "queue_api_ok api items limit \<Longrightarrow> uxQueueMessagesWaiting api q = length (items q)"
  by (simp add: queue_api_ok_def)

lemma fold_send:
  assumes ok: "queue_api_ok api items limit"
  shows "length (items q) + length xs \<le> limit q \<Longrightarrow>
    items (fold (\<lambda>i q. snd (xQueueSend api q i)) xs q) = items q @ xs \<and>
    limit (fold (\<lambda>i q. snd (xQueueSend api q i)) xs q) = limit q"
proof (induction xs arbitrary: q)
  case Nil
  then show ?case by simp
next
  case (Cons x xs)
  from Cons.prems obtain q' where
    "xQueueSend api q x = (True, q')" "items q' = items q @ [x]" "limit q' = limit q"
    using send_room [OF ok, of q x] by auto
  with Cons.IH [of q'] Cons.prems show ?case by simp
qed

lemma flush_loop_returns:
  assumes ok: "queue_api_ok api items limit"
  shows "length (items work) + length (items free) \<le> limit free \<Longrightarrow>
    \<exists>w f. flush_loop api work free = Some (w, f) \<and> items w = [] \<and> limit w = limit work \<and>
      items f = items free @ items work \<and> limit f = limit free"
proof (induction "items work" arbitrary: work free)
  case Nil
  then have "flush_loop api work free = Some (work, free)"
    using recv_nil [OF ok] by (subst flush_loop.simps) simp
  with Nil show ?case by auto
next
  case (Cons x xs)
  from Cons.hyps(2) obtain w' where
    w': "xQueueReceive api work = (Some x, w')" "items w' = xs" "limit w' = limit work"
    using recv_cons [OF ok, of work x xs] by auto
  from Cons.prems Cons.hyps(2) [symmetric] obtain f' where
    f': "xQueueSend api free x = (True, f')" "items f' = items free @ [x]" "limit f' = limit free"
    using send_room [OF ok, of free x] by auto
  from Cons.hyps(1) [of w' f'] w' f' Cons.prems Cons.hyps(2) [symmetric]
  have "\<exists>w f. flush_loop api w' f' = Some (w, f) \<and> items w = [] \<and> limit w = limit work \<and>
      items f = items free @ items work \<and> limit f = limit free"
    by simp
  with w'(1) f'(1) show ?case by (subst flush_loop.simps) simp
qed

subsection \<open>No buffer is lost, and accepted packets are in sequence\<close>

definition cur_list :: "nat option \<Rightarrow> nat list" where
  "cur_list c = (case c of None \<Rightarrow> [] | Some i \<Rightarrow> [i])"

fun ids_upto :: "u32 \<Rightarrow> nat \<Rightarrow> u32 list" where
  \<comment> \<open>the \<open>k\<close> packet numbers that end with \<open>n\<close>\<close>
  "ids_upto n 0 = []"
| "ids_upto n (Suc k) = ids_upto (n - 1) k @ [n]"

lemma length_ids_upto [simp]: "length (ids_upto n k) = k"
  by (induction n k rule: ids_upto.induct) auto

lemma tl_ids_upto: "tl (ids_upto n (Suc k)) = ids_upto n k"
proof (induction k arbitrary: n)
  case 0
  then show ?case by simp
next
  case (Suc k)
  have "tl (ids_upto n (Suc (Suc k))) = tl (ids_upto (n - 1) (Suc k)) @ [n]"
    by (simp add: tl_append split: list.split)
  also have "tl (ids_upto (n - 1) (Suc k)) = ids_upto (n - 1) k"
    by (rule Suc.IH)
  finally show ?case by simp
qed

definition pool_inv :: "('q \<Rightarrow> nat list) \<Rightarrow> ('q \<Rightarrow> nat) \<Rightarrow> 'q slave_sys \<Rightarrow> bool" where
  "pool_inv items limit s \<longleftrightarrow>
     mset (items (free_queue (sl s))) + mset (items (work_queue (sl s))) +
       mset (held s) + mset (cur_list (cur s)) = mset [0..<BUFFER_POOL_SIZE] \<and>
     limit (free_queue (sl s)) = BUFFER_POOL_SIZE \<and>
     limit (work_queue (sl s)) = QUEUE_CAPACITY"

definition seq_inv :: "('q \<Rightarrow> nat list) \<Rightarrow> 'q slave \<Rightarrow> bool" where
  "seq_inv items s \<longleftrightarrow>
     map (\<lambda>i. pl_id (rx_pool s i)) (items (work_queue s)) =
       ids_upto (last_received_id s) (length (items (work_queue s))) \<and>
     (\<forall>i \<in> set (items (work_queue s)). pl_type (rx_pool s i) = 1)"

lemma pool_size:
  assumes "pool_inv items limit s"
  shows "length (items (free_queue (sl s))) + length (items (work_queue (sl s))) +
    length (held s) + length (cur_list (cur s)) = BUFFER_POOL_SIZE"
proof -
  from assms have "size (mset (items (free_queue (sl s))) + mset (items (work_queue (sl s))) +
      mset (held s) + mset (cur_list (cur s))) = size (mset [0..<BUFFER_POOL_SIZE])"
    by (simp only: pool_inv_def)
  then show ?thesis by simp
qed

lemma pool_distinct:
  assumes "pool_inv items limit s"
  shows "distinct (items (free_queue (sl s)) @ items (work_queue (sl s)) @ held s @ cur_list (cur s))"
proof -
  from assms have "mset (items (free_queue (sl s)) @ items (work_queue (sl s)) @ held s @
      cur_list (cur s)) = mset [0..<BUFFER_POOL_SIZE]"
    by (simp add: pool_inv_def add.assoc)
  then show ?thesis by (metis distinct_upt mset_eq_imp_distinct_iff)
qed

lemma cur_room:
  "pool_inv items limit s \<Longrightarrow> cur s = Some i \<Longrightarrow>
     length (items (free_queue (sl s))) + length (items (work_queue (sl s))) < limit (free_queue (sl s))"
  using pool_size [of items limit s] by (simp add: pool_inv_def cur_list_def)

subsection \<open>The steps keep the invariants\<close>

lemma prepare_eq:
  assumes "queue_api_ok api items limit" "spi_slave_prepare api s = Some (i, t)"
  shows "items (free_queue s) = i # items (free_queue t)"
    "limit (free_queue t) = limit (free_queue s)" "work_queue t = work_queue s"
    "rx_pool t = rx_pool s" "last_received_id t = last_received_id s"
    "pl_packet_ack (tx_msg t) = last_received_id s"
    "pl_rx_free (tx_msg t) = of_nat (QUEUE_CAPACITY - length (items (work_queue s)))"
  using assms recv_SomeD [OF assms(1)] waiting_length [OF assms(1)]
  by (auto simp: spi_slave_prepare_def Let_def split: prod.splits option.splits)

lemma receive_eq:
  assumes "queue_api_ok api items limit" "spi_slave_receive_command api s = (Some i, t)"
  shows "items (work_queue s) = i # items (work_queue t)"
    "limit (work_queue t) = limit (work_queue s)" "free_queue t = free_queue s"
    "rx_pool t = rx_pool s" "last_received_id t = last_received_id s" "tx_msg t = tx_msg s"
  using assms recv_SomeD [OF assms(1)]
  by (auto simp: spi_slave_receive_command_def split: prod.splits option.splits)

lemma acknowledge_eq:
  assumes ok: "queue_api_ok api items limit"
    and ack: "spi_slave_acknowledge_done api (Some i) s = Some t"
  shows "items (free_queue t) = items (free_queue s) @ [i]"
    "limit (free_queue t) = limit (free_queue s)" "work_queue t = work_queue s"
    "rx_pool t = rx_pool s" "last_received_id t = last_received_id s" "tx_msg t = tx_msg s"
proof -
  have room: "length (items (free_queue s)) < limit (free_queue s)"
  proof (rule ccontr)
    assume "\<not> ?thesis"
    from send_full [OF ok this, of i] ack show False
      by (simp add: spi_slave_acknowledge_done_def Let_def)
  qed
  from send_room [OF ok room, of i] ack
  show "items (free_queue t) = items (free_queue s) @ [i]"
    "limit (free_queue t) = limit (free_queue s)" "work_queue t = work_queue s"
    "rx_pool t = rx_pool s" "last_received_id t = last_received_id s" "tx_msg t = tx_msg s"
    by (auto simp: spi_slave_acknowledge_done_def Let_def)
qed

lemma give_back_eq:
  assumes "queue_api_ok api items limit" "length (items (free_queue s)) < limit (free_queue s)"
  shows "items (free_queue (give_back api i s)) = items (free_queue s) @ [i]"
    "limit (free_queue (give_back api i s)) = limit (free_queue s)"
  using send_room [OF assms, of i] by (auto simp: give_back_def)

lemma give_back_frame [frame_simps]:
  "work_queue (give_back api i s) = work_queue s"
  "rx_pool (give_back api i s) = rx_pool s"
  "last_received_id (give_back api i s) = last_received_id s"
  "last_completed_id (give_back api i s) = last_completed_id s"
  "tx_msg (give_back api i s) = tx_msg s"
  by (simp_all add: give_back_def)

text \<open>What a finished transfer does, in the three cases of the code: flush, accept, give back.\<close>

definition accepts :: "('q \<Rightarrow> nat list) \<Rightarrow> ('q \<Rightarrow> nat) \<Rightarrow> bool \<Rightarrow> nat \<Rightarrow> 'q slave \<Rightarrow> bool" where
  "accepts items limit ok i s \<longleftrightarrow>
     ok \<and> pl_type (rx_pool s i) = 1 \<and> pl_id (rx_pool s i) = last_received_id s + 1 \<and>
     length (items (work_queue s)) < limit (work_queue s)"

definition flushes :: "bool \<Rightarrow> nat \<Rightarrow> 'q slave \<Rightarrow> bool" where
  "flushes ok i s \<longleftrightarrow> ok \<and> pl_type (rx_pool s i) = 2"

lemma complete_flush:
  assumes ok: "queue_api_ok api items limit" and f: "flushes xok i s"
    and room: "length (items (free_queue s)) + length (items (work_queue s)) < limit (free_queue s)"
  shows "\<exists>t. spi_slave_complete api xok i s = Some t \<and>
    items (free_queue t) = items (free_queue s) @ items (work_queue s) @ [i] \<and>
    limit (free_queue t) = limit (free_queue s) \<and> items (work_queue t) = [] \<and>
    limit (work_queue t) = limit (work_queue s) \<and> rx_pool t = rx_pool s \<and>
    last_received_id t = 0 \<and> last_completed_id t = 0 \<and> tx_msg t = tx_msg s"
proof -
  obtain w f where wf: "flush_loop api (work_queue s) (free_queue s) = Some (w, f)" "items w = []"
    "limit w = limit (work_queue s)" "items f = items (free_queue s) @ items (work_queue s)"
    "limit f = limit (free_queue s)"
    using flush_loop_returns [OF ok, of "work_queue s" "free_queue s"] room by auto
  let ?s' = "s\<lparr>work_queue := w, free_queue := f, last_received_id := 0, last_completed_id := 0\<rparr>"
  have "spi_slave_complete api xok i s = Some (give_back api i ?s')"
    using f wf(1) by (simp add: spi_slave_complete_def flush_work_queue_def flushes_def Let_def)
  moreover have "length (items (free_queue ?s')) < limit (free_queue ?s')"
    using wf room by simp
  from give_back_eq [OF ok this, of i] have
    "items (free_queue (give_back api i ?s')) = items (free_queue s) @ items (work_queue s) @ [i]"
    "limit (free_queue (give_back api i ?s')) = limit (free_queue s)"
    using wf by simp_all
  ultimately show ?thesis using wf by (simp add: frame_simps)
qed

lemma complete_accept:
  assumes ok: "queue_api_ok api items limit" and a: "accepts items limit xok i s"
  shows "\<exists>t. spi_slave_complete api xok i s = Some t \<and>
    items (work_queue t) = items (work_queue s) @ [i] \<and>
    limit (work_queue t) = limit (work_queue s) \<and> free_queue t = free_queue s \<and>
    rx_pool t = rx_pool s \<and> last_received_id t = last_received_id s + 1 \<and> tx_msg t = tx_msg s"
proof -
  from a obtain q' where "xQueueSend api (work_queue s) i = (True, q')"
    "items q' = items (work_queue s) @ [i]" "limit q' = limit (work_queue s)"
    using send_room [OF ok, of "work_queue s" i] by (auto simp: accepts_def)
  with a show ?thesis by (simp add: spi_slave_complete_def accepts_def Let_def)
qed

lemma complete_reject:
  assumes ok: "queue_api_ok api items limit"
    and no: "\<not> flushes xok i s" "\<not> accepts items limit xok i s"
  shows "spi_slave_complete api xok i s = Some (give_back api i s)"
proof (cases "xok \<and> pl_type (rx_pool s i) = 1 \<and> pl_id (rx_pool s i) = last_received_id s + 1")
  case True
  with no(2) have "\<not> length (items (work_queue s)) < limit (work_queue s)"
    by (simp add: accepts_def)
  from send_full [OF ok this, of i] True show ?thesis
    by (simp add: spi_slave_complete_def Let_def)
next
  case False
  with no(1) show ?thesis by (auto simp: spi_slave_complete_def flushes_def Let_def)
qed

definition slave_inv :: "('q \<Rightarrow> nat list) \<Rightarrow> ('q \<Rightarrow> nat) \<Rightarrow> 'q slave_sys \<Rightarrow> bool" where
  "slave_inv items limit s \<longleftrightarrow> pool_inv items limit s \<and> seq_inv items (sl s)"

lemma cur_notin_work:
  "pool_inv items limit s \<Longrightarrow> cur s = Some i \<Longrightarrow> i \<notin> set (items (work_queue (sl s)))"
  using pool_distinct [of items limit s] by (auto simp: cur_list_def)

lemma seq_inv_agree:
  assumes "items (work_queue t) = items (work_queue s)"
    and "last_received_id t = last_received_id s"
    and agree: "\<And>i. i \<in> set (items (work_queue s)) \<Longrightarrow> rx_pool t i = rx_pool s i"
  shows "seq_inv items t \<longleftrightarrow> seq_inv items s"
proof -
  have m: "map (\<lambda>i. pl_id (rx_pool t i)) (items (work_queue s)) =
      map (\<lambda>i. pl_id (rx_pool s i)) (items (work_queue s))"
    by (rule map_cong [OF refl]) (simp add: agree)
  have a: "(\<forall>i \<in> set (items (work_queue s)). pl_type (rx_pool t i) = 1) \<longleftrightarrow>
      (\<forall>i \<in> set (items (work_queue s)). pl_type (rx_pool s i) = 1)"
    by (rule ball_cong [OF refl]) (simp add: agree)
  show ?thesis unfolding seq_inv_def assms(1,2) m a ..
qed

lemma seq_inv_pool_upd:
  "i \<notin> set (items (work_queue s)) \<Longrightarrow>
     seq_inv items (s\<lparr>rx_pool := (rx_pool s)(i := p)\<rparr>) \<longleftrightarrow> seq_inv items s"
  by (rule seq_inv_agree) auto

lemma seq_inv_cong:
  "items (work_queue t) = items (work_queue s) \<Longrightarrow> rx_pool t = rx_pool s \<Longrightarrow>
     last_received_id t = last_received_id s \<Longrightarrow> seq_inv items t \<longleftrightarrow> seq_inv items s"
  by (rule seq_inv_agree) simp_all

lemma seq_inv_tl:
  assumes "seq_inv items s" "items (work_queue s) = i # items (work_queue t)"
    "rx_pool t = rx_pool s" "last_received_id t = last_received_id s"
  shows "seq_inv items t"
proof -
  have "map (\<lambda>j. pl_id (rx_pool s j)) (items (work_queue t)) =
      tl (map (\<lambda>j. pl_id (rx_pool s j)) (items (work_queue s)))"
    by (simp add: assms(2))
  also have "\<dots> = tl (ids_upto (last_received_id s) (Suc (length (items (work_queue t)))))"
    using assms(1,2) by (simp add: seq_inv_def del: ids_upto.simps)
  finally show ?thesis
    using assms by (simp add: seq_inv_def tl_ids_upto del: ids_upto.simps)
qed

lemma transfer_inv:
  fixes s :: "'q slave_sys"
  assumes ok: "queue_api_ok api items limit" and inv: "slave_inv items limit s"
    and c: "cur s = Some i"
  shows "\<exists>t. spi_slave_complete api xok i ((sl s)\<lparr>rx_pool := (rx_pool (sl s))(i := p)\<rparr>) = Some t \<and>
    slave_inv items limit (s\<lparr>sl := t, cur := None\<rparr>)"
proof -
  let ?s = "(sl s)\<lparr>rx_pool := (rx_pool (sl s))(i := p)\<rparr>"
  have pool: "pool_inv items limit s" and sq: "seq_inv items ?s"
    using inv cur_notin_work [OF _ c] by (auto simp: slave_inv_def seq_inv_pool_upd)
  have room: "length (items (free_queue ?s)) + length (items (work_queue ?s)) < limit (free_queue ?s)"
    using cur_room [OF pool c] by simp
  consider (flush) "flushes xok i ?s" | (accept) "accepts items limit xok i ?s"
    | (reject) "\<not> flushes xok i ?s" "\<not> accepts items limit xok i ?s" by blast
  then show ?thesis
  proof cases
    case flush
    from complete_flush [OF ok flush room] obtain t where t:
      "spi_slave_complete api xok i ?s = Some t"
      "items (free_queue t) = items (free_queue ?s) @ items (work_queue ?s) @ [i]"
      "limit (free_queue t) = limit (free_queue ?s)" "items (work_queue t) = []"
      "limit (work_queue t) = limit (work_queue ?s)" by blast
    with pool c show ?thesis
      by (intro exI [of _ t]) (simp add: slave_inv_def pool_inv_def seq_inv_def cur_list_def ac_simps)
  next
    case accept
    from complete_accept [OF ok accept] obtain t where t:
      "spi_slave_complete api xok i ?s = Some t"
      "items (work_queue t) = items (work_queue ?s) @ [i]"
      "limit (work_queue t) = limit (work_queue ?s)" "free_queue t = free_queue ?s"
      "rx_pool t = rx_pool ?s" "last_received_id t = last_received_id ?s + 1" by blast
    have "seq_inv items t" using sq accept t by (auto simp: seq_inv_def accepts_def)
    with t pool c show ?thesis
      by (intro exI [of _ t]) (simp add: slave_inv_def pool_inv_def cur_list_def ac_simps)
  next
    case reject
    let ?t = "give_back api i ?s"
    have "seq_inv items ?t"
      using sq seq_inv_cong [of items ?t ?s] by (simp add: frame_simps)
    moreover have "items (free_queue ?t) = items (free_queue (sl s)) @ [i]"
      "limit (free_queue ?t) = limit (free_queue (sl s))" "work_queue ?t = work_queue (sl s)"
      using give_back_eq [OF ok, of ?s i] room by (simp_all add: frame_simps)
    ultimately have "slave_inv items limit (s\<lparr>sl := ?t, cur := None\<rparr>)"
      using pool c by (simp add: slave_inv_def pool_inv_def cur_list_def ac_simps)
    with complete_reject [OF ok reject] show ?thesis by blast
  qed
qed

lemma slave_step_inv:
  assumes ok: "queue_api_ok api items limit" and "slave_step api s t" "slave_inv items limit s"
  shows "slave_inv items limit t"
  using assms(2,3)
proof (induction rule: slave_step.induct)
  case (prepare s i t)
  from prepare.prems prepare.hyps(1) prepare_eq [OF ok prepare.hyps(2)] show ?case
    by (auto simp: slave_inv_def pool_inv_def cur_list_def seq_inv_def ac_simps)
next
  case (transfer s i xok p t)
  with transfer_inv [OF ok transfer.prems transfer.hyps(1), of xok p] show ?case by simp
next
  case (consume s i t)
  note e = receive_eq [OF ok consume.hyps]
  have "seq_inv items t"
    using consume.prems seq_inv_tl [OF _ e(1) e(4,5)] by (simp add: slave_inv_def)
  with consume.prems e show ?case by (auto simp: slave_inv_def pool_inv_def ac_simps)
next
  case (acknowledge i s t)
  note e = acknowledge_eq [OF ok acknowledge.hyps(2)]
  from acknowledge.hyps(1) obtain N where
    N: "mset (held s) = add_mset i N" "mset (remove1 i (held s)) = N"
    by (metis add_mset_remove_trivial insert_DiffM mset_remove1 set_mset_mset)
  have "seq_inv items t"
    using acknowledge.prems seq_inv_cong [of items t "sl s"] e by (simp add: slave_inv_def)
  with acknowledge.prems e(1-3) N show ?case
    by (simp add: slave_inv_def pool_inv_def del: mset_remove1)
qed

lemma slave_reachable_inv:
  assumes ok: "queue_api_ok api items limit" and "slave_reachable api s"
  shows "slave_inv items limit s"
  using assms(2)
proof (induction rule: slave_reachable.induct)
  case (start s)
  let ?e = "xQueueCreate api BUFFER_POOL_SIZE"
  have e: "items (xQueueCreate api n) = []" "limit (xQueueCreate api n) = n" for n
    using ok by (simp_all add: queue_api_ok_def)
  have "items (free_queue (spi_slave_init api s)) = [0..<BUFFER_POOL_SIZE]"
    "limit (free_queue (spi_slave_init api s)) = BUFFER_POOL_SIZE"
    using fold_send [OF ok, of ?e "[0..<BUFFER_POOL_SIZE]"] e by (simp_all add: spi_slave_init_def)
  with e start show ?case
    by (simp add: slave_inv_def pool_inv_def seq_inv_def cur_list_def spi_slave_init_def)
next
  case (step s t)
  then show ?case using slave_step_inv [OF ok] by blast
qed

subsection \<open>Properties\<close>

lemma acknowledge_returns:
  assumes ok: "queue_api_ok api items limit" and inv: "slave_inv items limit s"
    and i: "i \<in> set (held s)"
  shows "\<exists>t. spi_slave_acknowledge_done api (Some i) (sl s) = Some t"
proof -
  from i have "1 \<le> length (held s)" by (cases "held s") auto
  moreover from inv have "pool_inv items limit s" by (simp add: slave_inv_def)
  ultimately have "length (items (free_queue (sl s))) < BUFFER_POOL_SIZE"
    using pool_size [of items limit s] by linarith
  with inv have "length (items (free_queue (sl s))) < limit (free_queue (sl s))"
    by (simp add: slave_inv_def pool_inv_def)
  from send_room [OF ok this, of i] show ?thesis
    by (auto simp: spi_slave_acknowledge_done_def Let_def)
qed

text \<open>
  C3. No receive buffer is ever lost or handed out twice: in every reachable state the free
  queue, the work queue, the buffers the consumer holds and the transfer in progress together
  hold each of the twelve pool buffers exactly once.  An acknowledgement of a held buffer
  therefore never waits, and a transfer that ends is always processed (the flush loop
  terminates).
\<close>

theorem slave_buffers_conserved:
  assumes "queue_api_ok api items limit" and "slave_reachable api s"
  shows "mset (items (free_queue (sl s)) @ items (work_queue (sl s)) @ held s @ cur_list (cur s)) =
      mset [0..<BUFFER_POOL_SIZE] \<and>
    (\<forall>i \<in> set (held s). \<exists>t. spi_slave_acknowledge_done api (Some i) (sl s) = Some t) \<and>
    (\<forall>i xok p. cur s = Some i \<longrightarrow>
       (\<exists>t. spi_slave_complete api xok i ((sl s)\<lparr>rx_pool := (rx_pool (sl s))(i := p)\<rparr>) = Some t))"
proof (intro conjI ballI allI impI)
  have inv: "slave_inv items limit s" using assms by (rule slave_reachable_inv)
  then show "mset (items (free_queue (sl s)) @ items (work_queue (sl s)) @ held s @
      cur_list (cur s)) = mset [0..<BUFFER_POOL_SIZE]"
    by (simp add: slave_inv_def pool_inv_def add.assoc)
  show "\<exists>t. spi_slave_acknowledge_done api (Some i) (sl s) = Some t" if "i \<in> set (held s)" for i
    using assms(1) inv that by (rule acknowledge_returns)
  show "\<exists>t. spi_slave_complete api xok i ((sl s)\<lparr>rx_pool := (rx_pool (sl s))(i := p)\<rparr>) = Some t"
    if "cur s = Some i" for i xok p
    using transfer_inv [OF assms(1) inv that, of xok p] by blast
qed

text \<open>
  C4. The work queue is always in sequence: in every reachable state it holds packets of type 1
  only, with consecutive numbers that end with \<open>last_received_id\<close>; so no packet is accepted
  twice and none is skipped between two flushes, whatever the transfers deliver.
\<close>

theorem slave_work_in_sequence:
  assumes "queue_api_ok api items limit" and "slave_reachable api s"
  shows "map (\<lambda>i. pl_id (rx_pool (sl s) i)) (items (work_queue (sl s))) =
      ids_upto (last_received_id (sl s)) (length (items (work_queue (sl s)))) \<and>
    (\<forall>i \<in> set (items (work_queue (sl s))). pl_type (rx_pool (sl s) i) = 1)"
  using slave_reachable_inv [OF assms] by (simp add: slave_inv_def seq_inv_def)

text \<open>A concrete queue, for the witnesses: a capacity and a list.\<close>

definition list_queue_api :: "(nat \<times> nat list) queue_api" where
  "list_queue_api = \<lparr>xQueueCreate = (\<lambda>n. (n, [])),
     xQueueSend = (\<lambda>q x. if length (snd q) < fst q then (True, (fst q, snd q @ [x])) else (False, q)),
     xQueueReceive = (\<lambda>q. case snd q of [] \<Rightarrow> (None, q) | x # xs \<Rightarrow> (Some x, (fst q, xs))),
     uxQueueMessagesWaiting = (\<lambda>q. length (snd q))\<rparr>"

lemma list_queue_api_ok: "queue_api_ok list_queue_api snd fst"
  by (auto simp: queue_api_ok_def list_queue_api_def)

definition zero_payload :: spi_payload where
  "zero_payload = \<lparr>pl_id = 0, pl_type = 0, pl_packet_ack = 0, pl_packet_done = 0,
     pl_rx_free = 0, pl_data = replicate 64 0\<rparr>"

definition slave0 :: "(nat \<times> nat list) slave" where
  "slave0 = \<lparr>work_queue = (0, []), free_queue = (0, []), tx_msg = zero_payload,
     rx_pool = (\<lambda>_. zero_payload), last_received_id = 0, last_completed_id = 0\<rparr>"

definition slave1 :: "(nat \<times> nat list) slave_sys" where
  \<comment> \<open>after start-up, one transfer that delivers packet 1, and the next buffer taken\<close>
  "slave1 = \<lparr>sl = \<lparr>work_queue = (10, [0]), free_queue = (12, [2, 3, 4, 5, 6, 7, 8, 9, 10, 11]),
        tx_msg = zero_payload\<lparr>pl_packet_ack := 1, pl_rx_free := 9\<rparr>,
        rx_pool = (\<lambda>_. zero_payload)(0 := zero_payload\<lparr>pl_id := 1, pl_type := 1\<rparr>),
        last_received_id = 1, last_completed_id = 0\<rparr>, cur = Some 1, held = []\<rparr>"

lemma slave1_reachable: "slave_reachable list_queue_api slave1"
proof -
  let ?i = "slave0\<lparr>work_queue := (10, []),
      free_queue := (12, [0, 1, 2, 3, 4, 5, 6, 7, 8, 9, 10, 11])\<rparr>"
  let ?s = "\<lparr>sl = ?i, cur = None, held = []\<rparr>"
  let ?t = "?s\<lparr>sl := (sl ?s)\<lparr>free_queue := (12, [1, 2, 3, 4, 5, 6, 7, 8, 9, 10, 11]),
      tx_msg := zero_payload\<lparr>pl_rx_free := 10\<rparr>\<rparr>, cur := Some 0\<rparr>"
  let ?p = "zero_payload\<lparr>pl_id := 1, pl_type := 1\<rparr>"
  let ?u = "?t\<lparr>sl := (sl ?t)\<lparr>rx_pool := (rx_pool (sl ?t))(0 := ?p), work_queue := (10, [0]),
      last_received_id := 1\<rparr>, cur := None\<rparr>"
  have init: "spi_slave_init list_queue_api slave0 = ?i"
    by (simp add: spi_slave_init_def list_queue_api_def BUFFER_POOL_SIZE_def QUEUE_CAPACITY_def
        upt_conv_Cons)
  have 0: "slave_reachable list_queue_api ?s"
    using slave_reachable.start [of slave0 list_queue_api] init by (simp add: slave0_def)
  have 1: "slave_step list_queue_api ?s ?t"
    using slave_step.prepare [of ?s list_queue_api 0 "sl ?t"]
    by (simp add: spi_slave_prepare_def list_queue_api_def slave0_def Let_def zero_payload_def
        QUEUE_CAPACITY_def)
  have 2: "slave_step list_queue_api ?t ?u"
    using slave_step.transfer [of ?t 0 list_queue_api True ?p "sl ?u"]
    by (simp add: spi_slave_complete_def list_queue_api_def slave0_def Let_def zero_payload_def)
  have 3: "slave_step list_queue_api ?u slave1"
    using slave_step.prepare [of ?u list_queue_api 1 "sl slave1"]
    by (simp add: spi_slave_prepare_def list_queue_api_def slave0_def slave1_def Let_def
        zero_payload_def QUEUE_CAPACITY_def)
  from 0 1 2 3 show ?thesis by (blast intro: slave_reachable.step)
qed

theorem slave_buffers_conserved_witness:
  "slave_reachable list_queue_api slave1 \<and>
   mset ([2, 3, 4, 5, 6, 7, 8, 9, 10, 11] @ [0] @ [] @ [1]) = mset [0..<BUFFER_POOL_SIZE]"
  using slave_buffers_conserved [OF list_queue_api_ok slave1_reachable] slave1_reachable
  by (simp add: slave1_def cur_list_def)

theorem slave_work_in_sequence_witness:
  "map (\<lambda>i. pl_id (rx_pool (sl slave1) i)) [0] = ids_upto 1 1"
  using slave_work_in_sequence [OF list_queue_api_ok slave1_reachable]
  by (simp add: slave1_def)

end
