(* ===== verification/SpiLink.thy ===== *)
theory SpiLink
  imports SpiSlave
begin

text \<open>
  \<open>main/rahman/spi/spi_m.c\<close>, the SPI master that sends one line at a time and waits for its
  acknowledgement, and the link it forms with the slave of theory \<open>SpiSlave\<close>.  The line source
  (\<open>nextLine\<close>, \<open>line\<close>, \<open>check_flush_condition\<close>) is declared in \<open>spi_c.h\<close> and defined
  outside the repository: it is the argument \<open>la\<close>.
\<close>

subsection \<open>The master\<close>

record 'l line_api =
  nextLine :: "u8 list \<Rightarrow> 'l \<Rightarrow> u8 list \<times> 'l"
  current_line :: "u8 list \<Rightarrow> 'l \<Rightarrow> u8 list \<times> 'l"
  check_flush_condition :: "'l \<Rightarrow> bool \<times> 'l"

record 'l master =
  mtx :: spi_payload
  mrx :: spi_payload
  expected_ack :: u32
  slave_free_slots :: u8
  fetch_new_line :: bool
  lines :: 'l

definition spi_master_init :: "'l \<Rightarrow> 'l master" where
  "spi_master_init l = \<lparr>mtx = zero_payload, mrx = zero_payload, expected_ack = 1,
     slave_free_slots = 0, fetch_new_line = True, lines = l\<rparr>"

definition spi_master_prepare :: "'l line_api \<Rightarrow> 'l master \<Rightarrow> bool \<times> 'l master" where
  \<comment> \<open>the loop body up to \<open>spi_device_transmit\<close>; the flag says that it is the flush branch\<close>
  "spi_master_prepare la m =
     (case check_flush_condition la (lines m) of
        (True, l) \<Rightarrow>
          (True, m\<lparr>lines := l,
             mtx := (mtx m)\<lparr>pl_id := 0, pl_type := 2, pl_data := replicate 64 0\<rparr>\<rparr>)
      | (False, l) \<Rightarrow>
          (let m = m\<lparr>lines := l\<rparr>;
               m = (if fetch_new_line m
                    then (case nextLine la (pl_data (mtx m)) (lines m) of (d, l) \<Rightarrow>
                           m\<lparr>lines := l,
                             mtx := (mtx m)\<lparr>pl_id := expected_ack m, pl_type := 1, pl_data := d\<rparr>\<rparr>)
                    else (case current_line la (pl_data (mtx m)) (lines m) of (d, l) \<Rightarrow>
                           m\<lparr>lines := l, mtx := (mtx m)\<lparr>pl_data := d\<rparr>\<rparr>));
               m = (if slave_free_slots m = 0 \<and> expected_ack m > 1
                    then m\<lparr>mtx := (mtx m)\<lparr>pl_type := 0, pl_data := replicate 64 0\<rparr>\<rparr> else m)
           in (False, m)))"

definition spi_master_complete :: "bool \<Rightarrow> bool \<Rightarrow> spi_payload \<Rightarrow> 'l master \<Rightarrow> 'l master" where
  \<comment> \<open>the loop body after the transfer; \<open>rx\<close> is what the transfer left in \<open>rx_msg\<close>\<close>
  "spi_master_complete flush ok rx m =
     (let m = m\<lparr>mrx := rx\<rparr> in
      if flush then (if ok then m\<lparr>expected_ack := 1, fetch_new_line := True\<rparr> else m)
      else if ok then
        (let m = m\<lparr>slave_free_slots := pl_rx_free (mrx m)\<rparr> in
         if pl_type (mtx m) = 0 then m
         else if pl_packet_ack (mrx m) = expected_ack m
         then m\<lparr>expected_ack := expected_ack m + 1, fetch_new_line := True\<rparr>
         else m\<lparr>fetch_new_line := False\<rparr>)
      else m\<lparr>fetch_new_line := False\<rparr>)"

definition spi_master_iter :: "'l line_api \<Rightarrow> bool \<Rightarrow> spi_payload \<Rightarrow> 'l master \<Rightarrow> 'l master" where
  "spi_master_iter la ok rx m =
     (case spi_master_prepare la m of (flush, m') \<Rightarrow> spi_master_complete flush ok rx m')"

subsection \<open>The link\<close>





subsection \<open>The slave's part of a link is a run of the slave\<close>




subsection \<open>The two sides stay in step\<close>










subsection \<open>Properties\<close>


definition counter_lines :: "nat line_api" where
  \<comment> \<open>a line source for the witnesses: line \<open>n\<close> is 64 bytes \<open>n\<close>\<close>
  "counter_lines = \<lparr>nextLine = (\<lambda>_ l. (replicate 64 (of_nat (l + 1)), l + 1)),
     current_line = (\<lambda>_ l. (replicate 64 (of_nat l), l)),
     check_flush_condition = (\<lambda>l. (False, l))\<rparr>"



















text \<open>
  A status poll throws a line away.  When the slave reported no free slot and the previous
  line was acknowledged, the loop fetches the next line, replaces it by an all-zero packet of
  type 0 and, after the transfer, still asks for a new line: the fetched line is never sent, the
  line source has moved on, and the packet number has not.
\<close>

theorem status_poll_drops_line:
  assumes "\<not> fst (check_flush_condition la (lines m))"
    and "fetch_new_line m" and "slave_free_slots m = 0" and "expected_ack m > 1"
  shows "\<exists>m'. spi_master_iter la True rx m = m' \<and>
    lines m' = snd (nextLine la (pl_data (mtx m)) (snd (check_flush_condition la (lines m)))) \<and>
    pl_type (mtx m') = 0 \<and> pl_data (mtx m') = replicate 64 0 \<and>
    fetch_new_line m' \<and> expected_ack m' = expected_ack m"
  using assms
  by (cases "check_flush_condition la (lines m)")
    (simp add: spi_master_iter_def spi_master_prepare_def spi_master_complete_def Let_def
      split: prod.split)

definition master_full :: "nat master" where
  "master_full = (spi_master_init 7)\<lparr>expected_ack := 8\<rparr>"

theorem status_poll_drops_line_witness:
  "lines master_full = 7 \<and>
   lines (spi_master_iter counter_lines True zero_payload master_full) = 8 \<and>
   pl_type (mtx (spi_master_iter counter_lines True zero_payload master_full)) = 0"
proof -
  have m: "\<not> fst (check_flush_condition counter_lines (lines master_full))"
    "fetch_new_line master_full" "slave_free_slots master_full = 0" "expected_ack master_full > 1"
    by (simp_all add: master_full_def spi_master_init_def counter_lines_def)
  show ?thesis
    using status_poll_drops_line [OF m, of zero_payload]
    by (simp add: master_full_def spi_master_init_def counter_lines_def)
qed

end
