(* ===== verification/StreamRing.thy ===== *)
theory StreamRing
  imports FifoSpec
begin

text \<open>
  The receive ring that every input stream of the driver keeps (\<open>stream_rx_buffer_t\<close>), with the
  code that the serial drivers repeat on it: the store at the end of the receive interrupt, the
  read, the counts, the flush and the cancel.  The type, its size \<open>RX_BUFFER_SIZE\<close> and the
  macro \<open>BUFCOUNT\<close> are declared in the grbl core, outside the repository: the record has the
  fields that the drivers touch (\<open>rb_rest\<close> stands for the others), the size is the argument
  \<open>N\<close> and \<open>BUFCOUNT\<close> the argument \<open>bufcount\<close> with \<open>bufcount_ok\<close> as its documented meaning.
  A byte read back is not sign extended, since \<open>char\<close> is unsigned on the Xtensa target.
\<close>

record 'b rx_buffer =
  rb_head :: u16
  rb_tail :: u16
  rb_overflow :: bool
  rb_data :: "u8 list"
  rb_rest :: 'b

subsection \<open>Operations\<close>

definition ring_mask :: "nat \<Rightarrow> u16" where
  "ring_mask N = of_nat N - 1"

definition ring_put :: "nat \<Rightarrow> u8 \<Rightarrow> 'b rx_buffer \<Rightarrow> 'b rx_buffer" where
  "ring_put N c rb =
     (let bptr = (rb_head rb + 1) AND ring_mask N in
      if bptr = rb_tail rb then rb\<lparr>rb_overflow := True\<rparr>
      else rb\<lparr>rb_data := (rb_data rb)[unat (rb_head rb) := c], rb_head := bptr\<rparr>)"

definition ring_read :: "nat \<Rightarrow> 'b rx_buffer \<Rightarrow> int \<times> 'b rx_buffer" where
  "ring_read N rb =
     (let bptr = rb_tail rb in
      if bptr = rb_head rb then (- 1, rb)
      else (int (unat (rb_data rb ! unat bptr)), rb\<lparr>rb_tail := (bptr + 1) AND ring_mask N\<rparr>))"

definition ring_available :: "(nat \<Rightarrow> nat \<Rightarrow> nat \<Rightarrow> nat) \<Rightarrow> nat \<Rightarrow> 'b rx_buffer \<Rightarrow> u16" where
  "ring_available bufcount N rb = of_nat (bufcount (unat (rb_head rb)) (unat (rb_tail rb)) N)"

definition ring_rx_free :: "(nat \<Rightarrow> nat \<Rightarrow> nat \<Rightarrow> nat) \<Rightarrow> nat \<Rightarrow> 'b rx_buffer \<Rightarrow> u16" where
  "ring_rx_free bufcount N rb =
     (of_nat N - 1) - of_nat (bufcount (unat (rb_head rb)) (unat (rb_tail rb)) N)"

definition ring_flush :: "'b rx_buffer \<Rightarrow> 'b rx_buffer" where
  "ring_flush rb = rb\<lparr>rb_tail := rb_head rb, rb_overflow := False\<rparr>"

definition ring_resync :: "'b rx_buffer \<Rightarrow> 'b rx_buffer" where
  "ring_resync rb = rb\<lparr>rb_tail := rb_head rb\<rparr>"

text \<open>The three statements of the cancel operation, which an interrupt can separate.\<close>

definition cancel_mark :: "u8 \<Rightarrow> 'b rx_buffer \<Rightarrow> 'b rx_buffer" where
  "cancel_mark can rb = rb\<lparr>rb_data := (rb_data rb)[unat (rb_head rb) := can]\<rparr>"

definition cancel_tail :: "'b rx_buffer \<Rightarrow> 'b rx_buffer" where
  "cancel_tail rb = rb\<lparr>rb_tail := rb_head rb\<rparr>"

definition cancel_head :: "nat \<Rightarrow> 'b rx_buffer \<Rightarrow> 'b rx_buffer" where
  "cancel_head N rb = rb\<lparr>rb_head := (rb_tail rb + 1) AND ring_mask N\<rparr>"

definition ring_cancel :: "nat \<Rightarrow> u8 \<Rightarrow> 'b rx_buffer \<Rightarrow> 'b rx_buffer" where
  "ring_cancel N can rb = cancel_head N (cancel_tail (cancel_mark can rb))"

subsection \<open>Invariant and contents\<close>

definition ring_size_ok :: "nat \<Rightarrow> bool" where
  \<comment> \<open>the buffer size is a power of two that fits the 16-bit indices\<close>
  "ring_size_ok N \<longleftrightarrow> N \<in> {2, 4, 8, 16, 32, 64, 128, 256, 512, 1024, 2048, 4096, 8192, 16384, 32768}"

definition bufcount_ok :: "(nat \<Rightarrow> nat \<Rightarrow> nat \<Rightarrow> nat) \<Rightarrow> bool" where
  "bufcount_ok bufcount \<longleftrightarrow>
     (\<forall>h t n. h < n \<longrightarrow> t < n \<longrightarrow> bufcount h t n = (if t \<le> h then h - t else n - t + h))"

definition ring_inv :: "nat \<Rightarrow> 'b rx_buffer \<Rightarrow> bool" where
  "ring_inv N rb \<longleftrightarrow>
     ring_size_ok N \<and> length (rb_data rb) = N \<and> unat (rb_head rb) < N \<and> unat (rb_tail rb) < N"

definition ring_count :: "nat \<Rightarrow> 'b rx_buffer \<Rightarrow> nat" where
  "ring_count N rb = (unat (rb_head rb) + N - unat (rb_tail rb)) mod N"

definition ring_contents :: "nat \<Rightarrow> 'b rx_buffer \<Rightarrow> u8 list" where
  "ring_contents N rb = ring_slice (rb_data rb) (unat (rb_tail rb)) (ring_count N rb)"

subsection \<open>Index arithmetic\<close>

lemma ring_size_okE:
  assumes "ring_size_ok N" obtains k where "N = 2 ^ k" "1 \<le> k" "k \<le> 15"
proof -
  have "N = 2 ^ 1 \<or> N = 2 ^ 2 \<or> N = 2 ^ 3 \<or> N = 2 ^ 4 \<or> N = 2 ^ 5 \<or> N = 2 ^ 6 \<or> N = 2 ^ 7 \<or>
      N = 2 ^ 8 \<or> N = 2 ^ 9 \<or> N = 2 ^ 10 \<or> N = 2 ^ 11 \<or> N = 2 ^ 12 \<or> N = 2 ^ 13 \<or>
      N = 2 ^ 14 \<or> N = 2 ^ 15"
    using assms by (simp add: ring_size_ok_def)
  then show thesis by (elim disjE) (erule that; simp)+
qed

lemma ring_size_bounds: "ring_size_ok N \<Longrightarrow> 2 \<le> N \<and> N \<le> 32768"
  by (auto simp: ring_size_ok_def)

lemma unat_ring_next:
  assumes "ring_size_ok N"
  shows "unat ((p + 1) AND ring_mask N :: u16) = (unat p + 1) mod N"
proof -
  from assms obtain k where k: "N = 2 ^ k" "k \<le> 15" by (rule ring_size_okE)
  have "N dvd 2 ^ 16" unfolding k(1) by (rule le_imp_power_dvd) (use k(2) in simp)
  have "unat ((p + 1) AND ring_mask N) = unat (p + 1) mod N"
    using unat_and_mask [of "p + 1" k] k(1) by (simp add: ring_mask_def)
  also have "unat (p + 1) = (unat p + 1) mod 2 ^ 16"
    by (simp add: unat_word_ariths)
  finally show ?thesis using \<open>N dvd 2 ^ 16\<close> by (simp add: mod_mod_cancel)
qed

lemma ring_next_lt:
  "ring_size_ok N \<Longrightarrow> unat ((p + 1) AND ring_mask N :: u16) < N"
  using ring_size_bounds [of N] by (simp add: unat_ring_next)

lemma ring_count_lt: "ring_inv N rb \<Longrightarrow> ring_count N rb < N"
  using ring_size_bounds [of N] by (simp add: ring_inv_def ring_count_def)

lemma ring_count_up:
  assumes "ring_inv N rb" "unat (rb_tail rb) \<le> unat (rb_head rb)"
  shows "ring_count N rb = unat (rb_head rb) - unat (rb_tail rb)"
proof -
  have "unat (rb_head rb) + N - unat (rb_tail rb) = (unat (rb_head rb) - unat (rb_tail rb)) + N"
    using assms(2) by simp
  then have "ring_count N rb = (unat (rb_head rb) - unat (rb_tail rb)) mod N"
    by (simp only: ring_count_def mod_add_self2)
  moreover have "unat (rb_head rb) - unat (rb_tail rb) < N"
    using assms(1) unfolding ring_inv_def by linarith
  ultimately show ?thesis by (metis mod_less)
qed

lemma ring_count_wrap:
  assumes "ring_inv N rb" "\<not> unat (rb_tail rb) \<le> unat (rb_head rb)"
  shows "ring_count N rb = N + unat (rb_head rb) - unat (rb_tail rb)"
proof -
  have "N + unat (rb_head rb) - unat (rb_tail rb) < N"
    using assms unfolding ring_inv_def by linarith
  then show ?thesis by (simp add: ring_count_def add.commute)
qed

lemma ring_count_0_iff:
  assumes "ring_inv N rb" shows "ring_count N rb = 0 \<longleftrightarrow> rb_tail rb = rb_head rb"
proof -
  let ?h = "unat (rb_head rb)" and ?t = "unat (rb_tail rb)"
  have lt: "?h < N" "?t < N" using assms by (auto simp: ring_inv_def)
  show ?thesis
  proof (cases "?t \<le> ?h")
    case True
    with assms have "ring_count N rb = ?h - ?t" by (rule ring_count_up)
    with True show ?thesis by (auto simp: word_unat_eq_iff)
  next
    case False
    with assms have "ring_count N rb = N + ?h - ?t" by (rule ring_count_wrap)
    with False lt show ?thesis by auto
  qed
qed

lemma ring_head_index:
  assumes "ring_inv N rb"
  shows "(unat (rb_tail rb) + ring_count N rb) mod N = unat (rb_head rb)"
proof -
  have lt: "unat (rb_head rb) < N" "unat (rb_tail rb) < N" using assms by (auto simp: ring_inv_def)
  have "(unat (rb_tail rb) + ring_count N rb) mod N =
      (unat (rb_tail rb) + (unat (rb_head rb) + N - unat (rb_tail rb))) mod N"
    by (simp add: ring_count_def mod_simps)
  also have "unat (rb_tail rb) + (unat (rb_head rb) + N - unat (rb_tail rb)) = unat (rb_head rb) + N"
    using lt by simp
  finally show ?thesis using lt by simp
qed

lemma ring_full_iff:
  assumes "ring_inv N rb"
  shows "(rb_head rb + 1) AND ring_mask N = rb_tail rb \<longleftrightarrow> ring_count N rb = N - 1"
proof -
  let ?h = "unat (rb_head rb)" and ?t = "unat (rb_tail rb)"
  have lt: "?h < N" "?t < N" and sz: "ring_size_ok N" using assms by (auto simp: ring_inv_def)
  have "(rb_head rb + 1) AND ring_mask N = rb_tail rb \<longleftrightarrow> (?h + 1) mod N = ?t"
    using unat_ring_next [OF sz, of "rb_head rb"] by (simp add: word_unat_eq_iff)
  also have "\<dots> \<longleftrightarrow> ring_count N rb = N - 1"
  proof (cases "?t \<le> ?h")
    case True
    with assms have "ring_count N rb = ?h - ?t" by (rule ring_count_up)
    with True lt show ?thesis by (cases "?h + 1 = N") auto
  next
    case False
    with assms have "ring_count N rb = N + ?h - ?t" by (rule ring_count_wrap)
    with False lt show ?thesis by auto
  qed
  finally show ?thesis .
qed

subsection \<open>The operations and the contents\<close>

lemma ring_put_inv [wf_intros]: "ring_inv N rb \<Longrightarrow> ring_inv N (ring_put N c rb)"
  by (simp add: ring_inv_def ring_put_def Let_def ring_next_lt)

lemma ring_read_inv [wf_intros]: "ring_inv N rb \<Longrightarrow> ring_inv N (snd (ring_read N rb))"
  by (simp add: ring_inv_def ring_read_def Let_def ring_next_lt)

lemma ring_flush_inv [wf_intros]: "ring_inv N rb \<Longrightarrow> ring_inv N (ring_flush rb)"
  by (simp add: ring_inv_def ring_flush_def)

lemma ring_resync_inv [wf_intros]: "ring_inv N rb \<Longrightarrow> ring_inv N (ring_resync rb)"
  by (simp add: ring_inv_def ring_resync_def)

lemma ring_cancel_inv [wf_intros]: "ring_inv N rb \<Longrightarrow> ring_inv N (ring_cancel N can rb)"
  by (simp add: ring_inv_def ring_cancel_def cancel_mark_def cancel_tail_def cancel_head_def
      ring_next_lt)

lemma length_ring_contents [simp]: "length (ring_contents N rb) = ring_count N rb"
  by (simp add: ring_contents_def)

lemma ring_contents_eq_Nil_iff: "ring_contents N rb = [] \<longleftrightarrow> ring_count N rb = 0"
  by (simp add: ring_contents_def)

lemma ring_put_room:
  assumes "ring_inv N rb" "ring_count N rb < N - 1"
  shows "ring_contents N (ring_put N c rb) = ring_contents N rb @ [c]"
    and "rb_overflow (ring_put N c rb) = rb_overflow rb"
proof -
  let ?n = "ring_count N rb" and ?t = "unat (rb_tail rb)"
  let ?rb = "rb\<lparr>rb_data := (rb_data rb)[unat (rb_head rb) := c],
      rb_head := (rb_head rb + 1) AND ring_mask N\<rparr>"
  have sz: "ring_size_ok N" and len: "length (rb_data rb) = N"
    using assms(1) by (auto simp: ring_inv_def)
  have put: "ring_put N c rb = ?rb"
    using assms ring_full_iff [OF assms(1)] by (simp add: ring_put_def Let_def)
  have inv: "ring_inv N ?rb" using ring_put_inv [OF assms(1), of c] put by simp
  have "(?t + ring_count N ?rb) mod N = (unat (rb_head rb) + 1) mod N"
    using ring_head_index [OF inv] unat_ring_next [OF sz] by simp
  also have "\<dots> = (?t + Suc ?n) mod N"
    using ring_head_index [OF assms(1)] by (metis Suc_eq_plus1 add_Suc_right mod_Suc_eq)
  finally have "ring_count N ?rb = Suc ?n"
    by (rule ring_index_inj [rotated 2]) (use ring_count_lt [OF inv] assms(2) in auto)
  then show "ring_contents N (ring_put N c rb) = ring_contents N rb @ [c]"
    using ring_slice_push [of ?n "rb_data rb" ?t c] ring_head_index [OF assms(1)] len assms(2)
    by (simp add: put ring_contents_def)
  show "rb_overflow (ring_put N c rb) = rb_overflow rb" by (simp add: put)
qed

lemma ring_put_full:
  assumes "ring_inv N rb" "ring_count N rb = N - 1"
  shows "ring_put N c rb = rb\<lparr>rb_overflow := True\<rparr>"
  using ring_full_iff [OF assms(1)] assms(2) by (simp add: ring_put_def Let_def)

lemma ring_contents_overflow [simp]:
  "ring_contents N (rb\<lparr>rb_overflow := b\<rparr>) = ring_contents N rb"
  by (simp add: ring_contents_def ring_count_def)

lemma ring_read_empty:
  assumes "ring_inv N rb" "ring_contents N rb = []" shows "ring_read N rb = (- 1, rb)"
  using assms ring_count_0_iff [OF assms(1)]
  by (simp add: ring_read_def ring_contents_eq_Nil_iff)

lemma ring_read_cons:
  assumes "ring_inv N rb" "ring_contents N rb = c # cs"
  shows "fst (ring_read N rb) = int (unat c)" and "ring_contents N (snd (ring_read N rb)) = cs"
proof -
  let ?n = "ring_count N rb" and ?t = "unat (rb_tail rb)"
  let ?rb = "rb\<lparr>rb_tail := (rb_tail rb + 1) AND ring_mask N\<rparr>"
  have sz: "ring_size_ok N" and len: "length (rb_data rb) = N" and t: "?t < N"
    using assms(1) by (auto simp: ring_inv_def)
  have "?n = Suc (length cs)" using assms(2) length_ring_contents [of N rb] by simp
  then obtain m where m: "?n = Suc m" by simp
  then have ne: "rb_tail rb \<noteq> rb_head rb" using ring_count_0_iff [OF assms(1)] by auto
  then have rd: "ring_read N rb = (int (unat (rb_data rb ! ?t)), ?rb)"
    by (simp add: ring_read_def Let_def)
  have sl: "c # cs = rb_data rb ! ?t # ring_slice (rb_data rb) ((?t + 1) mod N) m"
    using assms(2) m t len ring_slice_Suc [of ?t "rb_data rb" m] by (simp add: ring_contents_def)
  then show "fst (ring_read N rb) = int (unat c)" using rd by simp
  have inv: "ring_inv N ?rb" using ring_read_inv [OF assms(1)] rd by simp
  have "((?t + 1) mod N + ring_count N ?rb) mod N = ((?t + 1) mod N + m) mod N"
    using ring_head_index [OF inv] ring_head_index [OF assms(1)] unat_ring_next [OF sz] m
    by (simp add: mod_simps)
  then have "ring_count N ?rb = m"
    by (rule ring_index_inj [rotated 2])
      (use ring_count_lt [OF inv] ring_count_lt [OF assms(1)] m in auto)
  then show "ring_contents N (snd (ring_read N rb)) = cs"
    using sl unat_ring_next [OF sz] by (simp add: rd ring_contents_def)
qed

lemma ring_flush_contents [simp]: "ring_contents N (ring_flush rb) = []"
  by (simp add: ring_contents_def ring_count_def ring_flush_def)

lemma ring_resync_contents [simp]: "ring_contents N (ring_resync rb) = []"
  by (simp add: ring_contents_def ring_count_def ring_resync_def)

definition ring_rd :: "nat \<Rightarrow> 'b rx_buffer \<Rightarrow> u8 option \<times> 'b rx_buffer" where
  \<comment> \<open>the read as the contract has it: the value -1 is no byte\<close>
  "ring_rd N rb =
     (case ring_read N rb of (v, rb') \<Rightarrow> (if v = - 1 then None else Some (word_of_int v), rb'))"

lemma ring_rd_cons:
  assumes "ring_inv N rb" "ring_contents N rb = c # cs"
  shows "ring_rd N rb = (Some c, snd (ring_read N rb))"
proof -
  have "uint c \<noteq> - 1" using uint_ge_0 [of c] by linarith
  then show ?thesis
    using ring_read_cons [OF assms] by (cases "ring_read N rb") (auto simp: ring_rd_def)
qed

interpretation rxring: fifo_drop_newest "ring_inv N" "ring_contents N" "N - 1" "ring_rd N"
  ring_flush "ring_put N"
  for N :: nat
proof unfold_locales
  fix s :: "'b rx_buffer" and x :: u8 and xs
  assume inv: "ring_inv N s"
  show "length (ring_contents N s) \<le> N - 1" using ring_count_lt [OF inv] by simp
  show "ring_inv N (ring_flush s)" using inv by (rule ring_flush_inv)
  show "ring_contents N (ring_flush s) = []" by simp
  show "ring_inv N (ring_put N x s)" using inv by (rule ring_put_inv)
  { assume "ring_contents N s = []"
    then show "ring_rd N s = (None, s)" using inv by (simp add: ring_rd_def ring_read_empty) }
  { assume "ring_contents N s = x # xs"
    then show "fst (ring_rd N s) = Some x \<and> ring_contents N (snd (ring_rd N s)) = xs \<and>
        ring_inv N (snd (ring_rd N s))"
      using inv by (simp add: ring_rd_cons ring_read_cons ring_read_inv) }
  { assume "length (ring_contents N s) < N - 1"
    then show "ring_contents N (ring_put N x s) = ring_contents N s @ [x]"
      using inv by (simp add: ring_put_room) }
  { assume "length (ring_contents N s) = N - 1"
    then show "ring_contents N (ring_put N x s) = ring_contents N s"
      using inv by (simp add: ring_put_full) }
qed

lemma ring_put_contents:
  "ring_inv N rb \<Longrightarrow> ring_contents N (ring_put N c rb) =
     (if ring_count N rb < N - 1 then ring_contents N rb @ [c] else ring_contents N rb)"
  using ring_count_lt [of N rb] by (auto simp: ring_put_room ring_put_full)

lemma ring_put_overflow:
  "ring_inv N rb \<Longrightarrow> rb_overflow (ring_put N c rb) = (rb_overflow rb \<or> ring_count N rb = N - 1)"
  using ring_count_lt [of N rb] by (cases "ring_count N rb < N - 1") (auto simp: ring_put_room ring_put_full)

lemma ring_put_tail [frame_simps]: "rb_tail (ring_put N c rb) = rb_tail rb"
  by (simp add: ring_put_def Let_def)

lemma fold_ring_put_tail [frame_simps]: "rb_tail (fold (ring_put N) cs rb) = rb_tail rb"
  by (induction cs arbitrary: rb) (simp_all add: ring_put_tail)

lemma fold_ring_put_overflow:
  "ring_inv N rb \<Longrightarrow> rb_overflow (fold (ring_put N) cs rb) =
     (rb_overflow rb \<or> N - 1 < ring_count N rb + length cs)"
proof (induction cs arbitrary: rb)
  case Nil
  then have "\<not> N - 1 < ring_count N rb" using ring_count_lt [of N rb] by linarith
  then show ?case by simp
next
  case (Cons c cs)
  have "ring_count N (ring_put N c rb) =
      (if ring_count N rb < N - 1 then Suc (ring_count N rb) else ring_count N rb)"
    using ring_put_contents [OF Cons.prems, of c]
    by (metis length_append_singleton length_ring_contents)
  with Cons.IH [OF ring_put_inv [OF Cons.prems, of c]] ring_put_overflow [OF Cons.prems, of c]
    ring_count_lt [OF Cons.prems]
  show ?case by auto
qed

subsection \<open>Writer and reader\<close>

text \<open>
  C7.  Bytes stored by the receive interrupt come out of \<open>serialRead\<close> in the order they came
  in, after those that were already waiting: of a burst \<open>cs\<close> the ring keeps the longest prefix
  that fits next to the waiting bytes (one slot always stays free), drops the rest, and the
  overflow flag is raised exactly when something was dropped.
\<close>

theorem ring_receives_in_order:
  assumes "ring_inv N rb" "N \<le> n"
  shows "fst (drain (ring_rd N) n (fold (ring_put N) cs rb)) =
           ring_contents N rb @ take (N - 1 - length (ring_contents N rb)) cs \<and>
         (rb_overflow (fold (ring_put N) cs rb) \<longleftrightarrow>
           rb_overflow rb \<or> N - 1 < length (ring_contents N rb) + length cs)"
  using assms by (simp add: rxring.drain_all rxring.fold_put_inv rxring.fold_put
      fold_ring_put_overflow)

definition ring0 :: "unit rx_buffer" where
  "ring0 = \<lparr>rb_head = 3, rb_tail = 2, rb_overflow = False, rb_data = [1, 2, 3, 4], rb_rest = ()\<rparr>"

lemma ring0_inv: "ring_inv 4 ring0"
  by (simp add: ring_inv_def ring_size_ok_def ring0_def)

theorem ring_receives_in_order_witness:
  "fst (drain (ring_rd 4) 4 (fold (ring_put 4) [10, 11, 12] ring0)) = [3, 10, 11] \<and>
   rb_overflow (fold (ring_put 4) [10, 11, 12] ring0)"
proof -
  have "ring_contents 4 ring0 = [3]" by code_simp
  then show ?thesis
    using ring_receives_in_order [of 4 ring0 4 "[10, 11, 12]", OF ring0_inv] by simp
qed

text \<open>
  A read against a running interrupt: \<open>serialRead\<close> loads the tail, compares it with the head,
  loads the byte and stores the tail, and the interrupt may store bytes between these accesses
  (\<open>xs\<close> before the comparison, \<open>ys\<close> before the load, \<open>zs\<close> before the store).
\<close>

definition ring_read_interrupted ::
    "nat \<Rightarrow> u8 list \<Rightarrow> u8 list \<Rightarrow> u8 list \<Rightarrow> 'b rx_buffer \<Rightarrow> int \<times> 'b rx_buffer" where
  "ring_read_interrupted N xs ys zs rb =
     (let bptr = rb_tail rb; rb1 = fold (ring_put N) xs rb in
      if bptr = rb_head rb1 then (- 1, rb1)
      else
        let rb2 = fold (ring_put N) ys rb1;
            data = int (unat (rb_data rb2 ! unat bptr));
            rb3 = fold (ring_put N) zs rb2
        in (data, rb3\<lparr>rb_tail := (bptr + 1) AND ring_mask N\<rparr>))"

lemma ring_first_byte:
  assumes "ring_inv N rb" "ring_contents N rb = c # cs"
  shows "rb_data rb ! unat (rb_tail rb) = c"
proof -
  have "rb_tail rb \<noteq> rb_head rb"
    using ring_count_0_iff [OF assms(1)] assms(2) ring_contents_eq_Nil_iff [of N rb] by auto
  then have "fst (ring_read N rb) = int (unat (rb_data rb ! unat (rb_tail rb)))"
    by (simp add: ring_read_def Let_def)
  with ring_read_cons(1) [OF assms] show ?thesis by (simp add: word_uint_eq_iff)
qed

text \<open>
  C8.  The read needs no lock against the receive interrupt: whatever bytes arrive while it
  runs, it returns and leaves what an undisturbed read would, made at the comparison when the
  ring was empty there and at the final store otherwise.
\<close>

theorem ring_read_linearizable:
  assumes "ring_inv N rb"
  shows "ring_read_interrupted N xs ys zs rb =
     (if ring_contents N (fold (ring_put N) xs rb) = []
      then ring_read N (fold (ring_put N) xs rb)
      else ring_read N (fold (ring_put N) (xs @ ys @ zs) rb))"
proof -
  define rb1 where "rb1 = fold (ring_put N) xs rb"
  define rb2 where "rb2 = fold (ring_put N) ys rb1"
  define rb3 where "rb3 = fold (ring_put N) zs rb2"
  have inv: "ring_inv N rb1" "ring_inv N rb2" "ring_inv N rb3"
    using assms by (simp_all add: rb1_def rb2_def rb3_def rxring.fold_put_inv)
  have t: "rb_tail rb1 = rb_tail rb" "rb_tail rb2 = rb_tail rb" "rb_tail rb3 = rb_tail rb"
    by (simp_all add: rb1_def rb2_def rb3_def frame_simps)
  show ?thesis
  proof (cases "ring_contents N rb1")
    case Nil
    then have "rb_tail rb = rb_head rb1"
      using ring_count_0_iff [OF inv(1)] t by (simp add: ring_contents_eq_Nil_iff)
    with Nil ring_read_empty [OF inv(1) Nil] show ?thesis
      by (simp add: ring_read_interrupted_def rb1_def [symmetric] Let_def)
  next
    case (Cons c cs)
    obtain ds es where c2: "ring_contents N rb2 = c # ds" and c3: "ring_contents N rb3 = c # es"
      using rxring.fold_put [OF inv(1), of ys] rxring.fold_put [OF inv(2), of zs] Cons
      by (simp add: rb2_def rb3_def)
    have ne: "rb_tail rb \<noteq> rb_head rb1"
      using Cons ring_count_0_iff [OF inv(1)] t ring_contents_eq_Nil_iff [of N rb1] by auto
    have ne3: "rb_tail rb \<noteq> rb_head rb3"
      using c3 ring_count_0_iff [OF inv(3)] t ring_contents_eq_Nil_iff [of N rb3] by auto
    have d: "rb_data rb2 ! unat (rb_tail rb) = c" "rb_data rb3 ! unat (rb_tail rb) = c"
      using ring_first_byte [OF inv(2) c2] ring_first_byte [OF inv(3) c3] t by simp_all
    have "fold (ring_put N) (xs @ ys @ zs) rb = rb3" by (simp add: rb1_def rb2_def rb3_def)
    moreover have "ring_read N rb3 =
        (int (unat c), rb3\<lparr>rb_tail := (rb_tail rb + 1) AND ring_mask N\<rparr>)"
      using ne3 d t by (simp add: ring_read_def Let_def)
    ultimately show ?thesis
      using Cons ne d
      by (simp add: ring_read_interrupted_def rb1_def [symmetric] rb2_def [symmetric]
          rb3_def [symmetric] Let_def)
  qed
qed

theorem ring_read_linearizable_witness:
  "ring_read_interrupted 4 [] [9] [8] ring0 = ring_read 4 (fold (ring_put 4) [9, 8] ring0) \<and>
   fst (ring_read_interrupted 4 [] [9] [8] ring0) = 3"
proof -
  have "ring_contents 4 (fold (ring_put 4) [] ring0) \<noteq> []" by code_simp
  then have "ring_read_interrupted 4 [] [9] [8] ring0 = ring_read 4 (fold (ring_put 4) ([] @ [9] @ [8]) ring0)"
    using ring_read_linearizable [of 4 ring0 "[]" "[9]" "[8]", OF ring0_inv] by simp
  moreover have "fst (ring_read 4 (fold (ring_put 4) [9, 8] ring0)) = 3" by code_simp
  ultimately show ?thesis by simp
qed

subsection \<open>The counts\<close>

lemma bufcount_ring_count:
  assumes "bufcount_ok bufcount" "ring_inv N rb"
  shows "bufcount (unat (rb_head rb)) (unat (rb_tail rb)) N = ring_count N rb"
  using assms ring_count_up [OF assms(2)] ring_count_wrap [OF assms(2)]
  by (auto simp: bufcount_ok_def ring_inv_def)

text \<open>
  The two counts a stream reports are exact: the bytes waiting in the ring, and the bytes
  it can still take; they add up to one less than the size, and neither wraps.
\<close>

theorem ring_counts_exact:
  assumes "bufcount_ok bufcount" "ring_inv N rb"
  shows "unat (ring_available bufcount N rb) = length (ring_contents N rb) \<and>
         unat (ring_rx_free bufcount N rb) = N - 1 - length (ring_contents N rb)"
proof -
  have sz: "2 \<le> N" "N \<le> 32768" using assms(2) ring_size_bounds [of N] by (auto simp: ring_inv_def)
  have lt: "ring_count N rb < N" using ring_count_lt [OF assms(2)] .
  have "(of_nat N - 1 - of_nat (ring_count N rb) :: u16) = of_nat (N - 1 - ring_count N rb)"
    using sz lt by (simp add: of_nat_diff)
  moreover have "unat (of_nat (N - 1 - ring_count N rb) :: u16) = N - 1 - ring_count N rb"
    using sz by (simp add: unat_of_nat)
  ultimately have "unat (of_nat N - 1 - of_nat (ring_count N rb) :: u16) = N - 1 - ring_count N rb"
    by (simp only:)
  then show ?thesis
    using sz lt bufcount_ring_count [OF assms]
    by (simp only: ring_available_def ring_rx_free_def length_ring_contents)
      (simp add: unat_of_nat)
qed

definition bufcount0 :: "nat \<Rightarrow> nat \<Rightarrow> nat \<Rightarrow> nat" where
  "bufcount0 h t n = (if t \<le> h then h - t else n - t + h)"

lemma bufcount0_ok: "bufcount_ok bufcount0"
  by (simp add: bufcount_ok_def bufcount0_def)

theorem ring_counts_exact_witness:
  "unat (ring_available bufcount0 4 ring0) = 1 \<and> unat (ring_rx_free bufcount0 4 ring0) = 2"
proof -
  have "ring_contents 4 ring0 = [3]" by code_simp
  then show ?thesis using ring_counts_exact [OF bufcount0_ok ring0_inv] by simp
qed

subsection \<open>Cancel\<close>

lemma ring_cancel_contents:
  assumes "ring_inv N rb" shows "ring_contents N (ring_cancel N can rb) = [can]"
proof -
  let ?h = "unat (rb_head rb)"
  have sz: "ring_size_ok N" and len: "length (rb_data rb) = N" and h: "?h < N"
    using assms by (auto simp: ring_inv_def)
  let ?rb = "ring_cancel N can rb"
  have f: "rb_tail ?rb = rb_head rb" "rb_head ?rb = (rb_head rb + 1) AND ring_mask N"
    "rb_data ?rb = (rb_data rb)[?h := can]"
    by (simp_all add: ring_cancel_def cancel_mark_def cancel_tail_def cancel_head_def)
  have "(?h + ring_count N ?rb) mod N = (?h + 1) mod N"
    using ring_head_index [OF ring_cancel_inv [OF assms, of can]] unat_ring_next [OF sz] f by simp
  then have "ring_count N ?rb = 1"
    by (rule ring_index_inj [rotated 2])
      (use ring_count_lt [OF ring_cancel_inv [OF assms]] ring_size_bounds [OF sz] in auto)
  then show ?thesis using f h len by (simp add: ring_contents_def ring_slice_Suc)
qed

text \<open>
   \<open>serialCancel\<close> is meant to leave the cancel character alone in the ring.  Run undisturbed
  it does; but its three statements are not protected (\<open>UART_MUTEX_LOCK\<close> expands to nothing),
  and when the receive interrupt stores a byte between the first two, the cancel character is
  lost: the ring is left with one old byte of its storage, the slot after the new head.
\<close>

theorem ring_cancel_race:
  assumes "ring_inv N rb" "length (ring_contents N rb) < N - 1"
  shows "ring_contents N (ring_cancel N can rb) = [can] \<and>
         ring_contents N (cancel_head N (cancel_tail (ring_put N c (cancel_mark can rb)))) =
           [rb_data rb ! ((unat (rb_head rb) + 1) mod N)]"
proof -
  let ?h = "unat (rb_head rb)"
  let ?n = "(rb_head rb + 1) AND ring_mask N"
  have sz: "ring_size_ok N" and len: "length (rb_data rb) = N" and h: "?h < N"
    using assms by (auto simp: ring_inv_def)
  let ?m = "cancel_mark can rb"
  have "?n \<noteq> rb_tail rb" using ring_full_iff [OF assms(1)] assms(2) by simp
  then have put: "cancel_tail (ring_put N c ?m) =
      rb\<lparr>rb_data := (rb_data rb)[?h := c], rb_head := ?n, rb_tail := ?n\<rparr>"
    by (simp add: ring_put_def cancel_mark_def cancel_tail_def Let_def)
  define rb' where "rb' = rb\<lparr>rb_data := (rb_data rb)[?h := c], rb_head := ?n, rb_tail := ?n\<rparr>"
  let ?k = "rb_data rb ! ((?h + 1) mod N)"
  have inv: "ring_inv N rb'" using assms(1) sz by (simp add: rb'_def ring_inv_def ring_next_lt)
  have "(?h + 1) mod N \<noteq> ?h"
  proof
    assume "(?h + 1) mod N = ?h"
    then have "(?h + 1) mod N = (?h + 0) mod N" using h by simp
    from ring_index_inj [OF _ _ this] ring_size_bounds [OF sz] show False by simp
  qed
  then have "rb_data rb' ! unat (rb_head rb') = ?k"
    using unat_ring_next [OF sz, of "rb_head rb"] by (simp add: rb'_def)
  then have "(rb_data rb')[unat (rb_head rb') := ?k] = rb_data rb'"
    by (metis list_update_id)
  then have "cancel_mark ?k rb' = rb'" by (simp add: cancel_mark_def)
  moreover have "cancel_tail rb' = rb'" by (simp add: rb'_def cancel_tail_def)
  ultimately have "cancel_head N rb' = ring_cancel N ?k rb'" by (simp add: ring_cancel_def)
  then show ?thesis
    using ring_cancel_contents [OF inv, of ?k] ring_cancel_contents [OF assms(1)] put
    by (simp add: rb'_def)
qed

theorem ring_cancel_race_witness:
  "ring_contents 4 (ring_cancel 4 24 ring0) = [24] \<and>
   ring_contents 4 (cancel_head 4 (cancel_tail (ring_put 4 65 (cancel_mark 24 ring0)))) = [1]"
proof -
  have "length (ring_contents 4 ring0) < 4 - 1" by code_simp
  moreover have "rb_data ring0 ! ((unat (rb_head ring0) + 1) mod 4) = 1" by code_simp
  ultimately show ?thesis using ring_cancel_race [OF ring0_inv, of 24 65] by simp
qed

end
