(* ===== verification/UartSerial.thy ===== *)
theory UartSerial
  imports StreamRing
begin

text \<open>
  \<open>main/uart_serial.c\<close>: the three UART streams.  The three ports have the same globals (a
  \<open>uart_t\<close>, a receive ring, a real-time command handler, an entry of \<open>stream_status[]\<close> and one
  of \<open>serial[]\<close>): they are a \<open>port\<close>, and the state is the list of the three ports with the
  hardware.  The code repeats each operation per port; the operations \<open>port_...\<close> are the code
  for \<open>uart0\<close>, the operations with the source's names apply them to a port and keep the
  differences of the copies.  The hardware layer of the ESP-IDF (\<open>uart_ll_...\<close>, the peripheral
  registers, the interrupt allocator) and the grbl core (the real-time command handlers, the
  blocking callback, \<open>stream_rx_suspend\<close>, \<open>stream_set_defaults\<close>) are the environment
  \<open>uart_env\<close>.  The mutex macros expand to nothing (\<open>CONFIG_DISABLE_HAL_LOCKS\<close> is 1).  A loop
  that waits for the hardware is a \<open>partial_function\<close>: \<open>None\<close> is not returning.
\<close>

subsection \<open>State\<close>

type_synonym uart_dev = "nat option"
  \<comment> \<open>\<open>uart_dev_t *\<close>: the device block of UART 0, 1 or 2, \<open>None\<close> for the null pointer\<close>

record uart_t =
  dev :: uart_dev
  num :: nat
  intr_handle :: "nat option"
  tx_len :: nat

datatype serial_parity = Serial_ParityNone | Serial_ParityEven | Serial_ParityOdd
datatype serial_width = Serial_8bit | Serial_7bit
datatype serial_stopbits = Serial_StopBits1 | Serial_StopBits1_5 | Serial_StopBits2 | Serial_StopBits0_5
datatype uart_parity = UART_PARITY_DISABLE | UART_PARITY_EVEN | UART_PARITY_ODD

record serial_format =
  sf_width :: serial_width
  sf_stopbits :: serial_stopbits
  sf_parity :: serial_parity

record stream_flags =
  claimable :: bool
  claimed :: bool
  can_set_baud :: bool
  modbus_ready :: bool
  rx_only :: bool
  init_ok :: bool

record stream_status =
  ss_baud_rate :: u32
  ss_format :: serial_format
  ss_flags :: stream_flags

record ('b, 'h) port =
  pt_uart :: uart_t
  pt_rx :: "'b rx_buffer"
  pt_enqueue :: "'h option"
  pt_status :: stream_status
  pt_flags :: stream_flags

record ('d, 'b, 'h) ser =
  sr_hw :: 'd
  sr_ports :: "('b, 'h) port list"

datatype pin_function = Output_TX | Input_RX
datatype pin_group = PinGroup_UART | PinGroup_UART2 | PinGroup_UART3

record periph_pin =
  pp_function :: pin_function
  pp_group :: pin_group
  pp_pin :: nat
  pp_output :: bool

subsection \<open>Environment\<close>

record ('d, 'b, 'h) uart_env =
  RX_BUFFER_SIZE :: nat
  BUFCOUNT :: "nat \<Rightarrow> nat \<Rightarrow> nat \<Rightarrow> nat"
  ASCII_CAN :: u8
  TARGET_S3 :: bool
  UART_TX_PIN :: nat
  UART_RX_PIN :: nat
  UART1_TX_PIN :: "nat option"
  UART1_RX_PIN :: nat
  UART2_TX_PIN :: "nat option"
  UART2_RX_PIN :: nat
  SOC_UART_FIFO_LEN :: nat
  UART_INTR_RXFIFO_OVF :: u32
  rx_int_flags :: u32
  uart_ll_set_mode_uart :: "uart_dev \<Rightarrow> 'd \<Rightarrow> 'd"
  uart_ll_set_baudrate :: "uart_dev \<Rightarrow> u32 \<Rightarrow> 'd \<Rightarrow> 'd"
  uart_ll_set_data_bit_num_8 :: "uart_dev \<Rightarrow> 'd \<Rightarrow> 'd"
  uart_ll_set_stop_bits_1 :: "uart_dev \<Rightarrow> 'd \<Rightarrow> 'd"
  uart_ll_set_parity :: "uart_dev \<Rightarrow> uart_parity \<Rightarrow> 'd \<Rightarrow> 'd"
  uart_set_pin :: "nat \<Rightarrow> nat option \<Rightarrow> nat \<Rightarrow> 'd \<Rightarrow> 'd"
  periph_module_reset :: "nat \<Rightarrow> 'd \<Rightarrow> 'd"
  periph_module_enable :: "nat \<Rightarrow> 'd \<Rightarrow> 'd"
  dport_set_clk_en :: "nat \<Rightarrow> 'd \<Rightarrow> 'd"
  dport_clear_rst :: "nat \<Rightarrow> 'd \<Rightarrow> 'd"
  esp_intr_alloc :: "nat \<Rightarrow> nat \<Rightarrow> 'd \<Rightarrow> nat option \<times> 'd"
  uart_ll_set_rxfifo_full_thr :: "uart_dev \<Rightarrow> nat \<Rightarrow> 'd \<Rightarrow> 'd"
  uart_ll_set_rx_tout :: "uart_dev \<Rightarrow> nat \<Rightarrow> 'd \<Rightarrow> 'd"
  uart_ll_clr_intsts_mask :: "uart_dev \<Rightarrow> u32 \<Rightarrow> 'd \<Rightarrow> 'd"
  uart_ll_ena_intr_mask :: "uart_dev \<Rightarrow> u32 \<Rightarrow> 'd \<Rightarrow> 'd"
  uart_ll_disable_intr_mask :: "uart_dev \<Rightarrow> u32 \<Rightarrow> 'd \<Rightarrow> 'd"
  uart_ll_txfifo_rst :: "uart_dev \<Rightarrow> 'd \<Rightarrow> 'd"
  uart_ll_rxfifo_rst :: "uart_dev \<Rightarrow> 'd \<Rightarrow> 'd"
  uart_ll_is_tx_idle :: "uart_dev \<Rightarrow> 'd \<Rightarrow> bool \<times> 'd"
  uart_ll_get_rxfifo_len :: "uart_dev \<Rightarrow> 'd \<Rightarrow> nat"
  uart_ll_get_intsts_mask :: "uart_dev \<Rightarrow> 'd \<Rightarrow> u32"
  read_fifo_reg :: "nat \<Rightarrow> 'd \<Rightarrow> u8 \<times> 'd"
  write_fifo_ahb_reg :: "nat \<Rightarrow> u8 \<Rightarrow> 'd \<Rightarrow> 'd"
  txfifo_cnt_field :: "uart_dev \<Rightarrow> 'd \<Rightarrow> nat \<times> 'd"
  call_enqueue :: "'h option \<Rightarrow> u8 \<Rightarrow> ('d, 'b, 'h) ser \<Rightarrow> bool \<times> ('d, 'b, 'h) ser"
  stream_blocking_callback :: "('d, 'b, 'h) ser \<Rightarrow> bool \<times> ('d, 'b, 'h) ser"
  stream_rx_suspend :: "bool \<Rightarrow> 'b rx_buffer \<Rightarrow> bool \<times> 'b rx_buffer"
  stream_set_defaults :: "nat \<Rightarrow> u32 \<Rightarrow> ('d, 'b, 'h) ser \<Rightarrow> ('d, 'b, 'h) ser"
  register_pin :: "periph_pin \<Rightarrow> ('d, 'b, 'h) ser \<Rightarrow> ('d, 'b, 'h) ser"
  stream_register_streams :: "('d, 'b, 'h) ser \<Rightarrow> ('d, 'b, 'h) ser"

subsection \<open>Access to a port\<close>

abbreviation port_of :: "('d, 'b, 'h) ser \<Rightarrow> nat \<Rightarrow> ('b, 'h) port" where
  "port_of s i \<equiv> sr_ports s ! i"

definition set_port :: "nat \<Rightarrow> (('b, 'h) port \<Rightarrow> ('b, 'h) port) \<Rightarrow> ('d, 'b, 'h) ser \<Rightarrow> ('d, 'b, 'h) ser" where
  "set_port i f s = s\<lparr>sr_ports := (sr_ports s)[i := f (sr_ports s ! i)]\<rparr>"

definition set_ring :: "nat \<Rightarrow> ('b rx_buffer \<Rightarrow> 'b rx_buffer) \<Rightarrow> ('d, 'b, 'h) ser \<Rightarrow> ('d, 'b, 'h) ser" where
  "set_ring i f = set_port i (\<lambda>p. p\<lparr>pt_rx := f (pt_rx p)\<rparr>)"

definition set_hw :: "('d \<Rightarrow> 'd) \<Rightarrow> ('d, 'b, 'h) ser \<Rightarrow> ('d, 'b, 'h) ser" where
  "set_hw f s = s\<lparr>sr_hw := f (sr_hw s)\<rparr>"

abbreviation ring_of :: "('d, 'b, 'h) ser \<Rightarrow> nat \<Rightarrow> 'b rx_buffer" where
  "ring_of s i \<equiv> pt_rx (port_of s i)"

abbreviation dev_of :: "('d, 'b, 'h) ser \<Rightarrow> nat \<Rightarrow> uart_dev" where
  "dev_of s i \<equiv> dev (pt_uart (port_of s i))"

lemma set_hw_ports [simp, frame_simps]: "sr_ports (set_hw f s) = sr_ports s"
  by (simp add: set_hw_def)

lemma sr_hw_set_hw [simp]: "sr_hw (set_hw f s) = f (sr_hw s)"
  by (simp add: set_hw_def)

lemma set_port_hw [simp, frame_simps]: "sr_hw (set_port i f s) = sr_hw s"
  by (simp add: set_port_def)

lemma length_set_port [simp, frame_simps]: "length (sr_ports (set_port i f s)) = length (sr_ports s)"
  by (simp add: set_port_def)

lemma port_of_set_port [simp]:
  "i < length (sr_ports s) \<Longrightarrow> port_of (set_port i f s) j = (if j = i then f (port_of s i) else port_of s j)"
  by (simp add: set_port_def)

lemma set_ring_hw [simp, frame_simps]: "sr_hw (set_ring i f s) = sr_hw s"
  by (simp add: set_ring_def)

lemma length_set_ring [simp, frame_simps]: "length (sr_ports (set_ring i f s)) = length (sr_ports s)"
  by (simp add: set_ring_def)

lemma port_of_set_ring [simp]:
  "i < length (sr_ports s) \<Longrightarrow> port_of (set_ring i f s) j =
     (if j = i then (port_of s i)\<lparr>pt_rx := f (ring_of s i)\<rparr> else port_of s j)"
  by (simp add: set_ring_def)

subsection \<open>Initial data\<close>

definition format_8N1 :: serial_format where
  "format_8N1 = \<lparr>sf_width = Serial_8bit, sf_stopbits = Serial_StopBits1, sf_parity = Serial_ParityNone\<rparr>"

definition no_flags :: stream_flags where
  "no_flags = \<lparr>claimable = False, claimed = False, can_set_baud = False, modbus_ready = False,
     rx_only = False, init_ok = False\<rparr>"

definition stream_status_init :: stream_status where
  "stream_status_init = \<lparr>ss_baud_rate = 115200, ss_format = format_8N1, ss_flags = no_flags\<rparr>"

definition serial_flags_init :: "('d, 'b, 'h) uart_env \<Rightarrow> nat \<Rightarrow> stream_flags" where
  "serial_flags_init env i =
     (let fl = no_flags\<lparr>claimable := True, claimed := False, can_set_baud := True\<rparr> in
      if i = 0 then fl\<lparr>modbus_ready := True\<rparr>
      else if i = 1
      then (if UART1_TX_PIN env \<noteq> None then fl\<lparr>modbus_ready := True\<rparr> else fl\<lparr>rx_only := True\<rparr>)
      else (if UART2_TX_PIN env \<noteq> None then fl\<lparr>modbus_ready := True\<rparr> else fl\<lparr>rx_only := True\<rparr>))"

definition uart_bus_array :: "('d, 'b, 'h) uart_env \<Rightarrow> nat \<Rightarrow> uart_t" where
  "uart_bus_array env i =
     \<lparr>dev = Some i, num = i, intr_handle = None, tx_len = SOC_UART_FIFO_LEN env\<rparr>"

definition serialRegisterStreams :: "('d, 'b, 'h) uart_env \<Rightarrow> ('d, 'b, 'h) ser \<Rightarrow> ('d, 'b, 'h) ser" where
  "serialRegisterStreams env s =
     (let tx = (\<lambda>g p. \<lparr>pp_function = Output_TX, pp_group = g, pp_pin = p, pp_output = True\<rparr>);
          rx = (\<lambda>g p. \<lparr>pp_function = Input_RX, pp_group = g, pp_pin = p, pp_output = False\<rparr>);
          s = register_pin env (rx PinGroup_UART (UART_RX_PIN env)) s;
          s = register_pin env (tx PinGroup_UART (UART_TX_PIN env)) s;
          s = (case UART1_TX_PIN env of None \<Rightarrow> s | Some p \<Rightarrow> register_pin env (tx PinGroup_UART2 p) s);
          s = register_pin env (rx PinGroup_UART2 (UART1_RX_PIN env)) s;
          s = (case UART2_TX_PIN env of None \<Rightarrow> s | Some p \<Rightarrow> register_pin env (tx PinGroup_UART3 p) s);
          s = register_pin env (rx PinGroup_UART3 (UART2_RX_PIN env)) s
      in stream_register_streams env s)"

definition get_uart_status :: "nat \<Rightarrow> ('d, 'b, 'h) ser \<Rightarrow> stream_status \<times> ('d, 'b, 'h) ser" where
  "get_uart_status instance_no s =
     (let s = set_port instance_no (\<lambda>p. p\<lparr>pt_status := (pt_status p)\<lparr>ss_flags := pt_flags p\<rparr>\<rparr>) s
      in (pt_status (port_of s instance_no), s))"

definition uart_release :: "nat \<Rightarrow> ('d, 'b, 'h) ser \<Rightarrow> bool \<times> ('d, 'b, 'h) ser" where
  "uart_release instance_no s =
     (let ok = claimed (pt_flags (port_of s instance_no)) in
      (ok, if ok then set_port instance_no (\<lambda>p. p\<lparr>pt_flags := (pt_flags p)\<lparr>claimed := False\<rparr>\<rparr>) s else s))"

subsection \<open>Hardware helpers\<close>

definition uartSetBaudRate ::
    "('d, 'b, 'h) uart_env \<Rightarrow> uart_t \<Rightarrow> u32 \<Rightarrow> ('d, 'b, 'h) ser \<Rightarrow> ('d, 'b, 'h) ser" where
  \<comment> \<open>the callers pass the address of a port's \<open>uart_t\<close>, never \<open>NULL\<close>\<close>
  "uartSetBaudRate env uart baud_rate = set_hw (uart_ll_set_baudrate env (dev uart) baud_rate)"

definition uartSetFormat ::
    "('d, 'b, 'h) uart_env \<Rightarrow> uart_t \<Rightarrow> serial_format \<Rightarrow> ('d, 'b, 'h) ser \<Rightarrow> ('d, 'b, 'h) ser" where
  "uartSetFormat env uart format =
     set_hw (uart_ll_set_parity env (dev uart)
       (if sf_parity format = Serial_ParityNone then UART_PARITY_DISABLE
        else if sf_parity format = Serial_ParityEven then UART_PARITY_EVEN else UART_PARITY_ODD))"

definition UART0_PINS_REDEFINED :: "('d, 'b, 'h) uart_env \<Rightarrow> bool" where
  "UART0_PINS_REDEFINED env =
     (if TARGET_S3 env then UART_RX_PIN env \<noteq> 44 \<or> UART_TX_PIN env \<noteq> 43
      else UART_RX_PIN env \<noteq> 34 \<or> UART_TX_PIN env \<noteq> 35)"

definition uartConfig ::
    "('d, 'b, 'h) uart_env \<Rightarrow> uart_t \<Rightarrow> u32 \<Rightarrow> ('d, 'b, 'h) ser \<Rightarrow> ('d, 'b, 'h) ser" where
  "uartConfig env uart baud_rate s =
     (let s = set_hw (uart_ll_set_mode_uart env (dev uart)) s;
          s = (if TARGET_S3 env
               then set_hw (periph_module_enable env (num uart)) (set_hw (periph_module_reset env (num uart)) s)
               else if num uart \<le> 2
               then set_hw (dport_clear_rst env (num uart)) (set_hw (dport_set_clk_en env (num uart)) s)
               else s);
          s = uartSetBaudRate env uart baud_rate s;
          s = set_hw (uart_ll_set_data_bit_num_8 env (dev uart)) s;
          s = set_hw (uart_ll_set_stop_bits_1 env (dev uart)) s;
          s = set_hw (uart_ll_set_parity env (dev uart) UART_PARITY_DISABLE) s
      in if num uart = 0
         then if UART0_PINS_REDEFINED env
              then set_hw (uart_set_pin env 0 (Some (UART_TX_PIN env)) (UART_RX_PIN env)) s else s
         else if num uart = 1
         then set_hw (uart_set_pin env 1 (UART1_TX_PIN env) (UART1_RX_PIN env)) s
         else if num uart = 2
         then set_hw (uart_set_pin env 2 (UART2_TX_PIN env) (UART2_RX_PIN env)) s
         else s)"

definition uartEnableInterrupt ::
    "('d, 'b, 'h) uart_env \<Rightarrow> nat \<Rightarrow> bool \<Rightarrow> ('d, 'b, 'h) ser \<Rightarrow> ('d, 'b, 'h) ser" where
  \<comment> \<open>for the \<open>uart_t\<close> of port \<open>i\<close>, with that port's interrupt routine\<close>
  "uartEnableInterrupt env i enable_rx s =
     (let u = pt_uart (port_of s i);
          s = (if intr_handle u = None
               then case esp_intr_alloc env (num u) i (sr_hw s) of
                 (hdl, d) \<Rightarrow> set_port i (\<lambda>p. p\<lparr>pt_uart := u\<lparr>intr_handle := hdl\<rparr>\<rparr>) (s\<lparr>sr_hw := d\<rparr>)
               else s);
          s = set_hw (uart_ll_set_rxfifo_full_thr env (dev u) 112) s;
          s = set_hw (uart_ll_set_rx_tout env (dev u) (if enable_rx then 50 else 0)) s;
          s = set_hw (uart_ll_clr_intsts_mask env (dev u) (rx_int_flags env)) s
      in if enable_rx then set_hw (uart_ll_ena_intr_mask env (dev u) (rx_int_flags env)) s
         else set_hw (uart_ll_disable_intr_mask env (dev u) (rx_int_flags env)) s)"

partial_function (option) wait_tx_idle :: "('d, 'b, 'h) uart_env \<Rightarrow> uart_dev \<Rightarrow> 'd \<Rightarrow> 'd option" where
  \<comment> \<open>\<open>while(!uart_ll_is_tx_idle(uart->dev));\<close>\<close>
  "wait_tx_idle env hw d =
     (case uart_ll_is_tx_idle env hw d of (idle, d) \<Rightarrow>
        if idle then Some d else wait_tx_idle env hw d)"

definition uart_flush_fifos ::
    "('d, 'b, 'h) uart_env \<Rightarrow> uart_dev \<Rightarrow> bool \<Rightarrow> 'd \<Rightarrow> 'd option" where
  "uart_flush_fifos env hw tx_only d =
     (case wait_tx_idle env hw (uart_ll_txfifo_rst env hw d) of
        None \<Rightarrow> None
      | Some d \<Rightarrow> Some (if tx_only then d else uart_ll_rxfifo_rst env hw d))"

definition uart_ll_read_rxfifo ::
    "('d, 'b, 'h) uart_env \<Rightarrow> uart_dev \<Rightarrow> ('d, 'b, 'h) ser \<Rightarrow> u8 \<times> ('d, 'b, 'h) ser" where
  "uart_ll_read_rxfifo env hw s =
     (case read_fifo_reg env (if hw = Some 0 then 0 else if hw = Some 1 then 1 else 2) (sr_hw s) of
        (c, d) \<Rightarrow> (c, s\<lparr>sr_hw := d\<rparr>))"

definition uart_ll_write_txfifo ::
    "('d, 'b, 'h) uart_env \<Rightarrow> uart_dev \<Rightarrow> u8 \<Rightarrow> ('d, 'b, 'h) ser \<Rightarrow> ('d, 'b, 'h) ser" where
  "uart_ll_write_txfifo env hw c =
     set_hw (write_fifo_ahb_reg env (if hw = Some 0 then 0 else if hw = Some 1 then 1 else 2) c)"

definition uart_ll_get_txfifo_count ::
    "('d, 'b, 'h) uart_env \<Rightarrow> uart_dev \<Rightarrow> ('d, 'b, 'h) ser \<Rightarrow> nat \<times> ('d, 'b, 'h) ser" where
  "uart_ll_get_txfifo_count env hw s =
     (case txfifo_cnt_field env hw (sr_hw s) of (n, d) \<Rightarrow> (n, s\<lparr>sr_hw := d\<rparr>))"

subsection \<open>The operations of a port\<close>

fun port_isr_loop ::
    "('d, 'b, 'h) uart_env \<Rightarrow> nat \<Rightarrow> nat \<Rightarrow> ('d, 'b, 'h) ser \<Rightarrow> ('d, 'b, 'h) ser" where
  "port_isr_loop env i 0 s = s"
| "port_isr_loop env i (Suc cnt) s =
     (case uart_ll_read_rxfifo env (dev_of s i) s of
        (c, s) \<Rightarrow>
          (case call_enqueue env (pt_enqueue (port_of s i)) c s of
             (consumed, s) \<Rightarrow>
               port_isr_loop env i cnt
                 (if consumed then s else set_ring i (ring_put (RX_BUFFER_SIZE env) c) s)))"

definition port_isr :: "('d, 'b, 'h) uart_env \<Rightarrow> nat \<Rightarrow> ('d, 'b, 'h) ser \<Rightarrow> ('d, 'b, 'h) ser" where
  "port_isr env i s =
     (let hw = dev_of s i;
          cnt = uart_ll_get_rxfifo_len env hw (sr_hw s);
          iflags = uart_ll_get_intsts_mask env hw (sr_hw s);
          s = set_hw (uart_ll_clr_intsts_mask env hw iflags) s;
          s = (if iflags AND UART_INTR_RXFIFO_OVF env \<noteq> 0
               then set_ring i (\<lambda>rb. rb\<lparr>rb_overflow := True\<rparr>) s else s)
      in port_isr_loop env i cnt s)"

definition port_available :: "('d, 'b, 'h) uart_env \<Rightarrow> nat \<Rightarrow> ('d, 'b, 'h) ser \<Rightarrow> u16" where
  "port_available env i s = ring_available (BUFCOUNT env) (RX_BUFFER_SIZE env) (ring_of s i)"

definition port_rx_free :: "('d, 'b, 'h) uart_env \<Rightarrow> nat \<Rightarrow> ('d, 'b, 'h) ser \<Rightarrow> u16" where
  "port_rx_free env i s = ring_rx_free (BUFCOUNT env) (RX_BUFFER_SIZE env) (ring_of s i)"

definition port_tx_count ::
    "('d, 'b, 'h) uart_env \<Rightarrow> nat \<Rightarrow> ('d, 'b, 'h) ser \<Rightarrow> u16 \<times> ('d, 'b, 'h) ser" where
  "port_tx_count env i s =
     (case uart_ll_is_tx_idle env (dev_of s i) (sr_hw s) of
        (idle, d) \<Rightarrow>
          if idle then (0, s\<lparr>sr_hw := d\<rparr>)
          else case uart_ll_get_txfifo_count env (dev_of s i) (s\<lparr>sr_hw := d\<rparr>) of
            (n, s) \<Rightarrow> (of_nat n + 1, s))"

definition port_read :: "('d, 'b, 'h) uart_env \<Rightarrow> nat \<Rightarrow> ('d, 'b, 'h) ser \<Rightarrow> int \<times> ('d, 'b, 'h) ser" where
  "port_read env i s =
     (case ring_read (RX_BUFFER_SIZE env) (ring_of s i) of (v, rb) \<Rightarrow> (v, set_ring i (\<lambda>_. rb) s))"

partial_function (option) port_put_wait ::
    "('d, 'b, 'h) uart_env \<Rightarrow> nat \<Rightarrow> ('d, 'b, 'h) ser \<Rightarrow> (bool \<times> ('d, 'b, 'h) ser) option" where
  \<comment> \<open>the loop of \<open>serialPutC\<close>: \<open>False\<close> is its \<open>return false\<close>\<close>
  "port_put_wait env i s =
     (case uart_ll_get_txfifo_count env (dev_of s i) s of
        (n, s) \<Rightarrow>
          if n = tx_len (pt_uart (port_of s i))
          then (case stream_blocking_callback env s of
                  (go_on, s) \<Rightarrow> if go_on then port_put_wait env i s else Some (False, s))
          else Some (True, s))"

definition port_putc ::
    "('d, 'b, 'h) uart_env \<Rightarrow> nat \<Rightarrow> u8 \<Rightarrow> ('d, 'b, 'h) ser \<Rightarrow> (bool \<times> ('d, 'b, 'h) ser) option" where
  "port_putc env i c s =
     (case port_put_wait env i s of
        None \<Rightarrow> None
      | Some (ok, s) \<Rightarrow> Some (ok, if ok then uart_ll_write_txfifo env (dev_of s i) c s else s))"

fun port_write ::
    "('d, 'b, 'h) uart_env \<Rightarrow> nat \<Rightarrow> u8 list \<Rightarrow> ('d, 'b, 'h) ser \<Rightarrow> ('d, 'b, 'h) ser option" where
  \<comment> \<open>\<open>while(length--) serialPutC(*ptr++);\<close>: the result of \<open>serialPutC\<close> is not looked at\<close>
  "port_write env i [] s = Some s"
| "port_write env i (c # cs) s =
     (case port_putc env i c s of None \<Rightarrow> None | Some (ok, s) \<Rightarrow> port_write env i cs s)"

definition port_write_s ::
    "('d, 'b, 'h) uart_env \<Rightarrow> nat \<Rightarrow> u8 list \<Rightarrow> ('d, 'b, 'h) ser \<Rightarrow> ('d, 'b, 'h) ser option" where
  \<comment> \<open>the bytes in memory from \<open>data\<close> on, up to the terminating NUL\<close>
  "port_write_s env i data s = port_write env i (takeWhile (\<lambda>c. c \<noteq> 0) data) s"

definition port_flush :: "('d, 'b, 'h) uart_env \<Rightarrow> nat \<Rightarrow> ('d, 'b, 'h) ser \<Rightarrow> ('d, 'b, 'h) ser" where
  "port_flush env i s = set_ring i ring_flush (set_hw (uart_ll_rxfifo_rst env (dev_of s i)) s)"

definition port_tx_flush :: "('d, 'b, 'h) uart_env \<Rightarrow> nat \<Rightarrow> ('d, 'b, 'h) ser \<Rightarrow> ('d, 'b, 'h) ser option" where
  "port_tx_flush env i s =
     map_option (\<lambda>d. s\<lparr>sr_hw := d\<rparr>) (uart_flush_fifos env (dev_of s i) True (sr_hw s))"

definition port_cancel :: "('d, 'b, 'h) uart_env \<Rightarrow> nat \<Rightarrow> ('d, 'b, 'h) ser \<Rightarrow> ('d, 'b, 'h) ser" where
  "port_cancel env i s = set_ring i (ring_cancel (RX_BUFFER_SIZE env) (ASCII_CAN env)) s"

definition port_suspend ::
    "('d, 'b, 'h) uart_env \<Rightarrow> nat \<Rightarrow> bool \<Rightarrow> ('d, 'b, 'h) ser \<Rightarrow> bool \<times> ('d, 'b, 'h) ser" where
  "port_suspend env i suspend s =
     (case stream_rx_suspend env suspend (ring_of s i) of (ok, rb) \<Rightarrow> (ok, set_ring i (\<lambda>_. rb) s))"

definition port_disable ::
    "('d, 'b, 'h) uart_env \<Rightarrow> nat \<Rightarrow> bool \<Rightarrow> ('d, 'b, 'h) ser \<Rightarrow> (bool \<times> ('d, 'b, 'h) ser) option" where
  "port_disable env i disable s =
     (let hw = dev_of s i; s = set_hw (uart_ll_disable_intr_mask env hw (rx_int_flags env)) s in
      if disable then Some (True, s)
      else case uart_flush_fifos env hw False (sr_hw s) of
        None \<Rightarrow> None
      | Some d \<Rightarrow>
          let s = set_ring i ring_resync (s\<lparr>sr_hw := d\<rparr>);
              s = set_hw (uart_ll_clr_intsts_mask env hw (rx_int_flags env)) s;
              s = set_hw (uart_ll_ena_intr_mask env hw (rx_int_flags env)) s
          in Some (True, s))"

definition port_set_baud_rate ::
    "('d, 'b, 'h) uart_env \<Rightarrow> nat \<Rightarrow> u32 \<Rightarrow> ('d, 'b, 'h) ser \<Rightarrow> bool \<times> ('d, 'b, 'h) ser" where
  "port_set_baud_rate env i baud_rate s =
     (let s = set_port i (\<lambda>p. p\<lparr>pt_status := (pt_status p)\<lparr>ss_baud_rate := baud_rate\<rparr>\<rparr>) s
      in (True, uartSetBaudRate env (pt_uart (port_of s i)) baud_rate s))"

definition port_set_format ::
    "('d, 'b, 'h) uart_env \<Rightarrow> nat \<Rightarrow> serial_format \<Rightarrow> ('d, 'b, 'h) ser \<Rightarrow> bool \<times> ('d, 'b, 'h) ser" where
  "port_set_format env i format s =
     (let s = set_port i (\<lambda>p. p\<lparr>pt_status := (pt_status p)\<lparr>ss_format := format\<rparr>\<rparr>) s
      in (True, uartSetFormat env (pt_uart (port_of s i)) format s))"

definition port_enqueue_rt ::
    "('d, 'b, 'h) uart_env \<Rightarrow> nat \<Rightarrow> u8 \<Rightarrow> ('d, 'b, 'h) ser \<Rightarrow> bool \<times> ('d, 'b, 'h) ser" where
  "port_enqueue_rt env i c s = call_enqueue env (pt_enqueue (port_of s i)) c s"

definition port_set_rt_handler ::
    "nat \<Rightarrow> 'h option \<Rightarrow> ('d, 'b, 'h) ser \<Rightarrow> 'h option \<times> ('d, 'b, 'h) ser" where
  "port_set_rt_handler i handler s =
     (pt_enqueue (port_of s i),
      if handler \<noteq> None then set_port i (\<lambda>p. p\<lparr>pt_enqueue := handler\<rparr>) s else s)"

definition port_init ::
    "('d, 'b, 'h) uart_env \<Rightarrow> nat \<Rightarrow> bool \<Rightarrow> u32 \<Rightarrow> ('d, 'b, 'h) ser \<Rightarrow> bool \<times> ('d, 'b, 'h) ser" where
  \<comment> \<open>\<open>False\<close> is the result \<open>NULL\<close>\<close>
  "port_init env i enable_rx baud_rate s =
     (if claimed (pt_flags (port_of s i)) then (False, s)
      else
        let s = set_port i (\<lambda>p. p\<lparr>pt_flags := (pt_flags p)\<lparr>claimed := True\<rparr>\<rparr>) s;
            s = (if \<not> init_ok (pt_flags (port_of s i))
                 then
                   let s = set_port i (\<lambda>p. p\<lparr>pt_uart := uart_bus_array env i\<rparr>) s;
                       s = uartConfig env (pt_uart (port_of s i)) baud_rate s;
                       s = uartEnableInterrupt env i enable_rx s
                   in set_port i (\<lambda>p. p\<lparr>pt_flags := (pt_flags p)\<lparr>init_ok := True\<rparr>\<rparr>) s
                 else s)
        in (True, stream_set_defaults env i baud_rate s))"

subsection \<open>The stream table\<close>

record ('d, 'b, 'h) io_stream =
  st_instance :: nat
  read_char :: "('d, 'b, 'h) ser \<Rightarrow> int \<times> ('d, 'b, 'h) ser"
  write_str :: "u8 list \<Rightarrow> ('d, 'b, 'h) ser \<Rightarrow> ('d, 'b, 'h) ser option"
  write_n :: "u8 list \<Rightarrow> ('d, 'b, 'h) ser \<Rightarrow> ('d, 'b, 'h) ser option"
  write_char :: "u8 \<Rightarrow> ('d, 'b, 'h) ser \<Rightarrow> (bool \<times> ('d, 'b, 'h) ser) option"
  enqueue_rt_command :: "u8 \<Rightarrow> ('d, 'b, 'h) ser \<Rightarrow> bool \<times> ('d, 'b, 'h) ser"
  get_rx_buffer_free :: "('d, 'b, 'h) ser \<Rightarrow> u16"
  get_rx_buffer_count :: "('d, 'b, 'h) ser \<Rightarrow> u16"
  get_tx_buffer_count :: "('d, 'b, 'h) ser \<Rightarrow> u16 \<times> ('d, 'b, 'h) ser"
  reset_write_buffer :: "('d, 'b, 'h) ser \<Rightarrow> ('d, 'b, 'h) ser option"
  reset_read_buffer :: "('d, 'b, 'h) ser \<Rightarrow> ('d, 'b, 'h) ser"
  cancel_read_buffer :: "('d, 'b, 'h) ser \<Rightarrow> ('d, 'b, 'h) ser"
  suspend_read :: "bool \<Rightarrow> ('d, 'b, 'h) ser \<Rightarrow> bool \<times> ('d, 'b, 'h) ser"
  set_baud_rate :: "u32 \<Rightarrow> ('d, 'b, 'h) ser \<Rightarrow> bool \<times> ('d, 'b, 'h) ser"
  set_format :: "serial_format \<Rightarrow> ('d, 'b, 'h) ser \<Rightarrow> bool \<times> ('d, 'b, 'h) ser"
  disable_rx :: "bool \<Rightarrow> ('d, 'b, 'h) ser \<Rightarrow> (bool \<times> ('d, 'b, 'h) ser) option"
  set_enqueue_rt_handler :: "'h option \<Rightarrow> ('d, 'b, 'h) ser \<Rightarrow> 'h option \<times> ('d, 'b, 'h) ser"

subsection \<open>UART 0\<close>

definition uart0_isr :: "('d, 'b, 'h) uart_env \<Rightarrow> ('d, 'b, 'h) ser \<Rightarrow> ('d, 'b, 'h) ser" where
  "uart0_isr env = port_isr env 0"

definition serialAvailable :: "('d, 'b, 'h) uart_env \<Rightarrow> ('d, 'b, 'h) ser \<Rightarrow> u16" where
  "serialAvailable env = port_available env 0"

definition serialTxCount :: "('d, 'b, 'h) uart_env \<Rightarrow> ('d, 'b, 'h) ser \<Rightarrow> u16 \<times> ('d, 'b, 'h) ser" where
  "serialTxCount env = port_tx_count env 0"

definition serialRXFree :: "('d, 'b, 'h) uart_env \<Rightarrow> ('d, 'b, 'h) ser \<Rightarrow> u16" where
  "serialRXFree env = port_rx_free env 0"

definition serialRead :: "('d, 'b, 'h) uart_env \<Rightarrow> ('d, 'b, 'h) ser \<Rightarrow> int \<times> ('d, 'b, 'h) ser" where
  "serialRead env = port_read env 0"

definition serialPutC :: "('d, 'b, 'h) uart_env \<Rightarrow> u8 \<Rightarrow> ('d, 'b, 'h) ser \<Rightarrow> (bool \<times> ('d, 'b, 'h) ser) option" where
  "serialPutC env = port_putc env 0"

definition serialWriteS :: "('d, 'b, 'h) uart_env \<Rightarrow> u8 list \<Rightarrow> ('d, 'b, 'h) ser \<Rightarrow> ('d, 'b, 'h) ser option" where
  "serialWriteS env = port_write_s env 0"

definition serialWrite :: "('d, 'b, 'h) uart_env \<Rightarrow> u8 list \<Rightarrow> ('d, 'b, 'h) ser \<Rightarrow> ('d, 'b, 'h) ser option" where
  "serialWrite env = port_write env 0"

definition serialFlush :: "('d, 'b, 'h) uart_env \<Rightarrow> ('d, 'b, 'h) ser \<Rightarrow> ('d, 'b, 'h) ser" where
  "serialFlush env = port_flush env 0"

definition serialTxFlush :: "('d, 'b, 'h) uart_env \<Rightarrow> ('d, 'b, 'h) ser \<Rightarrow> ('d, 'b, 'h) ser option" where
  "serialTxFlush env = port_tx_flush env 0"

definition serialCancel :: "('d, 'b, 'h) uart_env \<Rightarrow> ('d, 'b, 'h) ser \<Rightarrow> ('d, 'b, 'h) ser" where
  "serialCancel env = port_cancel env 0"

definition serialSuspendInput :: "('d, 'b, 'h) uart_env \<Rightarrow> bool \<Rightarrow> ('d, 'b, 'h) ser \<Rightarrow> bool \<times> ('d, 'b, 'h) ser" where
  "serialSuspendInput env = port_suspend env 0"

definition serialDisable :: "('d, 'b, 'h) uart_env \<Rightarrow> bool \<Rightarrow> ('d, 'b, 'h) ser \<Rightarrow> (bool \<times> ('d, 'b, 'h) ser) option" where
  "serialDisable env = port_disable env 0"

definition serialSetBaudRate :: "('d, 'b, 'h) uart_env \<Rightarrow> u32 \<Rightarrow> ('d, 'b, 'h) ser \<Rightarrow> bool \<times> ('d, 'b, 'h) ser" where
  "serialSetBaudRate env = port_set_baud_rate env 0"

definition serialSetFormat :: "('d, 'b, 'h) uart_env \<Rightarrow> serial_format \<Rightarrow> ('d, 'b, 'h) ser \<Rightarrow> bool \<times> ('d, 'b, 'h) ser" where
  "serialSetFormat env = port_set_format env 0"

definition serialEnqueueRtCommand :: "('d, 'b, 'h) uart_env \<Rightarrow> u8 \<Rightarrow> ('d, 'b, 'h) ser \<Rightarrow> bool \<times> ('d, 'b, 'h) ser" where
  "serialEnqueueRtCommand env = port_enqueue_rt env 0"

definition serialSetRtHandler :: "('d, 'b, 'h) uart_env \<Rightarrow> 'h option \<Rightarrow> ('d, 'b, 'h) ser \<Rightarrow> 'h option \<times> ('d, 'b, 'h) ser" where
  "serialSetRtHandler env = port_set_rt_handler 0"

definition serialStream :: "('d, 'b, 'h) uart_env \<Rightarrow> ('d, 'b, 'h) io_stream" where
  "serialStream env = \<lparr>st_instance = 0, read_char = serialRead env, write_str = serialWriteS env,
     write_n = serialWrite env, write_char = serialPutC env, enqueue_rt_command = serialEnqueueRtCommand env,
     get_rx_buffer_free = serialRXFree env, get_rx_buffer_count = serialAvailable env,
     get_tx_buffer_count = serialTxCount env, reset_write_buffer = serialTxFlush env,
     reset_read_buffer = serialFlush env, cancel_read_buffer = serialCancel env,
     suspend_read = serialSuspendInput env, set_baud_rate = serialSetBaudRate env,
     set_format = serialSetFormat env, disable_rx = serialDisable env,
     set_enqueue_rt_handler = serialSetRtHandler env\<rparr>"

definition serialInit :: "('d, 'b, 'h) uart_env \<Rightarrow> u32 \<Rightarrow> ('d, 'b, 'h) ser \<Rightarrow>
    ('d, 'b, 'h) io_stream option \<times> ('d, 'b, 'h) ser" where
  "serialInit env baud_rate s =
     (case port_init env 0 True baud_rate s of
        (ok, s) \<Rightarrow> (if ok then Some (serialStream env) else None, s))"

subsection \<open>UART 1\<close>

definition uart1_isr :: "('d, 'b, 'h) uart_env \<Rightarrow> ('d, 'b, 'h) ser \<Rightarrow> ('d, 'b, 'h) ser" where
  "uart1_isr env = port_isr env 1"

definition serial1Available :: "('d, 'b, 'h) uart_env \<Rightarrow> ('d, 'b, 'h) ser \<Rightarrow> u16" where
  "serial1Available env = port_available env 1"

definition serial1TxCount :: "('d, 'b, 'h) uart_env \<Rightarrow> ('d, 'b, 'h) ser \<Rightarrow> u16 \<times> ('d, 'b, 'h) ser" where
  "serial1TxCount env = (if UART1_TX_PIN env = None then (\<lambda>s. (0, s)) else port_tx_count env 1)"

definition serial1RXFree :: "('d, 'b, 'h) uart_env \<Rightarrow> ('d, 'b, 'h) ser \<Rightarrow> u16" where
  "serial1RXFree env = port_rx_free env 1"

definition serial1Read :: "('d, 'b, 'h) uart_env \<Rightarrow> ('d, 'b, 'h) ser \<Rightarrow> int \<times> ('d, 'b, 'h) ser" where
  "serial1Read env = port_read env 1"

definition serial1PutC :: "('d, 'b, 'h) uart_env \<Rightarrow> u8 \<Rightarrow> ('d, 'b, 'h) ser \<Rightarrow> (bool \<times> ('d, 'b, 'h) ser) option" where
  "serial1PutC env = (if UART1_TX_PIN env = None then (\<lambda>c s. Some (True, s)) else port_putc env 1)"

definition serial1WriteS :: "('d, 'b, 'h) uart_env \<Rightarrow> u8 list \<Rightarrow> ('d, 'b, 'h) ser \<Rightarrow> ('d, 'b, 'h) ser option" where
  "serial1WriteS env = (if UART1_TX_PIN env = None then (\<lambda>data s. Some s) else port_write_s env 1)"

definition serial1Write :: "('d, 'b, 'h) uart_env \<Rightarrow> u8 list \<Rightarrow> ('d, 'b, 'h) ser \<Rightarrow> ('d, 'b, 'h) ser option" where
  "serial1Write env = (if UART1_TX_PIN env = None then (\<lambda>data s. Some s) else port_write env 1)"

definition serial1Flush :: "('d, 'b, 'h) uart_env \<Rightarrow> ('d, 'b, 'h) ser \<Rightarrow> ('d, 'b, 'h) ser" where
  "serial1Flush env = port_flush env 1"

definition serial1TxFlush :: "('d, 'b, 'h) uart_env \<Rightarrow> ('d, 'b, 'h) ser \<Rightarrow> ('d, 'b, 'h) ser option" where
  "serial1TxFlush env = (if UART1_TX_PIN env = None then Some else port_tx_flush env 1)"

definition serial1Cancel :: "('d, 'b, 'h) uart_env \<Rightarrow> ('d, 'b, 'h) ser \<Rightarrow> ('d, 'b, 'h) ser" where
  "serial1Cancel env = port_cancel env 1"

definition serial1SuspendInput :: "('d, 'b, 'h) uart_env \<Rightarrow> bool \<Rightarrow> ('d, 'b, 'h) ser \<Rightarrow> bool \<times> ('d, 'b, 'h) ser" where
  "serial1SuspendInput env = port_suspend env 1"

definition serial1Disable :: "('d, 'b, 'h) uart_env \<Rightarrow> bool \<Rightarrow> ('d, 'b, 'h) ser \<Rightarrow> (bool \<times> ('d, 'b, 'h) ser) option" where
  "serial1Disable env = port_disable env 1"

definition serial1SetBaudRate :: "('d, 'b, 'h) uart_env \<Rightarrow> u32 \<Rightarrow> ('d, 'b, 'h) ser \<Rightarrow> bool \<times> ('d, 'b, 'h) ser" where
  "serial1SetBaudRate env = port_set_baud_rate env 1"

definition serial1SetFormat :: "('d, 'b, 'h) uart_env \<Rightarrow> serial_format \<Rightarrow> ('d, 'b, 'h) ser \<Rightarrow> bool \<times> ('d, 'b, 'h) ser" where
  "serial1SetFormat env = port_set_format env 1"

definition serial1EnqueueRtCommand :: "('d, 'b, 'h) uart_env \<Rightarrow> u8 \<Rightarrow> ('d, 'b, 'h) ser \<Rightarrow> bool \<times> ('d, 'b, 'h) ser" where
  "serial1EnqueueRtCommand env = port_enqueue_rt env 1"

definition serial1SetRtHandler :: "('d, 'b, 'h) uart_env \<Rightarrow> 'h option \<Rightarrow> ('d, 'b, 'h) ser \<Rightarrow> 'h option \<times> ('d, 'b, 'h) ser" where
  "serial1SetRtHandler env = port_set_rt_handler 1"

definition serial1Stream :: "('d, 'b, 'h) uart_env \<Rightarrow> ('d, 'b, 'h) io_stream" where
  "serial1Stream env = \<lparr>st_instance = 1, read_char = serial1Read env, write_str = serial1WriteS env,
     write_n = serial1Write env, write_char = serial1PutC env, enqueue_rt_command = serial1EnqueueRtCommand env,
     get_rx_buffer_free = serial1RXFree env, get_rx_buffer_count = serial1Available env,
     get_tx_buffer_count = serial1TxCount env, reset_write_buffer = serial1TxFlush env,
     reset_read_buffer = serial1Flush env, cancel_read_buffer = serial1Cancel env,
     suspend_read = serial1SuspendInput env, set_baud_rate = serial1SetBaudRate env,
     set_format = serial1SetFormat env, disable_rx = serial1Disable env,
     set_enqueue_rt_handler = serial1SetRtHandler env\<rparr>"

definition serial1Init :: "('d, 'b, 'h) uart_env \<Rightarrow> u32 \<Rightarrow> ('d, 'b, 'h) ser \<Rightarrow>
    ('d, 'b, 'h) io_stream option \<times> ('d, 'b, 'h) ser" where
  "serial1Init env baud_rate s =
     (case port_init env 1 True baud_rate s of
        (ok, s) \<Rightarrow> (if ok then Some (serial1Stream env) else None, s))"

subsection \<open>UART 2\<close>

definition uart2_isr :: "('d, 'b, 'h) uart_env \<Rightarrow> ('d, 'b, 'h) ser \<Rightarrow> ('d, 'b, 'h) ser" where
  "uart2_isr env = port_isr env 2"

definition serial2Available :: "('d, 'b, 'h) uart_env \<Rightarrow> ('d, 'b, 'h) ser \<Rightarrow> u16" where
  "serial2Available env = port_available env 2"

definition serial2TxCount :: "('d, 'b, 'h) uart_env \<Rightarrow> ('d, 'b, 'h) ser \<Rightarrow> u16 \<times> ('d, 'b, 'h) ser" where
  "serial2TxCount env = port_tx_count env 2"

definition serial2RXFree :: "('d, 'b, 'h) uart_env \<Rightarrow> ('d, 'b, 'h) ser \<Rightarrow> u16" where
  "serial2RXFree env = port_rx_free env 2"

definition serial2Read :: "('d, 'b, 'h) uart_env \<Rightarrow> ('d, 'b, 'h) ser \<Rightarrow> int \<times> ('d, 'b, 'h) ser" where
  "serial2Read env = port_read env 2"

definition serial2PutC :: "('d, 'b, 'h) uart_env \<Rightarrow> u8 \<Rightarrow> ('d, 'b, 'h) ser \<Rightarrow> (bool \<times> ('d, 'b, 'h) ser) option" where
  "serial2PutC env = port_putc env 2"

definition serial2WriteS :: "('d, 'b, 'h) uart_env \<Rightarrow> u8 list \<Rightarrow> ('d, 'b, 'h) ser \<Rightarrow> ('d, 'b, 'h) ser option" where
  "serial2WriteS env = port_write_s env 2"

definition serial2Write :: "('d, 'b, 'h) uart_env \<Rightarrow> u8 list \<Rightarrow> ('d, 'b, 'h) ser \<Rightarrow> ('d, 'b, 'h) ser option" where
  "serial2Write env = port_write env 2"

definition serial2Flush :: "('d, 'b, 'h) uart_env \<Rightarrow> ('d, 'b, 'h) ser \<Rightarrow> ('d, 'b, 'h) ser" where
  "serial2Flush env = port_flush env 2"

definition serial2TxFlush :: "('d, 'b, 'h) uart_env \<Rightarrow> ('d, 'b, 'h) ser \<Rightarrow> ('d, 'b, 'h) ser option" where
  "serial2TxFlush env = port_tx_flush env 2"

definition serial2Cancel :: "('d, 'b, 'h) uart_env \<Rightarrow> ('d, 'b, 'h) ser \<Rightarrow> ('d, 'b, 'h) ser" where
  "serial2Cancel env = port_cancel env 2"

definition serial2SuspendInput :: "('d, 'b, 'h) uart_env \<Rightarrow> bool \<Rightarrow> ('d, 'b, 'h) ser \<Rightarrow> bool \<times> ('d, 'b, 'h) ser" where
  "serial2SuspendInput env = port_suspend env 2"

definition serial2Disable :: "('d, 'b, 'h) uart_env \<Rightarrow> bool \<Rightarrow> ('d, 'b, 'h) ser \<Rightarrow> (bool \<times> ('d, 'b, 'h) ser) option" where
  "serial2Disable env = port_disable env 2"

definition serial2SetBaudRate :: "('d, 'b, 'h) uart_env \<Rightarrow> u32 \<Rightarrow> ('d, 'b, 'h) ser \<Rightarrow> bool \<times> ('d, 'b, 'h) ser" where
  "serial2SetBaudRate env = port_set_baud_rate env 2"

definition serial2SetFormat :: "('d, 'b, 'h) uart_env \<Rightarrow> serial_format \<Rightarrow> ('d, 'b, 'h) ser \<Rightarrow> bool \<times> ('d, 'b, 'h) ser" where
  "serial2SetFormat env = port_set_format env 2"

definition serial2EnqueueRtCommand :: "('d, 'b, 'h) uart_env \<Rightarrow> u8 \<Rightarrow> ('d, 'b, 'h) ser \<Rightarrow> bool \<times> ('d, 'b, 'h) ser" where
  "serial2EnqueueRtCommand env = port_enqueue_rt env 2"

definition serial2SetRtHandler :: "('d, 'b, 'h) uart_env \<Rightarrow> 'h option \<Rightarrow> ('d, 'b, 'h) ser \<Rightarrow> 'h option \<times> ('d, 'b, 'h) ser" where
  "serial2SetRtHandler env = port_set_rt_handler 2"

definition serial2Stream :: "('d, 'b, 'h) uart_env \<Rightarrow> ('d, 'b, 'h) io_stream" where
  "serial2Stream env = \<lparr>st_instance = 2, read_char = serial2Read env, write_str = serial2WriteS env,
     write_n = serial2Write env, write_char = serial2PutC env, enqueue_rt_command = serial2EnqueueRtCommand env,
     get_rx_buffer_free = serial2RXFree env, get_rx_buffer_count = serial2Available env,
     get_tx_buffer_count = serial2TxCount env, reset_write_buffer = serial2TxFlush env,
     reset_read_buffer = serial2Flush env, cancel_read_buffer = serial2Cancel env,
     suspend_read = serial2SuspendInput env, set_baud_rate = serial2SetBaudRate env,
     set_format = serial2SetFormat env, disable_rx = serial2Disable env,
     set_enqueue_rt_handler = serial2SetRtHandler env\<rparr>"

definition serial2Init :: "('d, 'b, 'h) uart_env \<Rightarrow> u32 \<Rightarrow> ('d, 'b, 'h) ser \<Rightarrow>
    ('d, 'b, 'h) io_stream option \<times> ('d, 'b, 'h) ser" where
  "serial2Init env baud_rate s =
     (case port_init env 2 (UART2_TX_PIN env \<noteq> None) baud_rate s of
        (ok, s) \<Rightarrow> (if ok then Some (serial2Stream env) else None, s))"

lemmas uart0_defs =
  uart0_isr_def serialAvailable_def serialTxCount_def serialRXFree_def serialRead_def
  serialPutC_def serialWriteS_def serialWrite_def serialFlush_def serialTxFlush_def
  serialCancel_def serialSuspendInput_def serialDisable_def serialSetBaudRate_def
  serialSetFormat_def serialEnqueueRtCommand_def serialSetRtHandler_def serialStream_def
  serialInit_def

lemmas uart1_defs =
  uart1_isr_def serial1Available_def serial1TxCount_def serial1RXFree_def serial1Read_def
  serial1PutC_def serial1WriteS_def serial1Write_def serial1Flush_def serial1TxFlush_def
  serial1Cancel_def serial1SuspendInput_def serial1Disable_def serial1SetBaudRate_def
  serial1SetFormat_def serial1EnqueueRtCommand_def serial1SetRtHandler_def serial1Stream_def
  serial1Init_def

lemmas uart2_defs =
  uart2_isr_def serial2Available_def serial2TxCount_def serial2RXFree_def serial2Read_def
  serial2PutC_def serial2WriteS_def serial2Write_def serial2Flush_def serial2TxFlush_def
  serial2Cancel_def serial2SuspendInput_def serial2Disable_def serial2SetBaudRate_def
  serial2SetFormat_def serial2EnqueueRtCommand_def serial2SetRtHandler_def serial2Stream_def
  serial2Init_def

subsection \<open>Frame facts\<close>

lemma sr_ports_hw_update [simp]: "sr_ports (s\<lparr>sr_hw := d\<rparr>) = sr_ports s"
  by simp

lemma read_rxfifo_ports [frame_simps]: "sr_ports (snd (uart_ll_read_rxfifo env hw s)) = sr_ports s"
  by (simp add: uart_ll_read_rxfifo_def split: prod.split)

lemma write_txfifo_ports [frame_simps]: "sr_ports (uart_ll_write_txfifo env hw c s) = sr_ports s"
  by (simp add: uart_ll_write_txfifo_def)

lemma txfifo_count_ports [frame_simps]:
  "sr_ports (snd (uart_ll_get_txfifo_count env hw s)) = sr_ports s"
  by (simp add: uart_ll_get_txfifo_count_def split: prod.split)

lemma set_baud_ports [frame_simps]: "sr_ports (uartSetBaudRate env u b s) = sr_ports s"
  by (simp add: uartSetBaudRate_def)

lemma set_format_ports [frame_simps]: "sr_ports (uartSetFormat env u f s) = sr_ports s"
  by (simp add: uartSetFormat_def)

lemma config_ports [frame_simps]: "sr_ports (uartConfig env u b s) = sr_ports s"
  by (simp add: uartConfig_def Let_def frame_simps)

lemma enable_intr_flags [frame_simps]:
  "length (sr_ports (uartEnableInterrupt env i rx s)) = length (sr_ports s) \<and>
   (i < length (sr_ports s) \<longrightarrow>
     pt_flags (port_of (uartEnableInterrupt env i rx s) j) = pt_flags (port_of s j))"
  by (simp add: uartEnableInterrupt_def Let_def split: prod.split)

subsection \<open>The receive interrupt\<close>



definition ser_ok :: "('d, 'b, 'h) uart_env \<Rightarrow> ('d, 'b, 'h) ser \<Rightarrow> bool" where
  "ser_ok env s \<longleftrightarrow> length (sr_ports s) = 3 \<and>
     (\<forall>i < 3. ring_inv (RX_BUFFER_SIZE env) (ring_of s i))"


lemma list_update_same_index: "i < length xs \<Longrightarrow> xs[i := f (xs ! i)] ! j = (if j = i then f (xs ! i) else xs ! j)"
  by simp



subsection \<open>A concrete environment\<close>

text \<open>
  An instance of the environment for the witnesses: per UART the bytes received, the bytes
  sent and the fill level of the transmit FIFO; \<open>?\<close> (63) is a real-time command, each call of
  the blocking callback lets one byte out, and the number of interrupt allocations is counted.
\<close>

record demo_hw =
  dm_rx :: "nat \<Rightarrow> u8 list"
  dm_sent :: "nat \<Rightarrow> u8 list"
  dm_level :: "nat \<Rightarrow> nat"
  dm_intr :: nat

definition demo_env :: "(demo_hw, unit, unit) uart_env" where
  "demo_env = \<lparr>RX_BUFFER_SIZE = 8, BUFCOUNT = bufcount0, ASCII_CAN = 24, TARGET_S3 = False,
     UART_TX_PIN = 35, UART_RX_PIN = 34, UART1_TX_PIN = Some 17, UART1_RX_PIN = 16,
     UART2_TX_PIN = Some 4, UART2_RX_PIN = 5, SOC_UART_FIFO_LEN = 2, UART_INTR_RXFIFO_OVF = 16,
     rx_int_flags = 279,
     uart_ll_set_mode_uart = (\<lambda>_ d. d), uart_ll_set_baudrate = (\<lambda>_ _ d. d),
     uart_ll_set_data_bit_num_8 = (\<lambda>_ d. d), uart_ll_set_stop_bits_1 = (\<lambda>_ d. d),
     uart_ll_set_parity = (\<lambda>_ _ d. d), uart_set_pin = (\<lambda>_ _ _ d. d),
     periph_module_reset = (\<lambda>_ d. d), periph_module_enable = (\<lambda>_ d. d),
     dport_set_clk_en = (\<lambda>_ d. d), dport_clear_rst = (\<lambda>_ d. d),
     esp_intr_alloc = (\<lambda>n _ d. (Some n, d\<lparr>dm_intr := dm_intr d + 1\<rparr>)),
     uart_ll_set_rxfifo_full_thr = (\<lambda>_ _ d. d), uart_ll_set_rx_tout = (\<lambda>_ _ d. d),
     uart_ll_clr_intsts_mask = (\<lambda>_ _ d. d), uart_ll_ena_intr_mask = (\<lambda>_ _ d. d),
     uart_ll_disable_intr_mask = (\<lambda>_ _ d. d), uart_ll_txfifo_rst = (\<lambda>_ d. d),
     uart_ll_rxfifo_rst = (\<lambda>_ d. d), uart_ll_is_tx_idle = (\<lambda>_ d. (True, d)),
     uart_ll_get_rxfifo_len = (\<lambda>u d. length (dm_rx d (the u))),
     uart_ll_get_intsts_mask = (\<lambda>_ d. 0),
     read_fifo_reg = (\<lambda>i d. (hd (dm_rx d i), d\<lparr>dm_rx := (dm_rx d)(i := tl (dm_rx d i))\<rparr>)),
     write_fifo_ahb_reg = (\<lambda>i c d. d\<lparr>dm_sent := (dm_sent d)(i := dm_sent d i @ [c]),
        dm_level := (dm_level d)(i := dm_level d i + 1)\<rparr>),
     txfifo_cnt_field = (\<lambda>u d. (dm_level d (the u), d)),
     call_enqueue = (\<lambda>_ c s. (c = 63, s)),
     stream_blocking_callback = (\<lambda>s. (True, s\<lparr>sr_hw := (sr_hw s)\<lparr>dm_level :=
        (\<lambda>i. dm_level (sr_hw s) i - 1)\<rparr>\<rparr>)),
     stream_rx_suspend = (\<lambda>b rb. (True, rb)), stream_set_defaults = (\<lambda>_ _ s. s),
     register_pin = (\<lambda>_ s. s), stream_register_streams = (\<lambda>s. s)\<rparr>"

definition demo_port :: "nat \<Rightarrow> (unit, unit) port" where
  "demo_port i = \<lparr>pt_uart = uart_bus_array demo_env i,
     pt_rx = \<lparr>rb_head = 1, rb_tail = 0, rb_overflow = False, rb_data = replicate 8 65, rb_rest = ()\<rparr>,
     pt_enqueue = Some (), pt_status = stream_status_init, pt_flags = serial_flags_init demo_env i\<rparr>"

definition demo_state :: "(demo_hw, unit, unit) ser" where
  "demo_state = \<lparr>sr_hw = \<lparr>dm_rx = (\<lambda>_. [])(1 := [71, 63, 49]), dm_sent = (\<lambda>_. []),
     dm_level = (\<lambda>_. 1), dm_intr = 0\<rparr>,
     sr_ports = [demo_port 0, demo_port 1, demo_port 2]\<rparr>"



lemma demo_ser_ok: "ser_ok demo_env demo_state"
proof -
  have "ring_inv 8 (ring_of demo_state j)" if "j < 3" for j
  proof -
    from that have "j = 0 \<or> j = 1 \<or> j = 2" by auto
    then show ?thesis
      by (elim disjE) (simp_all add: demo_state_def demo_port_def ring_inv_def ring_size_ok_def)
  qed
  then show ?thesis by (simp add: ser_ok_def demo_env_def demo_state_def)
qed


subsection \<open>Transmission\<close>







subsection \<open>The contract of the three streams\<close>

definition uart_stream :: "('d, 'b, 'h) uart_env \<Rightarrow> nat \<Rightarrow> ('d, 'b, 'h) io_stream" where
  "uart_stream env i = (if i = 0 then serialStream env else if i = 1 then serial1Stream env else serial2Stream env)"

lemma lt3_cases: "i < (3::nat) \<Longrightarrow> (i = 0 \<Longrightarrow> P) \<Longrightarrow> (i = 1 \<Longrightarrow> P) \<Longrightarrow> (i = 2 \<Longrightarrow> P) \<Longrightarrow> P"
  by linarith

lemma uart_stream_sel:
  assumes "i < 3"
  shows "read_char (uart_stream env i) = port_read env i"
    "reset_read_buffer (uart_stream env i) = port_flush env i"
    "cancel_read_buffer (uart_stream env i) = port_cancel env i"
    "get_rx_buffer_count (uart_stream env i) = port_available env i"
    "get_rx_buffer_free (uart_stream env i) = port_rx_free env i"
    "suspend_read (uart_stream env i) = port_suspend env i"
    "set_baud_rate (uart_stream env i) = port_set_baud_rate env i"
    "set_format (uart_stream env i) = port_set_format env i"
    "disable_rx (uart_stream env i) = port_disable env i"
    "set_enqueue_rt_handler (uart_stream env i) = port_set_rt_handler i"
  using assms by (elim lt3_cases; simp add: uart_stream_def uart0_defs uart1_defs uart2_defs)+

lemma port_read_ok:
  assumes "ser_ok env s" "i < 3"
  shows "ser_ok env (snd (port_read env i s))"
    and "ring_contents (RX_BUFFER_SIZE env) (ring_of (snd (port_read env i s)) i) =
      tl (ring_contents (RX_BUFFER_SIZE env) (ring_of s i))"
    and "fst (port_read env i s) = (case ring_contents (RX_BUFFER_SIZE env) (ring_of s i) of
      [] \<Rightarrow> - 1 | c # cs \<Rightarrow> int (unat c))"
proof -
  let ?N = "RX_BUFFER_SIZE env"
  have inv: "ring_inv ?N (ring_of s i)" and len: "length (sr_ports s) = 3"
    using assms by (simp_all add: ser_ok_def)
  obtain v rb where rd: "ring_read ?N (ring_of s i) = (v, rb)" by fastforce
  have p: "port_read env i s = (v, set_ring i (\<lambda>_. rb) s)" by (simp add: port_read_def rd)
  have "ring_inv ?N rb" using ring_read_inv [OF inv] rd by simp
  then show "ser_ok env (snd (port_read env i s))" using assms p by (simp add: ser_ok_def)
  have "ring_contents ?N rb = tl (ring_contents ?N (ring_of s i)) \<and>
      v = (case ring_contents ?N (ring_of s i) of [] \<Rightarrow> - 1 | c # cs \<Rightarrow> int (unat c))"
    using ring_read_empty [OF inv] ring_read_cons [OF inv] rd
    by (cases "ring_contents ?N (ring_of s i)") auto
  then show "ring_contents ?N (ring_of (snd (port_read env i s)) i) = tl (ring_contents ?N (ring_of s i))"
    and "fst (port_read env i s) = (case ring_contents ?N (ring_of s i) of [] \<Rightarrow> - 1 | c # cs \<Rightarrow> int (unat c))"
    using p assms len by simp_all
qed

text \<open>
   The input half of the stream table of each port, on the bytes waiting in its ring: \<open>read\<close>
  takes the oldest byte or returns -1 and takes none, \<open>get_rx_buffer_count\<close> and
  \<open>get_rx_buffer_free\<close> report their number and the room left, \<open>reset_read_buffer\<close> drops them
  all and clears the overflow flag, and \<open>cancel_read_buffer\<close> leaves the cancel character alone.
\<close>

theorem uart_stream_input_contract:
  assumes "ser_ok env s" "bufcount_ok (BUFCOUNT env)" "i < 3"
  defines "st \<equiv> uart_stream env i" and "N \<equiv> RX_BUFFER_SIZE env"
  shows "fst (read_char st s) = (case ring_contents N (ring_of s i) of [] \<Rightarrow> - 1 | c # cs \<Rightarrow> int (unat c)) \<and>
    ring_contents N (ring_of (snd (read_char st s)) i) = tl (ring_contents N (ring_of s i)) \<and>
    unat (get_rx_buffer_count st s) = length (ring_contents N (ring_of s i)) \<and>
    unat (get_rx_buffer_free st s) = N - 1 - length (ring_contents N (ring_of s i)) \<and>
    ring_contents N (ring_of (reset_read_buffer st s) i) = [] \<and>
    \<not> rb_overflow (ring_of (reset_read_buffer st s) i) \<and>
    ring_contents N (ring_of (cancel_read_buffer st s) i) = [ASCII_CAN env] \<and>
    ser_ok env (snd (read_char st s)) \<and> ser_ok env (reset_read_buffer st s) \<and>
    ser_ok env (cancel_read_buffer st s)"
proof -
  have inv: "ring_inv N (ring_of s i)" and len: "length (sr_ports s) = 3"
    and all: "\<And>j. j < 3 \<Longrightarrow> ring_inv N (ring_of s j)"
    using assms(1,3) by (simp_all add: ser_ok_def N_def)
  have "ser_ok env (port_flush env i s)" "ser_ok env (port_cancel env i s)"
    using all len assms(3)
    by (simp_all add: ser_ok_def N_def port_flush_def port_cancel_def ring_flush_inv ring_cancel_inv)
  moreover have "ring_of (port_flush env i s) i = ring_flush (ring_of s i)"
    "ring_of (port_cancel env i s) i = ring_cancel N (ASCII_CAN env) (ring_of s i)"
    using len assms(3) by (simp_all add: port_flush_def port_cancel_def N_def)
  moreover have "\<not> rb_overflow (ring_flush (ring_of s i))" by (simp add: ring_flush_def)
  ultimately show ?thesis
    using port_read_ok [OF assms(1,3)] ring_counts_exact [OF assms(2) inv] ring_cancel_contents [OF inv]
    by (simp add: st_def N_def uart_stream_sel [OF assms(3)] port_available_def port_rx_free_def)
qed

theorem uart_stream_input_contract_witness:
  "fst (serial2Read demo_env demo_state) = 65 \<and>
   ring_contents 8 (ring_of (serial2Cancel demo_env demo_state) 2) = [24]"
proof -
  have "bufcount_ok (BUFCOUNT demo_env)" by (simp add: demo_env_def bufcount0_ok)
  moreover have "uart_stream demo_env 2 = serial2Stream demo_env" by (simp add: uart_stream_def)
  moreover have "ring_contents 8 (ring_of demo_state 2) = [65]" by code_simp
  moreover have "RX_BUFFER_SIZE demo_env = 8" "ASCII_CAN demo_env = 24" by (simp_all add: demo_env_def)
  ultimately show ?thesis
    using uart_stream_input_contract [OF demo_ser_ok, of 2] by (simp add: serial2Stream_def)
qed

subsection \<open>Claiming and releasing a port\<close>

datatype claim_op = Claim u32 | Release

fun claim_step ::
    "('d, 'b, 'h) uart_env \<Rightarrow> nat \<Rightarrow> bool \<Rightarrow> claim_op \<Rightarrow> ('d, 'b, 'h) ser \<Rightarrow> bool \<times> ('d, 'b, 'h) ser" where
  "claim_step env i rx (Claim baud_rate) s = port_init env i rx baud_rate s"
| "claim_step env i rx Release s = uart_release i s"

fun run_claims ::
    "('d, 'b, 'h) uart_env \<Rightarrow> nat \<Rightarrow> bool \<Rightarrow> claim_op list \<Rightarrow> ('d, 'b, 'h) ser \<Rightarrow>
     int \<times> ('d, 'b, 'h) ser" where
  \<comment> \<open>the claims that were granted less the releases that were accepted\<close>
  "run_claims env i rx [] s = (0, s)"
| "run_claims env i rx (op # ops) s =
     (case claim_step env i rx op s of
        (ok, s) \<Rightarrow>
          (case run_claims env i rx ops s of
             (n, s) \<Rightarrow> (n + (if ok then (case op of Claim _ \<Rightarrow> 1 | Release \<Rightarrow> - 1) else 0), s)))"

definition defaults_keep_flags :: "('d, 'b, 'h) uart_env \<Rightarrow> bool" where
  \<comment> \<open>\<open>stream_set_defaults\<close> sets up the stream through its table, which has no way to claim it\<close>
  "defaults_keep_flags env \<longleftrightarrow>
     (\<forall>i b s. map pt_flags (sr_ports (stream_set_defaults env i b s)) = map pt_flags (sr_ports s))"

lemma defaults_keep_flagsD:
  assumes "defaults_keep_flags env"
  shows "length (sr_ports (stream_set_defaults env i b s)) = length (sr_ports s)"
    and "j < length (sr_ports s) \<Longrightarrow>
      pt_flags (port_of (stream_set_defaults env i b s) j) = pt_flags (port_of s j)"
proof -
  have eq: "map pt_flags (sr_ports (stream_set_defaults env i b s)) = map pt_flags (sr_ports s)"
    using assms unfolding defaults_keep_flags_def by blast
  show len: "length (sr_ports (stream_set_defaults env i b s)) = length (sr_ports s)"
    using arg_cong [OF eq, of length] by simp
  show "j < length (sr_ports s) \<Longrightarrow>
      pt_flags (port_of (stream_set_defaults env i b s) j) = pt_flags (port_of s j)"
    using arg_cong [OF eq, of "\<lambda>xs. xs ! j"] len by simp
qed

lemma port_init_flags:
  assumes "defaults_keep_flags env" "length (sr_ports s) = 3" "i < 3"
  shows "fst (port_init env i rx b s) \<longleftrightarrow> \<not> claimed (pt_flags (port_of s i))"
    and "length (sr_ports (snd (port_init env i rx b s))) = 3"
    and "claimed (pt_flags (port_of (snd (port_init env i rx b s)) i))"
    and "fst (port_init env i rx b s) \<Longrightarrow> init_ok (pt_flags (port_of (snd (port_init env i rx b s)) i))"
  using assms(2,3) defaults_keep_flagsD [OF assms(1)]
  by (cases "claimed (pt_flags (port_of s i))"; simp add: port_init_def Let_def frame_simps)+

lemma uart_release_flags:
  assumes "length (sr_ports s) = 3" "i < 3"
  shows "fst (uart_release i s) \<longleftrightarrow> claimed (pt_flags (port_of s i))"
    and "length (sr_ports (snd (uart_release i s))) = 3"
    and "\<not> claimed (pt_flags (port_of (snd (uart_release i s)) i))"
  using assms by (simp_all add: uart_release_def Let_def)

text \<open>
  A port has at most one owner: over any sequence of claims and releases the number of
  claims granted less the number of releases accepted is the change of the claimed flag, so a
  claim is granted exactly when every earlier one has been released.
\<close>

theorem uart_port_single_owner:
  assumes "defaults_keep_flags env" "length (sr_ports s) = 3" "i < 3"
  shows "fst (run_claims env i rx ops s) =
      of_bool (claimed (pt_flags (port_of (snd (run_claims env i rx ops s)) i))) -
      of_bool (claimed (pt_flags (port_of s i)))"
  using assms(2)
proof (induction ops arbitrary: s)
  case Nil
  then show ?case by simp
next
  case (Cons op ops)
  obtain ok s1 where st: "claim_step env i rx op s = (ok, s1)" by fastforce
  obtain n s2 where rest: "run_claims env i rx ops s1 = (n, s2)" by fastforce
  show ?case
  proof (cases op)
    case (Claim b)
    with port_init_flags [OF assms(1) Cons.prems assms(3), of rx b] st rest Cons.IH [of s1]
    show ?thesis by (auto split: if_splits)
  next
    case Release
    with uart_release_flags [OF Cons.prems assms(3)] st rest Cons.IH [of s1]
    show ?thesis by (auto split: if_splits)
  qed
qed

lemma demo_defaults: "defaults_keep_flags demo_env"
  by (simp add: defaults_keep_flags_def demo_env_def)

theorem uart_port_single_owner_witness:
  "fst (run_claims demo_env 1 True [Claim 115200, Claim 9600, Release, Claim 9600] demo_state) = 1"
proof -
  have "length (sr_ports demo_state) = 3" "\<not> claimed (pt_flags (port_of demo_state 1))"
    by (simp_all add: demo_state_def demo_port_def serial_flags_init_def no_flags_def Let_def)
  moreover have "claimed (pt_flags (port_of (snd (run_claims demo_env 1 True
      [Claim 115200, Claim 9600, Release, Claim 9600] demo_state)) 1))"
    by code_simp
  ultimately show ?thesis
    using uart_port_single_owner [OF demo_defaults, of demo_state 1 True]
    by (simp del: run_claims.simps)
qed

text \<open>
  The hardware of a port is set up by its first claim only: claiming a port that was
  initialised before marks it claimed and calls \<open>stream_set_defaults\<close>, nothing else, so the
  baud rate of a later claim reaches the UART only through that call; a refused claim changes
  nothing at all.
\<close>

theorem uart_claim_configures_once:
  assumes "length (sr_ports s) = 3" "i < 3" "init_ok (pt_flags (port_of s i))"
  shows "port_init env i rx b s =
     (if claimed (pt_flags (port_of s i)) then (False, s)
      else (True, stream_set_defaults env i b
        (set_port i (\<lambda>p. p\<lparr>pt_flags := (pt_flags p)\<lparr>claimed := True\<rparr>\<rparr>) s)))"
  using assms by (simp add: port_init_def Let_def)

theorem uart_claim_configures_once_witness:
  "dm_intr (sr_hw (snd (run_claims demo_env 1 True [Claim 115200, Release, Claim 9600] demo_state))) = 1"
proof -
  define s where "s = snd (run_claims demo_env 1 True [Claim 115200, Release] demo_state)"
  have "length (sr_ports s) = 3" "init_ok (pt_flags (port_of s 1))" "\<not> claimed (pt_flags (port_of s 1))"
    "dm_intr (sr_hw s) = 1"
    unfolding s_def by code_simp+
  moreover have "snd (run_claims demo_env 1 True [Claim 115200, Release, Claim 9600] demo_state) =
      snd (port_init demo_env 1 True 9600 s)"
    by (simp add: s_def case_prod_beta)
  moreover have "stream_set_defaults demo_env i b t = t" for i b and t :: "(demo_hw, unit, unit) ser"
    by (simp add: demo_env_def)
  ultimately show ?thesis
    using uart_claim_configures_once [of s 1 demo_env True 9600] by simp
qed

subsection \<open>Line format\<close>

text \<open>
  \<open>set_format\<close> records the whole format in the status of the port, but only its parity
  reaches the hardware: two formats with the same parity have the same effect on the UART,
  whatever their word width and stop bits, and the status then reports what the line does not do.
\<close>

theorem uart_set_format_parity_only:
  assumes "length (sr_ports s) = 3" "i < 3" "sf_parity f = sf_parity g"
  shows "sr_hw (snd (port_set_format env i f s)) = sr_hw (snd (port_set_format env i g s)) \<and>
    ss_format (fst (get_uart_status i (snd (port_set_format env i f s)))) = f"
  using assms
  by (simp add: port_set_format_def uartSetFormat_def get_uart_status_def Let_def frame_simps)

theorem uart_set_format_parity_only_witness:
  "ss_format (fst (get_uart_status 0 (snd (serialSetFormat demo_env
      (format_8N1\<lparr>sf_stopbits := Serial_StopBits2\<rparr>) demo_state)))) \<noteq> format_8N1 \<and>
   sr_hw (snd (serialSetFormat demo_env (format_8N1\<lparr>sf_stopbits := Serial_StopBits2\<rparr>) demo_state)) =
   sr_hw (snd (serialSetFormat demo_env format_8N1 demo_state))"
  using uart_set_format_parity_only [of demo_state 0 "format_8N1\<lparr>sf_stopbits := Serial_StopBits2\<rparr>"
      format_8N1 demo_env]
  by (simp add: serialSetFormat_def format_8N1_def demo_state_def)

end
