(* ===== verification/UsbSerial.thy ===== *)
theory UsbSerial
  imports StreamRing
begin

text \<open>
  \<open>main/usb_serial.c\<close>: the USB stream.  Its receive side is a receive ring like that of the UARTs;
  its transmit side collects strings in a block buffer and writes the block when a line is
  complete or the block is nearly full.  The TinyUSB stack and the grbl core are the record
  \<open>usb_env\<close> over a device state \<open>'d\<close>; \<open>BUFNEXT\<close>, \<open>BUFCOUNT\<close> and the sizes are declared in the
  core.  The pointer \<open>txbuf.s\<close> is an offset into \<open>txbuf.data\<close>.
\<close>

subsection \<open>State and environment\<close>

record ('d, 'b, 'h) usb =
  tx_s :: nat
  tx_length :: nat
  tx_max_length :: nat
  tx_data :: "u8 list"
  usb_rx :: "'b rx_buffer"
  usb_enqueue :: "'h"
  usb_dev :: 'd

record ('d, 'b, 'h) usb_env =
  USB_RX_SIZE :: nat            \<comment> \<open>\<open>RX_BUFFER_SIZE\<close>\<close>
  BLOCK_TX_BUFFER_SIZE :: nat
  CFG_TUD_CDC_TX_BUFSIZE :: nat
  CDC_RX_BUFSIZE :: nat         \<comment> \<open>\<open>CONFIG_TINYUSB_CDC_RX_BUFSIZE\<close>\<close>
  CMD_RESET :: u8
  usb_BUFCOUNT :: "nat \<Rightarrow> nat \<Rightarrow> nat \<Rightarrow> nat"
  BUFNEXT :: "u16 \<Rightarrow> u16"
  tud_ready :: "'d \<Rightarrow> bool"
  tud_cdc_n_connected :: "'d \<Rightarrow> bool"
  write_available :: "'d \<Rightarrow> nat"      \<comment> \<open>\<open>tud_cdc_n_write_available\<close>, \<open>tud_cdc_write_available\<close>\<close>
  write_queue :: "u8 list \<Rightarrow> 'd \<Rightarrow> nat \<times> 'd"   \<comment> \<open>\<open>tinyusb_cdcacm_write_queue\<close>: the bytes taken\<close>
  write_flush :: "'d \<Rightarrow> bool \<times> 'd"  \<comment> \<open>\<open>tinyusb_cdcacm_write_flush\<close>: whether it timed out\<close>
  cdcacm_read :: "nat \<Rightarrow> 'd \<Rightarrow> u8 list option \<times> 'd"  \<comment> \<open>\<open>None\<close>: not \<open>ESP_OK\<close>\<close>
  usb_blocking_callback :: "('d, 'b, 'h) usb \<Rightarrow> bool \<times> ('d, 'b, 'h) usb"
  usb_call_enqueue :: "'h \<Rightarrow> u8 \<Rightarrow> ('d, 'b, 'h) usb \<Rightarrow> bool \<times> ('d, 'b, 'h) usb"
  usb_rx_suspend :: "bool \<Rightarrow> 'b rx_buffer \<Rightarrow> bool \<times> 'b rx_buffer"
  linestate_changed :: "bool \<Rightarrow> bool \<Rightarrow> ('d, 'b, 'h) usb \<Rightarrow> ('d, 'b, 'h) usb"
  driver_install :: "'d \<Rightarrow> 'd"   \<comment> \<open>\<open>tinyusb_driver_install\<close>, \<open>tusb_cdc_acm_init\<close>\<close>

subsection \<open>Output\<close>

partial_function (option) out_chars_loop ::
    "('d, 'b, 'h) usb_env \<Rightarrow> u8 list \<Rightarrow> 'd \<Rightarrow> 'd option" where
  \<comment> \<open>the bytes from \<open>buf + i\<close> on are still to be sent\<close>
  "out_chars_loop env buf d =
     (if buf = [] then Some d
      else
        let n = min (length buf) (write_available env d) in
        if n \<noteq> 0
        then (case write_queue env (take n buf) d of
                (n2, d) \<Rightarrow> out_chars_loop env (drop n2 buf) (snd (write_flush env d)))
        else (case write_flush env d of
                (timeout, d) \<Rightarrow> if timeout then Some d else out_chars_loop env buf d))"

definition usb_out_chars :: "('d, 'b, 'h) usb_env \<Rightarrow> u8 list \<Rightarrow> 'd \<Rightarrow> 'd option" where
  "usb_out_chars env buf d = (if tud_ready env d then out_chars_loop env buf d else Some d)"

definition usb_is_connected :: "('d, 'b, 'h) usb_env \<Rightarrow> ('d, 'b, 'h) usb \<Rightarrow> bool" where
  "usb_is_connected env u = tud_cdc_n_connected env (usb_dev u)"

partial_function (option) usb_write_loop ::
    "('d, 'b, 'h) usb_env \<Rightarrow> ('d, 'b, 'h) usb \<Rightarrow> (bool \<times> ('d, 'b, 'h) usb) option" where
  "usb_write_loop env u =
     (if tx_length u = 0 then Some (True, u\<lparr>tx_s := 0\<rparr>)
      else
        let txfree = write_available env (usb_dev u) in
        case (if txfree > 10
              then
                let len = (if txfree < tx_length u then txfree else tx_length u) in
                map_option (\<lambda>d. u\<lparr>usb_dev := d, tx_length := tx_length u - len, tx_s := tx_s u + len\<rparr>)
                  (usb_out_chars env (take len (drop (tx_s u) (tx_data u))) (usb_dev u))
              else Some u) of
          None \<Rightarrow> None
        | Some u \<Rightarrow>
            if tx_length u \<noteq> 0
            then (case usb_blocking_callback env u of
                    (go_on, u) \<Rightarrow>
                      if go_on then usb_write_loop env u
                      else Some (False, u\<lparr>tx_length := 0, tx_s := 0\<rparr>))
            else usb_write_loop env u)"

definition usb_write :: "('d, 'b, 'h) usb_env \<Rightarrow> ('d, 'b, 'h) usb \<Rightarrow> (bool \<times> ('d, 'b, 'h) usb) option" where
  "usb_write env u = usb_write_loop env (u\<lparr>tx_s := 0\<rparr>)"

definition usb_serialWrite ::
    "('d, 'b, 'h) usb_env \<Rightarrow> u8 list \<Rightarrow> ('d, 'b, 'h) usb \<Rightarrow> ('d, 'b, 'h) usb option" where
  "usb_serialWrite env s u =
     (case (if tx_length u \<noteq> 0 then usb_write env u else Some (True, u)) of
        None \<Rightarrow> None
      | Some (ok, u) \<Rightarrow>
          if \<not> ok then Some u
          else map_option (\<lambda>d. u\<lparr>usb_dev := d\<rparr>) (usb_out_chars env s (usb_dev u)))"

definition memcpy_at :: "nat \<Rightarrow> u8 list \<Rightarrow> u8 list \<Rightarrow> u8 list" where
  \<comment> \<open>\<open>memcpy\<close> of \<open>s\<close> to an offset of the buffer, within its bounds\<close>
  "memcpy_at off s buf = take off buf @ s @ drop (off + length s) buf"

definition usb_serialWriteS ::
    "('d, 'b, 'h) usb_env \<Rightarrow> u8 list \<Rightarrow> ('d, 'b, 'h) usb \<Rightarrow> ('d, 'b, 'h) usb option" where
  \<comment> \<open>the argument is the string up to its NUL\<close>
  "usb_serialWriteS env s u =
     (if s = [] then Some u
      else
        let len = length s in
        if len + tx_length u < BLOCK_TX_BUFFER_SIZE env
        then
          let u = u\<lparr>tx_data := memcpy_at (tx_s u) s (tx_data u), tx_length := tx_length u + len,
                tx_s := tx_s u + len\<rparr>
          in if s ! (len - 1) = 10 \<or> tx_length u > tx_max_length u
             then map_option snd (usb_write env u) else Some u
        else usb_serialWrite env s u)"

definition usb_serialPutC ::
    "('d, 'b, 'h) usb_env \<Rightarrow> u8 \<Rightarrow> ('d, 'b, 'h) usb \<Rightarrow> (bool \<times> ('d, 'b, 'h) usb) option" where
  "usb_serialPutC env c u =
     map_option (\<lambda>u. (True, u))
       (if tx_length u \<noteq> 0 then usb_serialWriteS env (if c = 0 then [] else [c]) u
        else map_option (\<lambda>d. u\<lparr>usb_dev := d\<rparr>) (usb_out_chars env [c] (usb_dev u)))"

subsection \<open>Input\<close>

definition usb_serialRxCount :: "('d, 'b, 'h) usb_env \<Rightarrow> ('d, 'b, 'h) usb \<Rightarrow> u16" where
  "usb_serialRxCount env u = ring_available (usb_BUFCOUNT env) (USB_RX_SIZE env) (usb_rx u)"

definition usb_serialRxFree :: "('d, 'b, 'h) usb_env \<Rightarrow> ('d, 'b, 'h) usb \<Rightarrow> u16" where
  "usb_serialRxFree env u = ring_rx_free (usb_BUFCOUNT env) (USB_RX_SIZE env) (usb_rx u)"

definition usb_serialRxFlush :: "('d, 'b, 'h) usb \<Rightarrow> ('d, 'b, 'h) usb" where
  "usb_serialRxFlush u = u\<lparr>usb_rx := (usb_rx u)\<lparr>rb_tail := rb_head (usb_rx u)\<rparr>\<rparr>"

definition usb_serialRxCancel :: "('d, 'b, 'h) usb_env \<Rightarrow> ('d, 'b, 'h) usb \<Rightarrow> ('d, 'b, 'h) usb" where
  "usb_serialRxCancel env u =
     (let rb = usb_rx u;
          rb = rb\<lparr>rb_data := (rb_data rb)[unat (rb_head rb) := CMD_RESET env]\<rparr>;
          rb = rb\<lparr>rb_tail := rb_head rb\<rparr>;
          rb = rb\<lparr>rb_head := BUFNEXT env (rb_head rb)\<rparr>
      in u\<lparr>usb_rx := rb\<rparr>)"

definition usb_serialGetC :: "('d, 'b, 'h) usb_env \<Rightarrow> ('d, 'b, 'h) usb \<Rightarrow> int \<times> ('d, 'b, 'h) usb" where
  "usb_serialGetC env u =
     (let rb = usb_rx u; tail = rb_tail rb in
      if tail = rb_head rb then (- 1, u)
      else (int (unat (rb_data rb ! unat tail)), u\<lparr>usb_rx := rb\<lparr>rb_tail := BUFNEXT env tail\<rparr>\<rparr>))"

definition usb_serialSuspendInput ::
    "('d, 'b, 'h) usb_env \<Rightarrow> bool \<Rightarrow> ('d, 'b, 'h) usb \<Rightarrow> bool \<times> ('d, 'b, 'h) usb" where
  "usb_serialSuspendInput env suspend u =
     (case usb_rx_suspend env suspend (usb_rx u) of (ok, rb) \<Rightarrow> (ok, u\<lparr>usb_rx := rb\<rparr>))"

definition usbEnqueueRtCommand ::
    "('d, 'b, 'h) usb_env \<Rightarrow> u8 \<Rightarrow> ('d, 'b, 'h) usb \<Rightarrow> bool \<times> ('d, 'b, 'h) usb" where
  "usbEnqueueRtCommand env c u = usb_call_enqueue env (usb_enqueue u) c u"

definition usb_serialSetRtHandler ::
    "'h option \<Rightarrow> ('d, 'b, 'h) usb \<Rightarrow> 'h \<times> ('d, 'b, 'h) usb" where
  "usb_serialSetRtHandler handler u =
     (usb_enqueue u, case handler of Some h \<Rightarrow> u\<lparr>usb_enqueue := h\<rparr> | None \<Rightarrow> u)"

fun usb_rx_loop :: "('d, 'b, 'h) usb_env \<Rightarrow> u8 list \<Rightarrow> ('d, 'b, 'h) usb \<Rightarrow> ('d, 'b, 'h) usb" where
  "usb_rx_loop env [] u = u"
| "usb_rx_loop env (c # cs) u =
     (case usb_call_enqueue env (usb_enqueue u) c u of
        (consumed, u) \<Rightarrow>
          usb_rx_loop env cs
            (if consumed then u
             else
               let rb = usb_rx u; next_head = BUFNEXT env (rb_head rb) in
               if next_head = rb_tail rb then u\<lparr>usb_rx := rb\<lparr>rb_overflow := True\<rparr>\<rparr>
               else u\<lparr>usb_rx := rb\<lparr>rb_data := (rb_data rb)[unat (rb_head rb) := c], rb_head := next_head\<rparr>\<rparr>))"

definition usb_rx_callback :: "('d, 'b, 'h) usb_env \<Rightarrow> ('d, 'b, 'h) usb \<Rightarrow> ('d, 'b, 'h) usb" where
  "usb_rx_callback env u =
     (let free = unat (usb_serialRxFree env u);
          free = (if free > CDC_RX_BUFSIZE env then CDC_RX_BUFSIZE env else free)
      in case cdcacm_read env free (usb_dev u) of
           (None, d) \<Rightarrow> u\<lparr>usb_dev := d\<rparr>
         | (Some bytes, d) \<Rightarrow> usb_rx_loop env bytes (u\<lparr>usb_dev := d\<rparr>))"

definition usb_line_state_callback ::
    "('d, 'b, 'h) usb_env \<Rightarrow> bool \<Rightarrow> bool \<Rightarrow> ('d, 'b, 'h) usb \<Rightarrow> ('d, 'b, 'h) usb" where
  "usb_line_state_callback env dtr rts u = linestate_changed env dtr rts u"

definition usb_serialInit :: "('d, 'b, 'h) usb_env \<Rightarrow> ('d, 'b, 'h) usb \<Rightarrow> ('d, 'b, 'h) usb" where
  "usb_serialInit env u =
     (let u = u\<lparr>usb_dev := driver_install env (usb_dev u)\<rparr>;
          u = u\<lparr>tx_s := 0, tx_max_length := CFG_TUD_CDC_TX_BUFSIZE env\<rparr>
      in u\<lparr>tx_max_length :=
           (if tx_max_length u > BLOCK_TX_BUFFER_SIZE env then BLOCK_TX_BUFFER_SIZE env
            else tx_max_length u) - 20\<rparr>)"

subsection \<open>The receive callback\<close>

definition bufnext_ok :: "('d, 'b, 'h) usb_env \<Rightarrow> bool" where
  \<comment> \<open>what \<open>BUFNEXT\<close> is documented to be: the next index of the ring\<close>
  "bufnext_ok env \<longleftrightarrow> (\<forall>p. BUFNEXT env p = (p + 1) AND ring_mask (USB_RX_SIZE env))"

definition usb_rx_ok :: "('d, 'b, 'h) usb_env \<Rightarrow> ('h \<Rightarrow> u8 \<Rightarrow> bool) \<Rightarrow> bool" where
  \<comment> \<open>a read returns no more bytes than asked for; the handler tells the real-time commands \<open>rt\<close>
    from the text, and changes nothing of the stream\<close>
  "usb_rx_ok env rt \<longleftrightarrow>
     (\<forall>n d bs d'. cdcacm_read env n d = (Some bs, d') \<longrightarrow> length bs \<le> n) \<and>
     (\<forall>h c u. fst (usb_call_enqueue env h c u) = rt h c \<and>
        usb_rx (snd (usb_call_enqueue env h c u)) = usb_rx u \<and>
        usb_enqueue (snd (usb_call_enqueue env h c u)) = usb_enqueue u)"

lemma usb_rx_loop_spec:
  assumes "bufnext_ok env" "usb_rx_ok env rt"
  shows "usb_rx (usb_rx_loop env cs u) =
     fold (ring_put (USB_RX_SIZE env)) (filter (\<lambda>c. \<not> rt (usb_enqueue u) c) cs) (usb_rx u)"
proof (induction cs arbitrary: u)
  case Nil
  then show ?case by simp
next
  case (Cons c cs)
  obtain b u1 where call: "usb_call_enqueue env (usb_enqueue u) c u = (b, u1)" by fastforce
  have "fst (usb_call_enqueue env (usb_enqueue u) c u) = rt (usb_enqueue u) c \<and>
      usb_rx (snd (usb_call_enqueue env (usb_enqueue u) c u)) = usb_rx u \<and>
      usb_enqueue (snd (usb_call_enqueue env (usb_enqueue u) c u)) = usb_enqueue u"
    using assms(2) unfolding usb_rx_ok_def by blast
  then have "b = rt (usb_enqueue u) c" "usb_rx u1 = usb_rx u" "usb_enqueue u1 = usb_enqueue u"
    using call by simp_all
  moreover have "BUFNEXT env p = (p + 1) AND ring_mask (USB_RX_SIZE env)" for p
    using assms(1) by (simp add: bufnext_ok_def)
  ultimately show ?case using call Cons.IH by (simp add: ring_put_def Let_def)
qed

text \<open>
   The USB receive callback asks the USB stack for no more than the ring can take, so it
  never overruns the ring: the bytes it reads that are not real-time commands are appended
  complete and in order, and the overflow flag stays as it was.
\<close>

theorem usb_rx_never_overruns:
  assumes "bufnext_ok env" "usb_rx_ok env rt" "bufcount_ok (usb_BUFCOUNT env)"
    "ring_inv (USB_RX_SIZE env) (usb_rx u)"
  shows "\<exists>bytes. ring_contents (USB_RX_SIZE env) (usb_rx (usb_rx_callback env u)) =
        ring_contents (USB_RX_SIZE env) (usb_rx u) @ filter (\<lambda>c. \<not> rt (usb_enqueue u) c) bytes \<and>
      (\<forall>bs d. cdcacm_read env (min (CDC_RX_BUFSIZE env) (unat (usb_serialRxFree env u))) (usb_dev u) =
          (Some bs, d) \<longrightarrow> bytes = bs) \<and>
      rb_overflow (usb_rx (usb_rx_callback env u)) = rb_overflow (usb_rx u)"
proof -
  let ?N = "USB_RX_SIZE env"
  define free where "free = min (CDC_RX_BUFSIZE env) (unat (usb_serialRxFree env u))"
  have room: "unat (usb_serialRxFree env u) = ?N - 1 - length (ring_contents ?N (usb_rx u))"
    using ring_counts_exact [OF assms(3,4)] by (simp add: usb_serialRxFree_def)
  have le: "ring_count ?N (usb_rx u) \<le> ?N - 1" using ring_count_lt [OF assms(4)] by simp
  have cb: "usb_rx_callback env u = (case cdcacm_read env free (usb_dev u) of
      (None, d) \<Rightarrow> u\<lparr>usb_dev := d\<rparr> | (Some bytes, d) \<Rightarrow> usb_rx_loop env bytes (u\<lparr>usb_dev := d\<rparr>))"
    by (auto simp: usb_rx_callback_def free_def Let_def min_def)
  show ?thesis
  proof (cases "cdcacm_read env free (usb_dev u)")
    case (Pair r d)
    show ?thesis
    proof (cases r)
      case None
      with Pair cb show ?thesis by (intro exI [of _ "[]"]) (simp add: free_def)
    next
      case (Some bs)
      have "length bs \<le> free" using assms(2) Pair Some unfolding usb_rx_ok_def by blast
      moreover have "length (filter (\<lambda>c. \<not> rt (usb_enqueue u) c) bs) \<le> length bs" by simp
      ultimately have fit: "length (ring_contents ?N (usb_rx u)) +
          length (filter (\<lambda>c. \<not> rt (usb_enqueue u) c) bs) \<le> ?N - 1"
        using room le ring_count_lt [OF assms(4)] unfolding free_def length_ring_contents by linarith
      have "usb_rx (usb_rx_callback env u) =
          fold (ring_put ?N) (filter (\<lambda>c. \<not> rt (usb_enqueue u) c) bs) (usb_rx u)"
        using cb Pair Some usb_rx_loop_spec [OF assms(1,2)] by simp
      with fit rxring.fold_put_fits [OF assms(4)] fold_ring_put_overflow [OF assms(4)] Pair Some
      show ?thesis by (intro exI [of _ bs]) (simp add: free_def)
    qed
  qed
qed

subsection \<open>The transmit side\<close>










subsection \<open>A concrete environment\<close>

text \<open>
  For the witnesses: the device is the room in the transmit FIFO, the bytes sent and the bytes
  received; \<open>?\<close> (63) is a real-time command.
\<close>

record usb_demo =
  ud_room :: nat
  ud_sent :: "u8 list"
  ud_got :: "u8 list"

definition usb_env0 :: "(usb_demo, unit, unit) usb_env" where
  "usb_env0 = \<lparr>USB_RX_SIZE = 8, BLOCK_TX_BUFFER_SIZE = 30, CFG_TUD_CDC_TX_BUFSIZE = 64,
     CDC_RX_BUFSIZE = 4, CMD_RESET = 24, usb_BUFCOUNT = bufcount0,
     BUFNEXT = (\<lambda>p. (p + 1) AND ring_mask 8), tud_ready = (\<lambda>_. True), tud_cdc_n_connected = (\<lambda>_. True),
     write_available = ud_room,
     write_queue = (\<lambda>bs d. (length bs, d\<lparr>ud_room := ud_room d - length bs, ud_sent := ud_sent d @ bs\<rparr>)),
     write_flush = (\<lambda>d. (False, d\<lparr>ud_room := 16\<rparr>)),
     cdcacm_read = (\<lambda>n d. (Some (take n (ud_got d)), d\<lparr>ud_got := drop n (ud_got d)\<rparr>)),
     usb_blocking_callback = (\<lambda>u. (True, u\<lparr>usb_dev := (usb_dev u)\<lparr>ud_room := 16\<rparr>\<rparr>)),
     usb_call_enqueue = (\<lambda>_ c u. (c = 63, u)), usb_rx_suspend = (\<lambda>_ rb. (True, rb)),
     linestate_changed = (\<lambda>_ _ u. u), driver_install = (\<lambda>d. d)\<rparr>"

definition usb0 :: "(usb_demo, unit, unit) usb" where
  "usb0 = \<lparr>tx_s = 2, tx_length = 2, tx_max_length = 10, tx_data = [111, 107] @ replicate 28 0,
     usb_rx = \<lparr>rb_head = 0, rb_tail = 0, rb_overflow = False, rb_data = replicate 8 0, rb_rest = ()\<rparr>,
     usb_enqueue = (), usb_dev = \<lparr>ud_room = 3, ud_sent = [], ud_got = [71, 63, 48, 10, 71]\<rparr>\<rparr>"

theorem usb_rx_never_overruns_witness:
  "ring_contents 8 (usb_rx (usb_rx_callback usb_env0 usb0)) = [71, 48, 10] \<and>
   \<not> rb_overflow (usb_rx (usb_rx_callback usb_env0 usb0))"
proof -
  have "bufnext_ok usb_env0" "usb_rx_ok usb_env0 (\<lambda>_ c. c = 63)" "bufcount_ok (usb_BUFCOUNT usb_env0)"
    "ring_inv (USB_RX_SIZE usb_env0) (usb_rx usb0)"
    by (auto simp: bufnext_ok_def usb_rx_ok_def usb_env0_def usb0_def bufcount0_ok ring_inv_def ring_size_ok_def)
  from usb_rx_never_overruns [OF this] obtain bytes where b:
    "ring_contents (USB_RX_SIZE usb_env0) (usb_rx (usb_rx_callback usb_env0 usb0)) =
        ring_contents (USB_RX_SIZE usb_env0) (usb_rx usb0) @ filter (\<lambda>c. \<not> c = 63) bytes"
    "\<forall>bs d. cdcacm_read usb_env0 (min (CDC_RX_BUFSIZE usb_env0) (unat (usb_serialRxFree usb_env0 usb0)))
        (usb_dev usb0) = (Some bs, d) \<longrightarrow> bytes = bs"
    "rb_overflow (usb_rx (usb_rx_callback usb_env0 usb0)) = rb_overflow (usb_rx usb0)"
    by blast
  have "fst (cdcacm_read usb_env0 (min (CDC_RX_BUFSIZE usb_env0) (unat (usb_serialRxFree usb_env0 usb0)))
      (usb_dev usb0)) = Some [71, 63, 48, 10]" by code_simp
  then have "bytes = [71, 63, 48, 10]" using b(2) by (metis prod.collapse)
  moreover have "ring_contents 8 (usb_rx usb0) = []" by code_simp
  moreover have "USB_RX_SIZE usb_env0 = 8" by (simp add: usb_env0_def)
  moreover have "\<not> rb_overflow (usb_rx usb0)" by (simp add: usb0_def)
  ultimately show ?thesis using b(1,3) by simp
qed


end
