(* ===== verification/MotorUtil.thy ===== *)
theory MotorUtil
  imports Prelude Complex_Main
begin

text \<open>
  The state that the three motor files share, and \<open>main/custom/motor_util.c\<close>.  The two motor
  drivers (\<open>motor_control.c\<close>, \<open>custom/linear_motor.c\<close>) and the reporting helper use one LEDC
  channel, one pulse counter and each other's globals, so their static variables are one record
  \<open>motor\<close>, for the build with both drivers enabled.  A C \<open>float\<close> is a rational number: rounding
  is not modelled, and a constant like \<open>0.80f\<close> is its decimal value.  The \<open>int16_t\<close>,
  \<open>int32_t\<close> and \<open>uint32_t\<close> variables are integers with the conversion written at each store.  What the code asks of
  the hardware and of the stream is the list \<open>ev\<close>, newest first; the value the pulse counter
  holds is an argument of the timer callbacks that read it.
\<close>

datatype motor_event =
    Ledc_duty int           \<comment> \<open>\<open>ledc_set_duty\<close> and \<open>ledc_update_duty\<close> on channel 0\<close>
  | Ledc_timer int          \<comment> \<open>\<open>ledc_timer_config\<close>: the frequency\<close>
  | Ledc_channel int        \<comment> \<open>\<open>ledc_channel_config\<close>: the initial duty\<close>
  | Pcnt_config
  | Pcnt_clear
  | Timer_start string int  \<comment> \<open>\<open>esp_timer_start_periodic\<close>: the timer and its period\<close>
  | Task_delay int
  | Stream_rpm string int int \<comment> \<open>\<open>hal.stream.write\<close> of a formatted report: prefix and two numbers\<close>
  | Stream_text string

datatype param_ref = Own_param | Core_param
  \<comment> \<open>what \<open>spindle->param\<close> points to: \<open>spindle_param\<close> or an object of the core\<close>

record spindle_param =
  sp_rpm :: rat
  sp_rpm_overridden :: rat
  sp_on :: bool

record motor =
  \<comment> \<open>\<open>motor_util.c\<close>\<close>
  mu_target_rpm :: rat
  mu_display_rpm :: rat
  mu_enabled :: bool
  mu_last_printed_rpm :: int
  mu_last_printed_target :: int
  \<comment> \<open>\<open>linear_motor.c\<close>\<close>
  linear_motor_enabled :: bool
  linear_motor_on :: bool
  lm_target_rpm :: int
  lm_uv :: int
  lm_pulses :: int
  lm_samples :: int
  lm_raw_rpm :: rat
  lm_current_rpm :: rat
  lm_pi_i_term :: int
  \<comment> \<open>\<open>motor_control.c\<close>\<close>
  motor_control_enabled :: bool
  b0 :: rat
  omega_o :: rat
  omega_c :: rat
  beta_1 :: rat
  beta_2 :: rat
  K_p :: rat
  z1 :: rat
  z2 :: rat
  u_cmd :: rat
  target_rpm :: rat
  current_rpm :: rat
  raw_rpm :: rat
  print_counter :: int
  flag_print_data :: bool
  rolling_pulse_accumulator :: int
  pulse_sample_count :: int
  smooth_display_rpm :: rat
  rpm_change :: int
  spindle_on :: bool
  mc_last_printed_rpm :: int
  mc_last_printed_target :: int
  spindle :: "param_ref option option"
  own_param :: spindle_param
  core_param :: spindle_param
  spindle_state_on :: bool
  ev :: "motor_event list"

definition motor_emit :: "motor_event \<Rightarrow> motor \<Rightarrow> motor" where
  "motor_emit e s = s\<lparr>ev := e # ev s\<rparr>"

definition c_trunc :: "rat \<Rightarrow> int" where
  \<comment> \<open>conversion of a float to an integer type that holds its integral part\<close>
  "c_trunc x = (if 0 \<le> x then \<lfloor>x\<rfloor> else \<lceil>x\<rceil>)"

lemma c_trunc_nonneg: "0 \<le> x \<Longrightarrow> c_trunc x = \<lfloor>x\<rfloor>"
  by (simp add: c_trunc_def)

lemma c_trunc_of_int [simp]: "c_trunc (of_int n) = n"
  by (simp add: c_trunc_def)

definition SAMPLE_TIME_SEC :: rat where
  "SAMPLE_TIME_SEC = 5 / 100"

subsection \<open>\<open>motor_util.c\<close>\<close>

definition motor_util_enable :: "bool \<Rightarrow> motor \<Rightarrow> motor" where
  "motor_util_enable on s = s\<lparr>mu_enabled := on\<rparr>"

definition display_average :: "rat \<Rightarrow> motor \<Rightarrow> motor" where
  \<comment> \<open>the first part of the ticker: the counts become the displayed speed; \<open>edges\<close> is
    \<open>ENCODER_EDGES_PER_REV\<close>\<close>
  "display_average edges s =
     (let captured_pulses = lm_pulses s;
          captured_samples = lm_samples s;
          s = s\<lparr>lm_pulses := 0, lm_samples := 0\<rparr>;
          s = (if 0 < captured_samples
               then
                 let total_time = of_int captured_samples * SAMPLE_TIME_SEC;
                     calculated_avg_rpm = (of_int captured_pulses / total_time) / edges * 60
                 in s\<lparr>mu_display_rpm := mu_display_rpm s * (3 / 10) + calculated_avg_rpm * (7 / 10)\<rparr>
               else s\<lparr>mu_display_rpm := 0\<rparr>)
      in if mu_target_rpm s \<le> 0 then s\<lparr>mu_display_rpm := lm_raw_rpm s\<rparr> else s)"

definition display_print :: "motor \<Rightarrow> motor" where
  \<comment> \<open>the second part: a line is written when a number in it changed\<close>
  "display_print s =
     (let display_rpm_int = c_trunc (mu_display_rpm s + 1 / 2);
          target_rpm_int = c_trunc (mu_target_rpm s + 1 / 2)
      in if display_rpm_int \<noteq> mu_last_printed_rpm s \<or> target_rpm_int \<noteq> mu_last_printed_target s
         then (motor_emit (Stream_rpm ''RPM: '' display_rpm_int target_rpm_int) s)
           \<lparr>mu_last_printed_rpm := display_rpm_int, mu_last_printed_target := target_rpm_int\<rparr>
         else s)"

definition motor_util_logging_ticker :: "rat \<Rightarrow> motor \<Rightarrow> motor" where
  "motor_util_logging_ticker edges s =
     (if \<not> mu_enabled s then s else display_print (display_average edges s))"

definition motor_util_get_rpm :: "motor \<Rightarrow> rat" where
  "motor_util_get_rpm s = lm_current_rpm s"

definition motor_util_report_rpm :: "motor \<Rightarrow> motor" where
  "motor_util_report_rpm s =
     motor_emit (Stream_rpm ''#RPM: '' (c_trunc (mu_display_rpm s)) (c_trunc (mu_target_rpm s))) s"

definition motor_util_set_target :: "int \<Rightarrow> motor \<Rightarrow> motor" where
  "motor_util_set_target rpm s = s\<lparr>mu_target_rpm := of_int (to_u16 rpm)\<rparr>"

definition motor_util_init :: "motor \<Rightarrow> motor" where
  "motor_util_init = motor_emit (Timer_start ''linear_motor_logging_timer'' 500000)"

subsection \<open>Facts\<close>

lemma motor_emit_sel [simp]: "ev (motor_emit e s) = e # ev s"
  by (simp add: motor_emit_def)

text \<open>
  The report shows what was measured: fed by samples that each saw \<open>p\<close> pulses, with a
  target set, the display keeps three tenths of its old value and takes seven tenths of the
  speed those samples stand for, \<open>p\<close> pulses per 50 ms; the counts start again from zero, and a
  second tick in a row reports a stopped motor.
\<close>

theorem motor_util_display_average:
  assumes "mu_enabled s" "0 < n" "lm_samples s = n" "lm_pulses s = n * p" "0 < mu_target_rpm s" "edges \<noteq> 0"
  shows "mu_display_rpm (motor_util_logging_ticker edges s) =
        3 / 10 * mu_display_rpm s + 7 / 10 * (1200 * of_int p / edges) \<and>
      lm_pulses (motor_util_logging_ticker edges s) = 0 \<and>
      lm_samples (motor_util_logging_ticker edges s) = 0 \<and>
      mu_display_rpm (motor_util_logging_ticker edges (motor_util_logging_ticker edges s)) = 0"
proof -
  have speed: "(of_int (n * p) / (of_int n * SAMPLE_TIME_SEC)) / edges * 60 = 1200 * of_int p / edges"
    using assms(2,6) by (simp add: SAMPLE_TIME_SEC_def field_simps)
  define s' where "s' = motor_util_logging_ticker edges s"
  have s': "mu_display_rpm s' = 3 / 10 * mu_display_rpm s + 7 / 10 * (1200 * of_int p / edges)"
    "lm_pulses s' = 0" "lm_samples s' = 0" "mu_enabled s'" "mu_target_rpm s' = mu_target_rpm s"
    using assms speed
    by (simp_all add: s'_def motor_util_logging_ticker_def display_average_def display_print_def motor_emit_def Let_def)
  then have "mu_display_rpm (motor_util_logging_ticker edges s') = 0"
    using assms(5) by (simp add: motor_util_logging_ticker_def display_average_def display_print_def motor_emit_def Let_def)
  with s' show ?thesis by (simp add: s'_def)
qed

end
