(* ===== verification/MotorControl.thy ===== *)
theory MotorControl
  imports MotorUtil
begin

text \<open>
  \<open>main/motor_control.c\<close>: the speed controller of the needle motor, an active disturbance
  rejection controller (observer states \<open>z1\<close>, \<open>z2\<close>, command \<open>u_cmd\<close>) run by a 1 kHz timer, with
  the setters that the M-codes and the spindle use and the 2 Hz report.  The two functions that
  switch between the two motor drivers call each other across the files and are defined
  together.  The calls that configure the timers and the pulse counter are events; the stream
  object that \<open>spindle_get_hal\<close> finds is an argument of the initialisation.
\<close>

subsection \<open>Switching between the two drivers\<close>

function (sequential) motor_control_enable :: "bool \<Rightarrow> motor \<Rightarrow> motor"
  and linear_motor_enable :: "bool \<Rightarrow> motor \<Rightarrow> motor" where
  "motor_control_enable enabled s =
     (let s = s\<lparr>motor_control_enabled := enabled\<rparr> in
      if enabled then linear_motor_enable False s else s)"
| "linear_motor_enable on s =
     (let s = motor_util_enable on (s\<lparr>linear_motor_enabled := on\<rparr>) in
      if on then motor_control_enable False s else s)"
  by pat_completeness auto
termination
  by (relation "measure (\<lambda>x. case x of Inl (b, s) \<Rightarrow> if b then 1 else 0 | Inr (b, s) \<Rightarrow> if b then 1 else 0)")
    auto

declare motor_control_enable.simps [simp del] linear_motor_enable.simps [simp del]

lemma linear_motor_enable_eq:
  "linear_motor_enable on s =
     s\<lparr>linear_motor_enabled := on, mu_enabled := on,
       motor_control_enabled := (if on then False else motor_control_enabled s)\<rparr>"
  by (simp add: linear_motor_enable.simps motor_control_enable.simps motor_util_enable_def)

lemma motor_control_enable_eq:
  "motor_control_enable enabled s =
     s\<lparr>motor_control_enabled := enabled,
       linear_motor_enabled := (if enabled then False else linear_motor_enabled s),
       mu_enabled := (if enabled then False else mu_enabled s)\<rparr>"
  by (simp add: motor_control_enable.simps linear_motor_enable_eq)

subsection \<open>Parameters and setters\<close>

definition PWM_MAX_DUTY :: int where "PWM_MAX_DUTY = 2047"

definition h_step :: rat where \<comment> \<open>\<open>h\<close>\<close> "h_step = 1 / 1000"

definition set_modifiers :: "motor \<Rightarrow> motor" where
  "set_modifiers s =
     (let s = (if target_rpm s \<le> 150 then s\<lparr>b0 := 3500, omega_o := 20, omega_c := 5 / 2\<rparr>
               else if target_rpm s > 150 \<and> target_rpm s \<le> 750
               then s\<lparr>b0 := 4500, omega_o := 15, omega_c := 12 / 10\<rparr>
               else s\<lparr>b0 := 2000, omega_o := 35, omega_c := 5\<rparr>)
      in s\<lparr>beta_1 := 2 * omega_o s, beta_2 := omega_o s * omega_o s, K_p := omega_c s\<rparr>)"

definition getRPM :: "motor \<Rightarrow> rat" where "getRPM s = current_rpm s"

definition getTargetRPM :: "motor \<Rightarrow> rat" where "getTargetRPM s = target_rpm s"

definition reportRPM :: "motor \<Rightarrow> motor" where
  "reportRPM s = motor_emit (Stream_rpm ''#RPM: '' (c_trunc (current_rpm s + 1 / 2))
     (c_trunc (target_rpm s + 1 / 2))) s"

definition spindle_get_data :: "motor \<Rightarrow> bool \<times> rat \<times> rat" where
  \<comment> \<open>ccw, rpm and rpm_programmed of \<open>spindle_data\<close>\<close>
  "spindle_get_data s = (False, smooth_display_rpm s, target_rpm s)"

definition set_adrc_spindle_speed :: "rat \<Rightarrow> motor \<Rightarrow> motor" where
  "set_adrc_spindle_speed rpm s =
     (let s = (if rpm > 0 \<and> \<not> motor_control_enabled s then motor_control_enable True s else s);
          rpm = (if rpm < 0 then 0 else rpm)
      in if target_rpm s = rpm then s\<lparr>rpm_change := 0\<rparr>
         else
           let s = (if rpm > target_rpm s then s\<lparr>rpm_change := 2\<rparr> else s\<lparr>rpm_change := 1\<rparr>)
           in set_modifiers (s\<lparr>target_rpm := rpm\<rparr>))"

definition set_adrc_spindle_speed_ramp :: "rat \<Rightarrow> rat \<Rightarrow> motor \<Rightarrow> motor" where
  "set_adrc_spindle_speed_ramp rpm ramp s =
     set_adrc_spindle_speed (if rpm > target_rpm s + ramp then target_rpm s + ramp else rpm) s"

definition mc_spindle_update_rpm :: "rat \<Rightarrow> motor \<Rightarrow> motor" where
  "mc_spindle_update_rpm rpm = set_adrc_spindle_speed rpm"

definition mc_spindle_set_state :: "rat \<Rightarrow> motor \<Rightarrow> motor" where
  "mc_spindle_set_state rpm = mc_spindle_update_rpm rpm"

definition mc_on_spindle_programmed :: "rat \<Rightarrow> motor \<Rightarrow> motor" where
  "mc_on_spindle_programmed rpm = mc_spindle_set_state rpm"

subsection \<open>The timers\<close>

definition set_param :: "param_ref \<Rightarrow> (spindle_param \<Rightarrow> spindle_param) \<Rightarrow> motor \<Rightarrow> motor" where
  "set_param r f s =
     (case r of Own_param \<Rightarrow> s\<lparr>own_param := f (own_param s)\<rparr>
      | Core_param \<Rightarrow> s\<lparr>core_param := f (core_param s)\<rparr>)"

definition logging_average :: "rat \<Rightarrow> motor \<Rightarrow> motor" where
  \<comment> \<open>the first part of \<open>spindle_logging_ticker\<close>: the counts become the displayed speed\<close>
  "logging_average edges s =
     (let captured_pulses = rolling_pulse_accumulator s;
          captured_samples = pulse_sample_count s;
          s = s\<lparr>rolling_pulse_accumulator := 0, pulse_sample_count := 0\<rparr>
      in if captured_samples > 0 \<and> target_rpm s > 0
         then
           let total_time = of_int captured_samples * h_step;
               calculated_avg_rpm = (of_int captured_pulses / total_time) / edges * 60
           in s\<lparr>smooth_display_rpm := smooth_display_rpm s * (3 / 10) + calculated_avg_rpm * (7 / 10)\<rparr>
         else s\<lparr>smooth_display_rpm := 0\<rparr>)"

definition logging_print :: "motor \<Rightarrow> motor" where
  \<comment> \<open>the second part: a line is written when a number in it changed\<close>
  "logging_print s =
     (let display_rpm_int = c_trunc (smooth_display_rpm s + 1 / 2);
          target_rpm_int = c_trunc (target_rpm s + 1 / 2)
      in if display_rpm_int \<noteq> mc_last_printed_rpm s \<or> target_rpm_int \<noteq> mc_last_printed_target s
         then (motor_emit (Stream_rpm ''RPM: '' display_rpm_int target_rpm_int) s)
           \<lparr>mc_last_printed_rpm := display_rpm_int, mc_last_printed_target := target_rpm_int\<rparr>
         else s)"

definition logging_spindle :: "motor \<Rightarrow> motor" where
  \<comment> \<open>the last part: the spindle object of the core is told the speed\<close>
  "logging_spindle s =
     (case spindle s of
        None \<Rightarrow> s
      | Some p \<Rightarrow>
          let r = (case p of Some r \<Rightarrow> r | None \<Rightarrow> Own_param);
              s = set_param r (\<lambda>q. q\<lparr>sp_rpm_overridden := smooth_display_rpm s\<rparr>)
                (s\<lparr>spindle := Some (Some r)\<rparr>);
              s = s\<lparr>spindle_state_on := target_rpm s > 0\<rparr>;
              s = set_param Own_param (\<lambda>q. q\<lparr>sp_rpm_overridden := current_rpm s\<rparr>) s
          in set_param r (\<lambda>q. q\<lparr>sp_rpm := current_rpm s, sp_on := target_rpm s > 0\<rparr>) s)"

definition spindle_logging_ticker :: "rat \<Rightarrow> motor \<Rightarrow> motor" where
  "spindle_logging_ticker edges s = logging_spindle (logging_print (logging_average edges s))"

definition clamp01 :: "rat \<Rightarrow> rat" where
  \<comment> \<open>the two clamping statements\<close>
  "clamp01 u = (let u = (if u > 1 then 1 else u) in if u < 0 then 0 else u)"

definition adrc_observe :: "motor \<Rightarrow> motor" where
  \<comment> \<open>the observer, the control law and its clamping\<close>
  "adrc_observe s =
     (let err_eso = z1 s - current_rpm s;
          s = s\<lparr>z1 := z1 s + h_step * (z2 s + b0 s * u_cmd s - beta_1 s * err_eso)\<rparr>;
          s = s\<lparr>z2 := z2 s + h_step * (- beta_2 s * err_eso)\<rparr>;
          u0 = K_p s * (target_rpm s - z1 s)
      in s\<lparr>u_cmd := clamp01 ((u0 - z2 s) / b0 s)\<rparr>)"

definition adrc_sample :: "rat \<Rightarrow> int \<Rightarrow> motor \<Rightarrow> motor" where
  \<comment> \<open>reading the counter, the speed filter and the print counter\<close>
  "adrc_sample edges pulse_count s =
     (let s = motor_emit Pcnt_clear s;
          s = s\<lparr>rolling_pulse_accumulator := to_u32 (rolling_pulse_accumulator s + pulse_count),
            pulse_sample_count := to_u32 (pulse_sample_count s + 1)\<rparr>;
          s = s\<lparr>current_rpm := current_rpm s * (80 / 100) + raw_rpm s * (20 / 100)\<rparr>;
          s = s\<lparr>print_counter := to_u16 (print_counter s + 1)\<rparr>;
          s = (if print_counter s \<ge> 500 then s\<lparr>print_counter := 0, flag_print_data := True\<rparr> else s)
      in s\<lparr>raw_rpm := (of_int pulse_count / h_step) / edges * 60\<rparr>)"

definition adrc_spindle_ticker :: "rat \<Rightarrow> int \<Rightarrow> motor \<Rightarrow> motor" where
  "adrc_spindle_ticker edges pulse_count s =
     (if target_rpm s \<le> 0 \<and> \<not> spindle_on s then s
      else
        let s = adrc_sample edges pulse_count s in
        if target_rpm s \<le> 0 \<and> spindle_on s
        then
          let s = motor_emit Pcnt_clear (s\<lparr>z1 := 0, z2 := 0, u_cmd := 0\<rparr>);
              s = motor_emit (Ledc_duty 0) s
          in if current_rpm s < 1 / 1000
             then s\<lparr>raw_rpm := 0, current_rpm := 0, spindle_on := False\<rparr> else s
        else
          let s = (if \<not> spindle_on s then motor_emit Pcnt_clear s else s);
              s = adrc_observe (s\<lparr>spindle_on := True\<rparr>)
          in motor_emit (Ledc_duty (c_trunc (u_cmd s * of_int PWM_MAX_DUTY))) s)"

definition motor_static :: "motor" where
  \<comment> \<open>the static initial values\<close>
  "motor_static = \<lparr>mu_target_rpm = 0, mu_display_rpm = 0, mu_enabled = False,
     mu_last_printed_rpm = - 1, mu_last_printed_target = - 1,
     linear_motor_enabled = False, linear_motor_on = False, lm_target_rpm = 0, lm_uv = 0,
     lm_pulses = 0, lm_samples = 0, lm_raw_rpm = 0, lm_current_rpm = 0, lm_pi_i_term = 0,
     motor_control_enabled = False, b0 = 3500, omega_o = 20, omega_c = 5 / 2,
     beta_1 = 0, beta_2 = 0, K_p = 0, z1 = 0, z2 = 0, u_cmd = 0, target_rpm = 0, current_rpm = 0,
     raw_rpm = 0, print_counter = 0, flag_print_data = False, rolling_pulse_accumulator = 0,
     pulse_sample_count = 0, smooth_display_rpm = 0, rpm_change = 0, spindle_on = False,
     mc_last_printed_rpm = - 1, mc_last_printed_target = - 1, spindle = None,
     own_param = \<lparr>sp_rpm = 0, sp_rpm_overridden = 0, sp_on = False\<rparr>,
     core_param = \<lparr>sp_rpm = 0, sp_rpm_overridden = 0, sp_on = False\<rparr>,
     spindle_state_on = False, ev = []\<rparr>"

definition init_adrc_spindle_control :: "param_ref option option \<Rightarrow> motor \<Rightarrow> motor" where
  \<comment> \<open>the argument is what \<open>spindle_get_hal\<close> returns\<close>
  "init_adrc_spindle_control hal_spindle s =
     (let s = s\<lparr>beta_1 := 2 * omega_o s, beta_2 := omega_o s * omega_o s, K_p := omega_c s\<rparr>;
          s = motor_emit Pcnt_clear (motor_emit Pcnt_config s);
          s = motor_emit (Ledc_channel 0) (motor_emit (Ledc_timer 25000) s);
          s = motor_emit (Timer_start ''adrc_spindle_timer'' 1000) s;
          s = motor_emit (Timer_start ''spindle_logging_timer'' 500000) s;
          s = s\<lparr>spindle := hal_spindle\<rparr>
      in case spindle s of
           Some _ \<Rightarrow> motor_emit (Stream_text ''spindle found'') s
         | None \<Rightarrow> motor_emit (Stream_text ''spindle not found'') s)"

definition spindle_get_state :: "motor \<Rightarrow> bool" where "spindle_get_state s = spindle_state_on s"

subsection \<open>Invariant\<close>

definition zone :: "rat \<Rightarrow> rat \<times> rat \<times> rat" where
  \<comment> \<open>the parameters \<open>b0\<close>, \<open>omega_o\<close>, \<open>omega_c\<close> meant for a speed\<close>
  "zone rpm = (if rpm \<le> 150 then (3500, 20, 5 / 2) else if rpm \<le> 750 then (4500, 15, 6 / 5)
     else (2000, 35, 5))"

definition tuned :: "motor \<Rightarrow> bool" where
  "tuned s \<longleftrightarrow> (b0 s, omega_o s, omega_c s) = zone (target_rpm s) \<and>
     beta_1 s = 2 * omega_o s \<and> beta_2 s = omega_o s * omega_o s \<and> K_p s = omega_c s"

definition duty_ok :: "motor_event \<Rightarrow> bool" where
  "duty_ok e = (case e of Ledc_duty d \<Rightarrow> 0 \<le> d \<and> d \<le> PWM_MAX_DUTY
     | Ledc_channel d \<Rightarrow> 0 \<le> d \<and> d \<le> PWM_MAX_DUTY | _ \<Rightarrow> True)"

definition mc_inv :: "motor \<Rightarrow> bool" where
  "mc_inv s \<longleftrightarrow> 0 \<le> target_rpm s \<and> tuned s \<and> 0 \<le> u_cmd s \<and> u_cmd s \<le> 1 \<and> (\<forall>e \<in> set (ev s). duty_ok e)"

lemma tuned_b0_pos: "tuned s \<Longrightarrow> 0 < b0 s"
  by (auto simp: tuned_def zone_def split: if_splits)

lemma clamp01_range: "0 \<le> clamp01 u \<and> clamp01 u \<le> 1"
  by (simp add: clamp01_def Let_def)

lemma duty_in_range:
  assumes "0 \<le> u" "u \<le> 1"
  shows "0 \<le> c_trunc (u * of_int PWM_MAX_DUTY) \<and> c_trunc (u * of_int PWM_MAX_DUTY) \<le> PWM_MAX_DUTY"
proof -
  have "0 \<le> u * of_int PWM_MAX_DUTY" "u * of_int PWM_MAX_DUTY \<le> of_int PWM_MAX_DUTY"
    using assms by (simp_all add: PWM_MAX_DUTY_def mult_left_le)
  then show ?thesis by (simp add: c_trunc_nonneg floor_le_iff)
qed

lemma tuned_set_modifiers: "tuned (set_modifiers s)"
  by (simp add: tuned_def zone_def set_modifiers_def Let_def)

lemma set_modifiers_frame [frame_simps]:
  "target_rpm (set_modifiers s) = target_rpm s" "u_cmd (set_modifiers s) = u_cmd s"
  "ev (set_modifiers s) = ev s" "spindle_on (set_modifiers s) = spindle_on s"
  "motor_control_enabled (set_modifiers s) = motor_control_enabled s"
  "linear_motor_enabled (set_modifiers s) = linear_motor_enabled s"
  by (simp_all add: set_modifiers_def Let_def)

lemma mc_inv_enable [wf_intros]: "mc_inv s \<Longrightarrow> mc_inv (motor_control_enable b s)"
  by (simp add: mc_inv_def tuned_def motor_control_enable_eq)

lemma mc_inv_lm_enable [wf_intros]: "mc_inv s \<Longrightarrow> mc_inv (linear_motor_enable b s)"
  by (simp add: mc_inv_def tuned_def linear_motor_enable_eq)

lemma mc_inv_set_speed [wf_intros]:
  assumes "mc_inv s" shows "mc_inv (set_adrc_spindle_speed rpm s)"
proof -
  define s1 where "s1 = (if rpm > 0 \<and> \<not> motor_control_enabled s then motor_control_enable True s else s)"
  define r where "r = (if rpm < 0 then 0 else rpm)"
  have s1: "mc_inv s1" using assms by (simp add: s1_def mc_inv_enable)
  have "set_adrc_spindle_speed rpm s = (if target_rpm s1 = r then s1\<lparr>rpm_change := 0\<rparr>
      else set_modifiers (s1\<lparr>rpm_change := (if r > target_rpm s1 then 2 else 1), target_rpm := r\<rparr>))"
    by (simp add: set_adrc_spindle_speed_def Let_def s1_def r_def)
  moreover have "0 \<le> r" by (simp add: r_def)
  ultimately show ?thesis
    using s1 by (auto simp: mc_inv_def frame_simps tuned_set_modifiers) (simp add: tuned_def)
qed

lemma mc_inv_ramp [wf_intros]: "mc_inv s \<Longrightarrow> mc_inv (set_adrc_spindle_speed_ramp rpm ramp s)"
  by (simp add: set_adrc_spindle_speed_ramp_def mc_inv_set_speed)

lemma mc_inv_emit: "mc_inv s \<Longrightarrow> duty_ok e \<Longrightarrow> mc_inv (motor_emit e s)"
  by (simp add: mc_inv_def tuned_def motor_emit_def)

lemma mc_inv_sample: "mc_inv s \<Longrightarrow> mc_inv (adrc_sample edges p s)"
  by (simp add: mc_inv_def tuned_def adrc_sample_def motor_emit_def Let_def duty_ok_def)

lemma mc_inv_observe: "mc_inv s \<Longrightarrow> mc_inv (adrc_observe s)"
  using clamp01_range by (simp add: mc_inv_def tuned_def adrc_observe_def Let_def)

lemma mc_inv_spindle_on: "mc_inv s \<Longrightarrow> mc_inv (s\<lparr>spindle_on := b\<rparr>)"
  by (simp add: mc_inv_def tuned_def)

lemma mc_inv_stop: "mc_inv s \<Longrightarrow> mc_inv (s\<lparr>z1 := a, z2 := b, u_cmd := 0\<rparr>)"
  by (simp add: mc_inv_def tuned_def)

lemma mc_inv_rest: "mc_inv s \<Longrightarrow> mc_inv (s\<lparr>raw_rpm := a, current_rpm := b\<rparr>)"
  by (simp add: mc_inv_def tuned_def)

lemma mc_inv_ticker [wf_intros]:
  assumes "mc_inv s" shows "mc_inv (adrc_spindle_ticker edges p s)"
proof -
  have out: "mc_inv (motor_emit (Ledc_duty (c_trunc (u_cmd t * of_int PWM_MAX_DUTY))) t)" if "mc_inv t" for t
    using that duty_in_range [of "u_cmd t"] by (intro mc_inv_emit) (auto simp: mc_inv_def duty_ok_def)
  have "duty_ok (Ledc_duty 0)" "duty_ok Pcnt_clear" by (simp_all add: duty_ok_def PWM_MAX_DUTY_def)
  then show ?thesis
    using assms unfolding adrc_spindle_ticker_def Let_def
    by (auto intro!: out mc_inv_emit mc_inv_rest mc_inv_stop mc_inv_observe mc_inv_spindle_on mc_inv_sample)
qed

lemma mc_inv_set_param: "mc_inv s \<Longrightarrow> mc_inv (set_param r f s)"
  by (cases r) (simp_all add: mc_inv_def tuned_def set_param_def)

lemma mc_inv_average: "mc_inv s \<Longrightarrow> mc_inv (logging_average edges s)"
  by (simp add: logging_average_def Let_def mc_inv_def tuned_def)

lemma mc_inv_print: "mc_inv s \<Longrightarrow> mc_inv (logging_print s)"
  by (simp add: logging_print_def Let_def mc_inv_def tuned_def motor_emit_def duty_ok_def)

lemma mc_inv_spindle: "mc_inv s \<Longrightarrow> mc_inv (logging_spindle s)"
proof -
  have "mc_inv t \<Longrightarrow> mc_inv (t\<lparr>spindle := q\<rparr>)" "mc_inv t \<Longrightarrow> mc_inv (t\<lparr>spindle_state_on := b\<rparr>)"
    for t q b by (simp_all add: mc_inv_def tuned_def)
  then show "mc_inv s \<Longrightarrow> mc_inv (logging_spindle s)"
    by (simp add: logging_spindle_def Let_def mc_inv_set_param split: option.split)
qed

lemma mc_inv_logging [wf_intros]: "mc_inv s \<Longrightarrow> mc_inv (spindle_logging_ticker edges s)"
  by (simp add: spindle_logging_ticker_def mc_inv_average mc_inv_print mc_inv_spindle)

lemma mc_inv_init: "mc_inv (init_adrc_spindle_control sp motor_static)"
  by (cases sp) (simp_all add: mc_inv_def tuned_def zone_def init_adrc_spindle_control_def motor_static_def
      motor_emit_def duty_ok_def Let_def PWM_MAX_DUTY_def)

subsection \<open>Stopping\<close>






theorem motor_util_display_average_witness:
  "mu_display_rpm (motor_util_logging_ticker 200
     (motor_static\<lparr>mu_enabled := True, mu_target_rpm := 600, lm_samples := 10, lm_pulses := 1000\<rparr>)) = 420"
  using motor_util_display_average
    [of "motor_static\<lparr>mu_enabled := True, mu_target_rpm := 600, lm_samples := 10, lm_pulses := 1000\<rparr>" 10 100 200]
  by (simp add: motor_static_def)


subsection \<open>Setting the speed\<close>

lemma adrc_set_speed:
  assumes "mc_inv s"
  shows "target_rpm (set_adrc_spindle_speed r s) = max 0 r" and "tuned (set_adrc_spindle_speed r s)"
  using assms mc_inv_set_speed [OF assms, of r]
  by (auto simp: set_adrc_spindle_speed_def Let_def frame_simps motor_control_enable_eq mc_inv_def)

text \<open>
   Setting a speed leaves the controller tuned for it: the target becomes the speed, or
  zero for a negative one, the parameters are those of its zone with the derived gains
  recomputed, a positive speed switches this driver on and the linear one off, and a ramped
  request raises the target by at most the ramp.
\<close>

theorem adrc_set_speed_spec:
  fixes rpm ramp :: rat and s :: motor
  assumes "mc_inv s" "0 \<le> ramp"
  defines "s' \<equiv> set_adrc_spindle_speed rpm s" and "s'' \<equiv> set_adrc_spindle_speed_ramp rpm ramp s"
  shows "target_rpm s' = max 0 rpm \<and> tuned s' \<and>
    (0 < rpm \<longrightarrow> motor_control_enabled s' \<and> (motor_control_enabled s \<or> \<not> linear_motor_enabled s')) \<and>
    target_rpm s'' = max 0 (min rpm (target_rpm s + ramp)) \<and> ev s' = ev s"
proof -
  note set = adrc_set_speed(1) [OF assms(1)]
  moreover have "tuned s'"
    using adrc_set_speed(2) [OF assms(1)] by (simp add: s'_def)
  moreover have "ev s' = ev s"
    by (simp add: s'_def set_adrc_spindle_speed_def Let_def frame_simps motor_control_enable_eq)
  moreover have "0 < rpm \<longrightarrow> motor_control_enabled s' \<and> (motor_control_enabled s \<or> \<not> linear_motor_enabled s')"
    by (simp add: s'_def set_adrc_spindle_speed_def Let_def frame_simps motor_control_enable_eq)
  moreover have "target_rpm s'' = max 0 (min rpm (target_rpm s + ramp))"
    using set by (simp add: s''_def set_adrc_spindle_speed_ramp_def min_def)
  ultimately show ?thesis using set by (simp add: s'_def)
qed

theorem adrc_set_speed_spec_witness:
  "target_rpm (set_adrc_spindle_speed_ramp 800 100 (init_adrc_spindle_control None motor_static)) = 100"
proof -
  have "target_rpm (init_adrc_spindle_control None motor_static) = 0"
    by (simp add: init_adrc_spindle_control_def motor_static_def motor_emit_def)
  then show ?thesis using adrc_set_speed_spec [OF mc_inv_init, of 100 800 None] by simp
qed

text \<open>
   Switching to the linear motor does not take the PWM away from this controller: the
  ticker never looks at \<open>motor_control_enabled\<close>, so with a speed still set it goes on writing
  its own duty to LEDC channel 0 after \<open>linear_motor_enable(true)\<close> switched it off.
\<close>

theorem adrc_ignores_disable:
  assumes "0 < target_rpm s"
  defines "t \<equiv> linear_motor_enable True s"
  shows "\<not> motor_control_enabled t \<and>
    (\<exists>d. hd (ev (adrc_spindle_ticker edges p t)) = Ledc_duty d)"
proof -
  have "target_rpm t = target_rpm s" "\<not> motor_control_enabled t"
    by (simp_all add: t_def linear_motor_enable_eq)
  moreover have "target_rpm (adrc_sample edges p t) = target_rpm t"
    by (simp add: adrc_sample_def Let_def motor_emit_def)
  ultimately show ?thesis
    using assms(1) by (auto simp: adrc_spindle_ticker_def Let_def)
qed

theorem adrc_ignores_disable_witness:
  "\<exists>d. hd (ev (adrc_spindle_ticker 200 3
     (linear_motor_enable True (set_adrc_spindle_speed 500 motor_static)))) = Ledc_duty d"
proof -
  have "0 < target_rpm (set_adrc_spindle_speed 500 motor_static)"
    by (simp add: set_adrc_spindle_speed_def set_modifiers_def motor_control_enable_eq motor_static_def Let_def)
  then show ?thesis by (blast dest: adrc_ignores_disable)
qed

end
