(* ===== verification/LinearMotor.thy ===== *)
theory LinearMotor
  imports MotorControl
begin

text \<open>
  \<open>main/custom/linear_motor.c\<close>: the linear drive of the needle motor, which sets a voltage (in
  microvolts, \<open>lm_uv\<close>) through the PWM and corrects it every 50 ms from the pulses counted.
  The configuration that \<open>linear_motor_load_config\<close> fills in is the argument \<open>cfg\<close>.  Signed
  32-bit sums wrap as GCC compiles them; the lemmas give the range in which they do not.
\<close>

record linear_motor_config =
  min_rpm :: int
  max_rpm :: int
  trim_delay :: int
  idle_uv :: int
  trim_uv :: int
  min_rpm_uv :: int
  min_rpm_max_uv :: int
  max_uv :: int
  volt_ramp_up :: int
  volt_ramp_down :: int

definition linear_motor_load_config :: linear_motor_config where
  "linear_motor_load_config = \<lparr>min_rpm = 200, max_rpm = 3000, trim_delay = 5, idle_uv = 1000000,
     trim_uv = 250000, min_rpm_uv = 2000000, min_rpm_max_uv = 3300000, max_uv = 4700000,
     volt_ramp_up = 1000, volt_ramp_down = 2000\<rparr>"

definition SYSTEM_MAX_UV :: int where "SYSTEM_MAX_UV = 4720000"

definition LM_PWM_MAX_DUTY :: int where "LM_PWM_MAX_DUTY = 2 ^ 10 - 1"

definition INTEGRAL_LIMIT :: int where "INTEGRAL_LIMIT = 1000"

definition lm_Kp :: int where "lm_Kp = 40"

definition lm_Ki_scaled :: int where "lm_Ki_scaled = 2"

subsection \<open>Output\<close>

definition uv_to_pwm :: "int \<Rightarrow> int" where
  \<comment> \<open>on \<open>uint32_t\<close>; the product is taken in 64 bits\<close>
  "uv_to_pwm target_uv =
     (if target_uv \<ge> SYSTEM_MAX_UV then LM_PWM_MAX_DUTY
      else (target_uv * LM_PWM_MAX_DUTY) div SYSTEM_MAX_UV)"

definition write_hardware_pwm :: "int \<Rightarrow> motor \<Rightarrow> motor" where
  "write_hardware_pwm duty s =
     (let duty = (if duty < 0 then 0 else duty);
          duty = (if duty > 1023 then 1023 else duty)
      in motor_emit (Ledc_duty duty) s)"

definition linear_motor_set_uv :: "int \<Rightarrow> motor \<Rightarrow> motor" where
  "linear_motor_set_uv uv s =
     write_hardware_pwm (to_i16 (uv_to_pwm (to_u32 uv))) (s\<lparr>lm_uv := uv\<rparr>)"

subsection \<open>Setting the speed\<close>

definition linear_motor_report_rpm :: "motor \<Rightarrow> motor" where
  "linear_motor_report_rpm = motor_util_report_rpm"

definition linear_motor_get_target_rpm :: "motor \<Rightarrow> int" where
  "linear_motor_get_target_rpm s = lm_target_rpm s"

definition linear_motor_get_rpm :: "motor \<Rightarrow> int" where
  "linear_motor_get_rpm s = to_i16 (c_trunc (motor_util_get_rpm s))"

definition linear_motor_set_rpm :: "linear_motor_config \<Rightarrow> int \<Rightarrow> motor \<Rightarrow> motor" where
  "linear_motor_set_rpm cfg rpm s =
     (let rpm_arg = to_i16 rpm;
          s = (if rpm_arg > 0 \<and> \<not> linear_motor_enabled s then linear_motor_enable True s else s);
          rpm_arg = (if rpm_arg \<le> 0 then 0
                        else if rpm_arg > max_rpm cfg then max_rpm cfg else rpm_arg);
          s = (if rpm_arg > 0 then s\<lparr>linear_motor_on := True\<rparr> else s);
          s = s\<lparr>lm_target_rpm := rpm_arg\<rparr>
      in motor_util_set_target rpm_arg s)"

definition linear_motor_set_rpm_ramp :: "linear_motor_config \<Rightarrow> int \<Rightarrow> int \<Rightarrow> motor \<Rightarrow> motor" where
  "linear_motor_set_rpm_ramp cfg rpm_arg ramp s =
     (if rpm_arg > lm_target_rpm s + ramp then linear_motor_set_rpm cfg (lm_target_rpm s + ramp) s
      else linear_motor_set_rpm cfg rpm_arg s)"

definition linear_motor_trim :: "linear_motor_config \<Rightarrow> motor \<Rightarrow> motor" where
  "linear_motor_trim cfg s =
     (let s = linear_motor_set_uv (trim_uv cfg) s;
          s = motor_emit (Task_delay (trim_delay cfg)) s
      in linear_motor_set_uv (idle_uv cfg) s)"

subsection \<open>The sampling timer\<close>

definition motor_moves :: "linear_motor_config \<Rightarrow> motor \<Rightarrow> bool" where
  "motor_moves cfg s \<longleftrightarrow> lm_current_rpm s > of_int (cdiv (min_rpm cfg) 2)"

definition step_uv :: "linear_motor_config \<Rightarrow> int \<Rightarrow> motor \<Rightarrow> (int \<times> bool) option" where
  \<comment> \<open>the voltage and \<open>needs_pid\<close> after the chain of conditions; \<open>None\<close> is the early return\<close>
  "step_uv cfg target s =
     (let uv = lm_uv s; rpm = lm_current_rpm s; moves = motor_moves cfg s in
      if moves \<and> rpm > of_int (target - 30) \<and> rpm < of_int (target + 30) then None
      else if lm_uv s < min_rpm_uv cfg
      then Some (cdiv (to_i32 (min_rpm_uv cfg + min_rpm_max_uv cfg)) 2, False)
      else if target > min_rpm cfg \<and> lm_uv s < min_rpm_max_uv cfg then Some (min_rpm_max_uv cfg, False)
      else if target > min_rpm cfg \<and> uv < min_rpm_max_uv cfg then Some (min_rpm_max_uv cfg, False)
      else if target \<le> min_rpm cfg
      then if \<not> moves \<and> uv < min_rpm_max_uv cfg then Some (to_i32 (uv + volt_ramp_up cfg), True)
           else if rpm > of_int (min_rpm cfg + 30) \<and> uv > min_rpm_max_uv cfg
           then Some (to_i32 (uv - volt_ramp_down cfg), True)
           else Some (uv, False)
      else if uv < min_rpm_max_uv cfg then Some (min_rpm_max_uv cfg, False)
      else if rpm < of_int target then Some (to_i32 (uv + volt_ramp_up cfg), True)
      else if lm_uv s > min_rpm_uv cfg then Some (to_i32 (uv - volt_ramp_down cfg), True)
      else Some (uv, False))"

definition integrate :: "int \<Rightarrow> motor \<Rightarrow> motor" where
  \<comment> \<open>the integral term and its anti-windup limits\<close>
  "integrate error s =
     (let s = s\<lparr>lm_pi_i_term := to_i32 (lm_pi_i_term s + error)\<rparr>;
          s = (if lm_pi_i_term s > INTEGRAL_LIMIT then s\<lparr>lm_pi_i_term := INTEGRAL_LIMIT\<rparr> else s)
      in if lm_pi_i_term s < - INTEGRAL_LIMIT then s\<lparr>lm_pi_i_term := - INTEGRAL_LIMIT\<rparr> else s)"

definition pi_correct :: "linear_motor_config \<Rightarrow> int \<Rightarrow> int \<Rightarrow> motor \<Rightarrow> int \<times> motor" where
  \<comment> \<open>the block under \<open>needs_pid\<close>: the corrected voltage\<close>
  "pi_correct cfg target uv s =
     (let actual_target = (if target > 0 \<and> target < min_rpm cfg then min_rpm cfg else target);
          error = to_i32 (actual_target - c_trunc (lm_current_rpm s));
          s = integrate error s;
          pi_output = to_i32 (lm_Kp * error + lm_Ki_scaled * lm_pi_i_term s);
          target_uv = to_i32 (uv + pi_output);
          target_uv =
            (if target_uv < min_rpm_uv cfg \<and> actual_target \<le> min_rpm cfg then min_rpm_uv cfg
             else if target_uv > min_rpm_max_uv cfg \<and> actual_target > min_rpm_max_uv cfg
             then min_rpm_max_uv cfg
             else if target_uv < idle_uv cfg then idle_uv cfg else target_uv)
      in (target_uv, s))"

definition count_pulses :: "rat \<Rightarrow> int \<Rightarrow> motor \<Rightarrow> motor" where
  "count_pulses edges pulse_count s =
     (let s = motor_emit Pcnt_clear s;
          s = s\<lparr>lm_pulses := to_u32 (lm_pulses s + pulse_count), lm_samples := to_u32 (lm_samples s + 1)\<rparr>;
          s = s\<lparr>lm_raw_rpm := (of_int pulse_count / SAMPLE_TIME_SEC) / edges * 60\<rparr>
      in s\<lparr>lm_current_rpm := lm_current_rpm s * (80 / 100) + lm_raw_rpm s * (20 / 100)\<rparr>)"

definition take_sample :: "linear_motor_config \<Rightarrow> rat \<Rightarrow> int \<Rightarrow> motor \<Rightarrow> motor" where
  "take_sample cfg edges pulse_count s =
     (if \<not> linear_motor_enabled s then s
      else
        let target = lm_target_rpm s; s = count_pulses edges pulse_count s in
        if target = 0
        then (if linear_motor_on s
              then (linear_motor_set_uv (idle_uv cfg) s)\<lparr>linear_motor_on := False\<rparr> else s)
        else
          case step_uv cfg target s of
            None \<Rightarrow> s
          | Some (uv, needs_pid) \<Rightarrow>
              if needs_pid
              then (case pi_correct cfg target uv s of (uv, s) \<Rightarrow> linear_motor_set_uv uv s)
              else linear_motor_set_uv uv s)"



subsection \<open>The PWM value\<close>

lemma uv_to_pwm_range: "0 \<le> u \<Longrightarrow> 0 \<le> uv_to_pwm u \<and> uv_to_pwm u \<le> 1023"
proof -
  assume u: "0 \<le> u"
  have "(u * 1023) div 4720000 \<le> (4720000 * 1023) div 4720000" if "u < 4720000"
    by (rule zdiv_mono1) (use that in simp_all)
  moreover have "0 \<le> (u * 1023) div 4720000" using u by (simp add: pos_imp_zdiv_nonneg_iff)
  ultimately show ?thesis by (simp add: uv_to_pwm_def LM_PWM_MAX_DUTY_def SYSTEM_MAX_UV_def)
qed

lemma set_uv_eq:
  "linear_motor_set_uv uv s = motor_emit (Ledc_duty (uv_to_pwm (to_u32 uv))) (s\<lparr>lm_uv := uv\<rparr>)"
proof -
  have "0 \<le> to_u32 uv" using to_u32_range by blast
  from uv_to_pwm_range [OF this] show ?thesis
    by (simp add: linear_motor_set_uv_def write_hardware_pwm_def)
qed

lemma set_uv_sel [frame_simps]:
  "lm_uv (linear_motor_set_uv uv s) = uv"
  "lm_pi_i_term (linear_motor_set_uv uv s) = lm_pi_i_term s"
  "lm_target_rpm (linear_motor_set_uv uv s) = lm_target_rpm s"
  "lm_current_rpm (linear_motor_set_uv uv s) = lm_current_rpm s"
  "linear_motor_on (linear_motor_set_uv uv s) = linear_motor_on s"
  "linear_motor_enabled (linear_motor_set_uv uv s) = linear_motor_enabled s"
  "ev (linear_motor_set_uv uv s) = Ledc_duty (uv_to_pwm (to_u32 uv)) # ev s"
  by (simp_all add: set_uv_eq motor_emit_def)

text \<open>
  Every voltage gives a duty the 10-bit timer accepts: the duty is the voltage as a share
  of the 4.72 V range, rounded down, for voltages in that range, full duty above it, and grows
  with the voltage; a negative voltage, read as unsigned on the way, is full duty too.
\<close>

theorem set_uv_duty:
  assumes "- 2147483648 \<le> uv" "uv < 2147483648"
  shows "\<exists>d. ev (linear_motor_set_uv uv s) = Ledc_duty d # ev s \<and> 0 \<le> d \<and> d \<le> 1023 \<and>
    d = (if 0 \<le> uv \<and> uv < 4720000 then (uv * 1023) div 4720000 else 1023) \<and>
    (\<forall>uv'. 0 \<le> uv' \<and> uv' \<le> uv \<longrightarrow> uv_to_pwm (to_u32 uv') \<le> d)"
proof -
  let ?d = "uv_to_pwm (to_u32 uv)"
  have r: "0 \<le> ?d \<and> ?d \<le> 1023" using uv_to_pwm_range to_u32_range by blast
  have d: "?d = (if 0 \<le> uv \<and> uv < 4720000 then (uv * 1023) div 4720000 else 1023)"
  proof (cases "0 \<le> uv")
    case True
    with assms show ?thesis by (simp add: uv_to_pwm_def SYSTEM_MAX_UV_def LM_PWM_MAX_DUTY_def)
  next
    case False
    then have "to_u32 uv = uv + 4294967296"
      using assms mod_pos_pos_trivial [of "uv + 4294967296" 4294967296] by (simp add: to_u32_def)
    with False assms show ?thesis by (simp add: uv_to_pwm_def SYSTEM_MAX_UV_def LM_PWM_MAX_DUTY_def)
  qed
  have "uv_to_pwm (to_u32 uv') \<le> ?d" if "0 \<le> uv' \<and> uv' \<le> uv" for uv'
  proof -
    have "(uv' * 1023) div 4720000 \<le> (uv * 1023) div 4720000"
      by (rule zdiv_mono1) (use that in simp_all)
    moreover have "uv_to_pwm (to_u32 uv') \<le> 1023" using uv_to_pwm_range to_u32_range by blast
    ultimately show ?thesis
      using that assms d by (simp add: uv_to_pwm_def SYSTEM_MAX_UV_def LM_PWM_MAX_DUTY_def split: if_splits)
  qed
  with r d show ?thesis by (intro exI [of _ ?d]) (simp add: frame_simps)
qed

theorem set_uv_duty_witness:
  "\<exists>d. ev (linear_motor_set_uv (- 1) motor_static) = [Ledc_duty d] \<and> d = 1023"
  using set_uv_duty [of "- 1" motor_static] by (auto simp: motor_static_def)

subsection \<open>The range of the controller\<close>

abbreviation lm_cfg :: linear_motor_config where "lm_cfg \<equiv> linear_motor_load_config"

lemmas lm_cfg_sel = linear_motor_load_config_def

definition lm_inv :: "motor \<Rightarrow> bool" where
  "lm_inv s \<longleftrightarrow> 0 \<le> lm_uv s \<and> \<bar>lm_pi_i_term s\<bar> \<le> INTEGRAL_LIMIT \<and>
     0 \<le> lm_target_rpm s \<and> lm_target_rpm s \<le> 3000 \<and>
     0 \<le> lm_current_rpm s \<and> lm_current_rpm s \<le> 38400000"

definition edges_ok :: "rat \<Rightarrow> int \<Rightarrow> bool" where
  \<comment> \<open>an encoder with at least one edge per turn, a counter within its programmed limit\<close>
  "edges_ok edges p \<longleftrightarrow> 1 \<le> edges \<and> 0 \<le> p \<and> p \<le> 32000"

lemma count_pulses_sel [frame_simps]:
  "lm_uv (count_pulses edges p s) = lm_uv s"
  "lm_pi_i_term (count_pulses edges p s) = lm_pi_i_term s"
  "lm_target_rpm (count_pulses edges p s) = lm_target_rpm s"
  "linear_motor_on (count_pulses edges p s) = linear_motor_on s"
  "linear_motor_enabled (count_pulses edges p s) = linear_motor_enabled s"
  "ev (count_pulses edges p s) = Pcnt_clear # ev s"
  "lm_current_rpm (count_pulses edges p s) =
     lm_current_rpm s * (80 / 100) + (of_int p / SAMPLE_TIME_SEC) / edges * 60 * (20 / 100)"
  by (simp_all add: count_pulses_def Let_def motor_emit_def)

lemma lm_inv_count:
  assumes "lm_inv s" "edges_ok edges p" shows "lm_inv (count_pulses edges p s)"
proof -
  let ?raw = "(of_int p / SAMPLE_TIME_SEC) / edges * 60 :: rat"
  have e: "1 \<le> edges" and p: "0 \<le> p" "p \<le> 32000" using assms(2) by (auto simp: edges_ok_def)
  have raw: "?raw = (1200 * of_int p) / edges" by (simp add: SAMPLE_TIME_SEC_def)
  have "0 \<le> ?raw" unfolding raw using e p by simp
  moreover have "?raw \<le> 38400000"
  proof -
    have "(1200 * of_int p) / edges \<le> (1200 * of_int p) / 1"
      using e p by (intro divide_left_mono) simp_all
    moreover have "(of_int p :: rat) \<le> of_int 32000" using p by (simp only: of_int_le_iff)
    ultimately show ?thesis unfolding raw by simp
  qed
  moreover have "0 \<le> c * (80 / 100) + r * (20 / 100) \<and> c * (80 / 100) + r * (20 / 100) \<le> 38400000"
    if "0 \<le> c" "c \<le> 38400000" "0 \<le> r" "r \<le> 38400000" for c r :: rat
    using that by simp
  ultimately show ?thesis using assms(1) unfolding lm_inv_def count_pulses_sel by blast
qed

lemma trunc_rpm_range:
  assumes "lm_inv s" shows "0 \<le> c_trunc (lm_current_rpm s) \<and> c_trunc (lm_current_rpm s) \<le> 38400000"
  using assms by (simp add: lm_inv_def c_trunc_nonneg floor_le_iff)

lemma pi_correct_range:
  assumes inv: "lm_inv s" and "0 < target" "target \<le> 3000" "0 \<le> uv" "uv \<le> 2147350000"
  obtains t i where "pi_correct lm_cfg target uv s = (t, s\<lparr>lm_pi_i_term := i\<rparr>)"
    "\<bar>i\<bar> \<le> INTEGRAL_LIMIT" "1000000 \<le> t" "t \<le> max 2000000 (uv + 122000)"
    "t = (let a = max 200 target; e = a - c_trunc (lm_current_rpm s);
              x = uv + 40 * e + 2 * i
          in if x < 2000000 \<and> a \<le> 200 then 2000000 else max 1000000 x)"
    "i = max (- 1000) (min 1000 (lm_pi_i_term s + (max 200 target - c_trunc (lm_current_rpm s))))"
proof -
  define a where "a = max 200 target"
  define r where "r = c_trunc (lm_current_rpm s)"
  define e where "e = a - r"
  define i where "i = max (- 1000) (min 1000 (lm_pi_i_term s + e))"
  define x where "x = uv + 40 * e + 2 * i"
  define t where "t = (if x < 2000000 \<and> a \<le> 200 then 2000000 else max 1000000 x)"
  have aa: "(if target > 0 \<and> target < 200 then 200 else target) = a" "200 \<le> a" "a \<le> 3000"
    using assms(2,3) by (simp_all add: a_def)
  have rng: "0 \<le> r" "r \<le> 38400000" using trunc_rpm_range [OF inv] by (auto simp: r_def)
  have ai: "- 1000 \<le> lm_pi_i_term s" "lm_pi_i_term s \<le> 1000"
    using inv by (auto simp: lm_inv_def INTEGRAL_LIMIT_def)
  have i: "- 1000 \<le> i" "i \<le> 1000" by (simp_all add: i_def)
  have e: "- 38400000 \<le> e" "e \<le> 3000" using rng aa by (simp_all add: e_def)
  have conv: "to_i32 e = e" "to_i32 (lm_pi_i_term s + e) = lm_pi_i_term s + e"
    "to_i32 (40 * e + 2 * i) = 40 * e + 2 * i" "to_i32 (uv + (40 * e + 2 * i)) = x"
    using to_i32_id [of e] to_i32_id [of "lm_pi_i_term s + e"] to_i32_id [of "40 * e + 2 * i"]
      to_i32_id [of "uv + (40 * e + 2 * i)"] e i ai assms(4,5) by (simp_all add: x_def)
  have int: "integrate e s = s\<lparr>lm_pi_i_term := i\<rparr>"
    using conv(2) by (simp add: integrate_def Let_def INTEGRAL_LIMIT_def i_def)
  have "\<not> a > 3300000" using aa by simp
  then have t: "t = (if x < 2000000 \<and> a \<le> 200 then 2000000
      else if x > 3300000 \<and> a > 3300000 then 3300000 else if x < 1000000 then 1000000 else x)"
    by (simp add: t_def)
  have "min_rpm lm_cfg = 200" "min_rpm_uv lm_cfg = 2000000" "min_rpm_max_uv lm_cfg = 3300000"
    "idle_uv lm_cfg = 1000000" by (simp_all add: lm_cfg_sel)
  moreover have "lm_pi_i_term (s\<lparr>lm_pi_i_term := i\<rparr>) = i" by simp
  ultimately have pc: "pi_correct lm_cfg target uv s = (t, s\<lparr>lm_pi_i_term := i\<rparr>)"
    unfolding pi_correct_def Let_def lm_Kp_def lm_Ki_scaled_def t
    by (simp only: aa(1) r_def [symmetric] e_def [symmetric] conv int)
  have "\<bar>i\<bar> \<le> INTEGRAL_LIMIT" using i by (simp add: INTEGRAL_LIMIT_def)
  moreover have "1000000 \<le> t" "t \<le> max 2000000 (uv + 122000)"
    using i e assms(4) by (auto simp: t_def x_def)
  moreover have "t = (let a = max 200 target; e = a - c_trunc (lm_current_rpm s);
      x = uv + 40 * e + 2 * i in if x < 2000000 \<and> a \<le> 200 then 2000000 else max 1000000 x)"
    unfolding Let_def t_def x_def e_def r_def a_def by (rule refl)
  moreover have "i = max (- 1000) (min 1000 (lm_pi_i_term s + (max 200 target - c_trunc (lm_current_rpm s))))"
    unfolding i_def e_def r_def a_def by (rule refl)
  ultimately show thesis by (rule that [OF pc])
qed

lemma step_uv_range:
  assumes "lm_inv s" "lm_uv s \<le> 2147200000" "step_uv lm_cfg target s = Some (uv, n)"
  shows "0 \<le> uv \<and> uv \<le> max 3300000 (lm_uv s + 1000) \<and> (n \<longrightarrow> uv \<le> lm_uv s + 1000)"
proof -
  have u: "0 \<le> lm_uv s" using assms(1) by (simp add: lm_inv_def)
  have half: "cdiv 5300000 2 = 2650000" by (simp add: cdiv_nonneg)
  have up: "to_i32 (lm_uv s + 1000) = lm_uv s + 1000" "to_i32 (lm_uv s - 2000) = lm_uv s - 2000"
    using u assms(2) by simp_all
  show ?thesis
    using assms(3) u unfolding step_uv_def Let_def
    by (auto simp: lm_cfg_sel half up split: if_splits)
qed

lemma lm_inv_set_uv: "lm_inv s \<Longrightarrow> 0 \<le> uv \<Longrightarrow> lm_inv (linear_motor_set_uv uv s)"
  by (simp add: lm_inv_def frame_simps)

lemma lm_inv_off: "lm_inv s \<Longrightarrow> lm_inv (s\<lparr>linear_motor_on := b\<rparr>)"
  by (simp add: lm_inv_def)

lemma take_sample_range:
  assumes inv: "lm_inv s" and e: "edges_ok edges p" and u: "lm_uv s \<le> 2147200000"
  shows "lm_inv (take_sample lm_cfg edges p s) \<and>
    lm_uv (take_sample lm_cfg edges p s) \<le> max 3300000 (lm_uv s + 123000)"
proof -
  let ?s = "count_pulses edges p s" and ?t = "lm_target_rpm s"
  have c: "lm_inv ?s" "lm_uv ?s = lm_uv s" using inv e by (simp_all add: lm_inv_count frame_simps)
  have t: "0 \<le> ?t" "?t \<le> 3000" "0 \<le> lm_uv s" using inv by (auto simp: lm_inv_def)
  have idle: "idle_uv lm_cfg = 1000000" by (simp add: lm_cfg_sel)
  consider "\<not> linear_motor_enabled s" | "linear_motor_enabled s" "?t = 0"
    | "linear_motor_enabled s" "?t \<noteq> 0" "step_uv lm_cfg ?t ?s = None"
    | uv n where "linear_motor_enabled s" "?t \<noteq> 0" "step_uv lm_cfg ?t ?s = Some (uv, n)"
    by (cases "step_uv lm_cfg ?t ?s") auto
  then show ?thesis
  proof cases
    case 1
    with inv show ?thesis by (simp add: take_sample_def)
  next
    case 2
    with c t show ?thesis
      by (simp add: take_sample_def Let_def idle lm_inv_off lm_inv_set_uv frame_simps le_max_iff_disj)
  next
    case 3
    with c show ?thesis by (simp add: take_sample_def Let_def)
  next
    case (4 uv n)
    have uv: "0 \<le> uv" "uv \<le> max 3300000 (lm_uv s + 1000)" "n \<longrightarrow> uv \<le> lm_uv s + 1000"
      using step_uv_range [OF c(1) _ 4(3)] c(2) u by simp_all
    show ?thesis
    proof (cases n)
      case False
      with 4 c uv show ?thesis
        by (simp add: take_sample_def Let_def lm_inv_set_uv frame_simps)
    next
      case True
      have "0 < ?t" "uv \<le> 2147350000" using 4(2) t uv u by simp_all
      from pi_correct_range [OF c(1) this(1) t(2) uv(1) this(2)] obtain w i where
        pc: "pi_correct lm_cfg ?t uv ?s = (w, ?s\<lparr>lm_pi_i_term := i\<rparr>)" "\<bar>i\<bar> \<le> INTEGRAL_LIMIT"
          "1000000 \<le> w" "w \<le> max 2000000 (uv + 122000)" by metis
      have "lm_inv (?s\<lparr>lm_pi_i_term := i\<rparr>)" using c(1) pc(2) by (simp add: lm_inv_def)
      moreover have "w \<le> max 3300000 (lm_uv s + 123000)" using pc(4) uv(3) True by linarith
      ultimately show ?thesis
        using 4 True pc by (simp add: take_sample_def Let_def lm_inv_set_uv frame_simps)
    qed
  qed
qed











subsection \<open>A stalled motor\<close>

lemma take_sample_stalled:
  assumes inv: "lm_inv s" and "linear_motor_enabled s" "200 < lm_target_rpm s" "3300000 \<le> lm_uv s"
    "lm_uv s \<le> 2147200000" "lm_current_rpm s = 0" "0 \<le> lm_pi_i_term s"
  defines "s' \<equiv> take_sample lm_cfg 1 0 s"
  shows "linear_motor_enabled s' \<and> lm_target_rpm s' = lm_target_rpm s \<and> lm_current_rpm s' = 0 \<and>
    0 \<le> lm_pi_i_term s' \<and> lm_inv s' \<and>
    lm_uv s + 1000 + 40 * lm_target_rpm s \<le> lm_uv s' \<and> lm_uv s' \<le> lm_uv s + 123000"
proof -
  let ?s = "count_pulses 1 0 s" and ?t = "lm_target_rpm s"
  have c: "lm_inv ?s" "lm_uv ?s = lm_uv s" "lm_current_rpm ?s = 0" "lm_pi_i_term ?s = lm_pi_i_term s"
    using inv assms(6) by (simp_all add: lm_inv_count edges_ok_def frame_simps)
  have t: "0 < ?t" "?t \<le> 3000" using inv assms(3) by (auto simp: lm_inv_def)
  have "to_i32 (lm_uv s + 1000) = lm_uv s + 1000" using assms(4,5) by simp
  then have st: "step_uv lm_cfg ?t ?s = Some (lm_uv s + 1000, True)"
    using c assms(3,4) by (simp add: step_uv_def motor_moves_def lm_cfg_sel cdiv_nonneg)
  have "0 \<le> lm_uv s + 1000" "lm_uv s + 1000 \<le> 2147350000" using assms(4,5) by simp_all
  from pi_correct_range [OF c(1) t this] obtain w i where
    pc: "pi_correct lm_cfg ?t (lm_uv s + 1000) ?s = (w, ?s\<lparr>lm_pi_i_term := i\<rparr>)"
    and w: "w = (let a = max 200 ?t; e = a - c_trunc (lm_current_rpm ?s);
              x = lm_uv s + 1000 + 40 * e + 2 * i
          in if x < 2000000 \<and> a \<le> 200 then 2000000 else max 1000000 x)"
    and i: "i = max (- 1000) (min 1000 (lm_pi_i_term ?s + (max 200 ?t - c_trunc (lm_current_rpm ?s))))"
    by metis
  have tr: "c_trunc (lm_current_rpm ?s) = 0" using c(3) by (simp add: c_trunc_def)
  have i0: "0 \<le> i" using i tr c(4) assms(7) t(1) by simp
  have w': "lm_uv s + 1000 + 40 * ?t \<le> w" using w tr i0 assms(3) by (simp add: Let_def)
  have s': "s' = linear_motor_set_uv w (?s\<lparr>lm_pi_i_term := i\<rparr>)"
    using assms(2) t(1) st pc by (simp add: s'_def take_sample_def Let_def)
  have "lm_inv s' \<and> lm_uv s' \<le> lm_uv s + 123000"
    using take_sample_range [OF inv, of 1 0] assms(4,5) by (simp add: s'_def edges_ok_def)
  then show ?thesis
    using w' i0 assms(2,6) by (simp add: s' frame_simps)
qed

text \<open>
   Nothing stops the voltage of a stalled motor at \<open>max_uv\<close>: with a target above the
  minimum speed and no pulses, every sample adds at least 1 mV and 40 microvolts per rpm of the
  target.  The clamp that should act compares the target speed with \<open>min_rpm_max_uv\<close>, a
  voltage, and \<open>max_uv\<close> is never read, so \<open>lm_uv\<close> runs past the range of the supply and only
  the duty saturates; the excess has to be wound down again before the duty falls.
\<close>

theorem linear_motor_winds_up:
  assumes "lm_inv s" "linear_motor_enabled s" "200 < lm_target_rpm s" "3300000 \<le> lm_uv s"
    "lm_current_rpm s = 0" "0 \<le> lm_pi_i_term s" "lm_uv s + 123000 * int n \<le> 2147200000"
  shows "lm_uv s + int n * (1000 + 40 * lm_target_rpm s) \<le> lm_uv ((take_sample lm_cfg 1 0 ^^ n) s)"
  using assms
proof (induction n arbitrary: s)
  case 0
  then show ?case by simp
next
  case (Suc n)
  let ?s = "take_sample lm_cfg 1 0 s"
  have "lm_uv s \<le> 2147200000" using Suc.prems(7) by simp
  note st = take_sample_stalled [OF Suc.prems(1-4) this Suc.prems(5,6)]
  have "lm_uv ?s + int n * (1000 + 40 * lm_target_rpm ?s) \<le> lm_uv ((take_sample lm_cfg 1 0 ^^ n) ?s)"
    by (rule Suc.IH) (use st Suc.prems in auto)
  with st show ?case by (simp add: funpow_Suc_right algebra_simps del: funpow.simps)
qed

definition lm_stalled :: motor where
  "lm_stalled = motor_static\<lparr>linear_motor_enabled := True, lm_target_rpm := 3000, lm_uv := 3300000\<rparr>"

theorem linear_motor_winds_up_witness:
  "max_uv lm_cfg < lm_uv ((take_sample lm_cfg 1 0 ^^ 20) lm_stalled)"
proof -
  have "lm_inv lm_stalled" "linear_motor_enabled lm_stalled" "200 < lm_target_rpm lm_stalled"
    "3300000 \<le> lm_uv lm_stalled" "lm_current_rpm lm_stalled = 0" "0 \<le> lm_pi_i_term lm_stalled"
    by (simp_all add: lm_stalled_def motor_static_def lm_inv_def INTEGRAL_LIMIT_def)
  from linear_motor_winds_up [OF this, of 20] show ?thesis
    by (simp add: lm_stalled_def lm_cfg_sel)
qed

subsection \<open>The two drivers together\<close>






lemma mc_inv_set_uv [wf_intros]: "mc_inv s \<Longrightarrow> mc_inv (linear_motor_set_uv uv s)"
proof -
  assume inv: "mc_inv s"
  have "0 \<le> uv_to_pwm (to_u32 uv) \<and> uv_to_pwm (to_u32 uv) \<le> 1023"
    using uv_to_pwm_range to_u32_range by blast
  then have "duty_ok (Ledc_duty (uv_to_pwm (to_u32 uv)))" by (simp add: duty_ok_def PWM_MAX_DUTY_def)
  moreover have "mc_inv (s\<lparr>lm_uv := uv\<rparr>)" using inv by (simp add: mc_inv_def tuned_def)
  ultimately show ?thesis by (simp add: set_uv_eq mc_inv_emit)
qed

lemma mc_inv_count: "mc_inv s \<Longrightarrow> mc_inv (count_pulses edges p s)"
  by (simp add: count_pulses_def Let_def mc_inv_def tuned_def motor_emit_def duty_ok_def)

lemma mc_inv_integrate: "mc_inv s \<Longrightarrow> mc_inv (integrate e s)"
  by (simp add: integrate_def Let_def mc_inv_def tuned_def)

lemma mc_inv_lm_flag: "mc_inv s \<Longrightarrow> mc_inv (s\<lparr>linear_motor_on := b\<rparr>)"
  by (simp add: mc_inv_def tuned_def)

lemma pi_correct_state: "\<exists>w e. pi_correct cfg target uv s = (w, integrate e s)"
  unfolding pi_correct_def Let_def by blast

lemma take_sample_cases:
  \<comment> \<open>what holds of a state holds after a sample, if the parts of the sample keep it\<close>
  assumes "P s" and count: "\<And>t. P t \<Longrightarrow> P (count_pulses edges p t)"
    and int: "\<And>e t. P t \<Longrightarrow> P (integrate e t)" and out: "\<And>uv t. P t \<Longrightarrow> P (linear_motor_set_uv uv t)"
    and off: "\<And>t. P t \<Longrightarrow> P (t\<lparr>linear_motor_on := False\<rparr>)"
  shows "P (take_sample cfg edges p s)"
proof -
  let ?s = "count_pulses edges p s" and ?t = "lm_target_rpm s"
  have c: "P ?s" using assms(1) by (rule count)
  consider "\<not> linear_motor_enabled s" | "linear_motor_enabled s" "?t = 0"
    | "linear_motor_enabled s" "?t \<noteq> 0" "step_uv cfg ?t ?s = None"
    | uv n where "linear_motor_enabled s" "?t \<noteq> 0" "step_uv cfg ?t ?s = Some (uv, n)"
    by (cases "step_uv cfg ?t ?s") auto
  then show ?thesis
  proof cases
    case (4 uv n)
    obtain w e where "pi_correct cfg ?t uv ?s = (w, integrate e ?s)" using pi_correct_state by blast
    with 4 c show ?thesis by (cases n) (simp_all add: take_sample_def Let_def int out)
  qed (use assms(1) c in \<open>simp_all add: take_sample_def Let_def out off\<close>)
qed

lemma mc_inv_take_sample [wf_intros]: "mc_inv s \<Longrightarrow> mc_inv (take_sample cfg edges p s)"
proof (rule take_sample_cases [of mc_inv s])
qed (auto intro: mc_inv_set_uv mc_inv_count mc_inv_integrate mc_inv_lm_flag)

lemma mc_inv_lm_set [wf_intros]: "mc_inv s \<Longrightarrow> mc_inv (linear_motor_set_rpm cfg r s)"
  by (simp add: linear_motor_set_rpm_def motor_util_set_target_def linear_motor_enable_eq Let_def
      mc_inv_def tuned_def)

lemma mc_inv_lm_ramp [wf_intros]: "mc_inv s \<Longrightarrow> mc_inv (linear_motor_set_rpm_ramp cfg r d s)"
  by (simp add: linear_motor_set_rpm_ramp_def mc_inv_lm_set)

lemma mc_inv_trim [wf_intros]: "mc_inv s \<Longrightarrow> mc_inv (linear_motor_trim cfg s)"
  by (simp add: linear_motor_trim_def Let_def mc_inv_set_uv mc_inv_emit duty_ok_def)

lemma mc_inv_display [wf_intros]: "mc_inv s \<Longrightarrow> mc_inv (motor_util_logging_ticker edges s)"
proof -
  have "mc_inv s \<Longrightarrow> mc_inv (display_average edges s)" for s
    by (simp add: display_average_def Let_def mc_inv_def tuned_def)
  moreover have "mc_inv s \<Longrightarrow> mc_inv (display_print s)" for s
    by (simp add: display_print_def Let_def mc_inv_def tuned_def motor_emit_def duty_ok_def)
  ultimately show "mc_inv s \<Longrightarrow> mc_inv (motor_util_logging_ticker edges s)"
    by (simp add: motor_util_logging_ticker_def)
qed











end
