(* ===== verification/CustomMcode.thy ===== *)
theory CustomMcode
  imports LinearMotor
begin

text \<open>
  \<open>main/custom/custom_mcode.c\<close> and \<open>main/custom/custom_commands.c\<close>: the M-codes and the user
  command that the embroidery machine adds to the grbl core.  The state is the motors with the
  state \<open>'c\<close> of the core, which is a submodule: its functions are the record \<open>core\<close>, the
  numbers it gives the M-codes the record \<open>mcode_numbers\<close>, its handler pointers functions.  The
  two options that compile the motor calls in are Booleans of the model.
\<close>

subsection \<open>Data\<close>

record mcode_numbers =
  Custom_Set_RPM :: nat
  Custom_Home_Seek :: nat
  Custom_Abort :: nat
  Custom_LINEAR_MOTOR_RPM :: nat
  Custom_LINEAR_MOTOR_TRIM :: nat

datatype mcode_type = UserMCode_Unsupported | UserMCode_Normal | UserMCode_other nat

datatype status_code = Status_OK | Status_GcodeValueWordMissing | Status_Unhandled | Status_other nat

record parser_block =
  user_mcode :: nat
  words_s :: bool
  values_s :: rat
  output_value :: rat

record 'c core =
  ABORTED :: "'c \<Rightarrow> bool"
  sys_position :: "'c \<Rightarrow> nat \<Rightarrow> int"
  steps_per_mm :: "nat \<Rightarrow> rat"
  max_travel :: "nat \<Rightarrow> rat"
  homing_dir_mask :: u8
  limits_get_axis_mask :: "nat \<Rightarrow> u8"
  steps_to_mpos :: "'c \<Rightarrow> rat list"
  homing_get_feedrate :: "u8 \<Rightarrow> rat"
  homing_get_state :: "'c \<Rightarrow> u8 \<times> 'c"
  on_execute_realtime :: "'c \<Rightarrow> 'c"
  rt_exec_stop :: "'c \<Rightarrow> bool"   \<comment> \<open>\<open>sys.rt_exec_state & (EXEC_RESET | EXEC_SAFETY_DOOR)\<close>\<close>
  plan_buffer_line :: "rat list \<Rightarrow> rat \<Rightarrow> 'c \<Rightarrow> 'c"
  set_homing_axis_lock :: "u8 \<Rightarrow> 'c \<Rightarrow> 'c"
  set_execute_sys_motion :: "bool \<Rightarrow> 'c \<Rightarrow> 'c"  \<comment> \<open>\<open>sys.step_control.flags = 0\<close>, then the flag\<close>
  st_wake_up :: "'c \<Rightarrow> 'c"
  st_prep_buffer :: "'c \<Rightarrow> 'c"
  st_reset :: "'c \<Rightarrow> 'c"
  write_all :: "rat list \<Rightarrow> 'c \<Rightarrow> 'c"     \<comment> \<open>a debug line, with the numbers in it\<close>
  report_plugin :: "string \<Rightarrow> string \<Rightarrow> 'c \<Rightarrow> 'c"
  report_message :: "string \<Rightarrow> 'c \<Rightarrow> 'c"
  enqueue_stop :: "'c \<Rightarrow> 'c"  \<comment> \<open>\<open>grbl.enqueue_realtime_command(CMD_STOP)\<close>\<close>

definition X_AXIS :: nat where "X_AXIS = 0"

subsection \<open>Seeking home\<close>

definition poll_home :: "'c core \<Rightarrow> u8 \<Rightarrow> bool \<Rightarrow> 'c \<Rightarrow> bool \<times> 'c" where
  \<comment> \<open>one round of a polling loop and whether it is the last; \<open>prep\<close> tells the two loops apart\<close>
  "poll_home core axis_mask prep c =
     (case homing_get_state core c of
        (signals, c) \<Rightarrow>
          let c = on_execute_realtime core c in
          if rt_exec_stop core c then (True, c)
          else
            let c = (if prep then st_prep_buffer core c else c)
            in (signals AND axis_mask \<noteq> 0, c))"

partial_function (option) poll_loop :: "'c core \<Rightarrow> u8 \<Rightarrow> bool \<Rightarrow> 'c \<Rightarrow> 'c option" where
  "poll_loop core axis_mask prep c =
     (case poll_home core axis_mask prep c of
        (finished, c) \<Rightarrow> if finished then Some c else poll_loop core axis_mask prep c)"

definition home_loop :: "'c core \<Rightarrow> 'c \<Rightarrow> 'c option" where
  "home_loop core c = poll_loop core (push_bit X_AXIS 1) False c"

definition seek_target :: "'c core \<Rightarrow> nat \<Rightarrow> 'c \<Rightarrow> rat list" where
  "seek_target core idx c =
     (let target = steps_to_mpos core c; travel_distance = max_travel core idx in
      target[idx := (if bit (homing_dir_mask core) idx then target ! idx - \<bar>travel_distance\<bar>
                     else target ! idx + \<bar>travel_distance\<bar>)])"

definition seek_axis :: "'c core \<Rightarrow> nat \<Rightarrow> 'c \<Rightarrow> (rat option \<times> 'c) option" where
  \<comment> \<open>the body of the outer loop for one axis; the result is \<open>pos_end[idx]\<close>, \<open>None\<close> in it when the
    \<open>continue\<close> leaves that variable unset\<close>
  "seek_axis core idx c =
     (let axis_mask = push_bit idx 1;
          target = seek_target core idx c;
          homing_rate = homing_get_feedrate core axis_mask
      in if homing_rate = 0 then Some (None, c)
         else
           let c = set_homing_axis_lock core (limits_get_axis_mask core idx) c;
               c = plan_buffer_line core target homing_rate c;
               c = set_execute_sys_motion core True c;
               c = st_wake_up core c
           in case poll_loop core axis_mask True c of
                None \<Rightarrow> None
              | Some c \<Rightarrow>
                  let c = set_execute_sys_motion core False (st_reset core c)
                  in Some (Some (of_int (sys_position core c idx) / steps_per_mm core idx), c))"

definition seek_home :: "'c core \<Rightarrow> 'c \<Rightarrow> 'c option" where
  \<comment> \<open>\<open>idx\<close> starts at 1 and is counted down first: the loop runs once, for the X axis\<close>
  "seek_home core c =
     (if ABORTED core c then Some c
      else
        let c = write_all core [] c;
            pos_start = of_int (sys_position core c 0) / steps_per_mm core 0
        in case seek_axis core 0 c of
             None \<Rightarrow> None
           | Some (pos_end, c) \<Rightarrow>
               Some (write_all core (case pos_end of None \<Rightarrow> [pos_start]
                 | Some e \<Rightarrow> [pos_start, e, e - pos_start]) c))"

subsection \<open>The M-code handlers\<close>

record ('g, 's) mcode_ptrs =
  check :: "(nat \<Rightarrow> mcode_type) option"
  validate :: "('g \<Rightarrow> status_code \<times> 'g) option"
  execute :: "(bool \<Rightarrow> 'g \<Rightarrow> 's \<Rightarrow> (status_code \<times> 's) option) option"

record 'c machine =
  mc_motor :: motor
  mc_core :: 'c

record options =
  MOTOR_CONTROL_ENABLE :: bool
  LINEAR_MOTOR :: bool

type_synonym 'c ptrs = "(parser_block, 'c machine) mcode_ptrs"

definition set_rpm :: "options \<Rightarrow> int \<Rightarrow> motor \<Rightarrow> motor" where
  "set_rpm opt v m = (if MOTOR_CONTROL_ENABLE opt then set_adrc_spindle_speed (of_int (to_u32 v)) m else m)"

definition cb_check :: "mcode_numbers \<Rightarrow> 'c ptrs \<Rightarrow> nat \<Rightarrow> mcode_type" where
  "cb_check num saved mcode =
     (if mcode = Custom_Set_RPM num \<or> mcode = Custom_Home_Seek num \<or> mcode = Custom_Abort num \<or>
         Custom_LINEAR_MOTOR_RPM num \<noteq> 0 \<or> Custom_LINEAR_MOTOR_TRIM num \<noteq> 0
      then UserMCode_Normal
      else case check saved of Some f \<Rightarrow> f mcode | None \<Rightarrow> UserMCode_Unsupported)"

definition cb_validate :: "mcode_numbers \<Rightarrow> 'c ptrs \<Rightarrow> parser_block \<Rightarrow> status_code \<times> parser_block" where
  "cb_validate num saved gc_block =
     (let m = user_mcode gc_block;
          (state, gc_block) =
            (if m = Custom_Set_RPM num \<or> m = Custom_LINEAR_MOTOR_RPM num
             then if words_s gc_block \<and> values_s gc_block \<ge> 0
                  then (Status_OK, gc_block\<lparr>output_value := values_s gc_block\<rparr>)
                  else (Status_GcodeValueWordMissing, gc_block)
             else if m = Custom_Abort num \<or> m = Custom_Home_Seek num \<or> m = Custom_LINEAR_MOTOR_TRIM num
             then (Status_OK, gc_block)
             else (Status_Unhandled, gc_block))
      in case validate saved of
           Some f \<Rightarrow> if state = Status_Unhandled then f gc_block else (state, gc_block)
         | None \<Rightarrow> (state, gc_block))"

definition cb_execute ::
    "mcode_numbers \<Rightarrow> options \<Rightarrow> 'c core \<Rightarrow> bool \<Rightarrow> parser_block \<Rightarrow> 'c machine \<Rightarrow>
     (status_code \<times> 'c machine) option" where
  \<comment> \<open>the Boolean: the state is \<open>STATE_CHECK_MODE\<close>; the labels of the switch are distinct numbers\<close>
  "cb_execute num opt core check_mode gc_block s =
     (let m = user_mcode gc_block; v = c_trunc (output_value gc_block) in
      if check_mode then Some (Status_OK, s)
      else if m = Custom_Set_RPM num
      then Some (Status_OK, s\<lparr>mc_motor := set_rpm opt v (mc_motor s)\<rparr>)
      else if m = Custom_LINEAR_MOTOR_RPM num
      then Some (Status_OK, if LINEAR_MOTOR opt
        then s\<lparr>mc_motor := linear_motor_set_rpm lm_cfg v (mc_motor s)\<rparr> else s)
      else if m = Custom_LINEAR_MOTOR_TRIM num
      then Some (Status_OK, if LINEAR_MOTOR opt
        then s\<lparr>mc_motor := linear_motor_trim lm_cfg (mc_motor s)\<rparr> else s)
      else if m = Custom_Abort num
      then Some (Status_OK, s\<lparr>mc_core := enqueue_stop core (mc_core s)\<rparr>)
      else if m = Custom_Home_Seek num
      then map_option (\<lambda>c. (Status_OK, s\<lparr>mc_core := c\<rparr>)) (seek_home core (mc_core s))
      else Some (Status_OK, s))"

definition onReportOptions :: "'c core \<Rightarrow> (bool \<Rightarrow> 'c \<Rightarrow> 'c) \<Rightarrow> bool \<Rightarrow> 'c \<Rightarrow> 'c" where
  "onReportOptions core on_report_options newopt c =
     (let c = on_report_options newopt c in
      if \<not> newopt then report_plugin core ''Custom MCode'' ''0.10'' c else c)"

definition custom_mcode_init ::
    "mcode_numbers \<Rightarrow> options \<Rightarrow> 'c core \<Rightarrow> 'c ptrs \<times> (bool \<Rightarrow> 'c \<Rightarrow> 'c) \<Rightarrow>
     'c ptrs \<times> (bool \<Rightarrow> 'c \<Rightarrow> 'c)" where
  \<comment> \<open>the new \<open>grbl.user_mcode\<close> and \<open>grbl.on_report_options\<close>; the old ones are kept in the
    static variables that the handlers read\<close>
  "custom_mcode_init num opt core grbl =
     (case grbl of (saved, on_report_options) \<Rightarrow>
        (\<lparr>check = Some (cb_check num saved), validate = Some (cb_validate num saved),
          execute = Some (cb_execute num opt core)\<rparr>,
         onReportOptions core on_report_options))"

subsection \<open>User commands\<close>

definition c_tolower :: "char \<Rightarrow> char" where
  "c_tolower c = (let n = of_char c :: nat in if 65 \<le> n \<and> n \<le> 90 then char_of (n + 32) else c)"

definition strcasecmp_eq :: "string \<Rightarrow> string \<Rightarrow> bool" where
  "strcasecmp_eq a b = (map c_tolower a = map c_tolower b)"

definition custom_commands_exec ::
    "'c core \<Rightarrow> (string \<Rightarrow> 'c \<Rightarrow> status_code \<times> 'c) option \<Rightarrow> string \<Rightarrow> 'c \<Rightarrow> status_code \<times> 'c" where
  "custom_commands_exec core on_user_command_v1 line c =
     (let c = report_message core ''CCMD: '' c;
          c = report_message core line c
      in if strcasecmp_eq line ''abort''
         then (Status_OK, enqueue_stop core (report_message core ''CCMD: ABORT'' c))
         else case on_user_command_v1 of Some f \<Rightarrow> f line c | None \<Rightarrow> (Status_Unhandled, c))"

definition custom_commands_init ::
    "'c core \<Rightarrow> (string \<Rightarrow> 'c \<Rightarrow> status_code \<times> 'c) option \<Rightarrow> (string \<Rightarrow> 'c \<Rightarrow> status_code \<times> 'c) option" where
  "custom_commands_init core on_user_command = Some (custom_commands_exec core on_user_command)"

subsection \<open>Checking and executing M-codes\<close>

definition numbers_ok :: "mcode_numbers \<Rightarrow> bool" where
  \<comment> \<open>M-code numbers: the five are different, and M0 is a standard code\<close>
  "numbers_ok num \<longleftrightarrow>
     distinct [Custom_Set_RPM num, Custom_Home_Seek num, Custom_Abort num,
       Custom_LINEAR_MOTOR_RPM num, Custom_LINEAR_MOTOR_TRIM num] \<and>
     0 \<notin> {Custom_Set_RPM num, Custom_Home_Seek num, Custom_Abort num,
       Custom_LINEAR_MOTOR_RPM num, Custom_LINEAR_MOTOR_TRIM num}"

definition own_mcodes :: "mcode_numbers \<Rightarrow> nat set" where
  "own_mcodes num = {Custom_Set_RPM num, Custom_Home_Seek num, Custom_Abort num,
     Custom_LINEAR_MOTOR_RPM num, Custom_LINEAR_MOTOR_TRIM num}"

text \<open>
   Once the plugin is initialised, every M-code number is accepted as a normal user M-code
  (the condition names the constants of the two linear motor codes instead of comparing them),
  the check function of a plugin registered before is never asked, and a code that is not one
  of the five executes to nothing with status OK: it is never handed to the earlier plugin,
  although its validation is.
\<close>

theorem mcode_chain_broken:
  fixes prev :: "'c ptrs" and opt :: options and core :: "'c core" and report :: "bool \<Rightarrow> 'c \<Rightarrow> 'c"
  assumes "numbers_ok num" "user_mcode g \<notin> own_mcodes num"
  defines "new \<equiv> fst (custom_mcode_init num opt core (prev, report))"
  shows "(\<exists>f. check new = Some f \<and> (\<forall>m. f m = UserMCode_Normal)) \<and>
    (\<exists>f. execute new = Some f \<and> (\<forall>chk s. f chk g s = Some (Status_OK, s))) \<and>
    (\<exists>f. validate new = Some f \<and>
      f g = (case validate prev of Some v \<Rightarrow> v g | None \<Rightarrow> (Status_Unhandled, g)))"
  using assms
  by (auto simp: custom_mcode_init_def cb_check_def cb_execute_def cb_validate_def numbers_ok_def
      own_mcodes_def Let_def split: option.split)

definition numbers0 :: mcode_numbers where
  "numbers0 = \<lparr>Custom_Set_RPM = 101, Custom_Home_Seek = 102, Custom_Abort = 103,
     Custom_LINEAR_MOTOR_RPM = 104, Custom_LINEAR_MOTOR_TRIM = 105\<rparr>"

lemma numbers0_ok: "numbers_ok numbers0"
  by (simp add: numbers_ok_def numbers0_def)

definition no_ptrs :: "'c ptrs" where
  "no_ptrs = \<lparr>check = Some (\<lambda>_. UserMCode_Unsupported), validate = Some (\<lambda>g. (Status_other 7, g)),
     execute = None\<rparr>"

definition gc_example :: parser_block where
  "gc_example = \<lparr>user_mcode = 356, words_s = True, values_s = 1000, output_value = 0\<rparr>"

definition opt_both :: options where
  "opt_both = \<lparr>MOTOR_CONTROL_ENABLE = True, LINEAR_MOTOR = True\<rparr>"

theorem mcode_chain_broken_witness:
  "\<forall>core report. \<exists>f. check (fst (custom_mcode_init numbers0 opt_both (core :: nat core)
      (no_ptrs, report))) = Some f \<and> f 356 = UserMCode_Normal"
proof (intro allI)
  fix core :: "nat core" and report
  have "user_mcode gc_example \<notin> own_mcodes numbers0"
    by (simp add: gc_example_def own_mcodes_def numbers0_def)
  from mcode_chain_broken [OF numbers0_ok this, of opt_both core no_ptrs report]
  show "\<exists>f. check (fst (custom_mcode_init numbers0 opt_both core (no_ptrs, report))) = Some f \<and>
      f 356 = UserMCode_Normal" by blast
qed

text \<open>
  The speed M-codes carry their S word to the motor: validation demands a non-negative S
  word (an error otherwise), and executing the validated block outside check mode sets the
  target of the chosen driver to it: the tuned controller for the one code, the linear motor
  with its 3000 rpm ceiling for the other.  In check mode nothing changes.
\<close>

theorem mcode_sets_speed:
  assumes "numbers_ok num" "mc_inv (mc_motor s)" "opt = opt_both"
    "user_mcode g = Custom_Set_RPM num \<or> user_mcode g = Custom_LINEAR_MOTOR_RPM num"
    "values_s g = of_int v" "v < 32768"
  shows "case cb_validate num saved g of (st, g') \<Rightarrow>
    if words_s g \<and> 0 \<le> v
    then st = Status_OK \<and> cb_execute num opt core True g' s = Some (Status_OK, s) \<and>
      (\<exists>m. cb_execute num opt core False g' s = Some (Status_OK, s\<lparr>mc_motor := m\<rparr>) \<and>
        (if user_mcode g = Custom_Set_RPM num then target_rpm m = of_int v \<and> tuned m
         else lm_target_rpm m = min 3000 v \<and> mu_target_rpm m = of_int (min 3000 v)))
    else st = Status_GcodeValueWordMissing \<and> g' = g"
proof (cases "words_s g \<and> 0 \<le> v")
  case False
  with assms show ?thesis by (auto simp: cb_validate_def Let_def split: option.split)
next
  case True
  let ?g = "g\<lparr>output_value := of_int v\<rparr>"
  have val: "cb_validate num saved g = (Status_OK, ?g)"
    using True assms(4,5) by (auto simp: cb_validate_def Let_def split: option.split)
  have chk: "cb_execute num opt core True ?g s = Some (Status_OK, s)"
    by (simp add: cb_execute_def Let_def)
  have ne: "Custom_Set_RPM num \<noteq> Custom_LINEAR_MOTOR_RPM num"
    using assms(1) by (simp add: numbers_ok_def)
  define m where "m = (if user_mcode g = Custom_Set_RPM num then set_adrc_spindle_speed (of_int v) (mc_motor s)
       else linear_motor_set_rpm lm_cfg v (mc_motor s))"
  have ex: "cb_execute num opt core False ?g s = Some (Status_OK, s\<lparr>mc_motor := m\<rparr>)"
    using assms(3,4,6) True ne
    by (auto simp: cb_execute_def set_rpm_def opt_both_def m_def Let_def)
  have t: "target_rpm (set_adrc_spindle_speed (of_int v) (mc_motor s)) = of_int v"
      "tuned (set_adrc_spindle_speed (of_int v) (mc_motor s))"
    using adrc_set_speed [OF assms(2), of "of_int v"] True by simp_all
  have l: "lm_target_rpm (linear_motor_set_rpm lm_cfg v (mc_motor s)) = min 3000 v"
      "mu_target_rpm (linear_motor_set_rpm lm_cfg v (mc_motor s)) = of_int (min 3000 v)"
    using True assms(6)
    by (auto simp: linear_motor_set_rpm_def motor_util_set_target_def linear_motor_enable_eq Let_def lm_cfg_sel)
  have "if user_mcode g = Custom_Set_RPM num then target_rpm m = of_int v \<and> tuned m
      else lm_target_rpm m = min 3000 v \<and> mu_target_rpm m = of_int (min 3000 v)"
    using t l by (simp add: m_def)
  then show ?thesis unfolding val using chk ex True by auto
qed

definition core0 :: "nat core" where
  \<comment> \<open>a core for the witnesses: the counter is the number of steps done towards the switch\<close>
  "core0 = \<lparr>ABORTED = (\<lambda>_. False), sys_position = (\<lambda>c _. int c), steps_per_mm = (\<lambda>_. 2),
     max_travel = (\<lambda>_. 100), homing_dir_mask = 1, limits_get_axis_mask = (\<lambda>_. 1),
     steps_to_mpos = (\<lambda>c. [of_nat c / 2]), homing_get_feedrate = (\<lambda>_. 500),
     homing_get_state = (\<lambda>c. (if c < 5 then 0 else 1, c)), on_execute_realtime = (\<lambda>c. c),
     rt_exec_stop = (\<lambda>_. False), plan_buffer_line = (\<lambda>_ _ c. c), set_homing_axis_lock = (\<lambda>_ c. c),
     set_execute_sys_motion = (\<lambda>_ c. c), st_wake_up = (\<lambda>c. c), st_prep_buffer = (\<lambda>c. c + 1),
     st_reset = (\<lambda>c. c), write_all = (\<lambda>_ c. c), report_plugin = (\<lambda>_ _ c. c),
     report_message = (\<lambda>_ c. c), enqueue_stop = (\<lambda>c. 0)\<rparr>"

theorem mcode_sets_speed_witness:
  "\<exists>m. cb_execute numbers0 opt_both core0 False
      (snd (cb_validate numbers0 (no_ptrs :: nat ptrs) (gc_example\<lparr>user_mcode := 101\<rparr>)))
      \<lparr>mc_motor = init_adrc_spindle_control None motor_static, mc_core = 0\<rparr> =
     Some (Status_OK, \<lparr>mc_motor = m, mc_core = 0\<rparr>) \<and> target_rpm m = 1000"
proof -
  let ?s = "\<lparr>mc_motor = init_adrc_spindle_control None motor_static, mc_core = 0 :: nat\<rparr>"
  let ?g = "gc_example\<lparr>user_mcode := 101\<rparr>"
  have "mc_inv (mc_motor ?s)" using mc_inv_init by simp
  moreover have "values_s ?g = of_int 1000" "words_s ?g" "user_mcode ?g = Custom_Set_RPM numbers0"
    by (simp_all add: gc_example_def numbers0_def)
  ultimately show ?thesis
    using mcode_sets_speed [OF numbers0_ok _ refl, of ?s ?g 1000, where saved = "no_ptrs :: nat ptrs" and core = core0]
    by (auto split: prod.splits)
qed

subsection \<open>Seeking home\<close>





subsection \<open>User commands\<close>

text \<open>
  The user command \<open>abort\<close>, in any mix of upper and lower case, stops the machine and is
  not passed on; every other line reaches the handler that was registered before, or is
  reported as unhandled when there was none.
\<close>

theorem user_command_abort:
  "custom_commands_init core prev = Some f \<Longrightarrow>
     f line c =
       (let c' = report_message core line (report_message core ''CCMD: '' c) in
        if map c_tolower line = ''abort''
        then (Status_OK, enqueue_stop core (report_message core ''CCMD: ABORT'' c'))
        else case prev of Some g \<Rightarrow> g line c' | None \<Rightarrow> (Status_Unhandled, c'))"
proof -
  have "map c_tolower ''abort'' = ''abort''" by code_simp
  then show "custom_commands_init core prev = Some f \<Longrightarrow> ?thesis"
    by (auto simp: custom_commands_init_def custom_commands_exec_def strcasecmp_eq_def Let_def)
qed

theorem user_command_abort_witness:
  "\<exists>f. custom_commands_init core0 None = Some f \<and> f ''AbOrt'' 3 = (Status_OK, 0) \<and>
     f ''abort now'' 3 = (Status_Unhandled, 3)"
proof -
  have "map c_tolower ''AbOrt'' = ''abort''" "map c_tolower ''abort now'' \<noteq> ''abort''" by code_simp+
  moreover obtain f where f: "custom_commands_init core0 None = Some f"
    by (simp add: custom_commands_init_def)
  ultimately show ?thesis
    using user_command_abort [OF f, of "''AbOrt''" 3] user_command_abort [OF f, of "''abort now''" 3]
    by (simp add: core0_def)
qed

end
