(* ===== verification/Spindle.thy ===== *)
theory Spindle
  imports Prelude Complex_Main
begin

text \<open>
  The spindle and coolant outputs of \<open>main/driver.c\<close>: the PWM spindle, the second PWM spindle,
  their configuration, and the coolant.  Modelled is the build with both PWM spindles on GPIO
  pins, without the laser PPI and the I2S output; whether a direction pin exists is the flag
  \<open>has_dir\<close> (\<open>has_dir1\<close> for the second spindle), ramping (\<open>PWM_RAMPED\<close>) the flag \<open>ramped\<close>.  The
  hardware is the level of each pin and what each LEDC channel was told last.  The pointer to
  the spindle that the functions receive is a record that they return changed; the second
  spindle's functions are translated with the calls they make, which are not always those of
  the second spindle.  Floats are rationals.
\<close>

subsection \<open>State\<close>

datatype pin_name = SPINDLE_ENABLE_PIN | SPINDLE_DIRECTION_PIN | SPINDLE1_ENABLE_PIN
  | SPINDLE1_DIRECTION_PIN | COOLANT_FLOOD_PIN | COOLANT_MIST_PIN

datatype pwm_out =
    Pwm_duty nat     \<comment> \<open>\<open>ledc_set_duty\<close> and \<open>ledc_update_duty\<close>\<close>
  | Pwm_fade nat     \<comment> \<open>\<open>ledc_set_fade_step_and_start\<close>: the target\<close>
  | Pwm_stop bool    \<comment> \<open>\<open>ledc_stop\<close>: the idle level\<close>

record spindle_hw =
  pin :: "pin_name \<Rightarrow> bool"
  pwm0 :: pwm_out
  pwm1 :: pwm_out
  ramp_target0 :: nat
  ramp_target1 :: nat

record pwm_flags =
  cloned :: bool
  rpm_controlled :: bool
  laser_off_overdrive :: bool
  always_on :: bool
  enable_out :: bool

datatype set_state_fn = Set_basic | Set_variable | Set_basic1 | Set_variable1
datatype off_fn = Off_basic | Off_variable | Off_basic1 | Off_variable1

record spindle_ptrs =
  off_value :: nat
  pwm_overdrive :: nat
  flags :: pwm_flags
  ctx_invert_pwm :: bool          \<comment> \<open>\<open>context.pwm->settings->invert.pwm\<close>\<close>
  compute_value :: "rat \<Rightarrow> nat"
  param_state_on :: bool
  cap_variable :: bool
  set_state :: set_state_fn
  esp32_off :: off_fn

record pwm_settings =
  invert_on :: bool
  invert_ccw :: bool
  invert_pwm :: bool
  pwm_disable :: bool
  rpm_max :: rat
  rpm_min :: rat
  pwm_freq :: rat
  laser_mode_disable :: bool

record pwm_config =
  freq_hz :: int
  duty_resolution :: nat
  timer_configs :: nat       \<comment> \<open>number of calls of \<open>ledc_timer_config\<close>\<close>
  timer_freq :: int          \<comment> \<open>last frequency given to \<open>ledc_set_freq\<close>\<close>
  pwm_max_value :: nat
  pwm_offset :: int
  ctx_laser_mode_disable :: bool

record spindle_state =
  st_on :: bool
  st_ccw :: bool
  st_at_speed :: bool

record core_fns =
  spindle_precompute_pwm_values :: "pwm_settings \<Rightarrow> nat \<Rightarrow> spindle_ptrs \<Rightarrow> spindle_ptrs"
    \<comment> \<open>fills in the PWM context of the spindle\<close>
  spindle_update_caps :: "bool \<Rightarrow> spindle_ptrs \<Rightarrow> spindle_ptrs"

record build =
  has_dir :: bool
  has_dir1 :: bool
  ena1 :: bool     \<comment> \<open>\<open>DRIVER_SPINDLE1_ENABLE & SPINDLE_ENA\<close>\<close>
  ramped :: bool
  wide_timer :: bool   \<comment> \<open>\<open>SOC_LEDC_TIMER_BIT_WIDE_NUM > 14\<close>\<close>
  has_flood :: bool
  has_mist :: bool

definition digital_out :: "pin_name \<Rightarrow> bool \<Rightarrow> spindle_hw \<Rightarrow> spindle_hw" where
  "digital_out p b h = h\<lparr>pin := (pin h)(p := b)\<rparr>"

type_synonym act = "spindle_ptrs \<times> spindle_hw"

definition set_enable_out :: "bool \<Rightarrow> spindle_ptrs \<Rightarrow> spindle_ptrs" where
  "set_enable_out b sp = sp\<lparr>flags := (flags sp)\<lparr>enable_out := b\<rparr>\<rparr>"

subsection \<open>The first spindle\<close>

definition spindle_off :: "build \<Rightarrow> pwm_settings \<Rightarrow> act \<Rightarrow> act" where
  "spindle_off bd cfg a =
     (case a of (sp, h) \<Rightarrow>
        (set_enable_out False sp,
         if has_dir bd \<and> cloned (flags sp) then digital_out SPINDLE_DIRECTION_PIN (invert_ccw cfg) h
         else digital_out SPINDLE_ENABLE_PIN (invert_on cfg) h))"

definition spindleOffBasic :: "build \<Rightarrow> pwm_settings \<Rightarrow> act \<Rightarrow> act" where
  "spindleOffBasic bd cfg a = spindle_off bd cfg a"

definition spindle_on :: "build \<Rightarrow> pwm_settings \<Rightarrow> act \<Rightarrow> act" where
  "spindle_on bd cfg a =
     (case a of (sp, h) \<Rightarrow>
        (set_enable_out True sp,
         if has_dir bd \<and> cloned (flags sp) then digital_out SPINDLE_DIRECTION_PIN (\<not> invert_ccw cfg) h
         else digital_out SPINDLE_ENABLE_PIN (\<not> invert_on cfg) h))"

definition spindle_dir :: "build \<Rightarrow> pwm_settings \<Rightarrow> bool \<Rightarrow> act \<Rightarrow> act" where
  "spindle_dir bd cfg ccw a =
     (case a of (sp, h) \<Rightarrow>
        (sp, if has_dir bd then digital_out SPINDLE_DIRECTION_PIN (ccw \<noteq> invert_ccw cfg) h else h))"

definition spindleSetState :: "build \<Rightarrow> pwm_settings \<Rightarrow> bool \<Rightarrow> bool \<Rightarrow> act \<Rightarrow> act" where
  "spindleSetState bd cfg on ccw a =
     (if \<not> on then spindle_off bd cfg a else spindle_on bd cfg (spindle_dir bd cfg ccw a))"

definition pwm_off :: "build \<Rightarrow> act \<Rightarrow> act" where
  "pwm_off bd a =
     (case a of (sp, h) \<Rightarrow>
        (sp, if ramped bd then h\<lparr>ramp_target0 := off_value sp, pwm0 := Pwm_fade (off_value sp)\<rparr>
             else if always_on (flags sp) then h\<lparr>pwm0 := Pwm_duty (off_value sp)\<rparr>
             else h\<lparr>pwm0 := Pwm_stop (ctx_invert_pwm sp)\<rparr>))"

definition spindleSetSpeed :: "build \<Rightarrow> pwm_settings \<Rightarrow> nat \<Rightarrow> act \<Rightarrow> act" where
  "spindleSetSpeed bd cfg pwm_value a =
     (case a of (sp, h) \<Rightarrow>
        if pwm_value = off_value sp
        then if rpm_controlled (flags sp)
             then (case spindle_off bd cfg (sp, h) of (sp, h) \<Rightarrow>
                     (sp, if laser_off_overdrive (flags sp) then h\<lparr>pwm0 := Pwm_duty (pwm_overdrive sp)\<rparr> else h))
             else pwm_off bd (sp, h)
        else
          let h = (if ramped bd then h\<lparr>ramp_target0 := pwm_value, pwm0 := Pwm_fade pwm_value\<rparr>
                   else h\<lparr>pwm0 := Pwm_duty pwm_value\<rparr>)
          in if \<not> enable_out (flags sp) \<and> rpm_controlled (flags sp) then spindle_on bd cfg (sp, h)
             else (sp, h))"

definition spindleGetPWM :: "spindle_ptrs \<Rightarrow> rat \<Rightarrow> nat" where
  "spindleGetPWM sp rpm = compute_value sp rpm"

definition spindleOff :: "build \<Rightarrow> pwm_settings \<Rightarrow> act \<Rightarrow> act" where
  "spindleOff bd cfg a = spindle_off bd cfg (pwm_off bd a)"

definition spindleSetStateVariable ::
    "build \<Rightarrow> pwm_settings \<Rightarrow> bool \<Rightarrow> bool \<Rightarrow> rat \<Rightarrow> act \<Rightarrow> act" where
  "spindleSetStateVariable bd cfg on ccw rpm a =
     (let sp = fst a in
      if \<not> (if cloned (flags sp) then ccw else on)
      then pwm_off bd (spindle_off bd cfg a)
      else
        let a = (if has_dir bd \<and> \<not> cloned (flags sp) then spindle_dir bd cfg ccw a else a) in
        if rpm = 0 \<and> rpm_controlled (flags sp) then spindle_off bd cfg a
        else spindleSetSpeed bd cfg (compute_value sp rpm) (spindle_on bd cfg a))"

definition spindleGetState ::
    "build \<Rightarrow> pwm_settings \<Rightarrow> (pwm_out \<Rightarrow> nat) \<Rightarrow> act \<Rightarrow> spindle_state" where
  \<comment> \<open>the third argument is \<open>ledc_get_duty\<close>\<close>
  "spindleGetState bd cfg ledc_get_duty a =
     (case a of (sp, h) \<Rightarrow>
        \<lparr>st_on = (pin h SPINDLE_ENABLE_PIN \<noteq> invert_on cfg) \<or> param_state_on sp,
         st_ccw = ((has_dir bd \<and> pin h SPINDLE_DIRECTION_PIN) \<noteq> invert_ccw cfg),
         st_at_speed = ramped bd \<and> ledc_get_duty (pwm0 h) = ramp_target0 h\<rparr>)"

subsection \<open>The second spindle\<close>

definition spindle1_off :: "build \<Rightarrow> pwm_settings \<Rightarrow> act \<Rightarrow> act" where
  "spindle1_off bd cfg1 a =
     (case a of (sp, h) \<Rightarrow>
        (sp, if has_dir1 bd
             then if cloned (flags sp) then digital_out SPINDLE1_DIRECTION_PIN (invert_ccw cfg1) h
                  else digital_out SPINDLE1_ENABLE_PIN (invert_on cfg1) h
             else if ena1 bd then digital_out SPINDLE1_ENABLE_PIN (invert_on cfg1) h else h))"

definition spindle1OffBasic :: "build \<Rightarrow> pwm_settings \<Rightarrow> act \<Rightarrow> act" where
  "spindle1OffBasic bd cfg1 a = spindle1_off bd cfg1 a"

definition spindle1_on :: "build \<Rightarrow> pwm_settings \<Rightarrow> act \<Rightarrow> act" where
  "spindle1_on bd cfg1 a =
     (case a of (sp, h) \<Rightarrow>
        (sp, if has_dir1 bd
             then if cloned (flags sp) then digital_out SPINDLE1_DIRECTION_PIN (\<not> invert_ccw cfg1) h
                  else digital_out SPINDLE1_ENABLE_PIN (\<not> invert_on cfg1) h
             else if ena1 bd then digital_out SPINDLE1_ENABLE_PIN (\<not> invert_on cfg1) h else h))"

definition spindle1_dir :: "build \<Rightarrow> pwm_settings \<Rightarrow> bool \<Rightarrow> act \<Rightarrow> act" where
  "spindle1_dir bd cfg1 ccw a =
     (case a of (sp, h) \<Rightarrow>
        (sp, if has_dir1 bd then digital_out SPINDLE1_DIRECTION_PIN (ccw \<noteq> invert_ccw cfg1) h else h))"

definition spindle1SetState :: "build \<Rightarrow> pwm_settings \<Rightarrow> bool \<Rightarrow> bool \<Rightarrow> act \<Rightarrow> act" where
  "spindle1SetState bd cfg1 on ccw a =
     (if \<not> on then spindle1_off bd cfg1 a else spindle1_on bd cfg1 (spindle1_dir bd cfg1 ccw a))"

definition pwm1_off :: "build \<Rightarrow> act \<Rightarrow> act" where
  "pwm1_off bd a =
     (case a of (sp, h) \<Rightarrow>
        (sp, if ramped bd then h\<lparr>ramp_target1 := off_value sp, pwm1 := Pwm_fade (off_value sp)\<rparr>
             else if always_on (flags sp) then h\<lparr>pwm1 := Pwm_duty (off_value sp)\<rparr>
             else h\<lparr>pwm1 := Pwm_stop (ctx_invert_pwm sp)\<rparr>))"

definition pwm1_duty :: "pwm_config \<Rightarrow> spindle_ptrs \<Rightarrow> nat \<Rightarrow> pwm_out" where
  "pwm1_duty pc1 sp v = Pwm_duty (if ctx_invert_pwm sp then pwm_max_value pc1 - v else v)"

definition spindle1SetSpeed ::
    "build \<Rightarrow> pwm_settings \<Rightarrow> pwm_config \<Rightarrow> nat \<Rightarrow> act \<Rightarrow> act" where
  \<comment> \<open>\<open>cfg\<close> is the first spindle's settings: \<open>spindle_off\<close> and \<open>spindle_on\<close> are called\<close>
  "spindle1SetSpeed bd cfg pc1 pwm_value a =
     (case a of (sp, h) \<Rightarrow>
        if pwm_value = off_value sp
        then if rpm_controlled (flags sp)
             then (case spindle_off bd cfg (sp, h) of (sp, h) \<Rightarrow>
                     (sp, if laser_off_overdrive (flags sp) then h\<lparr>pwm1 := pwm1_duty pc1 sp pwm_value\<rparr> else h))
             else pwm1_off bd (sp, h)
        else
          let h = (if ramped bd then h\<lparr>ramp_target1 := pwm_value, pwm1 := Pwm_fade pwm_value\<rparr>
                   else h\<lparr>pwm1 := pwm1_duty pc1 sp pwm_value\<rparr>)
          in if \<not> enable_out (flags sp) \<and> rpm_controlled (flags sp) then spindle_on bd cfg (sp, h)
             else (sp, h))"

definition spindle1GetPWM :: "spindle_ptrs \<Rightarrow> rat \<Rightarrow> nat" where
  "spindle1GetPWM sp rpm = compute_value sp rpm"

definition spindle1Off :: "build \<Rightarrow> pwm_settings \<Rightarrow> act \<Rightarrow> act" where
  "spindle1Off bd cfg1 a = pwm1_off bd (spindle1_off bd cfg1 a)"

definition spindle1SetStateVariable ::
    "build \<Rightarrow> pwm_settings \<Rightarrow> pwm_settings \<Rightarrow> pwm_config \<Rightarrow> bool \<Rightarrow> bool \<Rightarrow> rat \<Rightarrow> act \<Rightarrow> act" where
  "spindle1SetStateVariable bd cfg cfg1 pc1 on ccw rpm a =
     (let sp = fst a in
      if \<not> (if cloned (flags sp) then ccw else on)
      then pwm1_off bd (spindle1_off bd cfg1 a)
      else
        let a = (if has_dir bd \<and> \<not> cloned (flags sp) then spindle_dir bd cfg ccw a else a) in
        if rpm = 0 \<and> rpm_controlled (flags sp) then spindle1_off bd cfg1 a
        else spindle1SetSpeed bd cfg pc1 (compute_value sp rpm) (spindle1_on bd cfg1 a))"

definition spindle1GetState ::
    "build \<Rightarrow> pwm_settings \<Rightarrow> (pwm_out \<Rightarrow> nat) \<Rightarrow> act \<Rightarrow> spindle_state" where
  "spindle1GetState bd cfg1 ledc_get_duty a =
     (case a of (sp, h) \<Rightarrow>
        \<lparr>st_on = (pin h SPINDLE1_ENABLE_PIN \<noteq> invert_on cfg1) \<or> param_state_on sp,
         st_ccw = ((has_dir bd \<and> pin h SPINDLE1_DIRECTION_PIN) \<noteq> invert_ccw cfg1),
         st_at_speed = ramped bd \<and> ledc_get_duty (pwm1 h) = ramp_target1 h\<rparr>)"

subsection \<open>Configuration\<close>

definition timer_update :: "build \<Rightarrow> rat \<Rightarrow> pwm_config \<Rightarrow> pwm_config" where
  \<comment> \<open>the block under \<open>freq_hz != ...\<close>, the same in both functions\<close>
  "timer_update bd freq pc =
     (let f = \<lfloor>freq\<rfloor>; wide = (if wide_timer bd then 16 else 14) in
      if freq_hz pc \<noteq> f
      then
        let pc = pc\<lparr>freq_hz := f\<rparr> in
        if freq_hz pc \<le> 100
        then if duty_resolution pc \<noteq> wide
             then pc\<lparr>duty_resolution := wide, timer_configs := timer_configs pc + 1\<rparr> else pc
        else if duty_resolution pc \<noteq> 10
        then pc\<lparr>duty_resolution := 10, timer_configs := timer_configs pc + 1\<rparr> else pc
      else pc)"

definition pwm_setup :: "build \<Rightarrow> pwm_settings \<Rightarrow> pwm_config \<Rightarrow> pwm_config" where
  "pwm_setup bd cfg pc =
     (let pc = timer_update bd (pwm_freq cfg) pc;
          pc = pc\<lparr>pwm_max_value := 2 ^ duty_resolution pc - 1,
            pwm_offset := (if invert_pwm cfg then - 1 else 1)\<rparr>
      in pc\<lparr>timer_freq := freq_hz pc\<rparr>)"

definition call_set_state ::
    "build \<Rightarrow> pwm_settings \<Rightarrow> pwm_settings \<Rightarrow> pwm_config \<Rightarrow> bool \<Rightarrow> bool \<Rightarrow> rat \<Rightarrow> act \<Rightarrow> act" where
  \<comment> \<open>the call through the pointer \<open>spindle->set_state\<close>\<close>
  "call_set_state bd cfg cfg1 pc1 on ccw rpm a =
     (case set_state (fst a) of
        Set_basic \<Rightarrow> spindleSetState bd cfg on ccw a
      | Set_variable \<Rightarrow> spindleSetStateVariable bd cfg on ccw rpm a
      | Set_basic1 \<Rightarrow> spindle1SetState bd cfg1 on ccw a
      | Set_variable1 \<Rightarrow> spindle1SetStateVariable bd cfg cfg1 pc1 on ccw rpm a)"

definition spindleConfig ::
    "build \<Rightarrow> core_fns \<Rightarrow> pwm_settings \<Rightarrow> pwm_settings \<Rightarrow> pwm_config \<Rightarrow>
     pwm_config \<times> act \<Rightarrow> pwm_config \<times> act" where
  "spindleConfig bd fns cfg cfg1 pc1 x =
     (case x of (pc, (sp, h)) \<Rightarrow>
        let sp = sp\<lparr>cap_variable := \<not> pwm_disable cfg \<and> rpm_max cfg > rpm_min cfg\<rparr>;
            (pc, (sp, h)) =
              (if cap_variable sp
               then
                 let sp = sp\<lparr>esp32_off := Off_variable, set_state := Set_variable\<rparr>;
                     pc = pwm_setup bd cfg pc;
                     sp = spindle_precompute_pwm_values fns cfg (pwm_max_value pc) sp
                 in (pc\<lparr>ctx_laser_mode_disable := laser_mode_disable cfg\<rparr>, (sp, h))
               else
                 case (if enable_out (flags sp) then call_set_state bd cfg cfg1 pc1 False False 0 (sp, h)
                       else (sp, h)) of
                   (sp, h) \<Rightarrow> (pc, (sp\<lparr>esp32_off := Off_basic, set_state := Set_basic\<rparr>, h)))
        in (pc, (spindle_update_caps fns (cap_variable sp) sp, h)))"

definition spindle1Config ::
    "build \<Rightarrow> core_fns \<Rightarrow> pwm_settings \<Rightarrow> pwm_settings \<Rightarrow> pwm_config \<times> act \<Rightarrow> pwm_config \<times> act" where
  "spindle1Config bd fns cfg cfg1 x =
     (case x of (pc, (sp, h)) \<Rightarrow>
        let sp = sp\<lparr>cap_variable := \<not> pwm_disable cfg1 \<and> rpm_max cfg1 > rpm_min cfg1\<rparr>;
            (pc, (sp, h)) =
              (if cap_variable sp
               then
                 let sp = sp\<lparr>esp32_off := Off_variable1, set_state := Set_variable1\<rparr>;
                     pc = pwm_setup bd cfg1 pc
                 in (pc, (spindle_precompute_pwm_values fns cfg1 (pwm_max_value pc) sp, h))
               else
                 case (if enable_out (flags sp) then call_set_state bd cfg cfg1 pc False False 0 (sp, h)
                       else (sp, h)) of
                   (sp, h) \<Rightarrow> (pc, (sp\<lparr>esp32_off := Off_basic1, set_state := Set_basic1\<rparr>, h)))
        in (pc, (spindle_update_caps fns (cap_variable sp) sp, h)))"

subsection \<open>Coolant\<close>

record coolant_state =
  flood :: bool
  mist :: bool

definition coolantSetState :: "build \<Rightarrow> coolant_state \<Rightarrow> coolant_state \<Rightarrow> spindle_hw \<Rightarrow> spindle_hw" where
  \<comment> \<open>the second argument is \<open>settings.coolant.invert\<close>\<close>
  "coolantSetState bd cinv mode h =
     (let mode = \<lparr>flood = (flood mode \<noteq> flood cinv), mist = (mist mode \<noteq> mist cinv)\<rparr>;
          h = (if has_flood bd then digital_out COOLANT_FLOOD_PIN (flood mode) h else h)
      in if has_mist bd then digital_out COOLANT_MIST_PIN (mist mode) h else h)"

definition coolantGetState :: "build \<Rightarrow> coolant_state \<Rightarrow> spindle_hw \<Rightarrow> coolant_state" where
  "coolantGetState bd cinv h =
     (let state = cinv;
          state = (if has_flood bd then state\<lparr>flood := pin h COOLANT_FLOOD_PIN\<rparr> else state);
          state = (if has_mist bd then state\<lparr>mist := pin h COOLANT_MIST_PIN\<rparr> else state)
      in \<lparr>flood = (flood state \<noteq> flood cinv), mist = (mist state \<noteq> mist cinv)\<rparr>)"

subsection \<open>Facts\<close>

lemma pin_digital_out [simp]: "pin (digital_out p b h) q = (if q = p then b else pin h q)"
  by (simp add: digital_out_def)

lemma digital_out_pwm [simp, frame_simps]:
  "pwm0 (digital_out p b h) = pwm0 h" "pwm1 (digital_out p b h) = pwm1 h"
  "ramp_target0 (digital_out p b h) = ramp_target0 h" "ramp_target1 (digital_out p b h) = ramp_target1 h"
  by (simp_all add: digital_out_def)

lemma set_enable_out_sel [simp]:
  "enable_out (flags (set_enable_out b sp)) = b" "cloned (flags (set_enable_out b sp)) = cloned (flags sp)"
  "rpm_controlled (flags (set_enable_out b sp)) = rpm_controlled (flags sp)"
  "laser_off_overdrive (flags (set_enable_out b sp)) = laser_off_overdrive (flags sp)"
  "always_on (flags (set_enable_out b sp)) = always_on (flags sp)"
  "off_value (set_enable_out b sp) = off_value sp" "compute_value (set_enable_out b sp) = compute_value sp"
  "pwm_overdrive (set_enable_out b sp) = pwm_overdrive sp" "ctx_invert_pwm (set_enable_out b sp) = ctx_invert_pwm sp"
  "param_state_on (set_enable_out b sp) = param_state_on sp"
  by (simp_all add: set_enable_out_def)

lemmas spindle0_defs = spindle_off_def spindle_on_def spindle_dir_def spindleSetState_def pwm_off_def
  spindleSetSpeed_def spindleSetStateVariable_def Let_def

lemmas spindle1_defs = spindle1_off_def spindle1_on_def spindle1_dir_def spindle1SetState_def pwm1_off_def
  spindle1SetSpeed_def spindle1SetStateVariable_def Let_def

text \<open>
   What the on/off spindle is told is what it reports, whatever the polarity of its pins:
  after \<open>spindleSetState\<close> the state read back from the pins is on exactly when it was
  switched on, with the direction asked for, and the PWM channels and the other pins are untouched.
\<close>

theorem spindle_state_roundtrip:
  fixes sp :: spindle_ptrs and h :: spindle_hw and bd :: build and cfg :: pwm_settings and on ccw :: bool
  assumes "\<not> cloned (flags sp)" "\<not> param_state_on sp" "has_dir bd"
  defines "a \<equiv> spindleSetState bd cfg on ccw (sp, h)"
  shows "st_on (spindleGetState bd cfg duty a) = on \<and>
    (on \<longrightarrow> st_ccw (spindleGetState bd cfg duty a) = ccw) \<and>
    enable_out (flags (fst a)) = on \<and> pwm0 (snd a) = pwm0 h \<and> pwm1 (snd a) = pwm1 h \<and>
    (\<forall>p. p \<noteq> SPINDLE_ENABLE_PIN \<and> p \<noteq> SPINDLE_DIRECTION_PIN \<longrightarrow> pin (snd a) p = pin h p)"
  using assms by (auto simp: spindle0_defs spindleGetState_def)

text \<open>
   The PWM spindle in full: switched off, its enable output is inactive and its PWM idle
  (the off value, or stopped at the idle level of its polarity); at speed zero with the output
  controlled by the speed, the enable output is inactive; at any other speed the enable output
  is active and the PWM carries the value computed for the speed.  The direction follows the
  request, and the second spindle's channel is untouched.
\<close>

theorem spindle_variable_spec:
  fixes sp :: spindle_ptrs and h :: spindle_hw and bd :: build and cfg :: pwm_settings and on ccw :: bool
    and rpm :: rat
  assumes "\<not> cloned (flags sp)" "has_dir bd" "\<not> ramped bd"
  defines "a \<equiv> spindleSetStateVariable bd cfg on ccw rpm (sp, h)"
    and "idle \<equiv> (if always_on (flags sp) then Pwm_duty (off_value sp) else Pwm_stop (ctx_invert_pwm sp))"
  shows "(\<not> on \<longrightarrow> pin (snd a) SPINDLE_ENABLE_PIN = invert_on cfg \<and> \<not> enable_out (flags (fst a)) \<and>
        pwm0 (snd a) = idle) \<and>
    (on \<longrightarrow> pin (snd a) SPINDLE_DIRECTION_PIN = (ccw \<noteq> invert_ccw cfg)) \<and>
    (on \<and> rpm = 0 \<and> rpm_controlled (flags sp) \<longrightarrow> pin (snd a) SPINDLE_ENABLE_PIN = invert_on cfg) \<and>
    (on \<and> (rpm \<noteq> 0 \<or> \<not> rpm_controlled (flags sp)) \<and> compute_value sp rpm \<noteq> off_value sp \<longrightarrow>
        pin (snd a) SPINDLE_ENABLE_PIN = (\<not> invert_on cfg) \<and> enable_out (flags (fst a)) \<and>
        pwm0 (snd a) = Pwm_duty (compute_value sp rpm)) \<and>
    pwm1 (snd a) = pwm1 h"
  using assms by (auto simp: spindle0_defs)

text \<open>
  Starting the second PWM spindle switches the first one on: \<open>spindle1SetSpeed\<close> calls
  \<open>spindle_on\<close> of the first spindle, and since the second spindle's own functions never set
  \<open>enable_out\<close>, it does so at every speed change under speed control; the direction asked of
  the second spindle goes to the direction pin of the first.
\<close>

theorem spindle1_drives_spindle0:
  fixes sp :: spindle_ptrs and h :: spindle_hw and bd :: build and cfg cfg1 :: pwm_settings and ccw :: bool
    and rpm :: rat and pc1 :: pwm_config
  assumes "\<not> cloned (flags sp)" "has_dir bd" "has_dir1 bd" "\<not> enable_out (flags sp)" "rpm_controlled (flags sp)"
    "rpm \<noteq> 0" "compute_value sp rpm \<noteq> off_value sp"
  defines "a \<equiv> spindle1SetStateVariable bd cfg cfg1 pc1 True ccw rpm (sp, h)"
  shows "pin (snd a) SPINDLE_ENABLE_PIN = (\<not> invert_on cfg) \<and>
    pin (snd a) SPINDLE_DIRECTION_PIN = (ccw \<noteq> invert_ccw cfg) \<and>
    pin (snd a) SPINDLE1_DIRECTION_PIN = pin h SPINDLE1_DIRECTION_PIN"
  using assms by (auto simp: spindle0_defs spindle1_defs)

text \<open>
  The coolant outputs report what they were told, whatever their polarity: each output
  the build has reads back as set, one that it does not have as off, and no other pin changes.
\<close>

theorem coolant_roundtrip:
  "coolantGetState bd cinv (coolantSetState bd cinv mode h) =
     \<lparr>flood = (has_flood bd \<and> flood mode), mist = (has_mist bd \<and> mist mode)\<rparr> \<and>
   (\<forall>p. p \<noteq> COOLANT_FLOOD_PIN \<and> p \<noteq> COOLANT_MIST_PIN \<longrightarrow>
      pin (coolantSetState bd cinv mode h) p = pin h p)"
  by (auto simp: coolantGetState_def coolantSetState_def Let_def)

definition pwm_config_ok :: "build \<Rightarrow> pwm_config \<Rightarrow> bool" where
  \<comment> \<open>the resolution is the one for the frequency\<close>
  "pwm_config_ok bd pc \<longleftrightarrow>
     duty_resolution pc = (if freq_hz pc \<le> 100 then (if wide_timer bd then 16 else 14) else 10)"

text \<open>
  Configuring the spindle for variable speed leaves timer and range consistent, whatever
  the frequency was before: the timer runs at the new frequency with the wide resolution up to
  100 Hz and 10 bits above, the largest PWM value is that of the resolution, and the outputs
  are left alone.
\<close>

theorem spindle_config_timer:
  assumes "pwm_config_ok bd pc" "\<not> pwm_disable cfg" "rpm_min cfg < rpm_max cfg"
  shows "\<exists>pc' sp'. spindleConfig bd fns cfg cfg1 pc1 (pc, (sp, h)) = (pc', (sp', h)) \<and>
    pwm_config_ok bd pc' \<and> freq_hz pc' = \<lfloor>pwm_freq cfg\<rfloor> \<and> timer_freq pc' = \<lfloor>pwm_freq cfg\<rfloor> \<and>
    pwm_max_value pc' = 2 ^ duty_resolution pc' - 1 \<and>
    (pwm_freq cfg < 101 \<longrightarrow> duty_resolution pc' = (if wide_timer bd then 16 else 14)) \<and>
    (101 \<le> pwm_freq cfg \<longrightarrow> duty_resolution pc' = 10)"
proof -
  let ?pc = "timer_update bd (pwm_freq cfg) pc"
  have t: "pwm_config_ok bd ?pc" "freq_hz ?pc = \<lfloor>pwm_freq cfg\<rfloor>"
    using assms(1) by (simp_all add: timer_update_def pwm_config_ok_def Let_def)
  have "\<lfloor>pwm_freq cfg\<rfloor> \<le> 100 \<longleftrightarrow> pwm_freq cfg < 101" by (simp add: floor_le_iff)
  with t show ?thesis
    using assms(2,3) by (auto simp: spindleConfig_def pwm_setup_def pwm_config_ok_def Let_def)
qed

subsection \<open>Concrete instances\<close>

definition build0 :: build where
  "build0 = \<lparr>has_dir = True, has_dir1 = True, ena1 = True, ramped = False, wide_timer = True,
     has_flood = True, has_mist = False\<rparr>"

definition cfg0 :: pwm_settings where
  "cfg0 = \<lparr>invert_on = True, invert_ccw = False, invert_pwm = False, pwm_disable = False,
     rpm_max = 24000, rpm_min = 100, pwm_freq = 5000, laser_mode_disable = False\<rparr>"

definition spindle_ptrs0 :: spindle_ptrs where
  "spindle_ptrs0 = \<lparr>off_value = 0, pwm_overdrive = 0,
     flags = \<lparr>cloned = False, rpm_controlled = True, laser_off_overdrive = False, always_on = False,
       enable_out = False\<rparr>,
     ctx_invert_pwm = False, compute_value = (\<lambda>rpm. nat \<lfloor>rpm / 24\<rfloor>), param_state_on = False,
     cap_variable = True, set_state = Set_variable, esp32_off = Off_variable\<rparr>"

definition spindle_hw0 :: spindle_hw where
  "spindle_hw0 = \<lparr>pin = (\<lambda>p. p = SPINDLE_ENABLE_PIN), pwm0 = Pwm_stop False, pwm1 = Pwm_stop False,
     ramp_target0 = 0, ramp_target1 = 0\<rparr>"

definition pwm_config0 :: pwm_config where
  "pwm_config0 = \<lparr>freq_hz = 50, duty_resolution = 16, timer_configs = 1, timer_freq = 50,
     pwm_max_value = 65535, pwm_offset = 1, ctx_laser_mode_disable = False\<rparr>"

lemma spindle_ptrs0_sel:
  "\<not> cloned (flags spindle_ptrs0)" "\<not> param_state_on spindle_ptrs0" "rpm_controlled (flags spindle_ptrs0)"
  "\<not> enable_out (flags spindle_ptrs0)" "has_dir build0" "has_dir1 build0" "\<not> ramped build0"
  by (simp_all add: spindle_ptrs0_def build0_def)

theorem spindle_state_roundtrip_witness:
  "st_on (spindleGetState build0 cfg0 (\<lambda>_. 0) (spindleSetState build0 cfg0 True True (spindle_ptrs0, spindle_hw0))) \<and>
   st_ccw (spindleGetState build0 cfg0 (\<lambda>_. 0) (spindleSetState build0 cfg0 True True (spindle_ptrs0, spindle_hw0)))"
  using spindle_state_roundtrip [OF spindle_ptrs0_sel(1,2,5), where cfg = cfg0 and on = True and ccw = True
      and h = spindle_hw0 and duty = "\<lambda>_. 0"] by simp

theorem spindle_variable_spec_witness:
  "pwm0 (snd (spindleSetStateVariable build0 cfg0 True False 12000 (spindle_ptrs0, spindle_hw0))) = Pwm_duty 500"
proof -
  have "compute_value spindle_ptrs0 12000 = 500" "off_value spindle_ptrs0 = 0" by (simp_all add: spindle_ptrs0_def)
  then show ?thesis
    using spindle_variable_spec [OF spindle_ptrs0_sel(1,5,7), where cfg = cfg0 and on = True and ccw = False
        and rpm = 12000 and h = spindle_hw0] by simp
qed

theorem spindle1_drives_spindle0_witness:
  "pin spindle_hw0 SPINDLE_ENABLE_PIN = invert_on cfg0 \<and>
   pin (snd (spindle1SetStateVariable build0 cfg0 cfg0 pwm_config0 True False 12000 (spindle_ptrs0, spindle_hw0)))
     SPINDLE_ENABLE_PIN = (\<not> invert_on cfg0)"
proof -
  have "compute_value spindle_ptrs0 12000 \<noteq> off_value spindle_ptrs0" by (simp add: spindle_ptrs0_def)
  then show ?thesis
    using spindle1_drives_spindle0 [OF spindle_ptrs0_sel(1,5,6,4,3), where rpm = 12000 and cfg = cfg0
        and ?cfg1.0 = cfg0 and ?pc1.0 = pwm_config0 and ccw = False and h = spindle_hw0]
    by (simp add: spindle_hw0_def cfg0_def)
qed

theorem spindle_config_timer_witness:
  "\<forall>fns. \<exists>pc' sp'. spindleConfig build0 fns cfg0 cfg0 pwm_config0 (pwm_config0, (spindle_ptrs0, spindle_hw0)) =
     (pc', (sp', spindle_hw0)) \<and> duty_resolution pc' = 10"
proof
  fix fns
  have "pwm_config_ok build0 pwm_config0" "\<not> pwm_disable cfg0" "rpm_min cfg0 < rpm_max cfg0" "101 \<le> pwm_freq cfg0"
    by (simp_all add: pwm_config_ok_def pwm_config0_def build0_def cfg0_def)
  with spindle_config_timer [OF this(1-3), of fns cfg0 pwm_config0 spindle_ptrs0 spindle_hw0]
  show "\<exists>pc' sp'. spindleConfig build0 fns cfg0 cfg0 pwm_config0 (pwm_config0, (spindle_ptrs0, spindle_hw0)) =
     (pc', (sp', spindle_hw0)) \<and> duty_resolution pc' = 10" by blast
qed

end
