(* ===== verification/IoPorts.thy ===== *)
theory IoPorts
  imports Prelude Complex_Main
begin

text \<open>
  \<open>main/ioports.c\<close>: the auxiliary digital ports (configuration, output, state, waiting on an
  input, interrupt handlers), with \<open>map_intr_type\<close> of \<open>driver.c\<close>.  The GPIO layer and the grbl
  core are the record \<open>io_env\<close> over a device state \<open>'d\<close>; the values of the interrupt modes are
  declared in the core.  What an interrupt changes while the code waits, \<open>event_port\<close> included,
  happens in the core's \<open>delay_ms\<close>.  The arrays \<open>aux_in\<close> and \<open>aux_out\<close> are lists, pointers to
  their elements are indices.
\<close>

subsection \<open>State and environment\<close>

datatype gpio_intr = GPIO_INTR_DISABLE | GPIO_INTR_POSEDGE | GPIO_INTR_NEGEDGE | GPIO_INTR_ANYEDGE
  | GPIO_INTR_LOW_LEVEL | GPIO_INTR_HIGH_LEVEL

datatype pull_mode = PullMode_None | PullMode_Down | PullMode_Up | PullMode_UpDown

datatype wait_mode = WaitMode_Immediate | WaitMode_Rise | WaitMode_Fall | WaitMode_High | WaitMode_Low

datatype port_dir = Port_Input | Port_Output

record 'cb input_signal =
  in_pin :: nat
  user_port :: nat
  cap_irq_mode :: u8
  in_inverted :: bool
  in_debounce :: bool
  in_pull_mode :: pull_mode
  in_irq_mode :: u8
  in_id :: nat
  interrupt_callback :: "'cb option"
  in_description :: "string option"

record output_signal =
  out_pin :: nat
  out_inverted :: bool
  out_id :: nat
  out_description :: "string option"

record ('d, 'cb) ioports =
  aux_in :: "'cb input_signal list"
  aux_out :: "output_signal list"
  n_in :: nat       \<comment> \<open>\<open>digital.in.n_ports\<close>\<close>
  n_out :: nat      \<comment> \<open>\<open>digital.out.n_ports\<close>\<close>
  event_port :: "nat option"
  io_dev :: 'd

record gpio_in_config =
  ic_inverted :: bool
  ic_debounce :: bool
  ic_pull_mode :: pull_mode

record ('d, 'cb) io_env =
  IRQ_Mode_None :: u8
  IRQ_Mode_Rising :: u8
  IRQ_Mode_Falling :: u8
  IRQ_Mode_Change :: u8
  IRQ_Mode_Edges :: u8
  IRQ_Mode_High :: u8
  IRQ_Mode_Low :: u8
  gpio_get_level :: "nat \<Rightarrow> 'd \<Rightarrow> bool"
  gpio_set_level :: "nat \<Rightarrow> bool \<Rightarrow> 'd \<Rightarrow> 'd"
  gpio_set_intr_type :: "nat \<Rightarrow> gpio_intr \<Rightarrow> 'd \<Rightarrow> 'd"
  gpio_intr_enable :: "nat \<Rightarrow> 'd \<Rightarrow> 'd"
  gpio_intr_disable :: "nat \<Rightarrow> 'd \<Rightarrow> 'd"
  save_output_settings :: "nat \<Rightarrow> bool \<Rightarrow> 'd \<Rightarrow> 'd"
  save_input_settings :: "nat \<Rightarrow> gpio_in_config \<Rightarrow> 'd \<Rightarrow> 'd"
  execute_realtime :: "('d, 'cb) ioports \<Rightarrow> ('d, 'cb) ioports"
  delay_50ms :: "('d, 'cb) ioports \<Rightarrow> ('d, 'cb) ioports"
  sys_abort :: "'d \<Rightarrow> bool"
  irq_callback :: "'cb \<Rightarrow> nat \<Rightarrow> bool \<Rightarrow> ('d, 'cb) ioports \<Rightarrow> ('d, 'cb) ioports"

definition set_dev :: "('d \<Rightarrow> 'd) \<Rightarrow> ('d, 'cb) ioports \<Rightarrow> ('d, 'cb) ioports" where
  "set_dev f s = s\<lparr>io_dev := f (io_dev s)\<rparr>"

definition set_in :: "nat \<Rightarrow> ('cb input_signal \<Rightarrow> 'cb input_signal) \<Rightarrow> ('d, 'cb) ioports \<Rightarrow> ('d, 'cb) ioports" where
  "set_in i f s = s\<lparr>aux_in := (aux_in s)[i := f (aux_in s ! i)]\<rparr>"

definition set_out :: "nat \<Rightarrow> (output_signal \<Rightarrow> output_signal) \<Rightarrow> ('d, 'cb) ioports \<Rightarrow> ('d, 'cb) ioports" where
  "set_out i f s = s\<lparr>aux_out := (aux_out s)[i := f (aux_out s ! i)]\<rparr>"

lemma set_dev_sel [simp, frame_simps]:
  "aux_in (set_dev f s) = aux_in s" "aux_out (set_dev f s) = aux_out s" "n_in (set_dev f s) = n_in s"
  "n_out (set_dev f s) = n_out s" "event_port (set_dev f s) = event_port s" "io_dev (set_dev f s) = f (io_dev s)"
  by (simp_all add: set_dev_def)

lemma set_in_sel [simp, frame_simps]:
  "aux_in (set_in i f s) = (aux_in s)[i := f (aux_in s ! i)]" "aux_out (set_in i f s) = aux_out s"
  "n_in (set_in i f s) = n_in s" "n_out (set_in i f s) = n_out s" "io_dev (set_in i f s) = io_dev s"
  by (simp_all add: set_in_def)

lemma set_out_sel [simp, frame_simps]:
  "aux_out (set_out i f s) = (aux_out s)[i := f (aux_out s ! i)]" "aux_in (set_out i f s) = aux_in s"
  "n_in (set_out i f s) = n_in s" "n_out (set_out i f s) = n_out s" "io_dev (set_out i f s) = io_dev s"
  by (simp_all add: set_out_def)

subsection \<open>Outputs\<close>

definition digital_out_cfg ::
    "('d, 'cb) io_env \<Rightarrow> nat \<Rightarrow> bool \<Rightarrow> bool \<Rightarrow> ('d, 'cb) ioports \<Rightarrow> bool \<times> ('d, 'cb) ioports" where
  \<comment> \<open>\<open>aux_out->id\<close> in the result is the field of the first element of the array\<close>
  "digital_out_cfg env oid inverted persistent s =
     (let s = (if oid < n_out s
               then
                 let s = (if inverted \<noteq> out_inverted (aux_out s ! oid)
                          then
                            let s = set_out oid (\<lambda>p. p\<lparr>out_inverted := inverted\<rparr>) s;
                                p = out_pin (aux_out s ! oid)
                            in set_dev (gpio_set_level env p (\<not> gpio_get_level env p (io_dev s))) s
                          else s)
                 in if persistent then set_dev (save_output_settings env oid inverted) s else s
               else s)
      in (out_id (aux_out s ! 0) < n_out s, s))"

definition io_digital_out ::
    "('d, 'cb) io_env \<Rightarrow> nat \<Rightarrow> bool \<Rightarrow> ('d, 'cb) ioports \<Rightarrow> ('d, 'cb) ioports" where
  "io_digital_out env port on s =
     (if port < n_out s
      then set_dev (gpio_set_level env (out_pin (aux_out s ! port))
        (if out_inverted (aux_out s ! port) then \<not> on else on)) s
      else s)"

definition digital_out_state :: "('d, 'cb) io_env \<Rightarrow> nat \<Rightarrow> ('d, 'cb) ioports \<Rightarrow> int" where
  "digital_out_state env oid s =
     (if oid < n_out s
      then of_bool (gpio_get_level env (out_pin (aux_out s ! oid)) (io_dev s) \<noteq> out_inverted (aux_out s ! oid))
      else - 1)"

subsection \<open>Inputs\<close>

definition digital_in_cfg ::
    "('d, 'cb) io_env \<Rightarrow> nat \<Rightarrow> gpio_in_config \<Rightarrow> bool \<Rightarrow> ('d, 'cb) ioports \<Rightarrow> bool \<times> ('d, 'cb) ioports" where
  "digital_in_cfg env iid config persistent s =
     (let s = (if iid < n_in s \<and> ic_pull_mode config \<noteq> PullMode_UpDown
               then
                 let s = set_in iid (\<lambda>p. p\<lparr>in_inverted := ic_inverted config,
                       in_debounce := ic_debounce config, in_pull_mode := ic_pull_mode config\<rparr>) s
                 in if persistent then set_dev (save_input_settings env iid config) s else s
               else s)
      in (iid < n_in s, s))"

definition io_level :: "('d, 'cb) io_env \<Rightarrow> nat \<Rightarrow> ('d, 'cb) ioports \<Rightarrow> bool" where
  \<comment> \<open>the level of the pin of input \<open>i\<close>, inverted as configured\<close>
  "io_level env i s = (gpio_get_level env (in_pin (aux_in s ! i)) (io_dev s) \<noteq> in_inverted (aux_in s ! i))"

definition digital_in_state :: "('d, 'cb) io_env \<Rightarrow> nat \<Rightarrow> ('d, 'cb) ioports \<Rightarrow> int" where
  "digital_in_state env iid s = (if iid < n_in s then of_bool (io_level env iid s) else - 1)"

definition map_intr_type :: "('d, 'cb) io_env \<Rightarrow> u8 \<Rightarrow> gpio_intr" where
  "map_intr_type env mode =
     (if mode = IRQ_Mode_Rising env then GPIO_INTR_POSEDGE
      else if mode = IRQ_Mode_Falling env then GPIO_INTR_NEGEDGE
      else if mode = IRQ_Mode_Change env then GPIO_INTR_ANYEDGE
      else if mode = IRQ_Mode_Edges env then GPIO_INTR_DISABLE
      else if mode = IRQ_Mode_High env then GPIO_INTR_HIGH_LEVEL
      else if mode = IRQ_Mode_Low env then GPIO_INTR_LOW_LEVEL
      else GPIO_INTR_DISABLE)"

fun wait_poll ::
    "('d, 'cb) io_env \<Rightarrow> (('d, 'cb) ioports \<Rightarrow> bool) \<Rightarrow> nat \<Rightarrow> nat \<Rightarrow> ('d, 'cb) ioports \<Rightarrow> int \<times> ('d, 'cb) ioports" where
  \<comment> \<open>the do-while loops of \<open>get_input\<close>: \<open>seen\<close> is the condition looked for, the number is \<open>delay\<close>\<close>
  "wait_poll env seen i 0 s = (if seen s then (of_bool (io_level env i s), s) else (- 1, s))"
| "wait_poll env seen i (Suc k) s =
     (if seen s then (of_bool (io_level env i s), s)
      else
        let s = delay_50ms env (execute_realtime env s) in
        if k \<noteq> 0 \<and> \<not> sys_abort env (io_dev s) then wait_poll env seen i k s else (- 1, s))"

definition wait_delay :: "rat \<Rightarrow> nat" where
  "wait_delay timeout = nat \<lceil>(1000 / 50) * timeout\<rceil> + 1"

definition get_input ::
    "('d, 'cb) io_env \<Rightarrow> nat \<Rightarrow> wait_mode \<Rightarrow> rat \<Rightarrow> ('d, 'cb) ioports \<Rightarrow> int \<times> ('d, 'cb) ioports" where
  "get_input env i wm timeout s =
     (if wm = WaitMode_Immediate then (of_bool (io_level env i s), s)
      else if wm = WaitMode_Rise \<or> wm = WaitMode_Fall
      then
        let irq_mode = (if wm = WaitMode_Rise then IRQ_Mode_Rising env else IRQ_Mode_Falling env);
            p = in_pin (aux_in s ! i)
        in if cap_irq_mode (aux_in s ! i) AND irq_mode \<noteq> 0
           then
             let s = s\<lparr>event_port := None\<rparr>;
                 s = set_dev (gpio_set_intr_type env p (map_intr_type env irq_mode)) s;
                 s = set_dev (gpio_intr_enable env p) s;
                 (v, s) = wait_poll env (\<lambda>s. event_port s = Some i) i (wait_delay timeout) s
             in (v, if in_irq_mode (aux_in s ! i) = IRQ_Mode_None env
                    then set_dev (gpio_intr_disable env p) s
                    else set_dev (gpio_set_intr_type env p (map_intr_type env (in_irq_mode (aux_in s ! i)))) s)
           else (- 1, s)
      else
        wait_poll env (\<lambda>s. io_level env i s = (wm \<noteq> WaitMode_Low)) i (wait_delay timeout) s)"

definition wait_on_input ::
    "('d, 'cb) io_env \<Rightarrow> nat \<Rightarrow> wait_mode \<Rightarrow> rat \<Rightarrow> ('d, 'cb) ioports \<Rightarrow> int \<times> ('d, 'cb) ioports" where
  "wait_on_input env port wm timeout s = (if port < n_in s then get_input env port wm timeout s else (- 1, s))"

definition ioports_event :: "('d, 'cb) io_env \<Rightarrow> nat \<Rightarrow> ('d, 'cb) ioports \<Rightarrow> ('d, 'cb) ioports" where
  "ioports_event env i s =
     (let s = s\<lparr>event_port := Some i\<rparr> in
      case interrupt_callback (aux_in s ! i) of
        None \<Rightarrow> s
      | Some cb \<Rightarrow> irq_callback env cb (user_port (aux_in s ! i))
          (gpio_get_level env (in_pin (aux_in s ! i)) (io_dev s)) s)"

definition register_interrupt_handler ::
    "('d, 'cb) io_env \<Rightarrow> nat \<Rightarrow> nat \<Rightarrow> u8 \<Rightarrow> 'cb option \<Rightarrow> ('d, 'cb) ioports \<Rightarrow> bool \<times> ('d, 'cb) ioports" where
  \<comment> \<open>\<open>irq_disable\<close> and \<open>irq_enable\<close> around the clearing make it one step\<close>
  "register_interrupt_handler env port uport irq_mode callback s =
     (if port < n_in s \<and> cap_irq_mode (aux_in s ! port) \<noteq> IRQ_Mode_None env
      then
        let p = in_pin (aux_in s ! port);
            ok = (irq_mode AND cap_irq_mode (aux_in s ! port) = irq_mode \<and> callback \<noteq> None);
            s = (if ok
                 then
                   let s = set_in port (\<lambda>q. q\<lparr>user_port := uport, in_irq_mode := irq_mode,
                         interrupt_callback := callback\<rparr>) s;
                       s = set_dev (gpio_set_intr_type env p (map_intr_type env irq_mode)) s
                   in set_dev (gpio_intr_enable env p) s
                 else s);
            s = (if irq_mode = IRQ_Mode_None env \<or> \<not> ok
                 then set_in port (\<lambda>q. q\<lparr>in_irq_mode := IRQ_Mode_None env, interrupt_callback := None\<rparr>)
                   (set_dev (gpio_intr_disable env p) s)
                 else s)
        in (ok, s)
      else (False, s))"

definition set_function :: "bool \<Rightarrow> nat \<Rightarrow> nat \<Rightarrow> ('d, 'cb) ioports \<Rightarrow> bool \<times> ('d, 'cb) ioports" where
  "set_function is_input pid fn s =
     (True, if is_input then set_in pid (\<lambda>p. p\<lparr>in_id := fn\<rparr>) s else set_out pid (\<lambda>p. p\<lparr>out_id := fn\<rparr>) s)"

definition set_pin_description ::
    "port_dir \<Rightarrow> nat \<Rightarrow> string \<Rightarrow> ('d, 'cb) ioports \<Rightarrow> ('d, 'cb) ioports" where
  "set_pin_description dir port d s =
     (let s = (if dir = Port_Input \<and> port < n_in s then set_in port (\<lambda>p. p\<lparr>in_description := Some d\<rparr>) s else s)
      in if dir = Port_Output \<and> port < n_out s then set_out port (\<lambda>p. p\<lparr>out_description := Some d\<rparr>) s else s)"

definition ioports_init ::
    "'cb input_signal list \<Rightarrow> output_signal list \<Rightarrow> ('d, 'cb) ioports \<Rightarrow> ('d, 'cb) ioports" where
  \<comment> \<open>before the ports are handed to the core with \<open>ioports_add_digital\<close>\<close>
  "ioports_init inputs outputs s =
     s\<lparr>aux_in := inputs, aux_out := outputs, n_in := length inputs, n_out := length outputs\<rparr>"

subsection \<open>Waiting\<close>

fun waited :: "('d, 'cb) io_env \<Rightarrow> nat \<Rightarrow> ('d, 'cb) ioports \<Rightarrow> ('d, 'cb) ioports" where
  \<comment> \<open>the state after \<open>k\<close> rounds of waiting\<close>
  "waited env 0 s = s"
| "waited env (Suc k) s = waited env k (delay_50ms env (execute_realtime env s))"

lemma wait_poll_seen:
  assumes "k < d" "seen (waited env k s)" "\<forall>j < k. \<not> seen (waited env j s)"
    "\<forall>j. 0 < j \<and> j \<le> k \<longrightarrow> \<not> sys_abort env (io_dev (waited env j s))"
  shows "wait_poll env seen i d s = (of_bool (io_level env i (waited env k s)), waited env k s)"
  using assms
proof (induction d arbitrary: k s)
  case 0
  then show ?case by simp
next
  case (Suc d)
  show ?case
  proof (cases k)
    case 0
    with Suc.prems show ?thesis by simp
  next
    case (Suc k')
    let ?s = "delay_50ms env (execute_realtime env s)"
    have "\<not> seen s" using Suc.prems(3) Suc by (metis waited.simps(1) zero_less_Suc)
    moreover have "\<not> sys_abort env (io_dev ?s)"
      using Suc.prems(4) Suc by (metis One_nat_def Suc_le_mono le0 waited.simps zero_less_one)
    moreover have "wait_poll env seen i d ?s = (of_bool (io_level env i (waited env k' ?s)), waited env k' ?s)"
    proof (rule Suc.IH)
      show "k' < d" "seen (waited env k' ?s)" using Suc.prems(1,2) Suc by simp_all
      show "\<forall>j<k'. \<not> seen (waited env j ?s)"
        using Suc.prems(3) Suc by (metis Suc_less_eq waited.simps(2))
      show "\<forall>j. 0 < j \<and> j \<le> k' \<longrightarrow> \<not> sys_abort env (io_dev (waited env j ?s))"
        using Suc.prems(4) Suc by (metis Suc_le_mono waited.simps(2) zero_less_Suc)
    qed
    ultimately show ?thesis using Suc.prems(1) Suc by (simp add: Let_def)
  qed
qed

lemma wait_poll_timeout:
  assumes "0 < d" "\<forall>j < d. \<not> seen (waited env j s)"
    "\<forall>j. 0 < j \<and> j \<le> d \<longrightarrow> \<not> sys_abort env (io_dev (waited env j s))"
  shows "wait_poll env seen i d s = (- 1, waited env d s)"
  using assms
proof (induction d arbitrary: s)
  case 0
  then show ?case by simp
next
  case (Suc d)
  let ?s = "delay_50ms env (execute_realtime env s)"
  have "\<not> seen s" using Suc.prems(2) by (metis waited.simps(1) zero_less_Suc)
  moreover have "\<not> sys_abort env (io_dev ?s)"
    using Suc.prems(3) by (metis One_nat_def Suc_le_mono le0 waited.simps zero_less_one)
  moreover have "wait_poll env seen i d ?s = (- 1, waited env d ?s)" if "d \<noteq> 0"
  proof (rule Suc.IH)
    show "0 < d" using that by simp
    show "\<forall>j<d. \<not> seen (waited env j ?s)" using Suc.prems(2) by (metis Suc_less_eq waited.simps(2))
    show "\<forall>j. 0 < j \<and> j \<le> d \<longrightarrow> \<not> sys_abort env (io_dev (waited env j ?s))"
      using Suc.prems(3) by (metis Suc_le_mono waited.simps(2) zero_less_Suc)
  qed
  ultimately show ?case by (cases d) (simp_all add: Let_def)
qed

text \<open>
   Waiting for a level ends in time: the input is looked at once per 50 ms, at most one time
  more than the timeout has such periods; if the level is there at some look, with no abort
  before, the wait ends at the first such look and returns the level, and otherwise, with no
  abort at all, it returns -1 after the last period.
\<close>

theorem wait_for_level:
  fixes env :: "('d, 'cb) io_env"
  assumes "port < n_in s" "wm = WaitMode_High \<or> wm = WaitMode_Low"
    "\<forall>j. 0 < j \<and> j \<le> wait_delay timeout \<longrightarrow> \<not> sys_abort env (io_dev (waited env j s))"
  defines "hit \<equiv> (\<lambda>k. io_level env port (waited env k s) = (wm = WaitMode_High))"
  shows "(\<forall>k < wait_delay timeout. hit k \<and> (\<forall>j < k. \<not> hit j) \<longrightarrow>
        wait_on_input env port wm timeout s = (of_bool (wm = WaitMode_High), waited env k s)) \<and>
    ((\<forall>k < wait_delay timeout. \<not> hit k) \<longrightarrow>
        wait_on_input env port wm timeout s = (- 1, waited env (wait_delay timeout) s)) \<and>
    of_nat (wait_delay timeout) < max 0 (20 * timeout) + 2"
proof (intro conjI)
  let ?d = "wait_delay timeout" and ?seen = "\<lambda>s. io_level env port s = (wm = WaitMode_High)"
  have eq: "wait_on_input env port wm timeout s = wait_poll env ?seen port ?d s"
    using assms(1,2) by (auto simp: wait_on_input_def get_input_def)
  show "\<forall>k < ?d. hit k \<and> (\<forall>j < k. \<not> hit j) \<longrightarrow>
      wait_on_input env port wm timeout s = (of_bool (wm = WaitMode_High), waited env k s)"
  proof (intro allI impI)
    fix k assume k: "k < ?d" "hit k \<and> (\<forall>j < k. \<not> hit j)"
    have "wait_poll env ?seen port ?d s = (of_bool (io_level env port (waited env k s)), waited env k s)"
      by (rule wait_poll_seen) (use k assms(3) in \<open>auto simp: hit_def\<close>)
    with eq k show "wait_on_input env port wm timeout s = (of_bool (wm = WaitMode_High), waited env k s)"
      by (simp add: hit_def)
  qed
  show "(\<forall>k < ?d. \<not> hit k) \<longrightarrow> wait_on_input env port wm timeout s = (- 1, waited env ?d s)"
    using wait_poll_timeout [of ?d ?seen env s port] assms(3) eq by (simp add: hit_def wait_delay_def)
  show "of_nat ?d < max 0 (20 * timeout) + 2"
    unfolding wait_delay_def by (cases "0 \<le> \<lceil>(1000 / 50) * timeout\<rceil>") (auto, linarith+)
qed

subsection \<open>Outputs and interrupts\<close>

definition gpio_ok :: "('d, 'cb) io_env \<Rightarrow> bool" where
  \<comment> \<open>an output pin reads back the level it was set to, and pins are independent\<close>
  "gpio_ok env \<longleftrightarrow>
     (\<forall>p q b d. gpio_get_level env q (gpio_set_level env p b d) = (if q = p then b else gpio_get_level env q d)) \<and>
     (\<forall>p b q d. gpio_get_level env q (save_output_settings env p b d) = gpio_get_level env q d)"

text \<open>
  An output is logical: setting port \<open>i\<close> makes its state read as set whatever its polarity,
  and changing the polarity flips the pin so that the state stays as it was.  The result of the
  configuration, however, does not say whether the port exists: it is the function number of
  the first output port compared with the number of ports, the same for every port asked.
\<close>

theorem digital_out_logical:
  fixes env :: "('d, 'cb) io_env"
  assumes "gpio_ok env" "i < n_out s" "n_out s = length (aux_out s)"
  shows "digital_out_state env i (io_digital_out env i on s) = of_bool on \<and>
    digital_out_state env i (snd (digital_out_cfg env i inverted persistent s)) = digital_out_state env i s \<and>
    fst (digital_out_cfg env i inverted persistent s) = (out_id (aux_out s ! 0) < n_out s)"
proof -
  have g: "gpio_get_level env q (gpio_set_level env p b d) = (if q = p then b else gpio_get_level env q d)"
    "gpio_get_level env q (save_output_settings env p b d) = gpio_get_level env q d" for p q b d
    using assms(1) by (simp_all add: gpio_ok_def)
  have "out_id (aux_out (snd (digital_out_cfg env i inverted persistent s)) ! 0) = out_id (aux_out s ! 0)"
    using assms(2,3) by (cases "i = 0") (auto simp: digital_out_cfg_def Let_def)
  then have "fst (digital_out_cfg env i inverted persistent s) = (out_id (aux_out s ! 0) < n_out s)"
    using assms(2,3) by (cases "i = 0") (auto simp: digital_out_cfg_def Let_def)
  moreover have "digital_out_state env i (io_digital_out env i on s) = of_bool on"
    using assms(2) g by (auto simp: digital_out_state_def io_digital_out_def)
  moreover have "digital_out_state env i (snd (digital_out_cfg env i inverted persistent s)) =
      digital_out_state env i s"
    using assms(2,3) g by (auto simp: digital_out_state_def digital_out_cfg_def Let_def)
  ultimately show ?thesis by blast
qed

definition irq_inv :: "('d, 'cb) io_env \<Rightarrow> ('d, 'cb) ioports \<Rightarrow> bool" where
  \<comment> \<open>a port has a handler exactly when its interrupt is on, in a mode it can do\<close>
  "irq_inv env s \<longleftrightarrow> n_in s = length (aux_in s) \<and>
     (\<forall>p \<in> set (aux_in s). (interrupt_callback p = None \<longleftrightarrow> in_irq_mode p = IRQ_Mode_None env) \<and>
        in_irq_mode p AND cap_irq_mode p = in_irq_mode p)"

text \<open>
  Registering an interrupt handler keeps handlers and interrupt modes together: a port has
  a handler exactly when its interrupt is on, and only in modes the pin can do.  It succeeds for
  an existing interrupt pin that can do the mode, with a handler given; a refused request on
  such a pin leaves it without handler and disabled, any other request changes nothing.
\<close>

theorem register_keeps_irq_inv:
  fixes s :: "('d, 'cb) ioports" and port uport :: nat and m :: u8 and cb :: "'cb option"
  assumes "irq_inv env s" "IRQ_Mode_None env = 0"
  defines "r \<equiv> register_interrupt_handler env port uport m cb s"
  shows "irq_inv env (snd r) \<and>
    fst r = (port < n_in s \<and> cap_irq_mode (aux_in s ! port) \<noteq> 0 \<and>
      m AND cap_irq_mode (aux_in s ! port) = m \<and> cb \<noteq> None) \<and>
    (fst r \<and> m \<noteq> 0 \<longrightarrow> interrupt_callback (aux_in (snd r) ! port) = cb \<and> in_irq_mode (aux_in (snd r) ! port) = m) \<and>
    (\<not> fst r \<and> port < n_in s \<and> cap_irq_mode (aux_in s ! port) \<noteq> 0 \<longrightarrow>
      interrupt_callback (aux_in (snd r) ! port) = None \<and> in_irq_mode (aux_in (snd r) ! port) = 0) \<and>
    (\<not> (port < n_in s \<and> cap_irq_mode (aux_in s ! port) \<noteq> 0) \<longrightarrow> snd r = s)"
proof (cases "port < n_in s \<and> cap_irq_mode (aux_in s ! port) \<noteq> 0")
  case False
  with assms show ?thesis by (auto simp: register_interrupt_handler_def)
next
  case True
  let ?p = "aux_in s ! port"
  define ok where "ok = (m AND cap_irq_mode ?p = m \<and> cb \<noteq> None)"
  define q where "q = (if ok \<and> m \<noteq> 0 then ?p\<lparr>user_port := uport, in_irq_mode := m, interrupt_callback := cb\<rparr>
    else (if ok then ?p\<lparr>user_port := uport\<rparr> else ?p)\<lparr>in_irq_mode := 0, interrupt_callback := None\<rparr>)"
  have len: "port < length (aux_in s)" using True assms(1) by (simp add: irq_inv_def)
  have r: "fst r = ok" "aux_in (snd r) = (aux_in s)[port := q]" "n_in (snd r) = n_in s"
  proof -
    have "r = (let p = in_pin ?p;
          s1 = (if ok
                then
                  let t = set_in port (\<lambda>q. q\<lparr>user_port := uport, in_irq_mode := m, interrupt_callback := cb\<rparr>) s
                  in set_dev (gpio_intr_enable env p) (set_dev (gpio_set_intr_type env p (map_intr_type env m)) t)
                else s)
        in (ok, if m = 0 \<or> \<not> ok
                then set_in port (\<lambda>q. q\<lparr>in_irq_mode := 0, interrupt_callback := None\<rparr>)
                   (set_dev (gpio_intr_disable env p) s1)
                else s1))"
      using True by (simp only: r_def register_interrupt_handler_def assms(2) ok_def [symmetric] Let_def if_True
          simp_thms)
    then show "fst r = ok" "aux_in (snd r) = (aux_in s)[port := q]" "n_in (snd r) = n_in s"
      using len by (cases ok; cases "m = 0"; simp add: q_def Let_def)+
  qed
  have q: "(interrupt_callback q = None \<longleftrightarrow> in_irq_mode q = 0) \<and>
      in_irq_mode q AND cap_irq_mode q = in_irq_mode q"
    by (auto simp: q_def ok_def)
  have "irq_inv env (snd r)"
    using assms(1,2) q r set_update_subset_insert [of "aux_in s" port q] by (fastforce simp: irq_inv_def)
  then show ?thesis using r True len by (auto simp: ok_def q_def)
qed

subsection \<open>A concrete environment\<close>

definition io_env0 :: "(nat \<Rightarrow> bool, unit) io_env" where
  \<comment> \<open>the device is the level of each pin; pin 7 rises with the first wait\<close>
  "io_env0 = \<lparr>IRQ_Mode_None = 0, IRQ_Mode_Rising = 1, IRQ_Mode_Falling = 2, IRQ_Mode_Change = 3,
     IRQ_Mode_Edges = 4, IRQ_Mode_High = 8, IRQ_Mode_Low = 16,
     gpio_get_level = (\<lambda>p d. d p), gpio_set_level = (\<lambda>p b d. d(p := b)),
     gpio_set_intr_type = (\<lambda>_ _ d. d), gpio_intr_enable = (\<lambda>_ d. d), gpio_intr_disable = (\<lambda>_ d. d),
     save_output_settings = (\<lambda>_ _ d. d), save_input_settings = (\<lambda>_ _ d. d),
     execute_realtime = (\<lambda>s. s), delay_50ms = (\<lambda>s. s\<lparr>io_dev := (io_dev s)(7 := True)\<rparr>),
     sys_abort = (\<lambda>_. False), irq_callback = (\<lambda>_ _ _ s. s)\<rparr>"

definition io0 :: "(nat \<Rightarrow> bool, unit) ioports" where
  "io0 = \<lparr>aux_in = [\<lparr>in_pin = 7, user_port = 0, cap_irq_mode = 3, in_inverted = False, in_debounce = False,
       in_pull_mode = PullMode_Up, in_irq_mode = 0, in_id = 40, interrupt_callback = None, in_description = None\<rparr>],
     aux_out = [\<lparr>out_pin = 9, out_inverted = True, out_id = 60, out_description = None\<rparr>],
     n_in = 1, n_out = 1, event_port = None, io_dev = (\<lambda>_. False)\<rparr>"

theorem wait_for_level_witness:
  "fst (wait_on_input io_env0 0 WaitMode_High (1 / 2) io0) = 1"
proof -
  have a: "0 < n_in io0" by (simp add: io0_def)
  have b: "\<forall>j. 0 < j \<and> j \<le> wait_delay (1 / 2) \<longrightarrow> \<not> sys_abort io_env0 (io_dev (waited io_env0 j io0))"
    by (simp add: io_env0_def)
  have "1 < wait_delay (1 / 2)" by (simp add: wait_delay_def)
  moreover have "io_level io_env0 0 (waited io_env0 1 io0)" "\<not> io_level io_env0 0 (waited io_env0 0 io0)"
    by code_simp+
  ultimately have "wait_on_input io_env0 0 WaitMode_High (1 / 2) io0 = (of_bool True, waited io_env0 1 io0)"
    using wait_for_level [OF a _ b, of WaitMode_High] by (auto simp: less_Suc_eq)
  then show ?thesis by simp
qed

theorem digital_out_logical_witness:
  "digital_out_state io_env0 0 (io_digital_out io_env0 0 True io0) = 1 \<and>
   \<not> fst (digital_out_cfg io_env0 0 False False io0)"
proof -
  have "gpio_ok io_env0" "0 < n_out io0" "n_out io0 = length (aux_out io0)" "\<not> out_id (aux_out io0 ! 0) < n_out io0"
    by (simp_all add: gpio_ok_def io_env0_def io0_def)
  with digital_out_logical [of io_env0 0 io0 True False False] show ?thesis by simp
qed

theorem register_keeps_irq_inv_witness:
  "irq_inv io_env0 (snd (register_interrupt_handler io_env0 0 5 1 (Some ()) io0)) \<and>
   fst (register_interrupt_handler io_env0 0 5 1 (Some ()) io0)"
proof -
  have "irq_inv io_env0 io0" "IRQ_Mode_None io_env0 = 0" by (simp_all add: irq_inv_def io0_def io_env0_def)
  moreover have "0 < n_in io0 \<and> cap_irq_mode (aux_in io0 ! 0) \<noteq> 0 \<and>
      1 AND cap_irq_mode (aux_in io0 ! 0) = 1" by (simp add: io0_def)
  ultimately show ?thesis using register_keeps_irq_inv [of io_env0 io0 0 5 1 "Some ()"] by simp
qed

end
