(* ===== verification/IoPortsAnalog.thy ===== *)
theory IoPortsAnalog
  imports Prelude Complex_Main
begin

text \<open>
  \<open>main/ioports_analog.c\<close>: the auxiliary analog ports, for a build with analog inputs and both
  PWM outputs.  The LEDC calls are events, newest first; \<open>ledc_set_freq\<close>, the PWM computations
  of the grbl core and the ADC are the record \<open>an_env\<close>.  The loop that looks for the ADC channel
  of an input is translated as it stands, as a \<open>partial_function\<close>: \<open>None\<close> is not returning.
\<close>

subsection \<open>State\<close>

record an_input =
  ai_pin :: nat
  ai_id :: nat
  ai_claimed :: bool
  ai_adc :: "nat option"      \<comment> \<open>the ADC channel of the map entry it points to\<close>
  ai_cap_analog :: bool
  ai_description :: "string option"

record an_output =
  ao_pin :: nat
  ao_id :: nat
  ao_pwm :: bool
  ao_servo :: bool
  ao_description :: "string option"

record 'p pwm_data =
  pd_off_value :: nat
  pd_always_on :: bool
  pd_rest :: 'p

record 'p pwm_out =
  po_max_value :: nat
  po_channel :: nat
  po_data :: "'p pwm_data"
  po_value :: rat
  po_ready :: bool           \<comment> \<open>\<open>set_value\<close> is \<open>pwm_set_value\<close>, not the null pointer\<close>

record ledc_timer =
  tm_freq :: int
  tm_resolution :: nat
  tm_init_ok :: bool

datatype an_event =
    Set_duty nat nat | Stop nat nat
  | Timer_config nat int nat | Channel_config nat nat | Set_freq nat int
  | Adc_config nat

record 'p analog =
  an_in :: "an_input list"
  an_out :: "an_output list"
  an_n_in :: nat
  an_n_out :: nat
  pwm_out_tab :: "'p pwm_out list"
  timer0 :: ledc_timer
  timer1 :: ledc_timer
  an_ev :: "an_event list"

record pwm_cfg =
  pc_freq_hz :: rat
  pc_min :: rat
  pc_servo_mode :: bool

record 'p an_env =
  adc_map :: "(nat \<times> nat) list"    \<comment> \<open>channel and pin\<close>
  Output_Analog_Aux0 :: nat
  AUXOUTPUT0_PWM_PIN :: nat
  AUXOUTPUT1_PWM_PIN :: nat
  an_wide_timer :: bool
  ledc_set_freq :: "nat \<Rightarrow> int \<Rightarrow> bool"
  compute_pwm_value :: "'p pwm_data \<Rightarrow> rat \<Rightarrow> nat"
  precompute_pwm_values :: "pwm_cfg \<Rightarrow> rat \<Rightarrow> 'p pwm_data \<Rightarrow> 'p pwm_data"
  adc1_get_raw :: "nat \<Rightarrow> int"

definition adc_map_esp32 :: "(nat \<times> nat) list" where
  "adc_map_esp32 = [(0, 36), (1, 37), (2, 38), (3, 39), (4, 32), (5, 33), (6, 34), (7, 35)]"

definition adc_map_esp32s3 :: "(nat \<times> nat) list" where
  "adc_map_esp32s3 = [(0, 1), (1, 2), (2, 3), (3, 4), (4, 5), (5, 6), (6, 7), (7, 8), (8, 9), (9, 10)]"

definition an_emit :: "an_event \<Rightarrow> 'p analog \<Rightarrow> 'p analog" where
  "an_emit e s = s\<lparr>an_ev := e # an_ev s\<rparr>"

definition set_pwm :: "nat \<Rightarrow> ('p pwm_out \<Rightarrow> 'p pwm_out) \<Rightarrow> 'p analog \<Rightarrow> 'p analog" where
  "set_pwm ch f s = s\<lparr>pwm_out_tab := (pwm_out_tab s)[ch := f (pwm_out_tab s ! ch)]\<rparr>"

lemma an_emit_sel [simp]:
  "an_in (an_emit e s) = an_in s" "an_out (an_emit e s) = an_out s" "an_n_in (an_emit e s) = an_n_in s"
  "an_n_out (an_emit e s) = an_n_out s" "pwm_out_tab (an_emit e s) = pwm_out_tab s"
  "an_ev (an_emit e s) = e # an_ev s" "timer0 (an_emit e s) = timer0 s" "timer1 (an_emit e s) = timer1 s"
  by (simp_all add: an_emit_def)

lemma set_pwm_sel [simp]:
  "an_in (set_pwm ch f s) = an_in s" "an_out (set_pwm ch f s) = an_out s" "an_n_in (set_pwm ch f s) = an_n_in s"
  "an_n_out (set_pwm ch f s) = an_n_out s" "an_ev (set_pwm ch f s) = an_ev s"
  "pwm_out_tab (set_pwm ch f s) = (pwm_out_tab s)[ch := f (pwm_out_tab s ! ch)]"
  "timer0 (set_pwm ch f s) = timer0 s" "timer1 (set_pwm ch f s) = timer1 s"
  by (simp_all add: set_pwm_def)

subsection \<open>PWM outputs\<close>

definition pwm_channel_of :: "'p an_env \<Rightarrow> nat \<Rightarrow> int" where
  "pwm_channel_of env fn = int fn - int (Output_Analog_Aux0 env)"

definition pwm_get_value :: "'p an_env \<Rightarrow> nat \<Rightarrow> 'p analog \<Rightarrow> rat" where
  "pwm_get_value env fn s =
     (let ch = pwm_channel_of env fn in
      if ch \<ge> 0 \<and> ch < int (an_n_out s) then po_value (pwm_out_tab s ! nat ch) else - 1)"

definition pwm_set_value :: "'p an_env \<Rightarrow> nat \<Rightarrow> rat \<Rightarrow> 'p analog \<Rightarrow> 'p analog" where
  "pwm_set_value env ch value s =
     (let po = pwm_out_tab s ! ch;
          pwm_value = compute_pwm_value env (po_data po) value;
          s = set_pwm ch (\<lambda>p. p\<lparr>po_value := value\<rparr>) s
      in if pwm_value = pd_off_value (po_data po)
         then if pd_always_on (po_data po)
              then an_emit (Set_duty (po_channel po) (pd_off_value (po_data po))) s
              else an_emit (Stop (po_channel po) 0) s
         else an_emit (Set_duty (po_channel po) pwm_value) s)"

definition analog_out :: "'p an_env \<Rightarrow> nat \<Rightarrow> rat \<Rightarrow> 'p analog \<Rightarrow> (bool \<times> 'p analog) option" where
  \<comment> \<open>\<open>None\<close>: the call of the null pointer in \<open>set_value\<close>\<close>
  "analog_out env port value s =
     (if port < an_n_out s
      then
        let ch = nat (pwm_channel_of env (ao_id (an_out s ! port))) in
        if po_ready (pwm_out_tab s ! ch) then Some (True, pwm_set_value env ch value s) else None
      else Some (False, s))"

definition timer_block :: "'p an_env \<Rightarrow> rat \<Rightarrow> nat \<Rightarrow> ledc_timer \<Rightarrow> ledc_timer \<times> an_event list" where
  \<comment> \<open>the block under \<open>pwm_timer.freq_hz != ...\<close>, for the LEDC timer with the number given\<close>
  "timer_block env freq num t =
     (let f = \<lfloor>freq\<rfloor>; wide = (if an_wide_timer env then 16 else 14) in
      if tm_freq t \<noteq> f
      then
        let t = t\<lparr>tm_freq := f\<rparr> in
        if tm_freq t \<le> 100
        then if tm_resolution t \<noteq> wide
             then (t\<lparr>tm_resolution := wide\<rparr>, [Timer_config num f wide]) else (t, [])
        else if tm_resolution t \<noteq> 10
        then (t\<lparr>tm_resolution := 10\<rparr>, [Timer_config num f 10]) else (t, [])
      else (t, []))"

definition init_pwm ::
    "'p an_env \<Rightarrow> nat \<Rightarrow> nat \<Rightarrow> nat \<Rightarrow> pwm_cfg \<Rightarrow> ledc_timer \<times> 'p analog \<Rightarrow> bool \<times> ledc_timer \<times> 'p analog" where
  \<comment> \<open>for the LEDC timer and channel \<open>num\<close>, the pin, and the table index \<open>ch\<close>\<close>
  "init_pwm env num gpio ch config x =
     (case x of (t, s) \<Rightarrow>
        let (t, s) =
              (if \<not> tm_init_ok t
               then (t\<lparr>tm_init_ok := True\<rparr>,
                 an_emit (Channel_config num gpio) (an_emit (Timer_config num (tm_freq t) (tm_resolution t))
                   (set_pwm ch (\<lambda>p. p\<lparr>po_channel := num, po_ready := True\<rparr>) s)))
               else (t, s));
            (t, es) = timer_block env (pc_freq_hz config) num t;
            s = s\<lparr>an_ev := es @ an_ev s\<rparr>;
            s = an_emit (Set_freq num (tm_freq t)) s;
            ok = ledc_set_freq env num (tm_freq t)
        in if ok
           then
             let m = 2 ^ tm_resolution t - 1;
                 s = set_pwm ch (\<lambda>p. p\<lparr>po_max_value := m,
                       po_data := precompute_pwm_values env config (of_nat m * pc_freq_hz config) (po_data p)\<rparr>) s;
                 s = s\<lparr>an_out := (an_out s)[ch := (an_out s ! ch)\<lparr>ao_pwm := \<not> pc_servo_mode config,
                       ao_servo := pc_servo_mode config\<rparr>]\<rparr>
             in (True, t, pwm_set_value env ch (pc_min config) s)
           else (False, t, s))"

definition init_pwm0 :: "'p an_env \<Rightarrow> nat \<Rightarrow> pwm_cfg \<Rightarrow> 'p analog \<Rightarrow> bool \<times> 'p analog" where
  "init_pwm0 env fn config s =
     (case init_pwm env 1 (AUXOUTPUT0_PWM_PIN env) (nat (pwm_channel_of env fn)) config (timer0 s, s) of
        (ok, t, s) \<Rightarrow> (ok, s\<lparr>timer0 := t\<rparr>))"

definition init_pwm1 :: "'p an_env \<Rightarrow> nat \<Rightarrow> pwm_cfg \<Rightarrow> 'p analog \<Rightarrow> bool \<times> 'p analog" where
  "init_pwm1 env fn config s =
     (case init_pwm env 2 (AUXOUTPUT1_PWM_PIN env) (nat (pwm_channel_of env fn)) config (timer1 s, s) of
        (ok, t, s) \<Rightarrow> (ok, s\<lparr>timer1 := t\<rparr>))"

subsection \<open>Inputs and pin information\<close>

definition an_wait_on_input :: "'p an_env \<Rightarrow> nat \<Rightarrow> 'p analog \<Rightarrow> int" where
  "an_wait_on_input env port s =
     (if port < an_n_in s
      then case ai_adc (an_in s ! port) of Some ch \<Rightarrow> adc1_get_raw env ch | None \<Rightarrow> - 1
      else - 1)"

definition an_set_function :: "bool \<Rightarrow> nat \<Rightarrow> nat \<Rightarrow> 'p analog \<Rightarrow> bool \<times> 'p analog" where
  "an_set_function is_input pid fn s =
     (True,
      if is_input then s\<lparr>an_in := (an_in s)[pid := (an_in s ! pid)\<lparr>ai_id := fn\<rparr>]\<rparr>
      else s\<lparr>an_out := (an_out s)[pid := (an_out s ! pid)\<lparr>ao_id := fn\<rparr>]\<rparr>)"

datatype an_dir = An_Input | An_Output

record an_pin =
  xb_id :: nat
  xb_function :: nat
  xb_pin :: nat
  xb_claimable :: "bool option"   \<comment> \<open>\<open>None\<close>: set by the core's macro \<open>XBAR_SET_CAP\<close>\<close>
  xb_pwm :: bool
  xb_config :: "nat option"     \<comment> \<open>which of \<open>init_pwm0\<close>, \<open>init_pwm1\<close>\<close>
  xb_description :: "string option"

definition an_get_pin_info :: "'p an_env \<Rightarrow> an_dir \<Rightarrow> nat \<Rightarrow> 'p analog \<Rightarrow> an_pin option" where
  "an_get_pin_info env dir port s =
     (case dir of
        An_Input \<Rightarrow>
          if port < an_n_in s \<and> ai_cap_analog (an_in s ! port)
          then let p = an_in s ! port in
            Some \<lparr>xb_id = port, xb_function = ai_id p, xb_pin = ai_pin p, xb_claimable = Some (\<not> ai_claimed p),
              xb_pwm = False, xb_config = None, xb_description = ai_description p\<rparr>
          else None
      | An_Output \<Rightarrow>
          if port < an_n_out s
          then let p = an_out s ! port in
            Some \<lparr>xb_id = port, xb_function = ao_id p, xb_pin = ao_pin p, xb_claimable = None,
              xb_pwm = \<not> ao_servo p,
              xb_config = (if ao_pin p = AUXOUTPUT1_PWM_PIN env then Some 1
                else if ao_pin p = AUXOUTPUT0_PWM_PIN env then Some 0 else None),
              xb_description = ao_description p\<rparr>
          else None)"

definition an_set_pin_description :: "an_dir \<Rightarrow> nat \<Rightarrow> string \<Rightarrow> 'p analog \<Rightarrow> 'p analog" where
  "an_set_pin_description dir port d s =
     (if dir = An_Input \<and> port < an_n_in s
      then s\<lparr>an_in := (an_in s)[port := (an_in s ! port)\<lparr>ai_description := Some d\<rparr>]\<rparr>
      else if port < an_n_out s
      then s\<lparr>an_out := (an_out s)[port := (an_out s ! port)\<lparr>ao_description := Some d\<rparr>]\<rparr>
      else s)"

subsection \<open>Initialisation\<close>

partial_function (option) adc_search ::
    "'p an_env \<Rightarrow> nat \<Rightarrow> nat \<Rightarrow> 'p analog \<Rightarrow> (bool \<times> 'p analog) option" where
  \<comment> \<open>\<open>for(j = 0; i < sizeof(adc_map) / sizeof(adc_map_t); j++)\<close>, with \<open>adc_map[i]\<close> in the body\<close>
  "adc_search env i j s =
     (if i < length (adc_map env)
      then
        if snd (adc_map env ! i) = ai_pin (an_in s ! i)
        then Some (True, an_emit (Adc_config (fst (adc_map env ! i)))
          (s\<lparr>an_in := (an_in s)[i := (an_in s ! i)\<lparr>ai_adc := Some (fst (adc_map env ! i)), ai_cap_analog := True\<rparr>]\<rparr>))
        else adc_search env i (j + 1) s
      else Some (False, s))"

fun adc_assign :: "'p an_env \<Rightarrow> nat \<Rightarrow> nat \<Rightarrow> 'p analog \<Rightarrow> 'p analog option" where
  \<comment> \<open>the loop over the inputs: \<open>i\<close>, and the number of inputs still to do\<close>
  "adc_assign env i 0 s = Some s"
| "adc_assign env i (Suc n) s =
     (case adc_search env i 0 s of
        None \<Rightarrow> None
      | Some (ok, s) \<Rightarrow> adc_assign env (i + 1) n (if ok then s else s\<lparr>an_n_in := an_n_in s - 1\<rparr>))"

definition an_default_cfg :: pwm_cfg where
  "an_default_cfg = \<lparr>pc_freq_hz = 5000, pc_min = 0, pc_servo_mode = False\<rparr>"

fun pwm_init_all :: "'p an_env \<Rightarrow> nat \<Rightarrow> nat \<Rightarrow> 'p analog \<Rightarrow> 'p analog" where
  \<comment> \<open>\<open>pin->config\<close> of each output; the outputs are on the two PWM pins, so the last case, in which
    the code would call a null pointer, does not arise\<close>
  "pwm_init_all env i 0 s = s"
| "pwm_init_all env i (Suc n) s =
     pwm_init_all env (i + 1) n
       (case an_get_pin_info env An_Output i s of
          None \<Rightarrow> s
        | Some p \<Rightarrow>
            (case xb_config p of
               Some 0 \<Rightarrow> snd (init_pwm0 env (xb_function p) an_default_cfg s)
             | Some _ \<Rightarrow> snd (init_pwm1 env (xb_function p) an_default_cfg s)
             | None \<Rightarrow> s))"

definition ioports_init_analog ::
    "'p an_env \<Rightarrow> bool \<Rightarrow> an_input list \<Rightarrow> an_output list \<Rightarrow> 'p analog \<Rightarrow> 'p analog option" where
  \<comment> \<open>the Boolean is the result of \<open>ioports_add_analog\<close>\<close>
  "ioports_init_analog env added inputs outputs s =
     (let s = s\<lparr>an_in := inputs, an_out := outputs, an_n_in := length inputs, an_n_out := length outputs\<rparr> in
      if added
      then (case adc_assign env 0 (length inputs) s of
              None \<Rightarrow> None
            | Some s \<Rightarrow> Some (pwm_init_all env 0 (an_n_out s) s))
      else Some s)"

subsection \<open>Facts\<close>

lemma adc_search_partial:
  "adc_search env i j s = Some r \<Longrightarrow>
     i < length (adc_map env) \<longrightarrow> snd (adc_map env ! i) = ai_pin (an_in s ! i)"
  by (erule adc_search.raw_induct [rotated]) (auto split: if_splits)

lemma adc_search_hangs:
  "i < length (adc_map env) \<Longrightarrow> snd (adc_map env ! i) \<noteq> ai_pin (an_in s ! i) \<Longrightarrow>
     adc_search env i j s = None"
  using adc_search_partial [of env i j s] by (cases "adc_search env i j s") auto

lemma adc_search_done:
  "i < length (adc_map env) \<Longrightarrow> snd (adc_map env ! i) = ai_pin (an_in s ! i) \<Longrightarrow>
     adc_search env i j s = Some (True, an_emit (Adc_config (fst (adc_map env ! i)))
       (s\<lparr>an_in := (an_in s)[i := (an_in s ! i)\<lparr>ai_adc := Some (fst (adc_map env ! i)), ai_cap_analog := True\<rparr>]\<rparr>))"
  "\<not> i < length (adc_map env) \<Longrightarrow> adc_search env i j s = Some (False, s)"
  by (subst adc_search.simps, simp)+

definition adc_match :: "'p an_env \<Rightarrow> 'p analog \<Rightarrow> nat \<Rightarrow> nat \<Rightarrow> bool" where
  \<comment> \<open>the inputs from \<open>i\<close> to \<open>i + n - 1\<close> are on the pins of the map entries with their own index\<close>
  "adc_match env s i n \<longleftrightarrow>
     (\<forall>k < length (adc_map env). i \<le> k \<and> k < i + n \<longrightarrow> snd (adc_map env ! k) = ai_pin (an_in s ! k))"

lemma adc_assign_spec:
  assumes "i + n \<le> length (an_in s)"
  shows "if adc_match env s i n
    then \<exists>s'. adc_assign env i n s = Some s' \<and> length (an_in s') = length (an_in s) \<and>
      an_out s' = an_out s \<and> pwm_out_tab s' = pwm_out_tab s \<and>
      an_n_in s' = an_n_in s - (i + n - max i (length (adc_map env))) \<and>
      (\<forall>k < length (an_in s). ai_adc (an_in s' ! k) =
        (if i \<le> k \<and> k < i + n \<and> k < length (adc_map env) then Some (fst (adc_map env ! k))
         else ai_adc (an_in s ! k)))
    else adc_assign env i n s = None"
  using assms
proof (induction n arbitrary: i s)
  case 0
  then show ?case by (auto simp: adc_match_def intro: exI [of _ s])
next
  case (Suc n)
  let ?L = "length (adc_map env)"
  show ?case
  proof (cases "i < ?L")
    case out: False
    let ?s = "s\<lparr>an_n_in := an_n_in s - 1\<rparr>"
    have "adc_assign env i (Suc n) s = adc_assign env (i + 1) n ?s"
      using adc_search_done(2) [OF out] by simp
    moreover have "max (i + 1) ?L = i + 1" "max i ?L = i" using out by simp_all
    moreover have "adc_match env s i (Suc n)" "adc_match env ?s (i + 1) n"
      using out by (auto simp: adc_match_def)
    ultimately show ?thesis using Suc.IH [of "i + 1" ?s] Suc.prems out by auto
  next
    case True
    show ?thesis
    proof (cases "snd (adc_map env ! i) = ai_pin (an_in s ! i)")
      case False
      then have "\<not> adc_match env s i (Suc n)" using True by (auto simp: adc_match_def)
      then show ?thesis using adc_search_hangs [OF True False] by simp
    next
      case ok: True
      let ?s = "an_emit (Adc_config (fst (adc_map env ! i))) (s\<lparr>an_in := (an_in s)[i :=
        (an_in s ! i)\<lparr>ai_adc := Some (fst (adc_map env ! i)), ai_cap_analog := True\<rparr>]\<rparr>)"
      have as: "adc_assign env i (Suc n) s = adc_assign env (i + 1) n ?s"
        using adc_search_done(1) [OF True ok] by simp
      have pins: "ai_pin (an_in ?s ! k) = ai_pin (an_in s ! k)" for k
        using Suc.prems by (cases "k = i") simp_all
      have mx: "max (i + 1) ?L = ?L" "max i ?L = ?L" using True by simp_all
      have cond: "adc_match env ?s (i + 1) n \<longleftrightarrow> adc_match env s i (Suc n)"
      proof
        assume B: "adc_match env ?s (i + 1) n"
        have "snd (adc_map env ! k) = ai_pin (an_in s ! k)" if "k < ?L" "i \<le> k \<and> k < i + Suc n" for k
          using B [unfolded adc_match_def pins, rule_format, of k] ok that by (cases "k = i") simp_all
        then show "adc_match env s i (Suc n)" unfolding adc_match_def by blast
      qed (simp add: adc_match_def pins del: an_emit_sel)
      have len: "(i + 1) + n \<le> length (an_in ?s)" using Suc.prems by simp
      show ?thesis
      proof (cases "adc_match env s i (Suc n)")
        case False
        then have "adc_assign env (i + 1) n ?s = None"
          using Suc.IH [OF len] by (simp only: cond if_False)
        then show ?thesis using as False by simp
      next
        case A: True
        then obtain s' where s': "adc_assign env (i + 1) n ?s = Some s'"
            "length (an_in s') = length (an_in ?s)" "an_out s' = an_out ?s" "pwm_out_tab s' = pwm_out_tab ?s"
            "an_n_in s' = an_n_in ?s - (i + 1 + n - max (i + 1) ?L)"
          and ch: "\<forall>k < length (an_in ?s). ai_adc (an_in s' ! k) =
            (if i + 1 \<le> k \<and> k < i + 1 + n \<and> k < ?L then Some (fst (adc_map env ! k)) else ai_adc (an_in ?s ! k))"
          using Suc.IH [OF len] by (simp only: cond if_True) blast
        have "ai_adc (an_in s' ! k) = (if i \<le> k \<and> k < i + Suc n \<and> k < ?L then Some (fst (adc_map env ! k))
            else ai_adc (an_in s ! k))" if "k < length (an_in s)" for k
          using ch [rule_format, of k] that True by (cases "k = i") auto
        then show ?thesis using A as s' mx by simp
      qed
    qed
  qed
qed

lemma pwm_set_value_sel [simp]:
  "an_in (pwm_set_value env ch v s) = an_in s" "an_n_in (pwm_set_value env ch v s) = an_n_in s"
  "an_out (pwm_set_value env ch v s) = an_out s" "an_n_out (pwm_set_value env ch v s) = an_n_out s"
  "pwm_out_tab (pwm_set_value env ch v s) =
     (pwm_out_tab s)[ch := (pwm_out_tab s ! ch)\<lparr>po_value := v\<rparr>]"
  by (simp_all add: pwm_set_value_def Let_def)

lemma init_pwm_inputs:
  "init_pwm env num gpio ch config (t, s) = (ok, t', s') \<Longrightarrow>
     an_in s' = an_in s \<and> an_n_in s' = an_n_in s \<and> an_n_out s' = an_n_out s"
  by (auto simp: init_pwm_def Let_def split: if_splits prod.splits)

lemma init_pwm01_inputs:
  "an_in (snd (init_pwm0 env fn config s)) = an_in s \<and> an_n_in (snd (init_pwm0 env fn config s)) = an_n_in s"
  "an_in (snd (init_pwm1 env fn config s)) = an_in s \<and> an_n_in (snd (init_pwm1 env fn config s)) = an_n_in s"
  by (auto simp: init_pwm0_def init_pwm1_def split: prod.splits dest!: init_pwm_inputs)

lemma pwm_init_all_inputs:
  "an_in (pwm_init_all env i n s) = an_in s \<and> an_n_in (pwm_init_all env i n s) = an_n_in s"
  by (induction env i n s rule: pwm_init_all.induct)
    (auto simp: init_pwm01_inputs split: option.splits nat.splits)

subsection \<open>Properties\<close>

text \<open>
  The analog inputs: \<open>ioports_init_analog\<close> returns exactly when the \<open>i\<close>-th input pin is the pin
  of the \<open>i\<close>-th entry of the ADC map, for every input that has such an entry.  The search loop tests
  and indexes with \<open>i\<close> where it counts \<open>j\<close>, so with any other order of the pins it never ends.  When
  it does return, each of these inputs has the channel of its entry, and the number of ports is what
  the map can serve.
\<close>

theorem analog_init_returns:
  "(ioports_init_analog env True inputs outputs s = None \<longleftrightarrow>
      (\<exists>i < length inputs. i < length (adc_map env) \<and> snd (adc_map env ! i) \<noteq> ai_pin (inputs ! i))) \<and>
   (\<forall>s'. ioports_init_analog env True inputs outputs s = Some s' \<longrightarrow>
      an_n_in s' = min (length inputs) (length (adc_map env)) \<and>
      (\<forall>i < an_n_in s'. ai_adc (an_in s' ! i) = Some (fst (adc_map env ! i))))"
proof -
  let ?s = "s\<lparr>an_in := inputs, an_out := outputs, an_n_in := length inputs, an_n_out := length outputs\<rparr>"
  have m: "adc_match env ?s 0 (length inputs) \<longleftrightarrow>
      \<not> (\<exists>i < length inputs. i < length (adc_map env) \<and> snd (adc_map env ! i) \<noteq> ai_pin (inputs ! i))"
    by (auto simp: adc_match_def)
  have spec: "if adc_match env ?s 0 (length inputs)
    then \<exists>s'. adc_assign env 0 (length inputs) ?s = Some s' \<and>
      an_n_in s' = length inputs - (length inputs - length (adc_map env)) \<and>
      (\<forall>k < length inputs. k < length (adc_map env) \<longrightarrow> ai_adc (an_in s' ! k) = Some (fst (adc_map env ! k)))
    else adc_assign env 0 (length inputs) ?s = None"
    using adc_assign_spec [of 0 "length inputs" ?s env] by (auto split: if_splits)
  show ?thesis
  proof (cases "adc_match env ?s 0 (length inputs)")
    case True
    with spec obtain s1 where s1: "adc_assign env 0 (length inputs) ?s = Some s1"
        "an_n_in s1 = length inputs - (length inputs - length (adc_map env))"
        "\<forall>k < length inputs. k < length (adc_map env) \<longrightarrow> ai_adc (an_in s1 ! k) = Some (fst (adc_map env ! k))"
      by auto
    then show ?thesis using True m by (auto simp: ioports_init_analog_def pwm_init_all_inputs)
  next
    case False
    then have "ioports_init_analog env True inputs outputs s = None"
      using spec by (simp add: ioports_init_analog_def)
    then show ?thesis using False m by simp blast
  qed
qed

text \<open>
  An analog output that is set reads back: \<open>analog_out\<close> on a port whose PWM has been initialised
  reports success, \<open>pwm_get_value\<close> of its function is then the value written, every other channel
  keeps its value, and the last LEDC call is the one for the computed duty: a stop when it is the off
  value and the output is not always on, and a duty update otherwise.
\<close>

theorem analog_out_reads_back:
  assumes "port < an_n_out s" "ao_id (an_out s ! port) = Output_Analog_Aux0 env + ch"
    "ch < an_n_out s" "an_n_out s \<le> length (pwm_out_tab s)" "po_ready (pwm_out_tab s ! ch)"
  shows "\<exists>s' e. analog_out env port v s = Some (True, s') \<and>
    pwm_get_value env (Output_Analog_Aux0 env + ch) s' = v \<and>
    (\<forall>fn. fn \<noteq> Output_Analog_Aux0 env + ch \<longrightarrow> pwm_get_value env fn s' = pwm_get_value env fn s) \<and>
    an_ev s' = e # an_ev s \<and>
    (let po = pwm_out_tab s ! ch; duty = compute_pwm_value env (po_data po) v in
     e = (if duty = pd_off_value (po_data po) \<and> \<not> pd_always_on (po_data po) then Stop (po_channel po) 0
          else Set_duty (po_channel po) duty))"
proof -
  let ?s = "pwm_set_value env ch v s"
  have "analog_out env port v s = Some (True, ?s)"
    using assms by (simp add: analog_out_def pwm_channel_of_def)
  moreover have "pwm_get_value env (Output_Analog_Aux0 env + ch) ?s = v"
    using assms by (simp add: pwm_get_value_def pwm_channel_of_def)
  moreover have "pwm_get_value env fn ?s = pwm_get_value env fn s" if "fn \<noteq> Output_Analog_Aux0 env + ch" for fn
    using that assms by (auto simp: pwm_get_value_def pwm_channel_of_def Let_def nth_list_update nat_eq_iff2)
  ultimately show ?thesis by (auto simp: pwm_set_value_def Let_def)
qed

text \<open>
  A description that is set reads back on the same port, and no other port's changes, except that
  describing an input that was not assigned a channel, on a number that is an output port too,
  describes the output: the \<open>else\<close> of \<open>set_pin_description\<close> does not look at the direction.
\<close>

theorem analog_description:
  fixes d d' :: an_dir and p p' :: nat and s :: "'p analog"
  assumes "an_n_in s \<le> length (an_in s)" "an_n_out s \<le> length (an_out s)"
  defines "dest \<equiv> if d = An_Input \<and> p < an_n_in s then Some (An_Input, p)
                 else if p < an_n_out s then Some (An_Output, p) else None"
  shows "map_option xb_description (an_get_pin_info env d' p' (an_set_pin_description d p txt s)) =
     map_option (\<lambda>i. if dest = Some (d', p') then Some txt else xb_description i) (an_get_pin_info env d' p' s)"
  using assms(1,2)
  by (cases d'; cases "p' = p") (auto simp: dest_def an_get_pin_info_def an_set_pin_description_def Let_def nth_list_update)

subsection \<open>Witnesses\<close>

definition an_env_ex :: "unit an_env" where
  "an_env_ex = \<lparr>adc_map = adc_map_esp32, Output_Analog_Aux0 = 40, AUXOUTPUT0_PWM_PIN = 25, AUXOUTPUT1_PWM_PIN = 26,
     an_wide_timer = True, ledc_set_freq = (\<lambda>_ _. True),
     compute_pwm_value = (\<lambda>_ v. nat \<lfloor>v * 10\<rfloor>), precompute_pwm_values = (\<lambda>_ _ d. d\<lparr>pd_off_value := 0\<rparr>),
     adc1_get_raw = (\<lambda>ch. 100 * int ch)\<rparr>"

definition an_in_ex :: "nat \<Rightarrow> an_input" where
  "an_in_ex pin = \<lparr>ai_pin = pin, ai_id = 50, ai_claimed = False, ai_adc = None, ai_cap_analog = False,
     ai_description = None\<rparr>"

definition an_out_ex :: "nat \<Rightarrow> nat \<Rightarrow> an_output" where
  "an_out_ex pin fn = \<lparr>ao_pin = pin, ao_id = fn, ao_pwm = False, ao_servo = False, ao_description = None\<rparr>"

definition an_state_ex :: "unit analog" where
  "an_state_ex = \<lparr>an_in = [an_in_ex 36], an_out = [an_out_ex 25 40, an_out_ex 26 41], an_n_in = 1, an_n_out = 2,
     pwm_out_tab = replicate 2 \<lparr>po_max_value = 0, po_channel = 1,
       po_data = \<lparr>pd_off_value = 0, pd_always_on = False, pd_rest = ()\<rparr>, po_value = 0, po_ready = True\<rparr>,
     timer0 = \<lparr>tm_freq = 5000, tm_resolution = 10, tm_init_ok = False\<rparr>,
     timer1 = \<lparr>tm_freq = 5000, tm_resolution = 10, tm_init_ok = False\<rparr>, an_ev = []\<rparr>"

lemmas an_ex_defs = an_env_ex_def an_state_ex_def an_in_ex_def an_out_ex_def adc_map_esp32_def

lemma analog_init_returns_witness:
  "ioports_init_analog an_env_ex True [an_in_ex 37] [] an_state_ex = None \<and>
   ioports_init_analog an_env_ex True [an_in_ex 36, an_in_ex 37] [] an_state_ex \<noteq> None"
  by (simp add: analog_init_returns [THEN conjunct1])
    (simp add: an_ex_defs All_less_Suc Ex_less_Suc numeral_2_eq_2)

lemma analog_out_reads_back_witness:
  "\<exists>s' e. analog_out an_env_ex 1 7 an_state_ex = Some (True, s') \<and> pwm_get_value an_env_ex 41 s' = 7 \<and>
     an_ev s' = [e] \<and> e = Set_duty 1 70"
  using analog_out_reads_back [of 1 an_state_ex an_env_ex 1 7]
  by (auto simp: an_ex_defs numeral_2_eq_2)

lemma analog_description_witness:
  "map_option xb_description (an_get_pin_info an_env_ex An_Output 1
     (an_set_pin_description An_Input 1 ''knob'' an_state_ex)) = Some (Some ''knob'')"
  by (subst analog_description) (simp_all add: an_ex_defs an_get_pin_info_def)

end
