(* ===== verification/Stepper.thy ===== *)
theory Stepper
  imports Prelude Complex_Main
begin

text \<open>
  The stepper outputs of \<open>main/driver.c\<close>: enable, direction and step pins, the RMT and I2S
  variants of the pulse functions, step injection, and the switch between the two stepping modes.
  An axis mask is a word whose bit \<open>i\<close> is axis \<open>i\<close> (X, Y, Z, A, B, C, U, V, W); what the board map
  and the build options define are fields of the record \<open>step_build\<close>.  The hardware is the level
  of each pin and the list of calls of the pulse hardware, newest first.
\<close>

subsection \<open>State\<close>

type_synonym axes = u16

datatype motor_pin =
    Axis nat      \<comment> \<open>the motor of the axis\<close>
  | Second nat    \<comment> \<open>the second motor of a ganged axis\<close>

datatype enable_pin = STEPPERS_ENABLE | XY_ENABLE | Enable motor_pin

datatype step_event =
    Rmt_start motor_pin                                \<comment> \<open>\<open>rmt_ll_tx_reset_pointer\<close>, \<open>rmt_ll_tx_start\<close>\<close>
  | Push_sample nat "motor_pin \<Rightarrow> bool" "motor_pin \<Rightarrow> bool"  \<comment> \<open>count; the step and direction levels sent\<close>
  | Commit nat nat "motor_pin \<Rightarrow> bool" "motor_pin \<Rightarrow> bool"   \<comment> \<open>\<open>i2s_out_commit\<close>\<close>
  | Delay_us nat "motor_pin \<Rightarrow> bool" "motor_pin \<Rightarrow> bool"     \<comment> \<open>busy wait, with the levels that stand\<close>
  | Set_stepping | Set_passthrough | Out_delay | Out_reset
  | Pulse_period u32
  | Timer_counter u64 | Timer_alarm u32 | Timer_start | Timer_alarm_on | Timer_off

datatype step_fn = Plain_fn | I2S_fn
datatype pulse_cb = Interrupt_callback | I2s_step_sink

record stepper_state =
  dir_pin :: "motor_pin \<Rightarrow> bool"
  step_pin :: "motor_pin \<Rightarrow> bool"
  enable_level :: "enable_pin \<Rightarrow> bool"
  step_ev :: "step_event list"
  motors_1 :: axes
  motors_2 :: axes
  inj_claimed :: axes          \<comment> \<open>\<open>step_pulse.inject.claimed\<close>\<close>
  inj_axes :: axes             \<comment> \<open>\<open>step_pulse.inject.axes\<close>\<close>
  inj_out :: axes
  goIdlePending :: bool
  add_dir_delay :: bool
  laser_mode :: bool
  wake_up :: step_fn           \<comment> \<open>the pointers in \<open>hal.stepper\<close>\<close>
  go_idle :: step_fn
  cycles_per_tick_fn :: step_fn
  pulse_start :: step_fn
  pulse_callback :: pulse_cb

record step_build =
  N_AXIS :: nat
  ganged :: "nat \<Rightarrow> bool"      \<comment> \<open>\<open>X_GANGED\<close>, \<open>Y_GANGED\<close>, \<open>Z_GANGED\<close>\<close>
  auto_square :: "nat \<Rightarrow> bool"
  has_axis :: "nat \<Rightarrow> bool"    \<comment> \<open>\<open>A_AXIS\<close> (3) to \<open>W_AXIS\<close> (8)\<close>
  has_step :: "nat \<Rightarrow> bool"    \<comment> \<open>\<open>Z_STEP_PIN\<close> (2) to \<open>W_STEP_PIN\<close> (8)\<close>
  has_step2 :: "nat \<Rightarrow> bool"   \<comment> \<open>\<open>X2_STEP_PIN\<close> (0) to \<open>Z2_STEP_PIN\<close> (2)\<close>
  has_z_dir :: bool            \<comment> \<open>\<open>Z_DIRECTION_PIN\<close>\<close>
  squaring :: bool             \<comment> \<open>\<open>SQUARING_ENABLED\<close>\<close>
  step_inject :: bool
  smoothing :: bool            \<comment> \<open>\<open>ADAPTIVE_MULTI_AXIS_STEP_SMOOTHING\<close>\<close>
  trinamic :: bool
  has_enable :: "enable_pin \<Rightarrow> bool"
  y2_expander :: bool          \<comment> \<open>\<open>Y2_ENABLE_PORT == EXPANDER_PORT\<close>\<close>
  use_i2s :: bool
  esp32s3 :: bool

record step_settings =
  dir_invert :: axes
  ganged_dir_invert :: axes
  step_invert :: axes
  enable_invert :: axes

definition AXES_BITMASK :: "step_build \<Rightarrow> axes" where
  "AXES_BITMASK bd = mask (N_AXIS bd)"

definition set_enable :: "enable_pin \<Rightarrow> bool \<Rightarrow> stepper_state \<Rightarrow> stepper_state" where
  "set_enable p b s = s\<lparr>enable_level := (enable_level s)(p := b)\<rparr>"

definition set_dir :: "motor_pin \<Rightarrow> bool \<Rightarrow> stepper_state \<Rightarrow> stepper_state" where
  "set_dir p b s = s\<lparr>dir_pin := (dir_pin s)(p := b)\<rparr>"

definition set_step :: "motor_pin \<Rightarrow> bool \<Rightarrow> stepper_state \<Rightarrow> stepper_state" where
  "set_step p b s = s\<lparr>step_pin := (step_pin s)(p := b)\<rparr>"

definition step_emit :: "step_event \<Rightarrow> stepper_state \<Rightarrow> stepper_state" where
  "step_emit e s = s\<lparr>step_ev := e # step_ev s\<rparr>"

definition rmt_start :: "motor_pin \<Rightarrow> stepper_state \<Rightarrow> stepper_state" where
  "rmt_start m = step_emit (Rmt_start m)"

subsection \<open>Enable\<close>

definition enable_writes :: "step_build \<Rightarrow> axes \<Rightarrow> (enable_pin \<times> enable_pin \<times> bool) list" where
  \<comment> \<open>in the order of the code: the macro that guards the write, the pin written, the level\<close>
  "enable_writes bd e =
     [(XY_ENABLE, XY_ENABLE, bit e 0 \<or> bit e 1),
      (Enable (Axis 0), Enable (Axis 0), bit e 0), (Enable (Second 0), Enable (Second 0), bit e 0),
      (Enable (Axis 1), Enable (Axis 1), bit e 1),
      (Enable (Second 1), if y2_expander bd then XY_ENABLE else Enable (Second 1), bit e 1),
      (Enable (Axis 2), Enable (Axis 2), bit e 2), (Enable (Second 2), Enable (Second 2), bit e 2)]
     @ map (\<lambda>i. (Enable (Axis i), Enable (Axis i), bit e i)) [3..<9]"

definition stepperEnable :: "step_build \<Rightarrow> step_settings \<Rightarrow> axes \<Rightarrow> stepper_state \<Rightarrow> stepper_state" where
  "stepperEnable bd cfg enable s =
     (let enable = enable XOR enable_invert cfg in
      if trinamic bd then s
      else if has_enable bd STEPPERS_ENABLE then set_enable STEPPERS_ENABLE (bit enable 0) s
      else fold (\<lambda>(guard, p, b) s. if has_enable bd guard then set_enable p b s else s)
        (enable_writes bd enable) s)"

subsection \<open>Direction\<close>

definition dir_axis :: "step_build \<Rightarrow> step_settings \<Rightarrow> axes \<Rightarrow> nat \<Rightarrow> stepper_state \<Rightarrow> stepper_state" where
  \<comment> \<open>one \<open>case\<close> of the switch, and the lines of one axis without it\<close>
  "dir_axis bd cfg dir_out i s =
     (if i < 2 \<or> i = 2 \<and> has_z_dir bd
      then
        let s = set_dir (Axis i) (bit dir_out i) s in
        if ganged bd i then set_dir (Second i) (bit dir_out i \<noteq> bit (ganged_dir_invert cfg) i) s else s
      else if 3 \<le> i \<and> i < 9 \<and> has_axis bd i then set_dir (Axis i) (bit dir_out i) s
      else s)"

definition set_dir_outputs :: "step_build \<Rightarrow> step_settings \<Rightarrow> axes \<Rightarrow> stepper_state \<Rightarrow> stepper_state" where
  \<comment> \<open>outside injection the U, V and W lines are under \<open>U_UXIS\<close>, \<open>V_UXIS\<close> and \<open>W_UXIS\<close>, which nothing
    defines, so they are not compiled\<close>
  "set_dir_outputs bd cfg dir_out s =
     (let dir_out = dir_out XOR dir_invert cfg; claimed = inj_axes s in
      if step_inject bd \<and> claimed \<noteq> 0
      then fold (\<lambda>i s. if \<not> bit claimed i then dir_axis bd cfg dir_out i s else s) [0..<N_AXIS bd] s
      else fold (dir_axis bd cfg dir_out) [0..<6] s)"

datatype squaring_mode = SquaringMode_Both | SquaringMode_A | SquaringMode_B

definition StepperDisableMotors :: "step_build \<Rightarrow> axes \<Rightarrow> squaring_mode \<Rightarrow> stepper_state \<Rightarrow> stepper_state" where
  "StepperDisableMotors bd ax mode s =
     s\<lparr>motors_1 := (if mode = SquaringMode_A \<or> mode = SquaringMode_Both then ax else 0) XOR AXES_BITMASK bd,
       motors_2 := (if mode = SquaringMode_B \<or> mode = SquaringMode_Both then ax else 0) XOR AXES_BITMASK bd\<rparr>"

subsection \<open>Step pulses by RMT\<close>

definition step_axis :: "step_build \<Rightarrow> nat \<Rightarrow> motor_pin list" where
  \<comment> \<open>the channels started by one \<open>case\<close> of the switch of the build without squaring\<close>
  "step_axis bd i =
     (if i < 2 then Axis i # (if ganged bd i then [Second i] else [])
      else if i = 2 then (if has_step bd 2 then Axis 2 # (if ganged bd 2 \<and> has_step2 bd 2 then [Second 2] else [])
                          else [])
      else if i < 9 \<and> has_axis bd i then [Axis i] else [])"

definition step_axis_plain :: "step_build \<Rightarrow> nat \<Rightarrow> motor_pin list" where
  \<comment> \<open>the lines of one axis outside injection, where the guards are the step pins\<close>
  "step_axis_plain bd i =
     (if i < 2 then Axis i # (if ganged bd i then [Second i] else [])
      else if i = 2 then (if has_step bd 2 then Axis 2 # (if ganged bd 2 then [Second 2] else []) else [])
      else if i < 9 \<and> has_step bd i then [Axis i] else [])"

definition set_step_outputs_plain :: "step_build \<Rightarrow> axes \<Rightarrow> stepper_state \<Rightarrow> stepper_state" where
  \<comment> \<open>the build without squaring; its U, V and W lines name a variable that does not exist, so they
    are not compiled in any build that works\<close>
  "set_step_outputs_plain bd step_out s =
     fold rmt_start
       (if step_inject bd \<and> inj_axes s \<noteq> 0
        then concat (map (\<lambda>i. if bit step_out i \<and> \<not> bit (inj_axes s) i then step_axis bd i else []) [0..<N_AXIS bd])
        else concat (map (\<lambda>i. if bit step_out i then step_axis_plain bd i else []) [0..<6])) s"

definition step1_axis :: "step_build \<Rightarrow> nat \<Rightarrow> motor_pin list" where
  "step1_axis bd i =
     (if i < 2 \<or> i = 2 \<and> has_step bd 2 \<or> 3 \<le> i \<and> i < 9 \<and> has_axis bd i then [Axis i] else [])"

definition step2_axis :: "step_build \<Rightarrow> nat \<Rightarrow> motor_pin list" where
  "step2_axis bd i =
     (if i < 2 \<and> ganged bd i \<or> i = 2 \<and> ganged bd 2 \<and> has_step2 bd 2 then [Second i] else [])"

definition set_step_outputs_squaring :: "step_build \<Rightarrow> axes \<Rightarrow> stepper_state \<Rightarrow> stepper_state" where
  "set_step_outputs_squaring bd step_out s =
     (let step_out2 = step_out AND motors_2 s; step_out1 = step_out AND motors_1 s in
      fold rmt_start
        (if step_inject bd \<and> inj_axes s \<noteq> 0
         then concat (map (\<lambda>i. if \<not> bit (inj_axes s) i
                then (if bit step_out2 i then step2_axis bd i else []) @
                     (if bit step_out1 i then step1_axis bd i else []) else []) [0..<N_AXIS bd])
         else
           concat (map (\<lambda>i. (if bit step_out1 i then [Axis i] else []) @
             (if has_step2 bd i \<and> bit step_out2 i then [Second i] else [])) [0..<2]) @
           (if has_step bd 2 then (if bit step_out1 2 then [Axis 2] else []) @
             (if has_step2 bd 2 \<and> bit step_out2 2 then [Second 2] else []) else []) @
           concat (map (\<lambda>i. if has_step bd i \<and> bit step_out1 i then [Axis i] else []) [3..<9])) s)"

definition set_step_outputs :: "step_build \<Rightarrow> axes \<Rightarrow> stepper_state \<Rightarrow> stepper_state" where
  "set_step_outputs bd = (if squaring bd then set_step_outputs_squaring bd else set_step_outputs_plain bd)"

subsection \<open>Step injection\<close>

definition stepperClaimMotor :: "step_build \<Rightarrow> nat \<Rightarrow> bool \<Rightarrow> stepper_state \<Rightarrow> stepper_state" where
  "stepperClaimMotor bd axis_id claim s =
     (if claim then s\<lparr>inj_claimed := inj_claimed s OR (push_bit axis_id 1 AND AXES_BITMASK bd)\<rparr>
      else
        let s = s\<lparr>inj_claimed := inj_claimed s AND NOT (push_bit axis_id 1)\<rparr>
        in s\<lparr>inj_axes := inj_claimed s\<rparr>)"

definition inject_axis :: "step_build \<Rightarrow> step_settings \<Rightarrow> axes \<Rightarrow> int \<Rightarrow> stepper_state \<Rightarrow> stepper_state" where
  \<comment> \<open>the switch of \<open>stepperOutputStep\<close>: direction and pulse of one axis\<close>
  "inject_axis bd cfg dir_out idx s =
     (let i = nat idx in
      if 0 \<le> idx \<and> idx < 2 \<or> idx = 2 \<and> has_step bd 2
      then
        let s = set_dir (Axis i) (bit dir_out i) s;
            s = (if ganged bd i then set_dir (Second i) (bit dir_out i \<noteq> bit (ganged_dir_invert cfg) i) s else s);
            s = rmt_start (Axis i) s
        in if ganged bd i then rmt_start (Second i) s else s
      else if 3 \<le> idx \<and> idx < 9 \<and> has_axis bd i
      then rmt_start (Axis i) (set_dir (Axis i) (bit dir_out i) s)
      else s)"

partial_function (option) output_step_loop ::
    "step_build \<Rightarrow> step_settings \<Rightarrow> axes \<Rightarrow> axes \<Rightarrow> int \<Rightarrow> axes \<Rightarrow> stepper_state \<Rightarrow> stepper_state option" where
  \<comment> \<open>the \<open>do ... while(axes.bits)\<close> loop\<close>
  "output_step_loop bd cfg dir_out ax idx msk s =
     (let (ax, s) = (if ax AND msk \<noteq> 0 then (ax XOR msk, inject_axis bd cfg dir_out idx s) else (ax, s));
          idx = idx - 1;
          msk = drop_bit 1 msk
      in if ax \<noteq> 0 then output_step_loop bd cfg dir_out ax idx msk s else Some s)"

definition stepperOutputStep ::
    "step_build \<Rightarrow> step_settings \<Rightarrow> axes \<Rightarrow> axes \<Rightarrow> stepper_state \<Rightarrow> stepper_state option" where
  "stepperOutputStep bd cfg step_out dir_out s =
     (if step_out \<noteq> 0
      then output_step_loop bd cfg (dir_out XOR dir_invert cfg) step_out (int (N_AXIS bd) - 1)
        (push_bit (N_AXIS bd - 1) 1) (s\<lparr>inj_out := step_out, inj_axes := inj_claimed s\<rparr>)
      else Some s)"

definition getGangedAxes :: "step_build \<Rightarrow> bool \<Rightarrow> axes" where
  "getGangedAxes bd auto_squared =
     (let on = (\<lambda>i g. if (if auto_squared then auto_square bd i else ganged bd i) then set_bit i g else g)
      in on 2 (on 1 (on 0 0)))"

subsection \<open>Step levels by I2S\<close>

definition i2s_set_step_outputs :: "step_build \<Rightarrow> step_settings \<Rightarrow> axes \<Rightarrow> stepper_state \<Rightarrow> stepper_state" where
  \<comment> \<open>both versions: without squaring the two masks are full\<close>
  "i2s_set_step_outputs bd cfg step_outbits s =
     (let step_outbits_2 = (if squaring bd then step_outbits AND motors_2 s else step_outbits) XOR step_invert cfg;
          step_outbits_1 = (if squaring bd then step_outbits AND motors_1 s else step_outbits) XOR step_invert cfg;
          s = fold (\<lambda>i s. if i < 2 \<or> i = 2 \<and> has_step bd 2 then set_step (Axis i) (bit step_outbits_1 i) s else s)
                [0..<3] s;
          s = fold (\<lambda>i s. if has_step2 bd i then set_step (Second i) (bit step_outbits_2 i) s else s) [0..<3] s
      in fold (\<lambda>i s. if has_axis bd i then set_step (Axis i) (bit step_outbits_1 i) s else s) [3..<9] s)"

definition push_sample :: "nat \<Rightarrow> stepper_state \<Rightarrow> stepper_state" where
  "push_sample n s = step_emit (Push_sample n (step_pin s) (dir_pin s)) s"

definition i2s_commit :: "nat \<Rightarrow> nat \<Rightarrow> stepper_state \<Rightarrow> stepper_state" where
  "i2s_commit n d s = step_emit (Commit n d (step_pin s) (dir_pin s)) s"

definition delay_us :: "nat \<Rightarrow> stepper_state \<Rightarrow> stepper_state" where
  \<comment> \<open>what a busy wait does to the outside: the levels stand\<close>
  "delay_us n s = step_emit (Delay_us n (step_pin s) (dir_pin s)) s"

record stepper =
  dir_changed :: axes
  dir_out :: axes
  step_out :: axes

record i2s_times =
  i2s_delay_samples :: nat
  i2s_step_samples :: nat
  i2s_delay_length :: nat
  i2s_step_length :: nat

definition I2SStepperPulseStart ::
    "step_build \<Rightarrow> step_settings \<Rightarrow> i2s_times \<Rightarrow> stepper \<times> stepper_state \<Rightarrow> stepper \<times> stepper_state" where
  "I2SStepperPulseStart bd cfg tm x =
     (case x of (st, s) \<Rightarrow>
        let (st, s) =
              (if dir_changed st \<noteq> 0
               then
                 let s = set_dir_outputs bd cfg (dir_out st) s
                 in (st\<lparr>dir_changed := 0\<rparr>, if step_out st \<noteq> 0 then push_sample (i2s_delay_samples tm) s else s)
               else (st, s))
        in if step_out st \<noteq> 0
           then
             let s = i2s_set_step_outputs bd cfg (step_out st) s;
                 s = push_sample (i2s_step_samples tm) s
             in (st, i2s_set_step_outputs bd cfg 0 s)
           else (st, s))"

definition stepperPulseStart ::
    "step_build \<Rightarrow> step_settings \<Rightarrow> i2s_times \<Rightarrow> stepper \<times> stepper_state \<Rightarrow> stepper \<times> stepper_state" where
  "stepperPulseStart bd cfg tm x =
     (case x of (st, s) \<Rightarrow>
        let (st, s) =
              (if dir_changed st \<noteq> 0
               then
                 let s = set_dir_outputs bd cfg (dir_out st) s;
                     s = (if \<not> use_i2s bd then s
                          else if esp32s3 bd
                          then
                            let s = s\<lparr>add_dir_delay := step_out st \<noteq> 0\<rparr>
                            in if add_dir_delay s then s else i2s_commit 0 (i2s_delay_samples tm) s
                          else if step_out st \<noteq> 0 then delay_us (i2s_delay_length tm + 1) s else s)
                 in (st\<lparr>dir_changed := 0\<rparr>, s)
               else (st, s))
        in if step_out st \<noteq> 0
           then
             (st,
              if \<not> use_i2s bd then set_step_outputs bd (step_out st) s
              else if esp32s3 bd
              then
                let s = i2s_set_step_outputs bd cfg (step_out st) s;
                    s = i2s_commit (i2s_step_samples tm) (if add_dir_delay s then i2s_delay_samples tm else 0) s
                in s\<lparr>add_dir_delay := False\<rparr>
              else
                let s = i2s_set_step_outputs bd cfg (step_out st) s;
                    s = delay_us (i2s_step_length tm + 1) s
                in i2s_set_step_outputs bd cfg 0 s)
           else (st, s))"

subsection \<open>Waking up, speed, going idle, and the stepping mode\<close>

definition step_limit :: "step_build \<Rightarrow> u32 \<Rightarrow> u32 \<Rightarrow> u32" where
  \<comment> \<open>the value of the alarm register\<close>
  "step_limit bd t_min_period cycles =
     (let top = push_bit (if smoothing bd then 18 else 23) 1 in
      if cycles < top then max cycles t_min_period else top - 1)"

definition stepperCyclesPerTick :: "step_build \<Rightarrow> u32 \<Rightarrow> u32 \<Rightarrow> stepper_state \<Rightarrow> stepper_state" where
  "stepperCyclesPerTick bd t_min_period cycles = step_emit (Timer_alarm (step_limit bd t_min_period cycles))"

definition I2SStepperCyclesPerTick :: "u32 \<Rightarrow> u32 \<Rightarrow> u32 \<Rightarrow> stepper_state \<Rightarrow> stepper_state" where
  "I2SStepperCyclesPerTick t_min_period t_max_period cycles =
     step_emit (Pulse_period ((if cycles < push_bit 18 1 then max cycles t_min_period else push_bit 18 1 - 1)
       div t_max_period))"

definition stepperWakeUp :: "step_build \<Rightarrow> (axes \<Rightarrow> stepper_state \<Rightarrow> stepper_state) \<Rightarrow> u32 \<Rightarrow> stepper_state \<Rightarrow> stepper_state" where
  \<comment> \<open>the second argument is \<open>hal.stepper.enable\<close>, the third \<open>hal.f_step_timer\<close>\<close>
  "stepperWakeUp bd enable f_step_timer s =
     (let s = enable (AXES_BITMASK bd) s;
          s = step_emit (Timer_counter 0) s;
          s = step_emit (Timer_alarm (f_step_timer div 500)) s;
          s = step_emit Timer_start s
      in step_emit Timer_alarm_on s)"

definition I2SStepperWakeUp :: "step_build \<Rightarrow> (axes \<Rightarrow> stepper_state \<Rightarrow> stepper_state) \<Rightarrow> stepper_state \<Rightarrow> stepper_state" where
  "I2SStepperWakeUp bd enable s = step_emit Set_stepping (enable (AXES_BITMASK bd) s)"

definition passthrough_delay :: "stepper_state \<Rightarrow> stepper_state" where
  "passthrough_delay s = step_emit Out_delay (step_emit Set_passthrough s)"

definition I2SReset :: "stepper_state \<Rightarrow> stepper_state" where
  "I2SReset s = (if goIdlePending s then (passthrough_delay s)\<lparr>goIdlePending := False\<rparr> else s)"

definition I2SStepperGoIdle :: "step_build \<Rightarrow> step_settings \<Rightarrow> bool \<Rightarrow> bool \<Rightarrow> stepper_state \<Rightarrow> stepper_state" where
  "I2SStepperGoIdle bd cfg in_isr clear_signals s =
     (let s = (if clear_signals
               then step_emit Out_reset (set_dir_outputs bd cfg 0 (i2s_set_step_outputs bd cfg 0 s))
               else s);
          s = s\<lparr>goIdlePending := in_isr\<rparr>
      in if goIdlePending s then s else passthrough_delay s)"

definition stepperGoIdle :: "step_build \<Rightarrow> step_settings \<Rightarrow> bool \<Rightarrow> stepper_state \<Rightarrow> stepper_state" where
  "stepperGoIdle bd cfg clear_signals s =
     (let s = step_emit Timer_off s in
      if clear_signals
      then set_dir_outputs bd cfg 0 (if use_i2s bd then i2s_set_step_outputs bd cfg 0 s else set_step_outputs bd 0 s)
      else s)"

definition i2s_set_streaming_mode :: "bool \<Rightarrow> bool \<Rightarrow> stepper_state \<Rightarrow> stepper_state" where
  \<comment> \<open>the first argument: \<open>i2s_out_get_pulser_status() == STEPPING\<close>\<close>
  "i2s_set_streaming_mode is_stepping stream s =
     (let s = step_emit Timer_off s;
          s = (if \<not> stream \<and> wake_up s = I2S_fn \<and> is_stepping then passthrough_delay s else s)
      in if stream
         then if wake_up s \<noteq> I2S_fn
              then s\<lparr>wake_up := I2S_fn, go_idle := I2S_fn, cycles_per_tick_fn := I2S_fn, pulse_start := I2S_fn,
                pulse_callback := Interrupt_callback\<rparr>
              else s
         else if wake_up s \<noteq> Plain_fn
         then s\<lparr>wake_up := Plain_fn, go_idle := Plain_fn, cycles_per_tick_fn := Plain_fn, pulse_start := Plain_fn,
           pulse_callback := I2s_step_sink\<rparr>
         else s)"

definition onSpindleSelected :: "bool \<Rightarrow> bool \<Rightarrow> stepper_state \<Rightarrow> stepper_state" where
  \<comment> \<open>the second argument: \<open>spindle->cap.laser\<close>; the handler saved before is the core's\<close>
  "onSpindleSelected is_stepping laser s =
     (let s = s\<lparr>laser_mode := laser\<rparr> in i2s_set_streaming_mode is_stepping (\<not> laser_mode s) s)"

subsection \<open>The RMT items\<close>

record rmt_item =
  it_level0 :: bool
  it_duration0 :: u32
  it_level1 :: bool
  it_duration1 :: u32

definition rmt_item0 :: "rat \<Rightarrow> rat \<Rightarrow> bool \<Rightarrow> rmt_item" where
  \<comment> \<open>\<open>rmtItem[0]\<close> of \<open>initRMT\<close> for pulse delay, pulse length and idle level\<close>
  "rmt_item0 delay pulse idle =
     \<lparr>it_level0 = idle, it_duration0 = word_of_int \<lfloor>if delay > 0 then 4 * delay else 1\<rfloor>,
      it_level1 = (\<not> idle), it_duration1 = word_of_int \<lfloor>4 * pulse\<rfloor>\<rparr>"

definition rmt_case :: "step_build \<Rightarrow> motor_pin \<Rightarrow> bool" where
  \<comment> \<open>the switch on the channel has a case for it\<close>
  "rmt_case bd m = (case m of Axis i \<Rightarrow> i < 2 \<or> i < 9 \<and> has_step bd i | Second i \<Rightarrow> i < 3 \<and> has_step2 bd i)"

fun motor_idx :: "motor_pin \<Rightarrow> nat" where
  "motor_idx (Axis i) = i"
| "motor_idx (Second i) = i"

fun rmt_channels ::
    "step_build \<Rightarrow> step_settings \<Rightarrow> rat \<Rightarrow> rat \<Rightarrow> motor_pin list \<Rightarrow> motor_pin option \<times> bool \<Rightarrow>
     (motor_pin \<times> motor_pin option \<times> rmt_item) list" where
  \<comment> \<open>the loop over the channels; the pair is \<open>gpio_num\<close> and \<open>idle_level\<close> of \<open>rmtConfig\<close>, which a channel
    without a case of the switch leaves as they are\<close>
  "rmt_channels bd cfg delay pulse [] c = []"
| "rmt_channels bd cfg delay pulse (m # ms) c =
     (let c = (if rmt_case bd m then (Some m, bit (step_invert cfg) (motor_idx m)) else c) in
      if m = Axis 2 \<and> \<not> has_step bd 2 then rmt_channels bd cfg delay pulse ms c
      else (m, fst c, rmt_item0 delay pulse (snd c)) # rmt_channels bd cfg delay pulse ms c)"

definition initRMT ::
    "step_build \<Rightarrow> step_settings \<Rightarrow> rat \<Rightarrow> rat \<Rightarrow> (motor_pin \<times> motor_pin option \<times> rmt_item) list" where
  \<comment> \<open>the channels configured and filled, in order: channel, pin, first item\<close>
  "initRMT bd cfg delay pulse =
     rmt_channels bd cfg delay pulse (map Axis [0..<N_AXIS bd] @ map Second (filter (ganged bd) [0..<3])) (None, False)"

subsection \<open>Facts\<close>

lemma stepper_sel [simp]:
  "dir_pin (set_dir p b s) = (dir_pin s)(p := b)" "step_pin (set_dir p b s) = step_pin s"
  "step_ev (set_dir p b s) = step_ev s" "inj_axes (set_dir p b s) = inj_axes s"
  "motors_1 (set_dir p b s) = motors_1 s" "motors_2 (set_dir p b s) = motors_2 s"
  "step_pin (set_step p b s) = (step_pin s)(p := b)" "dir_pin (set_step p b s) = dir_pin s"
  "step_ev (set_step p b s) = step_ev s" "inj_axes (set_step p b s) = inj_axes s"
  "motors_1 (set_step p b s) = motors_1 s" "motors_2 (set_step p b s) = motors_2 s"
  "step_ev (step_emit e s) = e # step_ev s" "dir_pin (step_emit e s) = dir_pin s"
  "step_pin (step_emit e s) = step_pin s" "inj_axes (step_emit e s) = inj_axes s"
  "motors_1 (step_emit e s) = motors_1 s" "motors_2 (step_emit e s) = motors_2 s"
  "enable_level (set_enable q b s) = (enable_level s)(q := b)" "step_ev (set_enable q b s) = step_ev s"
  by (simp_all add: set_dir_def set_step_def step_emit_def set_enable_def)

lemma rmt_starts: "fold rmt_start ms s = s\<lparr>step_ev := rev (map Rmt_start ms) @ step_ev s\<rparr>"
  by (induction ms arbitrary: s) (simp_all add: rmt_start_def step_emit_def)

definition step_build_ok :: "step_build \<Rightarrow> bool" where
  \<comment> \<open>a board map that fits the number of axes and the build options\<close>
  "step_build_ok bd \<longleftrightarrow> 2 \<le> N_AXIS bd \<and> N_AXIS bd \<le> 9 \<and>
     (\<forall>i \<in> {3..<9}. has_axis bd i = (i < N_AXIS bd) \<and> has_step bd i = (i < N_AXIS bd)) \<and>
     (\<forall>i < 3. has_step2 bd i = ganged bd i) \<and> (has_step bd 2 \<longrightarrow> 2 < N_AXIS bd) \<and> (ganged bd 2 \<longrightarrow> has_step bd 2) \<and>
     (\<not> squaring bd \<longrightarrow> N_AXIS bd \<le> 6) \<and> has_z_dir bd = has_step bd 2"

definition step_motors :: "step_build \<Rightarrow> axes \<Rightarrow> axes \<Rightarrow> axes \<Rightarrow> motor_pin set" where
  \<comment> \<open>the motors to step: first and second motors by their masks, without the claimed axes\<close>
  "step_motors bd first second skip =
     {Axis i | i. i < N_AXIS bd \<and> bit first i \<and> \<not> bit skip i \<and> (i = 2 \<longrightarrow> has_step bd 2)} \<union>
     {Second i | i. i < 3 \<and> ganged bd i \<and> bit second i \<and> \<not> bit skip i}"

lemma distinct_by_axis:
  assumes "distinct xs" "\<And>i. i \<in> set xs \<Longrightarrow> distinct (f i) \<and> motor_idx ` set (f i) \<subseteq> {i}"
  shows "distinct (concat (map f xs)) \<and> motor_idx ` set (concat (map f xs)) \<subseteq> set xs"
  using assms
proof (induction xs)
  case (Cons i xs)
  have "distinct (f i)" "motor_idx ` set (f i) \<subseteq> {i}" using Cons.prems(2) [of i] by auto
  moreover have "distinct (concat (map f xs))" "motor_idx ` set (concat (map f xs)) \<subseteq> set xs"
    using Cons.IH Cons.prems by auto
  ultimately show ?case using Cons.prems(1) by (auto simp del: set_concat set_map)
qed simp

lemma step_axis_mem:
  "Axis k \<in> set (step_axis bd i) \<longleftrightarrow> k = i \<and> (i < 2 \<or> i = 2 \<and> has_step bd 2 \<or> 3 \<le> i \<and> i < 9 \<and> has_axis bd i)"
  "Second k \<in> set (step_axis bd i) \<longleftrightarrow>
     k = i \<and> ganged bd i \<and> (i < 2 \<or> i = 2 \<and> has_step bd 2 \<and> has_step2 bd 2)"
  "Axis k \<in> set (step_axis_plain bd i) \<longleftrightarrow>
     k = i \<and> (i < 2 \<or> i = 2 \<and> has_step bd 2 \<or> 3 \<le> i \<and> i < 9 \<and> has_step bd i)"
  "Second k \<in> set (step_axis_plain bd i) \<longleftrightarrow> k = i \<and> ganged bd i \<and> (i < 2 \<or> i = 2 \<and> has_step bd 2)"
  "Axis k \<in> set (step1_axis bd i) \<longleftrightarrow> k = i \<and> (i < 2 \<or> i = 2 \<and> has_step bd 2 \<or> 3 \<le> i \<and> i < 9 \<and> has_axis bd i)"
  "Second k \<notin> set (step1_axis bd i)" "Axis k \<notin> set (step2_axis bd i)"
  "Second k \<in> set (step2_axis bd i) \<longleftrightarrow> k = i \<and> (i < 2 \<and> ganged bd i \<or> i = 2 \<and> ganged bd 2 \<and> has_step2 bd 2)"
  by (auto simp: step_axis_def step_axis_plain_def step1_axis_def step2_axis_def)

lemma step_motors_mem:
  "Axis k \<in> step_motors bd a b skip \<longleftrightarrow> k < N_AXIS bd \<and> bit a k \<and> \<not> bit skip k \<and> (k = 2 \<longrightarrow> has_step bd 2)"
  "Second k \<in> step_motors bd a b skip \<longleftrightarrow> k < 3 \<and> ganged bd k \<and> bit b k \<and> \<not> bit skip k"
  by (auto simp: step_motors_def)

lemma build_okD:
  assumes "step_build_ok bd"
  shows "2 \<le> N_AXIS bd" "N_AXIS bd \<le> 9" "3 \<le> i \<Longrightarrow> i < 9 \<Longrightarrow> has_axis bd i = (i < N_AXIS bd)"
    "3 \<le> i \<Longrightarrow> i < 9 \<Longrightarrow> has_step bd i = (i < N_AXIS bd)" "i < 3 \<Longrightarrow> has_step2 bd i = ganged bd i"
    "has_step bd 2 \<Longrightarrow> 2 < N_AXIS bd" "ganged bd 2 \<Longrightarrow> has_step bd 2" "\<not> squaring bd \<Longrightarrow> N_AXIS bd \<le> 6"
    "has_z_dir bd = has_step bd 2"
  using assms by (auto simp: step_build_ok_def)

lemma axis_present:
  assumes "step_build_ok bd"
  shows "i < 2 \<or> i = 2 \<and> has_step bd 2 \<or> 3 \<le> i \<and> i < 9 \<and> has_axis bd i \<longleftrightarrow> i < N_AXIS bd \<and> (i = 2 \<longrightarrow> has_step bd 2)"
    "i < 2 \<or> i = 2 \<and> has_step bd 2 \<or> 3 \<le> i \<and> i < 9 \<and> has_step bd i \<longleftrightarrow> i < N_AXIS bd \<and> (i = 2 \<longrightarrow> has_step bd 2)"
  using build_okD(1,2,6,7) [OF assms] build_okD(3-5) [OF assms, of i] by (cases "i < 2"; cases "i = 2"; auto)+

lemma second_present:
  assumes "step_build_ok bd"
  shows "ganged bd i \<and> (i < 2 \<or> i = 2 \<and> has_step bd 2) \<longleftrightarrow> i < 3 \<and> ganged bd i"
    "ganged bd i \<and> (i < 2 \<or> i = 2 \<and> has_step bd 2 \<and> has_step2 bd 2) \<longleftrightarrow> i < 3 \<and> ganged bd i"
    "i < 2 \<and> ganged bd i \<or> i = 2 \<and> ganged bd 2 \<and> has_step2 bd 2 \<longleftrightarrow> i < 3 \<and> ganged bd i"
  using build_okD(1,2,6,7) [OF assms] build_okD(3-5) [OF assms, of i] by (cases "i < 2"; cases "i = 2"; auto)+

lemma step_axis_ok:
  assumes ok: "step_build_ok bd"
  shows "Axis k \<in> set (step_axis bd i) \<longleftrightarrow> k = i \<and> i < N_AXIS bd \<and> (i = 2 \<longrightarrow> has_step bd 2)"
    "Second k \<in> set (step_axis bd i) \<longleftrightarrow> k = i \<and> i < 3 \<and> ganged bd i"
    "Axis k \<in> set (step_axis_plain bd i) \<longleftrightarrow> k = i \<and> i < N_AXIS bd \<and> (i = 2 \<longrightarrow> has_step bd 2)"
    "Second k \<in> set (step_axis_plain bd i) \<longleftrightarrow> k = i \<and> i < 3 \<and> ganged bd i"
    "Axis k \<in> set (step1_axis bd i) \<longleftrightarrow> k = i \<and> i < N_AXIS bd \<and> (i = 2 \<longrightarrow> has_step bd 2)"
    "Second k \<in> set (step2_axis bd i) \<longleftrightarrow> k = i \<and> i < 3 \<and> ganged bd i"
  unfolding step_axis_mem axis_present [OF ok] second_present [OF ok] by (rule refl)+

lemma gang_lt_n: "step_build_ok bd \<Longrightarrow> i < 3 \<Longrightarrow> ganged bd i \<Longrightarrow> i < N_AXIS bd"
  using build_okD(1,6,7) [of bd] by (cases "i = 2") auto

lemma step_lists_plain:
  assumes ok: "step_build_ok bd" and "\<not> squaring bd"
  shows "set (concat (map (\<lambda>i. if bit out i then step_axis_plain bd i else []) [0..<6])) = step_motors bd out out 0"
      (is "set ?P = _")
    and "set (concat (map (\<lambda>i. if bit out i \<and> \<not> bit skip i then step_axis bd i else []) [0..<N_AXIS bd])) =
      step_motors bd out out skip" (is "set ?Q = _")
proof -
  have n: "N_AXIS bd \<le> 6" using build_okD(8) [OF ok] assms(2) by auto
  have "m \<in> set ?P \<longleftrightarrow> m \<in> step_motors bd out out 0" for m
    using n by (cases m) (auto simp: step_axis_ok [OF ok] step_motors_mem)
  then show "set ?P = step_motors bd out out 0" by blast
  have "m \<in> set ?Q \<longleftrightarrow> m \<in> step_motors bd out out skip" for m
    using gang_lt_n [OF ok] by (cases m) (auto simp: step_axis_ok [OF ok] step_motors_mem)
  then show "set ?Q = step_motors bd out out skip" by blast
qed

lemma step_lists_squaring:
  assumes ok: "step_build_ok bd"
  shows "set (concat (map (\<lambda>i. if \<not> bit skip i
                then (if bit out2 i then step2_axis bd i else []) @
                     (if bit out1 i then step1_axis bd i else []) else []) [0..<N_AXIS bd])) =
      step_motors bd out1 out2 skip" (is "set ?P = _")
    and "set (concat (map (\<lambda>i. (if bit out1 i then [Axis i] else []) @
             (if has_step2 bd i \<and> bit out2 i then [Second i] else [])) [0..<2]) @
           (if has_step bd 2 then (if bit out1 2 then [Axis 2] else []) @
             (if has_step2 bd 2 \<and> bit out2 2 then [Second 2] else []) else []) @
           concat (map (\<lambda>i. if has_step bd i \<and> bit out1 i then [Axis i] else []) [3..<9])) =
      step_motors bd out1 out2 0" (is "set (?Q1 @ ?Q2 @ ?Q3) = _")
proof -
  have "m \<in> set ?P \<longleftrightarrow> m \<in> step_motors bd out1 out2 skip" for m
    using gang_lt_n [OF ok] by (cases m) (auto simp: step_axis_ok [OF ok] step_axis_mem(6,7) step_motors_mem)
  then show "set ?P = step_motors bd out1 out2 skip" by blast
  have "m \<in> set (?Q1 @ ?Q2 @ ?Q3) \<longleftrightarrow> m \<in> step_motors bd out1 out2 0" for m
  proof (cases m)
    case (Axis k)
    have "m \<in> set ?Q1 \<longleftrightarrow> bit out1 k \<and> k < 2" using Axis by (simp add: less_2_cases_iff) blast
    moreover have "m \<in> set ?Q2 \<longleftrightarrow> bit out1 k \<and> k = 2 \<and> has_step bd 2" using Axis by simp blast
    moreover have "m \<in> set ?Q3 \<longleftrightarrow> bit out1 k \<and> 3 \<le> k \<and> k < 9 \<and> has_step bd k"
      unfolding set_concat set_map set_upt Axis by auto
    ultimately have "m \<in> set (?Q1 @ ?Q2 @ ?Q3) \<longleftrightarrow>
        bit out1 k \<and> (k < 2 \<or> k = 2 \<and> has_step bd 2 \<or> 3 \<le> k \<and> k < 9 \<and> has_step bd k)"
      unfolding set_append Un_iff by blast
    then show ?thesis unfolding axis_present(2) [OF ok] using Axis by (auto simp: step_motors_mem)
  next
    case (Second k)
    have "m \<in> set ?Q1 \<longleftrightarrow> bit out2 k \<and> k < 2 \<and> has_step2 bd k" using Second by (simp add: less_2_cases_iff) blast
    moreover have "m \<in> set ?Q2 \<longleftrightarrow> bit out2 k \<and> k = 2 \<and> has_step bd 2 \<and> has_step2 bd 2" using Second by simp blast
    moreover have "m \<notin> set ?Q3" unfolding set_concat set_map set_upt Second by auto
    moreover have "k < 2 \<and> has_step2 bd k \<or> k = 2 \<and> has_step bd 2 \<and> has_step2 bd 2 \<longleftrightarrow> k < 3 \<and> ganged bd k"
      using build_okD(5) [OF ok, of k] build_okD(7) [OF ok] by (cases "k = 2") auto
    ultimately show ?thesis unfolding set_append Un_iff using Second step_motors_mem(2) [of k bd out1 out2 0] by auto
  qed
  then show "set (?Q1 @ ?Q2 @ ?Q3) = step_motors bd out1 out2 0" by blast
qed

lemma step_lists_distinct:
  "distinct (concat (map (\<lambda>i. if P i then step_axis_plain bd i else []) [0..<n]))"
  "distinct (concat (map (\<lambda>i. if P i then step_axis bd i else []) [0..<n]))"
  "distinct (concat (map (\<lambda>i. if Q i then (if P i then step2_axis bd i else []) @
     (if R i then step1_axis bd i else []) else []) [0..<n]))"
  by (rule distinct_by_axis [THEN conjunct1];
    auto simp: step_axis_plain_def step_axis_def step1_axis_def step2_axis_def)+

lemma step_list_distinct_straight:
  "distinct (concat (map (\<lambda>i. (if P i then [Axis i] else []) @ (if Q i then [Second i] else [])) [0..<2]) @
     (if b then (if p then [Axis 2] else []) @ (if q then [Second 2] else []) else []) @
     concat (map (\<lambda>i. if R i then [Axis i] else []) [3..<9]))" (is "distinct (?A @ ?B @ ?C)")
proof -
  have "distinct ?A \<and> motor_idx ` set ?A \<subseteq> set [0..<2]" by (rule distinct_by_axis) (auto split: if_splits)
  moreover have "distinct ?C \<and> motor_idx ` set ?C \<subseteq> set [3..<9]" by (rule distinct_by_axis) (auto split: if_splits)
  moreover have "distinct ?B" "motor_idx ` set ?B \<subseteq> {2}" by auto
  ultimately have d: "distinct ?A" "distinct ?B" "distinct ?C"
    and i: "\<forall>m \<in> set ?A. motor_idx m < 2" "\<forall>m \<in> set ?B. motor_idx m = 2" "\<forall>m \<in> set ?C. 3 \<le> motor_idx m"
    by (simp_all only: set_upt) (auto simp del: set_concat set_map upt_rec_numeral)
  have "set ?A \<inter> set ?B = {}" "set ?A \<inter> set ?C = {}" "set ?B \<inter> set ?C = {}"
    using i by fastforce+
  then show ?thesis unfolding distinct_append set_append using d by blast
qed

definition first_mask :: "step_build \<Rightarrow> stepper_state \<Rightarrow> axes \<Rightarrow> axes" where
  "first_mask bd s out = (if squaring bd then out AND motors_1 s else out)"

definition second_mask :: "step_build \<Rightarrow> stepper_state \<Rightarrow> axes \<Rightarrow> axes" where
  "second_mask bd s out = (if squaring bd then out AND motors_2 s else out)"

definition claimed_mask :: "step_build \<Rightarrow> stepper_state \<Rightarrow> axes" where
  "claimed_mask bd s = (if step_inject bd then inj_axes s else 0)"

definition step_levels ::
    "(nat \<Rightarrow> motor_pin) \<Rightarrow> (nat \<Rightarrow> bool) \<Rightarrow> (nat \<Rightarrow> bool) \<Rightarrow> (motor_pin \<Rightarrow> bool) \<Rightarrow> motor_pin \<Rightarrow> bool" where
  \<comment> \<open>the levels when the motors \<open>f k\<close> with \<open>P k\<close> get the levels \<open>g k\<close>\<close>
  "step_levels f P g old m = (let k = motor_idx m in if m = f k \<and> P k then g k else old m)"

lemma fold_set_step:
  assumes f: "\<And>i. motor_idx (f i) = i"
  shows "fold (\<lambda>i s. if P i then set_step (f i) (g i) s else s) xs s =
    s\<lparr>step_pin := step_levels f (\<lambda>k. k \<in> set xs \<and> P k) g (step_pin s)\<rparr>"
proof (induction xs arbitrary: s)
  case Nil
  have "step_levels f (\<lambda>k. False) g old = old" for old by (rule ext) (simp add: step_levels_def)
  then show ?case by simp
next
  case (Cons i xs)
  have "step_levels f (\<lambda>k. k \<in> set xs \<and> P k) g (old(f i := g i)) = step_levels f (\<lambda>k. k \<in> set (i # xs) \<and> P k) g old"
    if "P i" for old
    using that f by (intro ext) (auto simp: step_levels_def Let_def)
  moreover have "(\<lambda>k. k \<in> set (i # xs) \<and> P k) = (\<lambda>k. k \<in> set xs \<and> P k)" if "\<not> P i" using that by auto
  ultimately show ?case using Cons.IH by (cases "P i") (simp_all add: set_step_def del: fun_upd_apply)
qed

definition dir_present :: "step_build \<Rightarrow> nat \<Rightarrow> bool" where
  "dir_present bd i \<longleftrightarrow> i < 2 \<or> i = 2 \<and> has_z_dir bd \<or> 3 \<le> i \<and> i < 9 \<and> has_axis bd i"

definition dir2_present :: "step_build \<Rightarrow> nat \<Rightarrow> bool" where
  "dir2_present bd i \<longleftrightarrow> (i < 2 \<or> i = 2 \<and> has_z_dir bd) \<and> ganged bd i"

definition dir_levels :: "step_build \<Rightarrow> step_settings \<Rightarrow> axes \<Rightarrow> (nat \<Rightarrow> bool) \<Rightarrow> (motor_pin \<Rightarrow> bool) \<Rightarrow> motor_pin \<Rightarrow> bool" where
  \<comment> \<open>the direction levels when the axes that satisfy \<open>P\<close> are written\<close>
  "dir_levels bd cfg d P old m =
     (case m of Axis k \<Rightarrow> if P k \<and> dir_present bd k then bit d k else old m
      | Second k \<Rightarrow> if P k \<and> dir2_present bd k then bit d k \<noteq> bit (ganged_dir_invert cfg) k else old m)"

lemma dir_axis_eq: "dir_axis bd cfg d i s = s\<lparr>dir_pin := dir_levels bd cfg d (\<lambda>k. k = i) (dir_pin s)\<rparr>"
proof -
  have "dir_levels bd cfg d (\<lambda>k. k = i) (dir_pin s) = dir_pin (dir_axis bd cfg d i s)"
    by (rule ext) (auto simp: dir_levels_def dir_axis_def Let_def dir_present_def dir2_present_def split: motor_pin.split)
  then show ?thesis by (simp add: dir_axis_def Let_def set_dir_def)
qed

lemma dir_levels_none: "dir_levels bd cfg d (\<lambda>k. False) old = old"
  by (rule ext) (simp add: dir_levels_def split: motor_pin.split)

lemma dir_levels_Cons:
  "P i \<Longrightarrow> dir_levels bd cfg d (\<lambda>k. k \<in> set xs \<and> P k) (dir_levels bd cfg d (\<lambda>k. k = i) old) =
     dir_levels bd cfg d (\<lambda>k. k \<in> set (i # xs) \<and> P k) old"
  by (intro ext) (auto simp: dir_levels_def split: motor_pin.split)

lemma fold_dir_axis:
  "fold (\<lambda>i s. if P i then dir_axis bd cfg d i s else s) xs s =
     s\<lparr>dir_pin := dir_levels bd cfg d (\<lambda>k. k \<in> set xs \<and> P k) (dir_pin s)\<rparr>"
proof (induction xs arbitrary: s)
  case (Cons i xs)
  have "(\<lambda>k. k \<in> set (i # xs) \<and> P k) = (\<lambda>k. k \<in> set xs \<and> P k)" if "\<not> P i" using that by auto
  then show ?case using Cons.IH dir_levels_Cons [of P i] by (cases "P i") (simp_all add: dir_axis_eq)
qed (simp add: dir_levels_none)

lemma set_dir_outputs_eq:
  "set_dir_outputs bd cfg out s = s\<lparr>dir_pin := dir_levels bd cfg (out XOR dir_invert cfg)
     (\<lambda>k. if step_inject bd \<and> inj_axes s \<noteq> 0 then k < N_AXIS bd \<and> \<not> bit (inj_axes s) k else k < 6) (dir_pin s)\<rparr>"
proof (cases "step_inject bd \<and> inj_axes s \<noteq> 0")
  case True
  show ?thesis
    unfolding set_dir_outputs_def Let_def if_P [OF True] fold_dir_axis set_upt by (simp add: Let_def)
next
  case False
  have "fold (dir_axis bd cfg d) [0..<6] s = s\<lparr>dir_pin := dir_levels bd cfg d (\<lambda>k. k < 6) (dir_pin s)\<rparr>" for d
    using fold_dir_axis [of "\<lambda>_. True" bd cfg d "[0..<6]" s] unfolding set_upt by simp
  then show ?thesis unfolding set_dir_outputs_def Let_def if_not_P [OF False] by simp
qed

lemma inject_axis_eq:
  assumes "step_build_ok bd"
  shows "inject_axis bd cfg d (int i) s = fold rmt_start (step_axis bd i) (dir_axis bd cfg d i s)"
  using build_okD(5,7,9) [OF assms]
  by (auto simp: inject_axis_def step_axis_def dir_axis_def Let_def nat_less_iff)

lemma fold_inject:
  "fold (\<lambda>i s. if P i then fold rmt_start (step_axis bd i) (dir_axis bd cfg d i s) else s) xs s =
     s\<lparr>dir_pin := dir_levels bd cfg d (\<lambda>k. k \<in> set xs \<and> P k) (dir_pin s),
       step_ev := rev (map Rmt_start (concat (map (\<lambda>i. if P i then step_axis bd i else []) xs))) @ step_ev s\<rparr>"
proof (induction xs arbitrary: s)
  case (Cons i xs)
  have "(\<lambda>k. k \<in> set (i # xs) \<and> P k) = (\<lambda>k. k \<in> set xs \<and> P k)" if "\<not> P i" using that by auto
  then show ?case using Cons.IH dir_levels_Cons [of P i] by (cases "P i") (simp_all add: dir_axis_eq rmt_starts)
qed (simp add: dir_levels_none)

lemma bit_test: "(ax :: axes) AND push_bit k 1 \<noteq> 0 \<longleftrightarrow> bit ax k" if "k < 16"
  using that by (simp add: push_bit_of_1 and_exp_eq_0_iff_not_bit)

lemma output_step_returns:
  assumes "k < 16" "ax \<noteq> 0" "\<And>b. bit ax b \<Longrightarrow> b \<le> k"
  shows "output_step_loop bd cfg d ax (int k) (push_bit k 1) s =
    Some (fold (\<lambda>i s. if bit ax i then inject_axis bd cfg d (int i) s else s) (rev [0..<Suc k]) s)"
  using assms
proof (induction k arbitrary: ax s)
  case 0
  obtain n where "bit ax n" using 0(2) bit_eq_iff [of ax 0] by auto
  moreover from this have "n = 0" using 0(3) by blast
  ultimately have "bit ax m \<longleftrightarrow> m = 0" for m using 0(3) by auto
  then have "ax = 1" by (intro bit_eqI) (simp add: bit_1_iff)
  then show ?case by (subst output_step_loop.simps) simp
next
  case (Suc k)
  let ?m = "push_bit (Suc k) 1 :: axes"
  let ?ax = "if bit ax (Suc k) then ax XOR ?m else ax"
  let ?s = "if bit ax (Suc k) then inject_axis bd cfg d (int (Suc k)) s else s"
  have bits: "bit ?ax n \<longleftrightarrow> bit ax n \<and> n \<noteq> Suc k" for n
    using Suc.prems(1) by (auto simp: bit_xor_iff bit_push_bit_iff bit_1_iff simp del: push_bit_Suc push_bit_of_1)
  have drop: "drop_bit 1 ?m = push_bit k 1"
    using Suc.prems(1) by (intro bit_eqI) (unfold bit_drop_bit_eq o_def bit_push_bit_iff bit_1_iff, auto)
  have idx: "int (Suc k) - 1 = int k" by simp
  have step: "output_step_loop bd cfg d ax (int (Suc k)) ?m s =
      (if ?ax \<noteq> 0 then output_step_loop bd cfg d ?ax (int k) (push_bit k 1) ?s else Some ?s)"
    unfolding output_step_loop.simps [of _ _ _ _ "int (Suc k)"] Let_def bit_test [OF Suc.prems(1)] drop idx
    by (cases "bit ax (Suc k)") (simp_all only: if_True if_False prod.case)
  have f: "fold (\<lambda>i s. if bit ?ax i then inject_axis bd cfg d (int i) s else s) (rev [0..<Suc k]) t =
      fold (\<lambda>i s. if bit ax i then inject_axis bd cfg d (int i) s else s) (rev [0..<Suc k]) t" for t
    by (rule fold_cong) (auto simp: bits)
  have r: "rev [0..<Suc (Suc k)] = Suc k # rev [0..<Suc k]" by simp
  show ?case
  proof (cases "?ax = 0")
    case False
    have "output_step_loop bd cfg d ?ax (int k) (push_bit k 1) ?s =
        Some (fold (\<lambda>i s. if bit ?ax i then inject_axis bd cfg d (int i) s else s) (rev [0..<Suc k]) ?s)"
      by (rule Suc.IH) (use Suc.prems False bits in \<open>auto simp del: push_bit_Suc simp: le_Suc_eq\<close>)
    then show ?thesis unfolding step r fold_simps f using False by simp
  next
    case True
    then have "\<not> bit ax n" if "n < Suc k" for n using bits [of n] that by auto
    then have "fold (\<lambda>i s. if bit ax i then inject_axis bd cfg d (int i) s else s) (rev [0..<Suc k]) t =
        fold (\<lambda>i s. s) (rev [0..<Suc k]) t" for t
      by (intro fold_cong) auto
    moreover have "fold (\<lambda>i s. s) xs t = t" for xs :: "nat list" and t :: stepper_state by (induction xs) auto
    ultimately show ?thesis unfolding step r fold_simps using True by simp
  qed
qed

lemma bit_le_unat: "bit (w :: axes) b \<Longrightarrow> 2 ^ b \<le> unat w"
proof -
  assume "bit w b"
  then have "bit (unat w) b" by (simp add: bit_unsigned_iff bit_imp_le_length)
  then have "odd (unat w div 2 ^ b)" by (simp add: bit_iff_odd)
  then have "unat w div 2 ^ b \<noteq> 0" by (metis even_zero)
  then show ?thesis by (simp add: div_eq_0_iff not_less)
qed

lemma output_step_bits:
  fixes ax msk :: axes
  defines "ax' \<equiv> if ax AND msk \<noteq> 0 then ax XOR msk else ax"
  assumes "ax' \<noteq> 0 \<longrightarrow> (\<forall>b. bit ax' b \<longrightarrow> 2 ^ b \<le> unat (drop_bit 1 msk))" "bit ax b"
  shows "2 ^ b \<le> unat msk"
proof (cases "bit ax' b")
  case True
  then have "ax' \<noteq> 0" by auto
  with True assms(2) have "2 ^ b \<le> unat (drop_bit 1 msk)" by blast
  also have "\<dots> \<le> unat msk" unfolding unat_drop_bit_eq by (simp add: drop_bit_eq_div)
  finally show ?thesis .
next
  case False
  then have "bit msk b" using assms(3) by (auto simp: ax'_def bit_xor_iff split: if_splits)
  then show ?thesis by (rule bit_le_unat)
qed

lemma output_step_partial:
  "output_step_loop bd cfg d ax idx msk s = Some r \<Longrightarrow> \<forall>b. bit ax b \<longrightarrow> 2 ^ b \<le> unat msk"
proof (erule output_step_loop.raw_induct [rotated])
  fix loop and bd :: step_build and cfg :: step_settings and d ax msk :: axes and idx :: int and s r :: stepper_state
  assume IH: "\<And>bd cfg d ax idx msk s r. loop bd cfg d ax idx msk s = Some r \<Longrightarrow> \<forall>b. bit ax b \<longrightarrow> 2 ^ b \<le> unat msk"
    and eq: "(let (ax, s) = if ax AND msk \<noteq> 0 then (ax XOR msk, inject_axis bd cfg d idx s) else (ax, s);
      idx = idx - 1; msk = drop_bit 1 msk in if ax \<noteq> 0 then loop bd cfg d ax idx msk s else Some s) = Some r"
  let ?ax = "if ax AND msk \<noteq> 0 then ax XOR msk else ax"
  have "?ax \<noteq> 0 \<longrightarrow> (\<forall>b. bit ?ax b \<longrightarrow> 2 ^ b \<le> unat (drop_bit 1 msk))"
    using eq IH by (cases "ax AND msk \<noteq> 0") (auto simp: Let_def)
  then show "\<forall>b. bit ax b \<longrightarrow> 2 ^ b \<le> unat msk" by (intro allI impI) (rule output_step_bits [of ax msk])
qed

definition i2s_present :: "step_build \<Rightarrow> nat \<Rightarrow> bool" where
  "i2s_present bd k \<longleftrightarrow> k < 2 \<or> k = 2 \<and> has_step bd 2 \<or> 3 \<le> k \<and> k < 9 \<and> has_axis bd k"

definition i2s_levels :: "step_build \<Rightarrow> step_settings \<Rightarrow> axes \<Rightarrow> axes \<Rightarrow> (motor_pin \<Rightarrow> bool) \<Rightarrow> motor_pin \<Rightarrow> bool" where
  \<comment> \<open>the step levels for masks of the first and the second motors\<close>
  "i2s_levels bd cfg first second old m =
     (case m of Axis k \<Rightarrow> if i2s_present bd k then bit first k \<noteq> bit (step_invert cfg) k else old m
      | Second k \<Rightarrow> if k < 3 \<and> has_step2 bd k then bit second k \<noteq> bit (step_invert cfg) k else old m)"

lemma i2s_set_step_outputs_eq:
  "i2s_set_step_outputs bd cfg out s =
     s\<lparr>step_pin := i2s_levels bd cfg (first_mask bd s out) (second_mask bd s out) (step_pin s)\<rparr>"
proof -
  have *: "step_levels Axis (\<lambda>k. k \<in> {3..<9} \<and> has_axis bd k) (bit (a XOR v))
      (step_levels Second (\<lambda>k. k \<in> {0..<3} \<and> has_step2 bd k) (bit (b XOR v))
        (step_levels Axis (\<lambda>k. k \<in> {0..<3} \<and> (k < 2 \<or> k = 2 \<and> has_step bd 2)) (bit (a XOR v)) old)) =
      (\<lambda>m. case m of Axis k \<Rightarrow> if i2s_present bd k then bit a k \<noteq> bit v k else old m
        | Second k \<Rightarrow> if k < 3 \<and> has_step2 bd k then bit b k \<noteq> bit v k else old m)" for a b v :: axes and old
    by (rule ext) (auto simp: step_levels_def Let_def i2s_present_def bit_xor_iff split: motor_pin.split)
  have "i2s_levels bd cfg a b old = (\<lambda>m. case m of Axis k \<Rightarrow> if i2s_present bd k then bit a k \<noteq> bit (step_invert cfg) k else old m
        | Second k \<Rightarrow> if k < 3 \<and> has_step2 bd k then bit b k \<noteq> bit (step_invert cfg) k else old m)" for a b old
    by (rule ext) (simp add: i2s_levels_def)
  then show ?thesis
    unfolding i2s_set_step_outputs_def Let_def first_mask_def second_mask_def set_upt
      fold_set_step [of Axis, OF motor_idx.simps(1)] fold_set_step [of Second, OF motor_idx.simps(2)]
    by (simp add: * del: atLeastLessThan_iff)
qed

lemma stepper_enable_levels:
  fixes bd :: step_build and cfg :: step_settings and s :: stepper_state and en :: axes
  assumes "\<not> trinamic bd" "\<not> has_enable bd STEPPERS_ENABLE" "\<not> y2_expander bd"
  defines "lv \<equiv> enable_level (stepperEnable bd cfg en s)" and "e \<equiv> en XOR enable_invert cfg"
  shows "i < 9 \<Longrightarrow> has_enable bd (Enable (Axis i)) \<Longrightarrow> lv (Enable (Axis i)) = bit e i"
    "i < 3 \<Longrightarrow> has_enable bd (Enable (Second i)) \<Longrightarrow> lv (Enable (Second i)) = bit e i"
    "has_enable bd XY_ENABLE \<Longrightarrow> lv XY_ENABLE = (bit e 0 \<or> bit e 1)"
proof -
  have w: "enable_level (fold (\<lambda>(guard, p, b) s. if has_enable bd guard then set_enable p b s else s) ws s) q = b"
    if "(q, q, b) \<in> set ws" "has_enable bd q" "distinct (map fst ws)" "\<forall>(g, p, b) \<in> set ws. g = p"
    for ws q b s
    using that
  proof (induction ws arbitrary: s)
    case (Cons x ws)
    obtain g p' b' where x: "x = (g, p', b')" by (cases x)
    have keep: "enable_level (fold (\<lambda>(guard, p, b) s. if has_enable bd guard then set_enable p b s else s) vs t) q =
        enable_level t q" if "\<forall>(g, p, b) \<in> set vs. p \<noteq> q" for vs t
      using that by (induction vs arbitrary: t) (auto split: if_splits)
    show ?case
    proof (cases "x = (q, q, b)")
      case True
      then have "\<forall>(g, p, b) \<in> set ws. p \<noteq> q" using Cons.prems(3,4) by force
      then show ?thesis using True Cons.prems(2) by (simp add: keep)
    next
      case False
      then show ?thesis using Cons.IH Cons.prems by simp
    qed
  qed simp
  have m: "distinct (map fst (enable_writes bd e))" "\<forall>(g, p, b) \<in> set (enable_writes bd e). g = p"
    using assms(3) by (auto simp: enable_writes_def comp_def distinct_map inj_on_def upt_rec_numeral)
  have eq: "lv = enable_level (fold (\<lambda>(guard, p, b) s. if has_enable bd guard then set_enable p b s else s) (enable_writes bd e) s)"
    using assms(1,2) by (simp add: lv_def stepperEnable_def e_def Let_def)
  have mem: "i < 9 \<Longrightarrow> (Enable (Axis i), Enable (Axis i), bit e i) \<in> set (enable_writes bd e)"
    "i < 3 \<Longrightarrow> (Enable (Second i), Enable (Second i), bit e i) \<in> set (enable_writes bd e)"
    "(XY_ENABLE, XY_ENABLE, bit e 0 \<or> bit e 1) \<in> set (enable_writes bd e)"
    using assms(3) by (auto simp: enable_writes_def less_Suc_eq numeral_eq_Suc)
  show "i < 9 \<Longrightarrow> has_enable bd (Enable (Axis i)) \<Longrightarrow> lv (Enable (Axis i)) = bit e i"
    unfolding eq by (rule w [OF mem(1) _ m])
  show "i < 3 \<Longrightarrow> has_enable bd (Enable (Second i)) \<Longrightarrow> lv (Enable (Second i)) = bit e i"
    unfolding eq by (rule w [OF mem(2) _ m])
  show "has_enable bd XY_ENABLE \<Longrightarrow> lv XY_ENABLE = (bit e 0 \<or> bit e 1)"
    unfolding eq by (rule w [OF mem(3) _ m])
qed

definition mode_ok :: "stepper_state \<Rightarrow> bool" where
  \<comment> \<open>the four functions the core calls and the callback of the pulser belong to one mode\<close>
  "mode_ok s \<longleftrightarrow> go_idle s = wake_up s \<and> cycles_per_tick_fn s = wake_up s \<and> pulse_start s = wake_up s \<and>
     pulse_callback s = (case wake_up s of I2S_fn \<Rightarrow> Interrupt_callback | Plain_fn \<Rightarrow> I2s_step_sink)"

lemma streaming_mode_ok:
  assumes "mode_ok s"
  shows "mode_ok (i2s_set_streaming_mode st stream s) \<and>
    wake_up (i2s_set_streaming_mode st stream s) = (if stream then I2S_fn else Plain_fn) \<and>
    mode_ok (onSpindleSelected st laser s) \<and> wake_up (onSpindleSelected st laser s) = (if laser then Plain_fn else I2S_fn)"
  using assms
  by (cases "wake_up s"; cases "wake_up s = I2S_fn")
    (simp_all add: mode_ok_def i2s_set_streaming_mode_def onSpindleSelected_def passthrough_delay_def step_emit_def Let_def
      split: step_fn.splits)

lemma step_limit_bounds:
  assumes "t_min < push_bit (if smoothing bd then 18 else 23) 1"
  shows "t_min \<le> step_limit bd t_min cycles" "step_limit bd t_min cycles < push_bit (if smoothing bd then 18 else 23) 1"
  using assms by (auto simp: step_limit_def Let_def word_less_nat_alt word_le_nat_alt max_def)

subsection \<open>Properties\<close>

text \<open>
  C18. The four versions of \<open>set_step_outputs\<close> (with and without squaring, with and without
  injected axes) do the same: on a board map that fits, they start exactly the channels of the
  motors that are to step, each of them once, and change nothing else.  A first motor steps when
  its axis does, is not claimed for injection and, with squaring, is enabled in the first mask; a
  second motor by the second mask.
\<close>

theorem set_step_outputs_spec:
  assumes ok: "step_build_ok bd"
  shows "\<exists>ms. set_step_outputs bd out s = s\<lparr>step_ev := rev (map Rmt_start ms) @ step_ev s\<rparr> \<and> distinct ms \<and>
    set ms = step_motors bd (first_mask bd s out) (second_mask bd s out) (claimed_mask bd s)"
proof -
  note defs = set_step_outputs_def set_step_outputs_squaring_def set_step_outputs_plain_def Let_def rmt_starts
    first_mask_def second_mask_def claimed_mask_def
  show ?thesis
  proof (cases "squaring bd"; cases "step_inject bd \<and> inj_axes s \<noteq> 0")
    assume sq: "squaring bd" and inj: "step_inject bd \<and> inj_axes s \<noteq> 0"
    show ?thesis
      unfolding defs if_P [OF sq] if_P [OF inj] if_P [OF conjunct1 [OF inj]]
      by (rule exI, rule conjI, rule refl, rule conjI, rule step_lists_distinct(3), rule step_lists_squaring(1) [OF ok])
  next
    assume sq: "squaring bd" and inj: "\<not> (step_inject bd \<and> inj_axes s \<noteq> 0)"
    then have skip: "(if step_inject bd then inj_axes s else 0) = 0" by auto
    show ?thesis
      unfolding defs if_P [OF sq] if_not_P [OF inj] skip
      by (rule exI, rule conjI, rule refl, rule conjI, rule step_list_distinct_straight,
        rule step_lists_squaring(2) [OF ok])
  next
    assume sq: "\<not> squaring bd" and inj: "step_inject bd \<and> inj_axes s \<noteq> 0"
    show ?thesis
      unfolding defs if_not_P [OF sq] if_P [OF inj] if_P [OF conjunct1 [OF inj]]
      by (rule exI, rule conjI, rule refl, rule conjI, rule step_lists_distinct(2), rule step_lists_plain(2) [OF ok sq])
  next
    assume sq: "\<not> squaring bd" and inj: "\<not> (step_inject bd \<and> inj_axes s \<noteq> 0)"
    then have skip: "(if step_inject bd then inj_axes s else 0) = 0" by auto
    show ?thesis
      unfolding defs if_not_P [OF sq] if_not_P [OF inj] skip
      by (rule exI, rule conjI, rule refl, rule conjI, rule step_lists_distinct(1), rule step_lists_plain(1) [OF ok sq])
  qed
qed

text \<open>
  Direction outputs: every axis of a board with up to six axes that is not claimed for
  injection gets the level asked for, by its own polarity, and its second motor that level by the
  ganging polarity; no pulse is made and no other pin changes.  On a board with more axes the
  direction of U, V and W is not written unless some axis is claimed.
\<close>

theorem set_dir_outputs_spec:
  fixes bd :: step_build and cfg :: step_settings and s :: stepper_state and out :: axes and k m :: nat
  assumes "step_build_ok bd" "k < N_AXIS bd" "k = 2 \<longrightarrow> has_z_dir bd"
  defines "s' \<equiv> set_dir_outputs bd cfg out s" and "claimed \<equiv> claimed_mask bd s"
  shows "dir_pin s' (Axis k) = (if bit claimed k \<or> claimed = 0 \<and> 6 \<le> k then dir_pin s (Axis k)
        else bit out k \<noteq> bit (dir_invert cfg) k) \<and>
      (k < 3 \<and> ganged bd k \<and> \<not> bit claimed k \<longrightarrow>
        dir_pin s' (Second k) = (dir_pin s' (Axis k) \<noteq> bit (ganged_dir_invert cfg) k)) \<and>
      (N_AXIS bd \<le> m \<longrightarrow> dir_pin s' (Axis m) = dir_pin s (Axis m)) \<and>
      s' = s\<lparr>dir_pin := dir_pin s'\<rparr>"
proof -
  have p: "dir_present bd k" using assms(2,3) build_okD(2) [OF assms(1)] build_okD(3) [OF assms(1), of k]
    by (cases "k = 2") (auto simp: dir_present_def)
  have p2: "dir2_present bd k" if "k < 3" "ganged bd k" using that assms(3) by (auto simp: dir2_present_def)
  have m: "\<not> dir_present bd m" if "N_AXIS bd \<le> m"
    using that build_okD(1,3,6,9) [OF assms(1)] by (auto simp: dir_present_def)
  show ?thesis
    using p p2 m assms(2) by (auto simp: s'_def claimed_def claimed_mask_def set_dir_outputs_eq dir_levels_def bit_xor_iff)
qed

text \<open>
  Injected steps: \<open>stepperOutputStep\<close> returns exactly when every requested axis exists (with
  a bit above the last axis its loop never ends).  Then it has set the direction of the requested
  axes and of no other, and started each of their channels once; the axes claimed stay claimed.
\<close>

theorem stepper_output_step:
  assumes ok: "step_build_ok bd"
  shows "(stepperOutputStep bd cfg out dir s \<noteq> None \<longleftrightarrow> (\<forall>b. bit out b \<longrightarrow> b < N_AXIS bd)) \<and>
    (\<forall>s'. stepperOutputStep bd cfg out dir s = Some s' \<longrightarrow>
      dir_pin s' = dir_levels bd cfg (dir XOR dir_invert cfg) (bit out) (dir_pin s) \<and>
      (\<exists>ms. step_ev s' = rev (map Rmt_start ms) @ step_ev s \<and> distinct ms \<and> set ms = step_motors bd out out 0) \<and>
      inj_claimed s' = inj_claimed s)"
proof (cases "out = 0")
  case True
  have "dir_levels bd cfg d (bit (0 :: axes)) old = old" for d old
    by (rule ext) (simp add: dir_levels_def split: motor_pin.split)
  moreover have "step_motors bd 0 0 0 = {}" by (simp add: step_motors_def)
  ultimately show ?thesis using True by (simp add: stepperOutputStep_def)
next
  case out: False
  let ?n = "N_AXIS bd" and ?d = "dir XOR dir_invert cfg" and ?s = "s\<lparr>inj_out := out, inj_axes := inj_claimed s\<rparr>"
  have n: "2 \<le> ?n" "?n \<le> 9" using build_okD(1,2) [OF ok] by auto
  have eq: "stepperOutputStep bd cfg out dir s =
      output_step_loop bd cfg ?d out (int (?n - 1)) (push_bit (?n - 1) 1) ?s"
    using out n by (simp add: stepperOutputStep_def of_nat_diff)
  show ?thesis
  proof (cases "\<forall>b. bit out b \<longrightarrow> b < ?n")
    case False
    then obtain b where b: "bit out b" "?n \<le> b" by (auto simp: not_less)
    have "unat (push_bit (?n - 1) 1 :: axes) = 2 ^ (?n - 1)" using n
      by (simp add: unsigned_push_bit_eq push_bit_of_1 take_bit_nat_eq_self del: push_bit_of_1)
    also have "\<dots> < 2 ^ b" using n b(2) by simp
    finally have "output_step_loop bd cfg ?d out (int (?n - 1)) (push_bit (?n - 1) 1) ?s = None"
      using output_step_partial [of bd cfg ?d out "int (?n - 1)" "push_bit (?n - 1) 1" ?s] b(1)
      by (metis not_less option.exhaust)
    then show ?thesis using False eq by simp
  next
    case True
    let ?f = "\<lambda>i. if bit out i then step_axis bd i else []"
    have r: "rev [0..<Suc (?n - 1)] = rev [0..<?n]" using n by simp
    have "output_step_loop bd cfg ?d out (int (?n - 1)) (push_bit (?n - 1) 1) ?s =
        Some (fold (\<lambda>i s. if bit out i then inject_axis bd cfg ?d (int i) s else s) (rev [0..<Suc (?n - 1)]) ?s)"
      using True n by (intro output_step_returns out) auto
    then have res: "stepperOutputStep bd cfg out dir s =
        Some (?s\<lparr>dir_pin := dir_levels bd cfg ?d (\<lambda>k. k \<in> set (rev [0..<?n]) \<and> bit out k) (dir_pin ?s),
          step_ev := rev (map Rmt_start (concat (map ?f (rev [0..<?n])))) @ step_ev ?s\<rparr>)"
      unfolding eq r inject_axis_eq [OF ok] fold_inject .
    have P: "(\<lambda>k. k \<in> set (rev [0..<?n]) \<and> bit out k) = bit out" using True by auto
    have "distinct (concat (map ?f (rev [0..<?n])))"
      by (rule distinct_by_axis [THEN conjunct1]) (auto simp: step_axis_def)
    moreover have "m \<in> set (concat (map ?f (rev [0..<?n]))) \<longleftrightarrow> m \<in> step_motors bd out out 0" for m
      using gang_lt_n [OF ok] by (cases m) (auto simp: step_axis_ok [OF ok] step_motors_mem)
    ultimately show ?thesis unfolding res P using True by auto
  qed
qed

text \<open>
  C19. The wave form of a step with a change of direction, in the streaming and in the pass-through
  mode of the ESP32: from idle step pins, first the new direction stands for the set-up time with
  the step pins still idle, then the step pins of exactly the motors that step are active for the
  pulse time with the direction unchanged, and afterwards all step pins are idle again.
\<close>

theorem i2s_pulse_waveform:
  fixes bd :: step_build and cfg :: step_settings and tm :: i2s_times and st :: stepper and s :: stepper_state
  assumes "dir_changed st \<noteq> 0" "step_out st \<noteq> 0" and idle: "i2s_levels bd cfg 0 0 (step_pin s) = step_pin s"
    and "use_i2s bd" "\<not> esp32s3 bd"
  defines "d \<equiv> dir_pin (set_dir_outputs bd cfg (dir_out st) s)"
    and "p \<equiv> i2s_levels bd cfg (first_mask bd s (step_out st)) (second_mask bd s (step_out st)) (step_pin s)"
  shows "I2SStepperPulseStart bd cfg tm (st, s) =
      (st\<lparr>dir_changed := 0\<rparr>, s\<lparr>dir_pin := d, step_ev := Push_sample (i2s_step_samples tm) p d #
        Push_sample (i2s_delay_samples tm) (step_pin s) d # step_ev s\<rparr>) \<and>
    stepperPulseStart bd cfg tm (st, s) =
      (st\<lparr>dir_changed := 0\<rparr>, s\<lparr>dir_pin := d, step_ev := Delay_us (i2s_step_length tm + 1) p d #
        Delay_us (i2s_delay_length tm + 1) (step_pin s) d # step_ev s\<rparr>) \<and>
    (\<forall>k. i2s_present bd k \<longrightarrow> p (Axis k) = (step_pin s (Axis k) \<noteq> bit (first_mask bd s (step_out st)) k)) \<and>
    (\<forall>k < 3. has_step2 bd k \<longrightarrow> p (Second k) = (step_pin s (Second k) \<noteq> bit (second_mask bd s (step_out st)) k))"
proof -
  have returns: "i2s_levels bd cfg 0 0 (i2s_levels bd cfg a b (step_pin s)) = step_pin s" for a b
    by (subst (2) idle [symmetric]) (auto simp: i2s_levels_def fun_eq_iff split: motor_pin.split)
  have old: "i2s_present bd k \<Longrightarrow> step_pin s (Axis k) = bit (step_invert cfg) k"
    "k < 3 \<Longrightarrow> has_step2 bd k \<Longrightarrow> step_pin s (Second k) = bit (step_invert cfg) k" for k
    using fun_cong [OF idle, of "Axis k"] fun_cong [OF idle, of "Second k"] by (auto simp: i2s_levels_def)
  have m: "first_mask bd (s\<lparr>dir_pin := x, step_ev := e\<rparr>) out = first_mask bd s out"
      "second_mask bd (s\<lparr>dir_pin := x, step_ev := e\<rparr>) out = second_mask bd s out"
      "first_mask bd t 0 = 0" "second_mask bd t 0 = 0" for x e out t
    by (simp_all add: first_mask_def second_mask_def)
  have p: "p (Axis k) = (step_pin s (Axis k) \<noteq> bit (first_mask bd s (step_out st)) k)" if "i2s_present bd k" for k
    using old(1) [OF that] that by (auto simp: p_def i2s_levels_def)
  have p2: "p (Second k) = (step_pin s (Second k) \<noteq> bit (second_mask bd s (step_out st)) k)" if "k < 3" "has_step2 bd k" for k
    using old(2) [OF that] that by (auto simp: p_def i2s_levels_def)
  show ?thesis using assms(1,2,4,5) p p2
    by (simp add: I2SStepperPulseStart_def stepperPulseStart_def Let_def i2s_set_step_outputs_eq set_dir_outputs_eq d_def
        push_sample_def delay_us_def step_emit_def m returns p_def)
qed

subsection \<open>Witnesses\<close>

definition step_build_ex :: step_build where
  \<comment> \<open>three axes, Y ganged\<close>
  "step_build_ex = \<lparr>N_AXIS = 3, ganged = (\<lambda>i. i = 1), auto_square = (\<lambda>i. False), has_axis = (\<lambda>i. False),
     has_step = (\<lambda>i. i = 2), has_step2 = (\<lambda>i. i = 1), has_z_dir = True, squaring = True, step_inject = True,
     smoothing = True, trinamic = False, has_enable = (\<lambda>p. True), y2_expander = False, use_i2s = True,
     esp32s3 = False\<rparr>"

definition step_settings_ex :: step_settings where
  "step_settings_ex = \<lparr>dir_invert = 1, ganged_dir_invert = 2, step_invert = 4, enable_invert = 7\<rparr>"

definition step_state_ex :: stepper_state where
  "step_state_ex = \<lparr>dir_pin = (\<lambda>m. False), step_pin = (\<lambda>m. m = Axis 2), enable_level = (\<lambda>p. False), step_ev = [],
     motors_1 = 7, motors_2 = 7, inj_claimed = 0, inj_axes = 0, inj_out = 0, goIdlePending = False,
     add_dir_delay = False, laser_mode = False, wake_up = Plain_fn, go_idle = Plain_fn, cycles_per_tick_fn = Plain_fn,
     pulse_start = Plain_fn, pulse_callback = I2s_step_sink\<rparr>"

lemma step_build_ex_ok: "step_build_ok step_build_ex"
  by (auto simp: step_build_ok_def step_build_ex_def)

lemma set_step_outputs_spec_witness:
  "\<exists>ms. step_ev (set_step_outputs step_build_ex 3 step_state_ex) = rev (map Rmt_start ms) \<and> distinct ms \<and>
     Axis 0 \<in> set ms \<and> Second 1 \<in> set ms \<and> Axis 2 \<notin> set ms"
  using set_step_outputs_spec [OF step_build_ex_ok, of 3 step_state_ex]
  by (auto simp: step_motors_mem first_mask_def second_mask_def claimed_mask_def step_build_ex_def step_state_ex_def)

lemma set_dir_outputs_spec_witness:
  "dir_pin (set_dir_outputs step_build_ex step_settings_ex 2 step_state_ex) (Axis 0) \<and>
   dir_pin (set_dir_outputs step_build_ex step_settings_ex 2 step_state_ex) (Axis 1)"
  using set_dir_outputs_spec [OF step_build_ex_ok, of 0 step_settings_ex 2 step_state_ex 3]
    set_dir_outputs_spec [OF step_build_ex_ok, of 1 step_settings_ex 2 step_state_ex 3]
  by (simp add: claimed_mask_def step_build_ex_def step_state_ex_def step_settings_ex_def)

lemma stepper_output_step_witness:
  "stepperOutputStep step_build_ex step_settings_ex 8 0 step_state_ex = None \<and>
   stepperOutputStep step_build_ex step_settings_ex 4 0 step_state_ex \<noteq> None"
proof -
  have "bit (8 :: axes) 3" "\<not> 3 < N_AXIS step_build_ex" by (simp_all add: step_build_ex_def)
  then have "\<not> (\<forall>b. bit (8 :: axes) b \<longrightarrow> b < N_AXIS step_build_ex)" by blast
  moreover have "bit (4 :: axes) b \<longrightarrow> b < N_AXIS step_build_ex" for b
  proof -
    have "(4 :: axes) = 2 ^ 2" by simp
    then show ?thesis unfolding step_build_ex_def by (simp only: bit_exp_iff) simp
  qed
  ultimately show ?thesis
    using stepper_output_step [OF step_build_ex_ok, of step_settings_ex _ 0 step_state_ex] by blast
qed

lemma i2s_pulse_waveform_witness:
  "step_pin (snd (I2SStepperPulseStart step_build_ex step_settings_ex
       \<lparr>i2s_delay_samples = 1, i2s_step_samples = 2, i2s_delay_length = 4, i2s_step_length = 8\<rparr>
       (\<lparr>dir_changed = 1, dir_out = 1, step_out = 4\<rparr>, step_state_ex))) = step_pin step_state_ex"
proof -
  have "i2s_levels step_build_ex step_settings_ex 0 0 (step_pin step_state_ex) = step_pin step_state_ex"
  proof
    fix m
    have "bit (4 :: axes) k \<longleftrightarrow> k = 2" for k
      using bit_exp_iff [of 2 k, where 'a = "16 word"] by auto
    then show "i2s_levels step_build_ex step_settings_ex 0 0 (step_pin step_state_ex) m = step_pin step_state_ex m"
      by (cases m) (auto simp: i2s_levels_def step_build_ex_def step_settings_ex_def step_state_ex_def i2s_present_def)
  qed
  then show ?thesis
    by (subst i2s_pulse_waveform [THEN conjunct1]) (simp_all add: step_build_ex_def)
qed

end
