(* ===== verification/Inputs.thy ===== *)
theory Inputs
  imports Stepper IoPorts
begin

text \<open>
  The inputs of \<open>main/driver.c\<close>: the scan of the input pins, their configuration from the
  settings, limit and control signals, the pin interrupt with debouncing, and the claim of
  auxiliary inputs.  Pin groups are bit flags of the core (\<open>groups_ok\<close>); pin functions are the
  data type \<open>pin_fn\<close>.  Calls of the core's handlers are events, newest first, with the value the
  handler is given.
\<close>

subsection \<open>State\<close>

datatype pin_fn =
    In_Limit nat | In_Limit_2 nat | In_Limit_Max nat    \<comment> \<open>by axis\<close>
  | In_SafetyDoor | In_SdCardDetect | In_Aux nat | In_Analog_Aux nat | In_Fn nat

record in_pin_mode =
  ip_gpio :: nat
  ip_id :: pin_fn
  ip_group :: u32
  ip_user_port :: nat
  ip_cap_debounce :: bool
  ip_cap_analog :: bool
  ip_cap_irq_mode :: u8
  ip_inverted :: bool
  ip_debounce :: bool
  ip_pull :: pull_mode
  ip_irq_mode :: u8
  ip_offset :: nat
  ip_mask :: u32

record limit_signals =
  lim_min :: axes
  lim_min2 :: axes
  lim_max :: axes

datatype ctrl_signal = Sig_reset | Sig_e_stop | Sig_feed_hold | Sig_cycle_start | Sig_safety_door
  | Sig_motor_fault | Sig_motor_warning | Sig_deasserted | Sig_other nat

type_synonym control_signals = "ctrl_signal \<Rightarrow> bool"

datatype in_event =
    Limits_callback limit_signals | Control_callback control_signals | Port_event nat
  | Sd_detect bool | Probe_event nat

record in_state =
  in_pins :: "in_pin_mode list"          \<comment> \<open>\<open>inputpin\<close>\<close>
  in_level :: "nat \<Rightarrow> bool"               \<comment> \<open>of each GPIO\<close>
  intr_enabled :: "nat \<Rightarrow> bool"           \<comment> \<open>of each GPIO\<close>
  intr_type :: "nat \<Rightarrow> gpio_intr"
  in_pull :: "nat \<Rightarrow> bool \<times> bool"         \<comment> \<open>pull-up and pull-down enabled\<close>
  delayed :: "nat list"                  \<comment> \<open>indices of the pins with a \<open>pin_debounce\<close> task\<close>
  door_debounce :: bool                  \<comment> \<open>\<open>debounce.safety_door\<close>\<close>
  door_claimed :: bool                   \<comment> \<open>\<open>safety_door\<close> is not the null pointer\<close>
  in_ev :: "in_event list"

record in_build =
  has_min :: "nat \<Rightarrow> bool"          \<comment> \<open>\<open>X_LIMIT_PIN\<close> (0) to \<open>W_LIMIT_PIN\<close> (8), with their GPIO below\<close>
  has_min2 :: "nat \<Rightarrow> bool"
  has_max :: "nat \<Rightarrow> bool"
  min_gpio :: "nat \<Rightarrow> nat"
  min2_gpio :: "nat \<Rightarrow> nat"
  max_gpio :: "nat \<Rightarrow> nat"
  dual_limits :: bool               \<comment> \<open>\<open>DUAL_LIMIT_SWITCHES\<close>\<close>
  max_limits :: bool                \<comment> \<open>\<open>MAX_LIMIT_SWITCHES\<close>\<close>
  ctrl_gpio :: "ctrl_signal \<Rightarrow> nat option"   \<comment> \<open>the pin of a control signal, if the board has it\<close>
  estop_enable :: bool
  safety_door_enable :: bool
  sd_detect :: "nat option"         \<comment> \<open>\<open>SD_DETECT_PIN\<close>\<close>
  in_esp32s3 :: bool

record in_settings =
  disable_pullup :: axes
  limits_invert :: axes
  hard_enabled :: bool
  control_invert :: control_signals

record in_env =
  Grp_Limit :: u32
  Grp_LimitMax :: u32
  Grp_Control :: u32
  Grp_AuxInput :: u32
  Grp_AuxInputAnalog :: u32
  Grp_MPG :: u32
  Grp_SdCard :: u32
  IRQ_None :: u8
  IRQ_Rising :: u8
  IRQ_Falling :: u8
  IRQ_Change :: u8
  IRQ_Edges :: u8
  map_intr :: "u8 \<Rightarrow> gpio_intr"     \<comment> \<open>\<open>map_intr_type\<close>\<close>
  task_add_ok :: "nat list \<Rightarrow> bool"  \<comment> \<open>\<open>task_add_delayed\<close> finds a free task\<close>
  aux_ctrl_scan_status :: "control_signals \<Rightarrow> control_signals"
  software_debounce :: bool

definition in_emit :: "in_event \<Rightarrow> in_state \<Rightarrow> in_state" where
  "in_emit e s = s\<lparr>in_ev := e # in_ev s\<rparr>"

definition upd_pin :: "nat \<Rightarrow> (in_pin_mode \<Rightarrow> in_pin_mode) \<Rightarrow> in_state \<Rightarrow> in_state" where
  "upd_pin i f s = s\<lparr>in_pins := (in_pins s)[i := f (in_pins s ! i)]\<rparr>"

definition set_intr :: "nat \<Rightarrow> bool \<Rightarrow> in_state \<Rightarrow> in_state" where
  \<comment> \<open>\<open>gpio_intr_enable\<close> and \<open>gpio_intr_disable\<close>\<close>
  "set_intr g b s = s\<lparr>intr_enabled := (intr_enabled s)(g := b)\<rparr>"

subsection \<open>Limit and control signals\<close>

definition put_bit :: "nat \<Rightarrow> bool \<Rightarrow> axes \<Rightarrow> axes" where
  \<comment> \<open>assignment to a bit field\<close>
  "put_bit i b w = (if b then set_bit i w else unset_bit i w)"

definition read_pins :: "(nat \<Rightarrow> bool) \<Rightarrow> (nat \<Rightarrow> nat) \<Rightarrow> nat \<Rightarrow> in_state \<Rightarrow> axes \<Rightarrow> axes" where
  "read_pins has gpio n s w = fold (\<lambda>i w. if has i then put_bit i (in_level s (gpio i)) w else w) [0..<n] w"

definition limitsGetState :: "in_build \<Rightarrow> in_settings \<Rightarrow> in_state \<Rightarrow> limit_signals" where
  "limitsGetState bd cfg s =
     (let inv = limits_invert cfg;
          mn = read_pins (has_min bd) (min_gpio bd) 9 s inv;
          mn2 = read_pins (has_min2 bd) (min2_gpio bd) 3 s (if dual_limits bd then inv else 0);
          mx = read_pins (has_max bd) (max_gpio bd) 9 s (if max_limits bd then inv else 0)
      in if inv \<noteq> 0
         then \<lparr>lim_min = mn XOR inv, lim_min2 = (if dual_limits bd then mn2 XOR inv else mn2),
               lim_max = (if max_limits bd then mx XOR inv else mx)\<rparr>
         else \<lparr>lim_min = mn, lim_min2 = mn2, lim_max = mx\<rparr>)"

definition systemGetState :: "in_env \<Rightarrow> in_build \<Rightarrow> in_settings \<Rightarrow> in_state \<Rightarrow> control_signals" where
  "systemGetState env bd cfg s =
     (let inv = control_invert cfg;
          rd = (\<lambda>sg f. case ctrl_gpio bd sg of Some g \<Rightarrow> f(sg := in_level s g) | None \<Rightarrow> f);
          f = inv;
          f = (if estop_enable bd then rd Sig_e_stop f else rd Sig_reset f);
          f = rd Sig_cycle_start (rd Sig_feed_hold f);
          f = (if door_claimed s \<and> door_debounce s \<and> ctrl_gpio bd Sig_safety_door \<noteq> None
               then f(Sig_safety_door := \<not> inv Sig_safety_door) else rd Sig_safety_door f);
          f = rd Sig_motor_warning (rd Sig_motor_fault f)
      in aux_ctrl_scan_status env (\<lambda>sg. f sg \<noteq> inv sg))"

record limit_port =
  lp_gpio :: nat
  lp_axes :: axes          \<comment> \<open>\<open>xbar_fn_to_axismask\<close> of its function\<close>
  lp_is_limit :: bool      \<comment> \<open>its group is \<open>PinGroup_Limit\<close>, not \<open>PinGroup_LimitMax\<close>\<close>
  lp_irq_mode :: u8

definition limit_disable :: "bool \<Rightarrow> axes \<Rightarrow> axes \<Rightarrow> axes \<Rightarrow> limit_port \<Rightarrow> bool" where
  "limit_disable on homing_cycle home_min home_max p =
     (if on \<and> homing_cycle \<noteq> 0
      then (if lp_is_limit p then lp_axes p AND home_min \<noteq> 0 else lp_axes p AND home_max \<noteq> 0)
      else \<not> on)"

definition limitsEnable ::
    "in_env \<Rightarrow> bool \<Rightarrow> axes \<Rightarrow> axes \<times> axes \<Rightarrow> limit_port list \<Rightarrow> in_state \<Rightarrow> in_state" where
  \<comment> \<open>the pair is \<open>xbar_get_homing_source_from_cycle\<close> of the cycle; from the last pin to the first\<close>
  "limitsEnable env on homing_cycle home ports s =
     fold (\<lambda>p s.
         let s = s\<lparr>intr_type := (intr_type s)(lp_gpio p := if on then map_intr env (lp_irq_mode p) else GPIO_INTR_DISABLE)\<rparr>
         in set_intr (lp_gpio p) (\<not> limit_disable on homing_cycle (fst home) (snd home) p) s)
       (rev ports) s"

definition limitsEnable_mode :: "bool \<Rightarrow> axes \<Rightarrow> stepper_state \<Rightarrow> stepper_state" where
  \<comment> \<open>its first statement in builds that step by I2S\<close>
  "limitsEnable_mode is_stepping homing_cycle s =
     i2s_set_streaming_mode is_stepping (\<not> (homing_cycle \<noteq> 0 \<or> laser_mode s)) s"

subsection \<open>Interrupts and debouncing\<close>

definition isr_pin ::
    "in_env \<Rightarrow> in_build \<Rightarrow> u32 \<times> u32 \<Rightarrow> nat \<Rightarrow> u32 \<times> in_state \<Rightarrow> u32 \<times> in_state" where
  \<comment> \<open>the body of the loop of \<open>gpio_isr\<close> for pin \<open>i\<close>; the pair of words is \<open>intr_status\<close>\<close>
  "isr_pin env bd status i x =
     (case x of (grp, s) \<Rightarrow>
        let p = in_pins s ! i in
        if (if ip_offset p = 0 then fst status else snd status) AND ip_mask p \<noteq> 0
        then
          if ip_debounce p \<and> task_add_ok env (delayed s)
          then
            let s = s\<lparr>delayed := i # delayed s\<rparr>;
                s = (if safety_door_enable bd \<and> ip_id p = In_SafetyDoor then s\<lparr>door_debounce := True\<rparr> else s)
            in (grp, set_intr (ip_gpio p) False s)
          else if ip_group p AND Grp_AuxInput env \<noteq> 0 then (grp, in_emit (Port_event i) s)
          else (grp OR ip_group p, s)
        else (grp, s))"


definition pin_debounce :: "in_env \<Rightarrow> in_build \<Rightarrow> in_settings \<Rightarrow> nat \<Rightarrow> in_state \<Rightarrow> in_state" where
  "pin_debounce env bd cfg i s =
     (let p = in_pins s ! i;
          s = (if safety_door_enable bd \<and> ip_id p = In_SafetyDoor then s\<lparr>door_debounce := False\<rparr> else s);
          s = (if ip_irq_mode p = IRQ_Change env \<or> in_level s (ip_gpio p) = (ip_irq_mode p \<noteq> IRQ_Falling env)
               then
                 if ip_group p = Grp_Limit env \<or> ip_group p = Grp_LimitMax env
                 then in_emit (Limits_callback (limitsGetState bd cfg s)) s
                 else if ip_group p = Grp_Control env then in_emit (Control_callback (systemGetState env bd cfg s)) s
                 else if ip_group p = Grp_AuxInput env then in_emit (Port_event i) s
                 else (case sd_detect bd of
                         Some g \<Rightarrow> if ip_group p = Grp_SdCard env then in_emit (Sd_detect (\<not> in_level s g)) s else s
                       | None \<Rightarrow> s)
               else s)
      in set_intr (ip_gpio p) True s)"

definition run_delayed :: "in_env \<Rightarrow> in_build \<Rightarrow> in_settings \<Rightarrow> nat \<Rightarrow> in_state \<Rightarrow> in_state" where
  \<comment> \<open>the core takes the task of pin \<open>i\<close> from its list and calls it\<close>
  "run_delayed env bd cfg i s = pin_debounce env bd cfg i (s\<lparr>delayed := remove1 i (delayed s)\<rparr>)"

definition gpio_limit_isr :: "in_env \<Rightarrow> in_build \<Rightarrow> in_settings \<Rightarrow> nat \<Rightarrow> in_state \<Rightarrow> in_state" where
  \<comment> \<open>the handlers of builds with Ethernet\<close>
  "gpio_limit_isr env bd cfg i s =
     (if ip_cap_debounce (in_pins s ! i)
      then if task_add_ok env (delayed s) then s\<lparr>delayed := i # delayed s\<rparr> else s
      else in_emit (Limits_callback (limitsGetState bd cfg s)) s)"

definition gpio_control_isr :: "in_env \<Rightarrow> in_build \<Rightarrow> in_settings \<Rightarrow> nat \<Rightarrow> in_state \<Rightarrow> in_state" where
  "gpio_control_isr env bd cfg i s =
     (if ip_cap_debounce (in_pins s ! i)
      then if task_add_ok env (delayed s) then s\<lparr>delayed := i # delayed s\<rparr> else s
      else in_emit (Control_callback (systemGetState env bd cfg s)) s)"

definition gpio_aux_isr :: "nat \<Rightarrow> in_state \<Rightarrow> in_state" where
  "gpio_aux_isr i = in_emit (Port_event i)"

subsection \<open>Auxiliary control inputs\<close>

record aux_ctrl =
  ac_signal :: control_signals
  ac_irq_mode :: u8
  ac_gpio :: nat

definition last_pin_at :: "nat \<Rightarrow> in_state \<Rightarrow> nat option" where
  \<comment> \<open>the search from the last pin down, as \<open>aux_irq_handler\<close> does it\<close>
  "last_pin_at g s = find (\<lambda>i. ip_gpio (in_pins s ! i) = g) (rev [0..<length (in_pins s)])"

definition aux_irq_handler ::
    "in_env \<Rightarrow> in_build \<Rightarrow> in_settings \<Rightarrow> aux_ctrl option \<Rightarrow> in_state \<Rightarrow> in_state" where
  \<comment> \<open>the argument is \<open>aux_ctrl_in_get(port)\<close>; builds without I2C strobe and MPG\<close>
  "aux_irq_handler env bd cfg aux s =
     (let signals =
            (case aux of None \<Rightarrow> (\<lambda>sg. False)
             | Some a \<Rightarrow>
                 let sgs = ac_signal a in
                 if ac_irq_mode a = IRQ_Change env
                 then (case last_pin_at (ac_gpio a) s of
                         Some i \<Rightarrow> sgs(Sig_deasserted := (in_level s (ac_gpio a) \<noteq> ip_inverted (in_pins s ! i)))
                       | None \<Rightarrow> sgs)
                 else sgs)
      in if \<exists>sg. signals sg
         then in_emit (Control_callback
                (if signals Sig_deasserted then signals
                 else (\<lambda>sg. signals sg \<or> systemGetState env bd cfg s sg))) s
         else s)"

definition aux_input_for :: "in_env \<Rightarrow> nat \<Rightarrow> in_state \<Rightarrow> nat option" where
  \<comment> \<open>the search of \<open>aux_claim_explicit\<close> for the pin of an auxiliary port\<close>
  "aux_input_for env port s =
     find (\<lambda>i. ip_group (in_pins s ! i) = Grp_AuxInput env \<and> ip_user_port (in_pins s ! i) = port)
       (rev [0..<length (in_pins s)])"

datatype aux_function = Aux_probe nat | Aux_safety_door | Aux_none

record aux_claim =
  cl_port :: "nat option"       \<comment> \<open>\<open>None\<close>: \<open>IOPORT_UNASSIGNED\<close>\<close>
  cl_input :: "nat option"
  cl_function :: aux_function

definition aux_claim_explicit ::
    "in_env \<Rightarrow> in_build \<Rightarrow> (aux_claim \<Rightarrow> bool \<times> aux_claim) \<Rightarrow> aux_claim \<times> in_state \<Rightarrow> bool \<times> aux_claim \<times> in_state" where
  \<comment> \<open>the third argument is \<open>aux_ctrl_claim_port\<close>, with its result and the port it may clear\<close>
  "aux_claim_explicit env bd claim_port x =
     (case x of (c, s) \<Rightarrow>
        let c = (case cl_input c of
                   Some i \<Rightarrow> c
                 | None \<Rightarrow> c\<lparr>cl_input := (case cl_port c of Some p \<Rightarrow> aux_input_for env p s | None \<Rightarrow> None)\<rparr>);
            (ok, c) = claim_port c;
            s = (if ok
                 then (case (cl_function c, cl_port c, cl_input c) of
                         (Aux_probe n, _, _) \<Rightarrow> in_emit (Probe_event n) s
                       | (Aux_safety_door, _, Some i) \<Rightarrow>
                           if safety_door_enable bd
                           then upd_pin i (\<lambda>p. p\<lparr>ip_debounce := software_debounce env\<rparr>) (s\<lparr>door_claimed := True\<rparr>)
                           else s
                       | _ \<Rightarrow> s)
                 else s)
        in (cl_port c \<noteq> None, c, s))"

subsection \<open>Configuration from the settings\<close>

record step_times =
  st_delay_length :: nat
  st_step_length :: nat
  st_delay_samples :: nat
  st_step_samples :: nat

definition I2S_OUT_USEC_PER_PULSE :: nat where "I2S_OUT_USEC_PER_PULSE = 4"

definition round_up :: "nat \<Rightarrow> nat" where
  "round_up n = (if n mod I2S_OUT_USEC_PER_PULSE \<noteq> 0
     then n + (I2S_OUT_USEC_PER_PULSE - n mod I2S_OUT_USEC_PER_PULSE) else n)"

definition step_pulse_config :: "rat \<Rightarrow> rat \<Rightarrow> step_times" where
  \<comment> \<open>pulse delay and pulse length in microseconds\<close>
  "step_pulse_config delay pulse =
     (let u = I2S_OUT_USEC_PER_PULSE;
          dl = min (max (round_up (nat \<lceil>delay\<rceil>)) u) (u * 2);
          sl = min (max (round_up (nat \<lceil>pulse\<rceil>)) u) (u * 4)
      in \<lparr>st_delay_length = dl, st_step_length = sl, st_delay_samples = dl div u, st_step_samples = sl div u\<rparr>)"

definition limit_axis :: "in_build \<Rightarrow> pin_fn \<Rightarrow> nat option" where
  \<comment> \<open>the cases of the switch: X, Y, Z always, the others with their minimum switch\<close>
  "limit_axis bd f =
     (case f of
        In_Limit a \<Rightarrow> if a < 3 \<or> has_min bd a then Some a else None
      | In_Limit_2 a \<Rightarrow> if a < 3 then Some a else None
      | In_Limit_Max a \<Rightarrow> if a < 3 \<or> has_min bd a then Some a else None
      | _ \<Rightarrow> None)"

definition config_pin_mode :: "in_env \<Rightarrow> in_build \<Rightarrow> in_settings \<Rightarrow> in_pin_mode \<Rightarrow> in_pin_mode" where
  \<comment> \<open>the two switches\<close>
  "config_pin_mode env bd cfg p =
     (let fei = disable_pullup cfg XOR limits_invert cfg;
          p = (if ip_group p = Grp_AuxInput env \<or> ip_group p = Grp_MPG env then p
               else p\<lparr>ip_irq_mode := IRQ_None env\<rparr>);
          p = (case limit_axis bd (ip_id p) of
                 Some a \<Rightarrow> p\<lparr>ip_pull := (if bit (disable_pullup cfg) a then PullMode_Down else PullMode_Up),
                   ip_inverted := bit fei a\<rparr>
               | None \<Rightarrow>
                   if ip_id p = In_SdCardDetect \<and> sd_detect bd \<noteq> None
                   then p\<lparr>ip_pull := PullMode_Up, ip_irq_mode := IRQ_Change env, ip_debounce := True\<rparr> else p)
      in if ip_group p = Grp_Control env \<or> ip_group p = Grp_Limit env \<or> ip_group p = Grp_LimitMax env
         then p\<lparr>ip_debounce := software_debounce env,
           ip_irq_mode := (if ip_inverted p then IRQ_Falling env else IRQ_Rising env)\<rparr>
         else p)"

definition config_pin :: "in_env \<Rightarrow> in_build \<Rightarrow> in_settings \<Rightarrow> nat \<Rightarrow> in_state \<Rightarrow> in_state" where
  \<comment> \<open>the body of the loop over the inputs in \<open>settings_changed\<close>\<close>
  "config_pin env bd cfg i s =
     (if ip_group (in_pins s ! i) = Grp_AuxInputAnalog env then s
      else
        let s = upd_pin i (config_pin_mode env bd cfg) s;
            p = in_pins s ! i;
            g = ip_gpio p
        in if g = 255 then s
           else
             let s = set_intr g False s;
                 up = (ip_pull p = PullMode_Up \<and> (in_esp32s3 bd \<or> g < 34));
                 down = (ip_pull p \<noteq> PullMode_Up \<and> (in_esp32s3 bd \<or> g < 34));
                 typ = (if ip_group p AND (Grp_Limit env OR Grp_LimitMax env) \<noteq> 0 then GPIO_INTR_DISABLE
                        else map_intr env (ip_irq_mode p));
                 pin_bit_mask = push_bit g 1 :: u64;
                 s = upd_pin i (\<lambda>p. p\<lparr>ip_offset := (if g \<ge> 32 then 1 else 0),
                       ip_mask := (if g \<ge> 32 then ucast (drop_bit 32 pin_bit_mask) else ucast pin_bit_mask)\<rparr>) s
             in s\<lparr>intr_type := (intr_type s)(g := typ), in_pull := (in_pull s)(g := (up, down)),
                  intr_enabled := (intr_enabled s)(g := typ \<noteq> GPIO_INTR_DISABLE)\<rparr>)"

definition config_inputs :: "in_env \<Rightarrow> in_build \<Rightarrow> in_settings \<Rightarrow> in_state \<Rightarrow> in_state" where
  "config_inputs env bd cfg s = fold (config_pin env bd cfg) (rev [0..<length (in_pins s)]) s"

subsection \<open>The scan at start-up\<close>

record group_pins =
  gp_first :: "nat option"     \<comment> \<open>index of the first pin, \<open>pins.inputs\<close>\<close>
  gp_n :: nat                  \<comment> \<open>\<open>n_pins\<close>\<close>

record scan_result =
  sc_aux :: group_pins
  sc_limit :: group_pins
  sc_analog :: group_pins

definition add_group :: "nat \<Rightarrow> group_pins \<Rightarrow> group_pins" where
  "add_group i g = \<lparr>gp_first = (case gp_first g of None \<Rightarrow> Some i | Some j \<Rightarrow> Some j), gp_n = gp_n g + 1\<rparr>"

definition scan_pin :: "in_env \<Rightarrow> nat \<Rightarrow> scan_result \<times> in_state \<Rightarrow> scan_result \<times> in_state" where
  \<comment> \<open>the loop body of \<open>driver_init\<close>; remapping by the core (\<open>aux_ctrl_remap_explicit\<close>) left out\<close>
  "scan_pin env i x =
     (case x of (r, s) \<Rightarrow>
        let p = in_pins s ! i in
        if ip_group p = Grp_AuxInput env
        then (r\<lparr>sc_aux := add_group i (sc_aux r)\<rparr>,
          upd_pin i (\<lambda>p. p\<lparr>ip_user_port := gp_n (sc_aux r), ip_id := In_Aux (gp_n (sc_aux r)), ip_cap_debounce := True,
            ip_cap_irq_mode := IRQ_Edges env, ip_pull := PullMode_Up\<rparr>) s)
        else if ip_group p = Grp_Limit env \<or> ip_group p = Grp_LimitMax env
        then (r\<lparr>sc_limit := add_group i (sc_limit r)\<rparr>, upd_pin i (\<lambda>p. p\<lparr>ip_debounce := software_debounce env\<rparr>) s)
        else if ip_group p = Grp_AuxInputAnalog env
        then (r\<lparr>sc_analog := add_group i (sc_analog r)\<rparr>,
          upd_pin i (\<lambda>p. p\<lparr>ip_cap_analog := True, ip_id := In_Analog_Aux (gp_n (sc_analog r))\<rparr>) s)
        else if ip_group p = Grp_Control env
        then (r, upd_pin i (\<lambda>p. p\<lparr>ip_debounce := software_debounce env\<rparr>) s)
        else (r, s))"

definition scan_inputs :: "in_env \<Rightarrow> in_state \<Rightarrow> scan_result \<times> in_state" where
  "scan_inputs env s =
     (let g0 = \<lparr>gp_first = None, gp_n = 0\<rparr> in
      fold (scan_pin env) [0..<length (in_pins s)] (\<lparr>sc_aux = g0, sc_limit = g0, sc_analog = g0\<rparr>, s))"

subsection \<open>Facts\<close>

lemma in_state_sel [simp]:
  "in_pins (in_emit e s) = in_pins s" "in_level (in_emit e s) = in_level s" "intr_enabled (in_emit e s) = intr_enabled s"
  "delayed (in_emit e s) = delayed s" "door_debounce (in_emit e s) = door_debounce s" "in_ev (in_emit e s) = e # in_ev s"
  "in_pins (set_intr g b s) = in_pins s" "in_level (set_intr g b s) = in_level s"
  "intr_enabled (set_intr g b s) = (intr_enabled s)(g := b)" "delayed (set_intr g b s) = delayed s"
  "door_debounce (set_intr g b s) = door_debounce s" "in_ev (set_intr g b s) = in_ev s"
  by (simp_all add: in_emit_def set_intr_def)

lemma bit_put_bit: "bit (put_bit i b w) k \<longleftrightarrow> (if i = k \<and> k < 16 then b else bit w k)"
  using bit_imp_le_length [of w k] by (auto simp: put_bit_def bit_set_bit_iff bit_unset_bit_iff possible_bit_def)

lemma bit_read_pins:
  "n \<le> 16 \<Longrightarrow> bit (read_pins has gpio n s w) k \<longleftrightarrow> (if k < n \<and> has k then in_level s (gpio k) else bit w k)"
  by (induction n arbitrary: w) (auto simp: read_pins_def bit_put_bit less_Suc_eq)

lemma limits_state_bits:
  fixes cfg bd s st pol
  defines "st \<equiv> limitsGetState bd cfg s" and "pol \<equiv> \<lambda>k. bit (limits_invert cfg) k"
  shows "bit (lim_min st) k \<longleftrightarrow> k < 9 \<and> has_min bd k \<and> in_level s (min_gpio bd k) \<noteq> pol k"
    "dual_limits bd \<Longrightarrow> bit (lim_min2 st) k \<longleftrightarrow> k < 3 \<and> has_min2 bd k \<and> in_level s (min2_gpio bd k) \<noteq> pol k"
    "max_limits bd \<Longrightarrow> bit (lim_max st) k \<longleftrightarrow> k < 9 \<and> has_max bd k \<and> in_level s (max_gpio bd k) \<noteq> pol k"
  by (auto simp: st_def pol_def limitsGetState_def Let_def bit_xor_iff bit_read_pins)

subsection \<open>Debouncing as a state machine\<close>


definition pin_hit :: "u32 \<times> u32 \<Rightarrow> in_pin_mode \<Rightarrow> bool" where
  \<comment> \<open>the test of \<open>gpio_isr\<close>\<close>
  "pin_hit status p \<longleftrightarrow> (if ip_offset p = 0 then fst status else snd status) AND ip_mask p \<noteq> 0"


definition deb_inv :: "in_build \<Rightarrow> in_state \<Rightarrow> in_state \<Rightarrow> bool" where
  "deb_inv bd s0 s \<longleftrightarrow> in_pins s = in_pins s0 \<and> distinct (delayed s) \<and> set (delayed s) \<subseteq> {..<length (in_pins s0)} \<and>
     (\<forall>i < length (in_pins s0). intr_enabled s (ip_gpio (in_pins s0 ! i)) \<longleftrightarrow>
        intr_enabled s0 (ip_gpio (in_pins s0 ! i)) \<and> i \<notin> set (delayed s)) \<and>
     (\<forall>i \<in> set (delayed s). intr_enabled s0 (ip_gpio (in_pins s0 ! i))) \<and>
     (door_debounce s \<longleftrightarrow> safety_door_enable bd \<and> (\<exists>i \<in> set (delayed s). ip_id (in_pins s0 ! i) = In_SafetyDoor))"


lemma isr_pin_pins [simp]: "in_pins (snd (isr_pin env bd st i x)) = in_pins (snd x)"
  by (auto simp: isr_pin_def Let_def split: prod.splits)






lemma deb_inv_events [simp]: "deb_inv bd s0 (in_emit e s) = deb_inv bd s0 s"
  by (simp add: deb_inv_def)







subsection \<open>Configuration\<close>

lemma config_pin_other: "j \<noteq> i \<Longrightarrow> in_pins (config_pin env bd cfg i s) ! j = in_pins s ! j"
  by (simp add: config_pin_def upd_pin_def Let_def)

lemma config_pin_length [simp]: "length (in_pins (config_pin env bd cfg i s)) = length (in_pins s)"
  by (simp add: config_pin_def upd_pin_def Let_def)

lemma config_pin_mode_keeps [simp]:
  "ip_gpio (config_pin_mode env bd cfg p) = ip_gpio p" "ip_group (config_pin_mode env bd cfg p) = ip_group p"
  "ip_id (config_pin_mode env bd cfg p) = ip_id p"
  by (simp_all add: config_pin_mode_def Let_def split: option.split)

definition configured :: "in_env \<Rightarrow> in_build \<Rightarrow> in_settings \<Rightarrow> in_pin_mode \<Rightarrow> in_pin_mode" where
  \<comment> \<open>what a pin's entry becomes\<close>
  "configured env bd cfg p =
     (let q = config_pin_mode env bd cfg p; g = ip_gpio p in
      if ip_group p = Grp_AuxInputAnalog env then p
      else if g = 255 then q
      else q\<lparr>ip_offset := (if g \<ge> 32 then 1 else 0),
        ip_mask := (if g \<ge> 32 then ucast (drop_bit 32 (push_bit g 1 :: u64)) else ucast (push_bit g 1 :: u64))\<rparr>)"

lemma config_pin_self:
  "i < length (in_pins s) \<Longrightarrow> in_pins (config_pin env bd cfg i s) ! i = configured env bd cfg (in_pins s ! i)"
  by (simp add: config_pin_def configured_def upd_pin_def Let_def set_intr_def)

lemma config_fold_length [simp]: "length (in_pins (fold (config_pin env bd cfg) xs s)) = length (in_pins s)"
  by (induction xs arbitrary: s) simp_all

lemma config_fold_pin:
  "distinct xs \<Longrightarrow> i < length (in_pins s) \<Longrightarrow> in_pins (fold (config_pin env bd cfg) xs s) ! i =
     (if i \<in> set xs then configured env bd cfg (in_pins s ! i) else in_pins s ! i)"
proof (induction xs arbitrary: s)
  case (Cons j xs)
  then show ?case
    by (cases "i = j") (simp_all add: config_pin_other config_pin_self)
qed simp

lemma config_inputs_pin:
  "i < length (in_pins s) \<Longrightarrow> in_pins (config_inputs env bd cfg s) ! i = configured env bd cfg (in_pins s ! i)"
  by (simp add: config_inputs_def config_fold_pin)

lemma and_mask_bit: "w AND push_bit g 1 \<noteq> 0 \<longleftrightarrow> bit w g" for w :: u32
  by (metis and_exp_eq_0_iff_not_bit push_bit_of_1)

lemma mask_words:
  "g < 32 \<Longrightarrow> (ucast (push_bit g 1 :: u64) :: u32) = push_bit g 1"
  "g < 64 \<Longrightarrow> 32 \<le> g \<Longrightarrow> (ucast (drop_bit 32 (push_bit g 1 :: u64)) :: u32) = push_bit (g - 32) 1"
proof -
  show "g < 32 \<Longrightarrow> (ucast (push_bit g 1 :: u64) :: u32) = push_bit g 1"
    by (rule bit_word_eqI)
      (unfold bit_unsigned_iff bit_push_bit_iff possible_bit_word bit_1_iff, auto)
  show "32 \<le> g \<Longrightarrow> (ucast (drop_bit 32 (push_bit g 1 :: u64)) :: u32) = push_bit (g - 32) 1"
    if "g < 64" for g
    by (rule bit_word_eqI)
      (use that in \<open>unfold bit_unsigned_iff bit_push_bit_iff bit_drop_bit_eq comp_def possible_bit_word bit_1_iff, auto\<close>)
qed

lemma pin_hit_configured:
  assumes "ip_group p \<noteq> Grp_AuxInputAnalog env" "ip_gpio p < 64"
  shows "pin_hit (lo, hi) (configured env bd cfg p) \<longleftrightarrow> (if ip_gpio p < 32 then bit lo (ip_gpio p) else bit hi (ip_gpio p - 32))"
  using assms by (simp add: pin_hit_def configured_def Let_def mask_words and_mask_bit del: push_bit_of_1)

subsection \<open>The scan\<close>

definition aux_count :: "in_env \<Rightarrow> in_state \<Rightarrow> nat \<Rightarrow> nat" where
  \<comment> \<open>auxiliary inputs among the first \<open>n\<close> pins\<close>
  "aux_count env s n = card {i. i < n \<and> ip_group (in_pins s ! i) = Grp_AuxInput env}"

lemma aux_count_Suc:
  "aux_count env s (Suc n) = aux_count env s n + (if ip_group (in_pins s ! n) = Grp_AuxInput env then 1 else 0)"
proof -
  have "{i. i < Suc n \<and> ip_group (in_pins s ! i) = Grp_AuxInput env} =
      (if ip_group (in_pins s ! n) = Grp_AuxInput env then insert n else id) {i. i < n \<and> ip_group (in_pins s ! i) = Grp_AuxInput env}"
    by (auto simp: less_Suc_eq)
  then show ?thesis
    by (simp add: aux_count_def)
qed

lemma scan_prefix:
  fixes s n env g h
  defines "r \<equiv> fold (scan_pin env) [0..<n] (\<lparr>sc_aux = \<lparr>gp_first = None, gp_n = 0\<rparr>, sc_limit = g, sc_analog = h\<rparr>, s)"
  assumes "n \<le> length (in_pins s)"
  shows "length (in_pins (snd r)) = length (in_pins s)" (is ?len)
    "\<forall>i < length (in_pins s). ip_group (in_pins (snd r) ! i) = ip_group (in_pins s ! i)" (is ?grp)
    "gp_n (sc_aux (fst r)) = aux_count env s n" (is ?cnt)
    "\<forall>i < n. ip_group (in_pins s ! i) = Grp_AuxInput env \<longrightarrow>
       ip_user_port (in_pins (snd r) ! i) = aux_count env s i \<and> ip_id (in_pins (snd r) ! i) = In_Aux (aux_count env s i)" (is ?ports)
proof -
  have "?len \<and> ?grp \<and> ?cnt \<and> ?ports"
    using assms(2) unfolding r_def
  proof (induction n)
    case 0
    then show ?case by (simp add: aux_count_def)
  next
    case (Suc n)
    define x where "x = fold (scan_pin env) [0..<n] (\<lparr>sc_aux = \<lparr>gp_first = None, gp_n = 0\<rparr>, sc_limit = g, sc_analog = h\<rparr>, s)"
    have x: "fold (scan_pin env) [0..<Suc n] (\<lparr>sc_aux = \<lparr>gp_first = None, gp_n = 0\<rparr>, sc_limit = g, sc_analog = h\<rparr>, s) = scan_pin env n x"
      by (simp add: x_def)
    from Suc show ?case
      unfolding x unfolding x_def [symmetric]
      by (cases x) (auto simp: scan_pin_def upd_pin_def Let_def aux_count_Suc add_group_def nth_list_update less_Suc_eq)
  qed
  then show ?len ?grp ?cnt ?ports by blast+
qed

lemma aux_count_mono: "i \<le> j \<Longrightarrow> aux_count env s i \<le> aux_count env s j"
  unfolding aux_count_def by (rule card_mono) auto

lemma aux_count_less:
  "i < j \<Longrightarrow> ip_group (in_pins s ! i) = Grp_AuxInput env \<Longrightarrow> aux_count env s i < aux_count env s j"
  using aux_count_mono [of "Suc i" j env s] by (simp add: aux_count_Suc)

lemma aux_count_inj:
  "aux_count env s i = aux_count env s j \<Longrightarrow> ip_group (in_pins s ! i) = Grp_AuxInput env \<Longrightarrow>
   ip_group (in_pins s ! j) = Grp_AuxInput env \<Longrightarrow> i = j"
  using aux_count_less [of i j s env] aux_count_less [of j i s env] by (cases i j rule: linorder_cases) auto

lemma round_up_spec: "I2S_OUT_USEC_PER_PULSE dvd round_up n \<and> n \<le> round_up n \<and> round_up n < n + I2S_OUT_USEC_PER_PULSE"
  unfolding round_up_def I2S_OUT_USEC_PER_PULSE_def by presburger

lemma clamp_dvd:
  assumes "u dvd (n :: nat)" "0 < u" "0 < k"
  shows "u dvd min (max n u) (u * k)" "min (max n u) (u * k) div u \<in> {1..k}"
  using assms by (auto simp: min_def max_def dvd_def)

lemma step_pulse_samples:
  "st_delay_samples (step_pulse_config delay pulse) \<in> {1..2}" "st_step_samples (step_pulse_config delay pulse) \<in> {1..4}"
  using clamp_dvd(2) [of I2S_OUT_USEC_PER_PULSE "round_up (nat \<lceil>delay\<rceil>)" 2] clamp_dvd(2) [of I2S_OUT_USEC_PER_PULSE "round_up (nat \<lceil>pulse\<rceil>)" 4]
    round_up_spec
  by (simp_all add: step_pulse_config_def Let_def I2S_OUT_USEC_PER_PULSE_def)

lemma find_rev_unique:
  "i < n \<Longrightarrow> P i \<Longrightarrow> (\<And>j. j < n \<Longrightarrow> P j \<Longrightarrow> j = i) \<Longrightarrow> find P (rev [0..<n]) = Some i"
proof (induction n)
  case (Suc n)
  then show ?case
    by (cases "i = n") (auto simp: less_Suc_eq)
qed simp

subsection \<open>Properties\<close>

text \<open>
  The limit signals are the pins' levels against the settings: an axis is set in the
  minimum, second minimum or maximum field exactly when the board has that switch and its level
  differs from the axis' bit of the invert mask, and axes without a switch always read as clear.
  An axis and its partners do not influence each other, whatever mask is configured.
\<close>
theorem limits_state_spec:
  fixes bd :: in_build and cfg :: in_settings and s :: in_state and st
  defines "st \<equiv> limitsGetState bd cfg s"
  assumes "dual_limits bd" "max_limits bd"
  shows "(bit (lim_min st) k = (k < 9 \<and> has_min bd k \<and> in_level s (min_gpio bd k) \<noteq> bit (limits_invert cfg) k)) \<and>
    (bit (lim_min2 st) k = (k < 3 \<and> has_min2 bd k \<and> in_level s (min2_gpio bd k) \<noteq> bit (limits_invert cfg) k)) \<and>
    (bit (lim_max st) k = (k < 9 \<and> has_max bd k \<and> in_level s (max_gpio bd k) \<noteq> bit (limits_invert cfg) k))"
  using assms(2-) unfolding st_def by (simp add: limits_state_bits)


text \<open>
  The interrupt status reaches the pin it belongs to: after \<open>settings_changed\<close> has
  configured the inputs, the test of \<open>gpio_isr\<close> for a pin is exactly the bit of its GPIO, in the
  first status word below 32 and in the second from there on, for every digital pin of the table
  and whatever the other pins are.
\<close>
theorem pin_mask_spec:
  assumes "i < length (in_pins s)" "ip_gpio (in_pins s ! i) < 64" "ip_group (in_pins s ! i) \<noteq> Grp_AuxInputAnalog env"
  shows "pin_hit (lo, hi) (in_pins (config_inputs env bd cfg s) ! i) =
    (let g = ip_gpio (in_pins s ! i) in if g < 32 then bit lo g else bit hi (g - 32))"
  using assms by (simp add: config_inputs_pin pin_hit_configured Let_def)

text \<open>
   The debounced limit handler and the limit state disagree when a pull-up is disabled.  A
  limit pin's task calls the limits' handler exactly when the state of its axis differs from the
  axis' bit of the disable-pull-up mask: with the pull-up enabled, when the switch is active; with
  it disabled, only when the switch is not, since the interrupt's edge is chosen by the exclusive
  or of both masks but the state by the invert mask alone.
\<close>
theorem limit_task_polarity:
  assumes "i < length (in_pins s)" "ip_id (in_pins s ! i) = In_Limit a" "a < 9" "has_min bd a"
    and "ip_gpio (in_pins s ! i) = min_gpio bd a" "min_gpio bd a < 64" "ip_group (in_pins s ! i) = Grp_Limit env"
    and "distinct [Grp_Limit env, Grp_AuxInput env, Grp_MPG env, Grp_AuxInputAnalog env]"
    and "distinct [IRQ_Rising env, IRQ_Falling env, IRQ_Change env]"
    and "in_pins t = in_pins (config_inputs env bd cfg s)"
  shows "in_ev (run_delayed env bd cfg i t) =
    (if bit (lim_min (limitsGetState bd cfg t)) a \<noteq> bit (disable_pullup cfg) a
     then [Limits_callback (limitsGetState bd cfg t)] else []) @ in_ev t"
proof -
  define p where "p = in_pins t ! i"
  have p: "ip_gpio p = min_gpio bd a" "ip_group p = Grp_Limit env" "ip_id p = In_Limit a"
      "ip_irq_mode p = (if bit (disable_pullup cfg) a = bit (limits_invert cfg) a then IRQ_Rising env else IRQ_Falling env)"
    using assms(1-8) by (auto simp: p_def assms(10) config_inputs_pin configured_def config_pin_mode_def Let_def limit_axis_def bit_xor_iff)
  have gs: "limitsGetState bd cfg (t\<lparr>delayed := d\<rparr>) = limitsGetState bd cfg t" for d
  proof -
    have lv: "in_level (t\<lparr>delayed := d\<rparr>) = in_level t" by simp
    show ?thesis unfolding limitsGetState_def read_pins_def lv ..
  qed
  show ?thesis
    using assms(3,4,9) p unfolding run_delayed_def pin_debounce_def
    by (auto simp: p_def [symmetric] Let_def gs limits_state_bits)
qed

text \<open>
   An auxiliary input is found by the port it was given: after the scan at start-up every
  auxiliary pin has the number of auxiliary pins before it as its port, and the search of
  \<open>aux_claim_explicit\<close> for that port returns that pin and no other.
\<close>
theorem aux_scan_roundtrip:
  assumes "i < length (in_pins s)" "ip_group (in_pins s ! i) = Grp_AuxInput env"
  shows "aux_input_for env (ip_user_port (in_pins (snd (scan_inputs env s)) ! i)) (snd (scan_inputs env s)) = Some i"
proof -
  note sc = scan_prefix [where n = "length (in_pins s)" and s = s and env = env, OF order_refl]
  show ?thesis
    unfolding aux_input_for_def scan_inputs_def Let_def sc(1)
    using assms sc(2,4) by (intro find_rev_unique) (auto dest: aux_count_inj)
qed

text \<open>
  The pulse times \<open>settings_changed\<close> derives for the I2S output are whole samples: a delay of
  one or two samples and a pulse of one to four, for any setting, and within those bounds the
  pulse is the configured one rounded up by less than a sample.
\<close>
theorem step_pulse_bounds:
  "let t = step_pulse_config delay pulse; u = I2S_OUT_USEC_PER_PULSE in
   st_delay_length t = u * st_delay_samples t \<and> st_step_length t = u * st_step_samples t \<and>
   st_delay_samples t \<in> {1, 2} \<and> st_step_samples t \<in> {1..4} \<and>
   (0 < pulse \<and> pulse \<le> of_nat (4 * u) \<longrightarrow> pulse \<le> of_nat (st_step_length t) \<and> of_nat (st_step_length t) < pulse + of_nat u)"
proof -
  define u where "u = I2S_OUT_USEC_PER_PULSE"
  define n where "n = round_up (nat \<lceil>pulse\<rceil>)"
  have u: "u = 4" by (simp add: u_def I2S_OUT_USEC_PER_PULSE_def)
  have dv: "u dvd round_up k" for k
    using round_up_spec by (simp add: u_def)
  have "pulse \<le> of_nat (min (max n u) (u * 4)) \<and> of_nat (min (max n u) (u * 4)) < pulse + of_nat u"
    if "0 < pulse" "pulse \<le> of_nat (4 * u)"
  proof -
    have "pulse \<le> of_nat (nat \<lceil>pulse\<rceil>)" "of_nat (nat \<lceil>pulse\<rceil>) < pulse + 1"
      using that(1) by linarith+
    moreover have "nat \<lceil>pulse\<rceil> \<le> n" "n + 1 \<le> nat \<lceil>pulse\<rceil> + u"
      using round_up_spec [of "nat \<lceil>pulse\<rceil>"] by (auto simp: n_def u_def)
    moreover from this have "(of_nat (nat \<lceil>pulse\<rceil>) :: rat) \<le> of_nat n" "of_nat n + 1 \<le> (of_nat (nat \<lceil>pulse\<rceil>) :: rat) + of_nat u"
      by (simp only: of_nat_le_iff, metis of_nat_1 of_nat_add of_nat_le_iff)
    ultimately have "pulse \<le> of_nat n" "of_nat n < pulse + of_nat u"
      by linarith+
    with that u show ?thesis
      by (auto simp: min_def max_def)
  qed
  moreover have "st_step_length (step_pulse_config delay pulse) = min (max n u) (u * 4)"
    "st_delay_length (step_pulse_config delay pulse) = min (max (round_up (nat \<lceil>delay\<rceil>)) u) (u * 2)"
    "st_step_samples (step_pulse_config delay pulse) = min (max n u) (u * 4) div u"
    "st_delay_samples (step_pulse_config delay pulse) = min (max (round_up (nat \<lceil>delay\<rceil>)) u) (u * 2) div u"
    by (simp_all add: step_pulse_config_def Let_def u_def n_def)
  moreover have "u dvd min (max n u) (u * 4)" "min (max n u) (u * 4) div u \<in> {1..4}"
    "u dvd min (max (round_up (nat \<lceil>delay\<rceil>)) u) (u * 2)" "min (max (round_up (nat \<lceil>delay\<rceil>)) u) (u * 2) div u \<in> {1..2}"
    using clamp_dvd [OF dv [of "nat \<lceil>pulse\<rceil>"], of 4] clamp_dvd [OF dv [of "nat \<lceil>delay\<rceil>"], of 2] u
    by (simp_all add: n_def)
  moreover have "{1..2} = {1, 2 :: nat}" by auto
  ultimately show ?thesis
    unfolding Let_def u_def [symmetric] by (simp only: dvd_mult_div_cancel simp_thms) (rule impI, elim conjE, blast)
qed

text \<open>Concrete inputs.\<close>

definition ex_pin :: in_pin_mode where
  "ex_pin = \<lparr>ip_gpio = 35, ip_id = In_Limit 0, ip_group = 1, ip_user_port = 0, ip_cap_debounce = False, ip_cap_analog = False,
     ip_cap_irq_mode = 0, ip_inverted = False, ip_debounce = True, ip_pull = PullMode_Up, ip_irq_mode = 0, ip_offset = 0, ip_mask = 0\<rparr>"

definition ex_aux :: in_pin_mode where
  "ex_aux = ex_pin\<lparr>ip_gpio := 12, ip_id := In_Aux 0, ip_group := 8\<rparr>"

definition ex_in :: in_state where
  "ex_in = \<lparr>in_pins = [ex_pin, ex_aux], in_level = (\<lambda>g. g = 35), intr_enabled = (\<lambda>g. True),
     intr_type = (\<lambda>g. GPIO_INTR_DISABLE), in_pull = (\<lambda>g. (False, False)), delayed = [], door_debounce = False,
     door_claimed = False, in_ev = []\<rparr>"

definition ex_build :: in_build where
  "ex_build = \<lparr>has_min = (\<lambda>k. k = 0), has_min2 = (\<lambda>k. False), has_max = (\<lambda>k. False), min_gpio = (\<lambda>k. 35),
     min2_gpio = (\<lambda>k. 0), max_gpio = (\<lambda>k. 0), dual_limits = True, max_limits = True, ctrl_gpio = (\<lambda>sg. None),
     estop_enable = False, safety_door_enable = False, sd_detect = None, in_esp32s3 = False\<rparr>"

definition ex_env :: in_env where
  "ex_env = \<lparr>Grp_Limit = 1, Grp_LimitMax = 2, Grp_Control = 4, Grp_AuxInput = 8, Grp_AuxInputAnalog = 16, Grp_MPG = 32,
     Grp_SdCard = 64, IRQ_None = 0, IRQ_Rising = 1, IRQ_Falling = 2, IRQ_Change = 3, IRQ_Edges = 4,
     map_intr = (\<lambda>m. GPIO_INTR_POSEDGE), task_add_ok = (\<lambda>l. True), aux_ctrl_scan_status = (\<lambda>c. c), software_debounce = True\<rparr>"

definition ex_cfg :: in_settings where
  "ex_cfg = \<lparr>disable_pullup = 1, limits_invert = 0, hard_enabled = True, control_invert = (\<lambda>sg. False)\<rparr>"

theorem limits_state_spec_witness: "bit (lim_min (limitsGetState ex_build ex_cfg ex_in)) 0"
  using limits_state_spec [of ex_build ex_cfg ex_in 0] by (simp add: ex_build_def ex_cfg_def ex_in_def)


theorem pin_mask_spec_witness: "pin_hit (0, 8) (in_pins (config_inputs ex_env ex_build ex_cfg ex_in) ! 0)"
  using pin_mask_spec [of 0 ex_in ex_env 0 8 ex_build ex_cfg]
  by (simp add: ex_in_def ex_pin_def ex_env_def bit_numeral_rec)

theorem limit_task_polarity_witness:
  "in_ev (run_delayed ex_env ex_build ex_cfg 0
     ((config_inputs ex_env ex_build ex_cfg ex_in)\<lparr>in_level := \<lambda>g. g = 35, in_ev := []\<rparr>)) = []"
  using limit_task_polarity [of 0 ex_in 0 ex_build ex_env
      "(config_inputs ex_env ex_build ex_cfg ex_in)\<lparr>in_level := \<lambda>g. g = 35, in_ev := []\<rparr>" ex_cfg]
  by (simp add: ex_in_def ex_pin_def ex_env_def ex_build_def ex_cfg_def limits_state_bits)

theorem aux_scan_roundtrip_witness:
  "aux_input_for ex_env (ip_user_port (in_pins (snd (scan_inputs ex_env ex_in)) ! 1)) (snd (scan_inputs ex_env ex_in)) = Some 1"
  using aux_scan_roundtrip [of 1 ex_in ex_env] by (simp add: ex_in_def ex_aux_def ex_env_def)

theorem step_pulse_bounds_witness: "(2 :: rat) \<le> of_nat (st_step_length (step_pulse_config 1 2))"
  using step_pulse_bounds [of 1 2] by (simp add: Let_def I2S_OUT_USEC_PER_PULSE_def)

end
