(* ===== verification/I2sOut.thy ===== *)
theory I2sOut
  imports Inputs
begin

text \<open>
  The output expander over I2S, \<open>main/i2s_out.c\<close>: a chain of shift registers driven by the I2S
  peripheral, either from one register (\<open>PASSTHROUGH\<close>) or from a ring of DMA buffers that a task
  fills with samples ahead of time (\<open>STEPPING\<close>, and \<open>WAITING\<close> while it drains).  DMA descriptors
  are named by their index; the registers that decide what is output are fields; accesses to a
  buffer are checked and one outside is a \<open>i2s_fault\<close>.  The critical sections make each operation
  atomic; waiting is left out, but where the code polls, the poll is an operation.
\<close>

subsection \<open>State\<close>

datatype pulser_status = PASSTHROUGH | STEPPING | WAITING | STOPPED

datatype gpio_event = Ws bool | Bck bool | Data_out bool   \<comment> \<open>levels written to the three pins\<close>

datatype i2s_fault = Sample_overflow | Null_buffer

definition I2S_OUT_DMABUF_COUNT :: nat where "I2S_OUT_DMABUF_COUNT = 5"
definition I2S_OUT_DMABUF_LEN :: nat where "I2S_OUT_DMABUF_LEN = 2000"
definition I2S_SAMPLE_SIZE :: nat where "I2S_SAMPLE_SIZE = 4"
definition DMA_SAMPLE_COUNT :: nat where "DMA_SAMPLE_COUNT = I2S_OUT_DMABUF_LEN div I2S_SAMPLE_SIZE"
definition SAMPLE_SAFE_COUNT :: nat where "SAMPLE_SAFE_COUNT = 20 div I2S_OUT_USEC_PER_PULSE"

record i2s_out =
  o_buffers :: "u32 list list"
  o_length :: "nat list"            \<comment> \<open>\<open>length\<close> of the descriptors, in bytes\<close>
  o_next :: "nat option list"       \<comment> \<open>\<open>qe.stqe_next\<close>\<close>
  o_current :: "nat option"         \<comment> \<open>descriptor whose buffer is \<open>o_dma.current\<close>\<close>
  o_rw_pos :: nat
  o_queue :: "nat list"             \<comment> \<open>finished descriptors, oldest first\<close>
  port_data :: u32
  pulse_period :: u32
  remain_time :: u32                \<comment> \<open>\<open>i2s_out_remain_time_until_next_pulse\<close>\<close>
  has_pulse_func :: bool
  pulser :: pulser_status
  i2s_initialized :: bool
  tx_chan_mod :: nat
  conf_single_data :: u32
  tx_running :: bool
  out_link :: nat                   \<comment> \<open>descriptor the DMA starts with\<close>
  i2s_attached :: bool
  gpio_log :: "gpio_event list"     \<comment> \<open>newest first\<close>

type_synonym 'a i2s_result = "i2s_fault + 'a"

subsection \<open>The peripheral\<close>

definition port_bit :: "nat \<Rightarrow> u32" where
  "port_bit pin = push_bit pin 1"

definition i2s_out_single_data :: "nat \<Rightarrow> 'a i2s_out_scheme \<Rightarrow> 'a i2s_out_scheme" where
  \<comment> \<open>the first argument is \<open>I2S_OUT_NUM_BITS\<close>\<close>
  "i2s_out_single_data bits s =
     s\<lparr>conf_single_data := (if bits = 16 then push_bit 16 (port_data s) else port_data s)\<rparr>"

definition i2s_clear_dma_buffer :: "nat \<Rightarrow> u32 \<Rightarrow> 'a i2s_out_scheme \<Rightarrow> 'a i2s_out_scheme" where
  "i2s_clear_dma_buffer d v s =
     s\<lparr>o_buffers := (o_buffers s)[d := replicate DMA_SAMPLE_COUNT v], o_length := (o_length s)[d := I2S_OUT_DMABUF_LEN]\<rparr>"

definition i2s_clear_o_dma_buffers :: "u32 \<Rightarrow> 'a i2s_out_scheme \<Rightarrow> 'a i2s_out_scheme" where
  "i2s_clear_o_dma_buffers v s =
     fold (\<lambda>d s. i2s_clear_dma_buffer d v
              (s\<lparr>o_next := (o_next s)[d := Some (if d < I2S_OUT_DMABUF_COUNT - 1 then d + 1 else 0)]\<rparr>))
       [0..<I2S_OUT_DMABUF_COUNT] s"

definition shiftout_events :: "nat \<Rightarrow> u32 \<Rightarrow> gpio_event list" where
  \<comment> \<open>the levels \<open>i2s_out_gpio_shiftout\<close> writes, in order\<close>
  "shiftout_events bits v =
     Ws False # concat (List.map (\<lambda>i. [Data_out (bit v (bits - 1 - i)), Bck True, Bck False]) [0..<bits]) @ [Ws True]"

definition i2s_out_gpio_shiftout :: "nat \<Rightarrow> u32 \<Rightarrow> 'a i2s_out_scheme \<Rightarrow> 'a i2s_out_scheme" where
  "i2s_out_gpio_shiftout bits v s = s\<lparr>gpio_log := rev (shiftout_events bits v) @ gpio_log s\<rparr>"

definition i2s_out_stop :: "nat \<Rightarrow> 'a i2s_out_scheme \<Rightarrow> 'a i2s_out_scheme" where
  "i2s_out_stop bits s =
     (let s = s\<lparr>tx_running := False\<rparr>;
          s = s\<lparr>gpio_log := Ws False # gpio_log s\<rparr>;
          s = s\<lparr>i2s_attached := False\<rparr>;
          s = s\<lparr>gpio_log := Bck False # gpio_log s\<rparr>
      in i2s_out_gpio_shiftout bits (port_data s) s)"

definition i2s_out_start :: "nat \<Rightarrow> 'a i2s_out_scheme \<Rightarrow> bool \<times> 'a i2s_out_scheme" where
  "i2s_out_start bits s =
     (if \<not> i2s_initialized s then (False, s)
      else
        let s = i2s_out_gpio_shiftout bits (port_data s) s;
            s = s\<lparr>i2s_attached := True\<rparr>;
            s = (if pulser s = PASSTHROUGH then s\<lparr>tx_chan_mod := 3, conf_single_data := port_data s\<rparr>
                 else s\<lparr>tx_chan_mod := 4, conf_single_data := 0\<rparr>)
        in (True, s\<lparr>out_link := 0, tx_running := True\<rparr>))"

subsection \<open>Samples\<close>

definition put_sample :: "nat \<Rightarrow> 'a i2s_out_scheme \<Rightarrow> 'a i2s_out_scheme i2s_result" where
  \<comment> \<open>\<open>buf[o_dma.rw_pos++] = port_data\<close> for the buffer of descriptor \<open>d\<close>\<close>
  "put_sample d s =
     (if o_rw_pos s < DMA_SAMPLE_COUNT
      then Inr (s\<lparr>o_buffers := (o_buffers s)[d := (o_buffers s ! d)[o_rw_pos s := port_data s]], o_rw_pos := o_rw_pos s + 1\<rparr>)
      else Inl Sample_overflow)"

fun put_samples :: "nat \<Rightarrow> nat \<Rightarrow> 'a i2s_out_scheme \<Rightarrow> 'a i2s_out_scheme i2s_result" where
  "put_samples d 0 s = Inr s"
| "put_samples d (Suc n) s = (case put_sample d s of Inl e \<Rightarrow> Inl e | Inr s \<Rightarrow> put_samples d n s)"

definition i2s_out_push_sample :: "nat \<Rightarrow> 'a i2s_out_scheme \<Rightarrow> (nat \<times> 'a i2s_out_scheme) i2s_result" where
  \<comment> \<open>at least one sample, even if the number is zero\<close>
  "i2s_out_push_sample num s =
     (if num > SAMPLE_SAFE_COUNT then Inr (0, s)
      else case o_current s of
             None \<Rightarrow> Inl Null_buffer
           | Some d \<Rightarrow> (case put_samples d (max 1 num) s of Inl e \<Rightarrow> Inl e | Inr s \<Rightarrow> Inr (max 1 num, s)))"

type_synonym 'a pulse_func = "'a i2s_out_scheme \<Rightarrow> 'a i2s_out_scheme i2s_result"

definition fill_step :: "'a pulse_func \<Rightarrow> nat \<Rightarrow> 'a i2s_out_scheme \<Rightarrow> (bool \<times> 'a i2s_out_scheme) i2s_result" where
  \<comment> \<open>the body of the loop of \<open>i2s_fillout_dma_buffer\<close>; the truth value is its \<open>break\<close>\<close>
  "fill_step pf d s =
     (if remain_time s < of_nat I2S_OUT_USEC_PER_PULSE \<and> pulser s = STEPPING \<and> has_pulse_func s
      then
        case pf s of Inl e \<Rightarrow> Inl e | Inr t \<Rightarrow>
        let t = t\<lparr>remain_time := remain_time t +
              (pulse_period t - of_nat I2S_OUT_USEC_PER_PULSE * (of_nat (o_rw_pos t) - of_nat (o_rw_pos s)))\<rparr>
        in if pulser t = WAITING then Inr (False, t\<lparr>o_next := (o_next t)[d := None]\<rparr>)
           else if pulser t = PASSTHROUGH then Inr (True, t\<lparr>remain_time := 0, o_rw_pos := DMA_SAMPLE_COUNT\<rparr>)
           else Inr (False, t)
      else
        case put_sample d s of Inl e \<Rightarrow> Inl e | Inr t \<Rightarrow>
        Inr (False, t\<lparr>remain_time := (if remain_time t \<ge> of_nat I2S_OUT_USEC_PER_PULSE
                                    then remain_time t - of_nat I2S_OUT_USEC_PER_PULSE else 0)\<rparr>))"

partial_function (option) fill_loop :: "'a pulse_func \<Rightarrow> nat \<Rightarrow> 'a i2s_out_scheme \<Rightarrow> 'a i2s_out_scheme i2s_result option" where
  \<comment> \<open>\<open>None\<close>: the loop does not end\<close>
  "fill_loop pf d s =
     (if o_rw_pos s < DMA_SAMPLE_COUNT - SAMPLE_SAFE_COUNT
      then case fill_step pf d s of
             Inl e \<Rightarrow> Some (Inl e)
           | Inr (stop, s) \<Rightarrow> if stop then Some (Inr s) else fill_loop pf d s
      else Some (Inr s))"

definition set_filled :: "nat \<Rightarrow> 'a i2s_out_scheme \<Rightarrow> 'a i2s_out_scheme" where
  "set_filled d s = s\<lparr>o_length := (o_length s)[d := o_rw_pos s * I2S_SAMPLE_SIZE]\<rparr>"

definition i2s_fillout_dma_buffer :: "'a pulse_func \<Rightarrow> nat \<Rightarrow> 'a i2s_out_scheme \<Rightarrow> 'a i2s_out_scheme i2s_result option" where
  "i2s_fillout_dma_buffer pf d s =
     (let s = s\<lparr>o_rw_pos := 0\<rparr> in
      case pulser s of
        STEPPING \<Rightarrow> map_option (map_sum id (set_filled d)) (fill_loop pf d s)
      | WAITING \<Rightarrow> (let s = (i2s_clear_dma_buffer d 0 s)\<lparr>o_rw_pos := 0\<rparr>
                    in Some (Inr (s\<lparr>o_next := (o_next s)[d := None]\<rparr>)))
      | _ \<Rightarrow> Some (Inr ((i2s_clear_dma_buffer d 0 s)\<lparr>o_rw_pos := 0, remain_time := 0\<rparr>)))"

subsection \<open>Interrupt and task\<close>

definition i2s_out_intr_handler :: "bool \<Rightarrow> bool \<Rightarrow> nat \<Rightarrow> 'a i2s_out_scheme \<Rightarrow> 'a i2s_out_scheme" where
  \<comment> \<open>the flags \<open>out_eof\<close> and \<open>out_total_eof\<close> and the descriptor finished\<close>
  "i2s_out_intr_handler eof total_eof d s =
     (if eof \<or> total_eof
      then
        let s = (if total_eof then s\<lparr>tx_running := False\<rparr> else s);
            s = (if length (o_queue s) = I2S_OUT_DMABUF_COUNT
                 then i2s_clear_dma_buffer (hd (o_queue s)) (if pulser s = STEPPING then port_data s else 0)
                        (s\<lparr>o_queue := tl (o_queue s)\<rparr>)
                 else s)
        in if length (o_queue s) < I2S_OUT_DMABUF_COUNT then s\<lparr>o_queue := o_queue s @ [d]\<rparr> else s
      else s)"

definition i2s_task_step :: "nat \<Rightarrow> 'a pulse_func \<Rightarrow> 'a i2s_out_scheme \<Rightarrow> 'a i2s_out_scheme i2s_result option" where
  \<comment> \<open>the body of the loop of \<open>i2sOutTask\<close>, which blocks while the queue is empty\<close>
  "i2s_task_step bits pf s =
     (case o_queue s of
        [] \<Rightarrow> Some (Inr s)
      | d # q \<Rightarrow>
          let s = s\<lparr>o_queue := q, o_current := Some d\<rparr> in
          case pulser s of
            STEPPING \<Rightarrow> map_option (map_sum id (set_filled d)) (i2s_fillout_dma_buffer pf d s)
          | WAITING \<Rightarrow>
              if o_next s ! d = None
              then let s = i2s_clear_o_dma_buffers 0 (i2s_out_stop bits s)
                   in Some (Inr (snd (i2s_out_start bits (s\<lparr>pulser := PASSTHROUGH\<rparr>))))
              else let s = (i2s_clear_dma_buffer d 0 s)\<lparr>o_rw_pos := 0\<rparr>
                   in Some (Inr (s\<lparr>o_next := (o_next s)[d := None]\<rparr>))
          | _ \<Rightarrow> Some (Inr ((i2s_clear_dma_buffer d 0 s)\<lparr>o_rw_pos := 0\<rparr>)))"

subsection \<open>External functions\<close>

definition I2S_OUT_DELAY_DMABUF_MS :: nat where
  "I2S_OUT_DELAY_DMABUF_MS = I2S_OUT_DMABUF_LEN div 4 * I2S_OUT_USEC_PER_PULSE div 1000"

definition I2S_OUT_DELAY_MS :: nat where
  "I2S_OUT_DELAY_MS = I2S_OUT_DELAY_DMABUF_MS * (I2S_OUT_DMABUF_COUNT + 1)"

definition i2s_out_delay_us :: "'a i2s_out_scheme \<Rightarrow> nat" where
  \<comment> \<open>how long \<open>i2s_out_delay\<close> waits\<close>
  "i2s_out_delay_us s = (if pulser s = PASSTHROUGH then I2S_OUT_USEC_PER_PULSE * 2 else I2S_OUT_DELAY_MS * 1000)"

definition i2s_out_write :: "nat \<Rightarrow> nat \<Rightarrow> bool \<Rightarrow> 'a i2s_out_scheme \<Rightarrow> 'a i2s_out_scheme" where
  "i2s_out_write bits pin val s =
     (let s = s\<lparr>port_data := (if val then port_data s OR port_bit pin else port_data s AND NOT (port_bit pin))\<rparr>
      in if pulser s = PASSTHROUGH then i2s_out_single_data bits s else s)"

definition i2s_out_state :: "nat \<Rightarrow> 'a i2s_out_scheme \<Rightarrow> bool" where
  "i2s_out_state pin s = (port_data s AND port_bit pin \<noteq> 0)"

definition i2s_out_get_pulser_status :: "'a i2s_out_scheme \<Rightarrow> pulser_status" where
  "i2s_out_get_pulser_status s = pulser s"

definition i2s_out_set_passthrough :: "'a i2s_out_scheme \<Rightarrow> 'a i2s_out_scheme" where
  "i2s_out_set_passthrough s = (if pulser s = STEPPING then s\<lparr>pulser := WAITING\<rparr> else s)"

definition enter_stepping :: "nat \<Rightarrow> 'a i2s_out_scheme \<Rightarrow> 'a i2s_out_scheme" where
  \<comment> \<open>the end of \<open>i2s_out_set_stepping\<close>\<close>
  "enter_stepping bits s =
     (let s = i2s_out_stop bits s;
          s = i2s_clear_o_dma_buffers (port_data s) s
      in snd (i2s_out_start bits (s\<lparr>pulser := STEPPING\<rparr>)))"

datatype 'b poll = Returned 'b | Polling 'b

definition i2s_out_set_stepping :: "nat \<Rightarrow> 'a i2s_out_scheme \<Rightarrow> 'a i2s_out_scheme poll" where
  \<comment> \<open>up to its end or its first wait\<close>
  "i2s_out_set_stepping bits s =
     (case pulser s of
        STEPPING \<Rightarrow> Returned s
      | WAITING \<Rightarrow> Polling s
      | _ \<Rightarrow> Returned (enter_stepping bits s))"

definition set_stepping_poll :: "nat \<Rightarrow> 'a i2s_out_scheme \<Rightarrow> 'a i2s_out_scheme poll" where
  \<comment> \<open>after each wait\<close>
  "set_stepping_poll bits s =
     (case pulser s of
        WAITING \<Rightarrow> Polling s
      | PASSTHROUGH \<Rightarrow> Returned (enter_stepping bits s)
      | _ \<Rightarrow> Returned s)"

definition i2s_out_set_pulse_period :: "u32 \<Rightarrow> 'a i2s_out_scheme \<Rightarrow> 'a i2s_out_scheme" where
  "i2s_out_set_pulse_period period s = s\<lparr>pulse_period := period\<rparr>"

definition i2s_out_set_pulse_callback :: "bool \<Rightarrow> 'a i2s_out_scheme \<Rightarrow> 'a i2s_out_scheme" where
  "i2s_out_set_pulse_callback func s = s\<lparr>has_pulse_func := func\<rparr>"

definition i2s_out_reset :: "nat \<Rightarrow> 'a i2s_out_scheme \<Rightarrow> 'a i2s_out_scheme" where
  "i2s_out_reset bits s =
     (let s = i2s_out_stop bits s;
          s = (if pulser s = STEPPING then i2s_clear_o_dma_buffers (port_data s) s
               else if pulser s = WAITING then (i2s_clear_o_dma_buffers 0 s)\<lparr>pulser := PASSTHROUGH\<rparr>
               else s)
      in snd (i2s_out_start bits s))"

definition i2s_out_init2 :: "nat \<Rightarrow> u32 \<Rightarrow> u32 \<Rightarrow> bool \<Rightarrow> bool \<Rightarrow> 'a i2s_out_scheme \<Rightarrow> bool \<times> 'a i2s_out_scheme" where
  \<comment> \<open>\<open>init_val\<close>, \<open>pulse_period\<close>, whether a \<open>pulse_func\<close> is given, and whether all of the memory is allocated;
     without it the function returns \<open>-1\<close> as a \<open>bool\<close>\<close>
  "i2s_out_init2 bits init_val period func mem s =
     (if i2s_initialized s then (False, s)
      else
        let s = s\<lparr>port_data := init_val, i2s_attached := True\<rparr> in
        if \<not> mem then (True, s)
        else
          let s = i2s_clear_o_dma_buffers init_val
                    (s\<lparr>o_buffers := replicate I2S_OUT_DMABUF_COUNT (replicate DMA_SAMPLE_COUNT 0),
                       o_length := replicate I2S_OUT_DMABUF_COUNT 0, o_next := replicate I2S_OUT_DMABUF_COUNT None\<rparr>);
              s = s\<lparr>o_rw_pos := 0, o_current := None, o_queue := [], out_link := 0, tx_running := False\<rparr>;
              s = (if pulser s = STEPPING then s\<lparr>tx_chan_mod := 4, conf_single_data := 0\<rparr>
                   else s\<lparr>tx_chan_mod := 3, conf_single_data := init_val\<rparr>);
              s = s\<lparr>pulse_period := period, has_pulse_func := func, i2s_initialized := True\<rparr>
          in (True, snd (i2s_out_start bits s)))"

definition i2s_out_init :: "nat \<Rightarrow> bool \<Rightarrow> 'a i2s_out_scheme \<Rightarrow> bool \<times> 'a i2s_out_scheme" where
  \<comment> \<open>with \<open>I2S_OUT_INIT_VAL\<close> 0\<close>
  "i2s_out_init bits mem s = i2s_out_init2 bits 0 (of_nat I2S_OUT_USEC_PER_PULSE) False mem s"

subsection \<open>Well-formed states\<close>

lemmas i2s_sizes = I2S_OUT_DMABUF_COUNT_def I2S_OUT_DMABUF_LEN_def I2S_SAMPLE_SIZE_def DMA_SAMPLE_COUNT_def
  SAMPLE_SAFE_COUNT_def I2S_OUT_USEC_PER_PULSE_def

definition buf_ok :: "'a i2s_out_scheme \<Rightarrow> bool" where
  "buf_ok s \<longleftrightarrow> length (o_buffers s) = 5 \<and> (\<forall>b \<in> set (o_buffers s). length b = 500) \<and>
     length (o_length s) = 5 \<and> length (o_next s) = 5"

definition regs_ok :: "'a i2s_out_scheme \<Rightarrow> bool" where
  \<comment> \<open>the output channel follows the mode: the constant register, which holds the port's value, or the buffers\<close>
  "regs_ok s \<longleftrightarrow> (if pulser s = PASSTHROUGH then tx_chan_mod s = 3 \<and> conf_single_data s = port_data s
     else tx_chan_mod s = 4 \<and> conf_single_data s = 0)"

definition i2s_wf :: "'a i2s_out_scheme \<Rightarrow> bool" where
  "i2s_wf s \<longleftrightarrow> buf_ok s \<and> regs_ok s \<and> set (o_queue s) \<subseteq> {..<5} \<and> length (o_queue s) \<le> 5 \<and>
     (\<forall>d. o_current s = Some d \<longrightarrow> d < 5) \<and> o_rw_pos s \<le> 500 \<and> i2s_initialized s \<and> pulser s \<noteq> STOPPED \<and>
     4 \<le> unat (pulse_period s) \<and> unat (pulse_period s) < 2 ^ 31"

lemma length_5: "length xs = 5 \<Longrightarrow> \<exists>a b c d e. xs = [a, b, c, d, e]"
  by (auto simp: numeral_eq_Suc length_Suc_conv)

lemma clear_all_eq:
  assumes "length (o_buffers s) = 5" "length (o_length s) = 5" "length (o_next s) = 5"
  shows "i2s_clear_o_dma_buffers v s = s\<lparr>o_buffers := replicate 5 (replicate 500 v), o_length := replicate 5 2000,
    o_next := [Some 1, Some 2, Some 3, Some 4, Some 0]\<rparr>"
proof -
  obtain a b c d e f g h i j k l m n q where "o_buffers s = [a, b, c, d, e]" "o_length s = [f, g, h, i, j]" "o_next s = [k, l, m, n, q]"
    using assms by (auto dest!: length_5)
  moreover have "[0..<5] = [0, 1, 2, 3, 4 :: nat]" by (simp add: eval_nat_numeral)
  moreover have "replicate 5 x = [x, x, x, x, x]" for x :: 'b by (simp add: numeral_eq_Suc)
  moreover have "replicate 5 x = [x, x, x, x, x]" for x :: nat by (simp add: numeral_eq_Suc)
  moreover have "replicate 5 x = [x, x, x, x, x]" for x :: "u32 list" by (simp add: numeral_eq_Suc)
  ultimately show ?thesis
    unfolding i2s_clear_o_dma_buffers_def i2s_clear_dma_buffer_def i2s_sizes
    by simp
qed

lemma stop_eq:
  "i2s_out_stop bits s = s\<lparr>tx_running := False, i2s_attached := False,
     gpio_log := rev (shiftout_events bits (port_data s)) @ Bck False # Ws False # gpio_log s\<rparr>"
  by (simp add: i2s_out_stop_def i2s_out_gpio_shiftout_def Let_def)

lemma start_eq:
  "i2s_initialized s \<Longrightarrow> i2s_out_start bits s = (True, s\<lparr>gpio_log := rev (shiftout_events bits (port_data s)) @ gpio_log s,
     i2s_attached := True, tx_chan_mod := (if pulser s = PASSTHROUGH then 3 else 4),
     conf_single_data := (if pulser s = PASSTHROUGH then port_data s else 0), out_link := 0, tx_running := True\<rparr>)"
  by (simp add: i2s_out_start_def i2s_out_gpio_shiftout_def Let_def)

lemma buf_ok_clear [simp]: "buf_ok s \<Longrightarrow> buf_ok (i2s_clear_dma_buffer d v s)"
  by (auto simp: buf_ok_def i2s_clear_dma_buffer_def i2s_sizes dest!: set_update_subset_insert [THEN subsetD])

lemma clear_wf [wf_intros]: "i2s_wf s \<Longrightarrow> i2s_wf (i2s_clear_dma_buffer d v s)"
  using buf_ok_clear [of s d v] by (auto simp: i2s_wf_def regs_ok_def i2s_clear_dma_buffer_def)

lemma wf_lengths: "i2s_wf s \<Longrightarrow> length (o_buffers s) = 5" "i2s_wf s \<Longrightarrow> length (o_length s) = 5" "i2s_wf s \<Longrightarrow> length (o_next s) = 5"
  by (simp_all add: i2s_wf_def buf_ok_def)

lemma reset_wf [wf_intros]: "i2s_wf s \<Longrightarrow> i2s_wf (i2s_out_reset bits s)"
  by (cases "pulser s") (auto simp: i2s_wf_def i2s_out_reset_def stop_eq start_eq clear_all_eq buf_ok_def regs_ok_def Let_def)

lemma enter_stepping_wf [wf_intros]: "i2s_wf s \<Longrightarrow> i2s_wf (enter_stepping bits s)"
  by (auto simp: i2s_wf_def enter_stepping_def stop_eq start_eq clear_all_eq buf_ok_def regs_ok_def Let_def)

lemma set_passthrough_wf [wf_intros]: "i2s_wf s \<Longrightarrow> i2s_wf (i2s_out_set_passthrough s)"
  by (auto simp: i2s_wf_def i2s_out_set_passthrough_def buf_ok_def regs_ok_def)

lemma write_wf [wf_intros]: "i2s_wf s \<Longrightarrow> i2s_wf (i2s_out_write 32 pin val s)"
  by (auto simp: i2s_wf_def i2s_out_write_def i2s_out_single_data_def buf_ok_def regs_ok_def Let_def)

lemma intr_wf [wf_intros]:
  assumes "i2s_wf s" "d < 5"
  shows "i2s_wf (i2s_out_intr_handler eof fin d s)"
proof -
  define a where "a = (if fin then s\<lparr>tx_running := False\<rparr> else s)"
  define b where "b = (if length (o_queue a) = 5 then i2s_clear_dma_buffer (hd (o_queue a)) (if pulser a = STEPPING then port_data a else 0)
      (a\<lparr>o_queue := tl (o_queue a)\<rparr>) else a)"
  have a: "i2s_wf a" using assms(1) by (auto simp: a_def i2s_wf_def buf_ok_def regs_ok_def)
  have "i2s_wf (a\<lparr>o_queue := tl (o_queue a)\<rparr>)"
    using a by (cases "o_queue a") (auto simp: i2s_wf_def buf_ok_def regs_ok_def)
  then have b: "i2s_wf b" using a by (auto simp: b_def intro: clear_wf)
  have "i2s_wf (b\<lparr>o_queue := o_queue b @ [d]\<rparr>)" if "length (o_queue b) < 5"
    using b that assms(2) by (auto simp: i2s_wf_def buf_ok_def regs_ok_def)
  with assms(1) b show ?thesis
    by (simp add: i2s_out_intr_handler_def a_def [symmetric] b_def [symmetric] Let_def I2S_OUT_DMABUF_COUNT_def)
qed

subsection \<open>Samples\<close>

lemma put_samples_eq:
  assumes "d < length (o_buffers s)" "length (o_buffers s ! d) = 500" "o_rw_pos s + n \<le> 500"
  shows "put_samples d n s = Inr (s\<lparr>o_buffers := (o_buffers s)[d := take (o_rw_pos s) (o_buffers s ! d) @
      replicate n (port_data s) @ drop (o_rw_pos s + n) (o_buffers s ! d)], o_rw_pos := o_rw_pos s + n\<rparr>)"
  using assms
proof (induction n arbitrary: s)
  case (Suc n)
  let ?b = "o_buffers s ! d" and ?r = "o_rw_pos s"
  have upd: "?b[?r := port_data s] = take ?r ?b @ port_data s # drop (Suc ?r) ?b"
    using Suc.prems by (simp add: upd_conv_take_nth_drop)
  have "put_sample d s = Inr (s\<lparr>o_buffers := (o_buffers s)[d := ?b[?r := port_data s]], o_rw_pos := ?r + 1\<rparr>)"
    using Suc.prems by (simp add: put_sample_def i2s_sizes)
  then show ?case
    using Suc.prems upd by (simp add: Suc.IH add.commute)
qed simp

lemma buf_put [simp]:
  "i2s_wf s \<Longrightarrow> d < 5 \<Longrightarrow> d < length (o_buffers s)" "i2s_wf s \<Longrightarrow> d < 5 \<Longrightarrow> length (o_buffers s ! d) = 500"
  by (auto simp: i2s_wf_def buf_ok_def)

lemma put_samples_ok:
  assumes "i2s_wf s" "d < 5" "o_rw_pos s + n \<le> 500"
  shows "\<exists>B. put_samples d n s = Inr (s\<lparr>o_buffers := B, o_rw_pos := o_rw_pos s + n\<rparr>) \<and>
    i2s_wf (s\<lparr>o_buffers := B, o_rw_pos := o_rw_pos s + n\<rparr>)"
proof -
  let ?B = "(o_buffers s)[d := take (o_rw_pos s) (o_buffers s ! d) @ replicate n (port_data s) @ drop (o_rw_pos s + n) (o_buffers s ! d)]"
  have "put_samples d n s = Inr (s\<lparr>o_buffers := ?B, o_rw_pos := o_rw_pos s + n\<rparr>)"
    using assms by (intro put_samples_eq) auto
  moreover have "i2s_wf (s\<lparr>o_buffers := ?B, o_rw_pos := o_rw_pos s + n\<rparr>)"
    using assms buf_put [OF assms(1,2)]
    by (auto simp: i2s_wf_def buf_ok_def regs_ok_def dest!: set_update_subset_insert [THEN subsetD])
  ultimately show ?thesis by blast
qed

lemma put_sample_ok:
  assumes "i2s_wf s" "d < 5" "o_rw_pos s < 500"
  shows "\<exists>B. put_sample d s = Inr (s\<lparr>o_buffers := B, o_rw_pos := o_rw_pos s + 1\<rparr>) \<and>
    i2s_wf (s\<lparr>o_buffers := B, o_rw_pos := o_rw_pos s + 1\<rparr>)"
  using put_samples_ok [of s d 1] assms by (simp split: sum.splits)

lemma push_sample_ok:
  assumes "i2s_wf s" "o_current s = Some d" "n \<le> 5" "o_rw_pos s + max 1 n \<le> 500"
  shows "\<exists>B. i2s_out_push_sample n s = Inr (max 1 n, s\<lparr>o_buffers := B, o_rw_pos := o_rw_pos s + max 1 n\<rparr>) \<and>
    i2s_wf (s\<lparr>o_buffers := B, o_rw_pos := o_rw_pos s + max 1 n\<rparr>)"
proof -
  have "d < 5" using assms by (simp add: i2s_wf_def)
  then show ?thesis
    using put_samples_ok [of s d "max 1 n"] assms by (auto simp: i2s_out_push_sample_def i2s_sizes simp del: put_samples.simps)
qed

lemma i2s_wf_frame [simp]:
  "i2s_wf (s\<lparr>remain_time := r\<rparr>) = i2s_wf s"
  "i2s_wf s \<Longrightarrow> i2s_wf (s\<lparr>o_rw_pos := 0\<rparr>)" "i2s_wf s \<Longrightarrow> i2s_wf (s\<lparr>o_next := (o_next s)[d := x]\<rparr>)"
  "i2s_wf s \<Longrightarrow> i2s_wf (s\<lparr>o_length := (o_length s)[d := n]\<rparr>)"
  by (auto simp: i2s_wf_def buf_ok_def regs_ok_def)

subsection \<open>What the driver promises\<close>

definition pulse_work :: "'a i2s_out_scheme \<Rightarrow> nat" where
  \<comment> \<open>bounds the iterations left of the loop\<close>
  "pulse_work s = (495 - o_rw_pos s) * 2 + (if unat (remain_time s) < 4 then 1 else 0)"

lemma pulse_work_less: "o_rw_pos s < 495 \<Longrightarrow> o_rw_pos s < o_rw_pos t \<Longrightarrow> pulse_work t < pulse_work s"
  unfolding pulse_work_def by (cases "unat (remain_time s) < 4"; cases "unat (remain_time t) < 4") auto

locale pulse_callback =
  fixes pf :: "'a pulse_func" and ok :: "'a \<Rightarrow> bool"
  assumes pf_ok: "i2s_wf s \<Longrightarrow> ok (i2s_out.more s) \<Longrightarrow> pulser s = STEPPING \<Longrightarrow> o_current s = Some d \<Longrightarrow> o_rw_pos s \<le> 494 \<Longrightarrow>
      \<exists>t. pf s = Inr t \<and> i2s_wf t \<and> ok (i2s_out.more t) \<and> o_current t = o_current s \<and> remain_time t = remain_time s \<and>
          o_rw_pos s \<le> o_rw_pos t \<and> o_rw_pos t \<le> o_rw_pos s + 6"
begin

lemma remain_word: "remain_time s < of_nat I2S_OUT_USEC_PER_PULSE \<longleftrightarrow> unat (remain_time s) < 4"
  by (simp add: I2S_OUT_USEC_PER_PULSE_def word_less_nat_alt)

lemma fill_step_ok:
  assumes "i2s_wf s" "ok (i2s_out.more s)" "o_current s = Some d" "o_rw_pos s < 495"
  shows "\<exists>b t. fill_step pf d s = Inr (b, t) \<and> i2s_wf t \<and> ok (i2s_out.more t) \<and> o_current t = Some d \<and>
    (if b then 495 \<le> o_rw_pos t else pulse_work t < pulse_work s)"
proof -
  have d: "d < 5" using assms(1,3) by (simp add: i2s_wf_def)
  show ?thesis
  proof (cases "remain_time s < of_nat I2S_OUT_USEC_PER_PULSE \<and> pulser s = STEPPING \<and> has_pulse_func s")
    case False
    obtain B where B: "put_sample d s = Inr (s\<lparr>o_buffers := B, o_rw_pos := o_rw_pos s + 1\<rparr>)"
        "i2s_wf (s\<lparr>o_buffers := B, o_rw_pos := o_rw_pos s + 1\<rparr>)"
      using put_sample_ok [OF assms(1) d] assms(4) by auto
    define u where "u = s\<lparr>o_buffers := B, o_rw_pos := o_rw_pos s + 1, remain_time :=
        (if remain_time s \<ge> of_nat I2S_OUT_USEC_PER_PULSE then remain_time s - of_nat I2S_OUT_USEC_PER_PULSE else 0)\<rparr>"
    have "fill_step pf d s = Inr (False, u)"
      unfolding fill_step_def if_not_P [OF False] B(1) u_def by simp
    moreover have "i2s_wf u" using B(2) by (simp only: u_def i2s_wf_frame(1))
    moreover have "ok (i2s_out.more u)" using assms(2) by (simp add: u_def)
    moreover have "pulse_work u < pulse_work s" using assms(4) by (intro pulse_work_less) (simp_all add: u_def)
    moreover have "o_current u = Some d" using assms(3) by (simp add: u_def)
    ultimately show ?thesis by (intro exI [of _ False] exI [of _ u]) simp
  next
    case True
    then have st: "pulser s = STEPPING" "o_rw_pos s \<le> 494" using assms(4) by auto
    obtain t where "pf s = Inr t \<and> i2s_wf t \<and> ok (i2s_out.more t) \<and> o_current t = o_current s \<and> remain_time t = remain_time s \<and>
        o_rw_pos s \<le> o_rw_pos t \<and> o_rw_pos t \<le> o_rw_pos s + 6"
      using pf_ok [OF assms(1,2) st(1) assms(3) st(2)] by blast
    then have t: "pf s = Inr t" "i2s_wf t" "ok (i2s_out.more t)" "o_current t = Some d" "remain_time t = remain_time s"
        "o_rw_pos s \<le> o_rw_pos t" "o_rw_pos t \<le> o_rw_pos s + 6"
      using assms(3) by simp_all
    define u where "u = t\<lparr>remain_time := remain_time t +
        (pulse_period t - of_nat I2S_OUT_USEC_PER_PULSE * (of_nat (o_rw_pos t) - of_nat (o_rw_pos s)))\<rparr>"
    have u: "i2s_wf u" "ok (i2s_out.more u)" using t(2,3) by (simp_all add: u_def)
    have "pulse_work u < pulse_work s"
    proof (cases "o_rw_pos t = o_rw_pos s")
      case eq: True
      have "4 \<le> unat (remain_time s + pulse_period t)"
        using t(2) True by (subst unat_add_lem [THEN iffD1]) (auto simp: remain_word i2s_wf_def)
      then show ?thesis using True eq t by (simp add: pulse_work_def u_def remain_word)
    qed (use t assms(4) in \<open>auto intro!: pulse_work_less simp: u_def\<close>)
    moreover have "pulse_work (u\<lparr>o_next := x\<rparr>) = pulse_work u" for x by (simp add: pulse_work_def)
    moreover have "fill_step pf d s = (if pulser u = WAITING then Inr (False, u\<lparr>o_next := (o_next u)[d := None]\<rparr>)
         else if pulser u = PASSTHROUGH then Inr (True, u\<lparr>remain_time := 0, o_rw_pos := 500\<rparr>) else Inr (False, u))"
      unfolding fill_step_def if_P [OF True] t(1) by (simp add: u_def Let_def i2s_sizes)
    moreover have "i2s_wf (u\<lparr>remain_time := 0, o_rw_pos := 500\<rparr>)"
      using u(1) by (auto simp: i2s_wf_def buf_ok_def regs_ok_def)
    moreover have "o_current u = Some d" using t(4) by (simp add: u_def)
    ultimately show ?thesis using u(1,2) by (cases "pulser u") auto
  qed
qed

lemma fill_loop_ok:
  "i2s_wf s \<Longrightarrow> ok (i2s_out.more s) \<Longrightarrow> o_current s = Some d \<Longrightarrow>
   \<exists>t. fill_loop pf d s = Some (Inr t) \<and> i2s_wf t \<and> ok (i2s_out.more t) \<and> o_current t = Some d \<and> 495 \<le> o_rw_pos t"
proof (induction "pulse_work s" arbitrary: s rule: less_induct)
  case less
  show ?case
  proof (cases "o_rw_pos s < 495")
    case True
    then obtain b t where "fill_step pf d s = Inr (b, t)" "i2s_wf t" "ok (i2s_out.more t)" "o_current t = Some d"
        "if b then 495 \<le> o_rw_pos t else pulse_work t < pulse_work s"
      using fill_step_ok less.prems by blast
    with True less show ?thesis
      by (subst fill_loop.simps) (auto simp: i2s_sizes split: if_splits)
  qed (use less.prems in \<open>subst fill_loop.simps, auto simp: i2s_sizes\<close>)
qed

lemma fillout_ok:
  assumes "i2s_wf s" "ok (i2s_out.more s)" "o_current s = Some d"
  shows "\<exists>t. i2s_fillout_dma_buffer pf d s = Some (Inr t) \<and> i2s_wf t \<and> ok (i2s_out.more t) \<and> o_current t = Some d \<and>
    (pulser s = STEPPING \<longrightarrow> 495 \<le> o_rw_pos t \<and> o_length t ! d = 4 * o_rw_pos t)"
proof (cases "pulser s = STEPPING")
  case True
  obtain t where "fill_loop pf d (s\<lparr>o_rw_pos := 0\<rparr>) = Some (Inr t)" "i2s_wf t" "ok (i2s_out.more t)"
      "o_current t = Some d" "495 \<le> o_rw_pos t"
    using fill_loop_ok [of "s\<lparr>o_rw_pos := 0\<rparr>" d] assms by auto
  moreover from this have "d < length (o_length t)" by (simp add: i2s_wf_def buf_ok_def)
  ultimately show ?thesis
    using True by (simp add: i2s_fillout_dma_buffer_def set_filled_def Let_def i2s_sizes)
next
  case False
  have "i2s_wf (i2s_clear_dma_buffer d 0 (s\<lparr>o_rw_pos := 0\<rparr>))"
    using assms(1) by (intro clear_wf) simp
  with assms False show ?thesis
    by (cases "pulser s") (auto simp: i2s_fillout_dma_buffer_def Let_def i2s_clear_dma_buffer_def i2s_wf_def buf_ok_def regs_ok_def)
qed

lemma task_ok:
  assumes "i2s_wf s" "ok (i2s_out.more s)"
  shows "\<exists>t. i2s_task_step 32 pf s = Some (Inr t) \<and> i2s_wf t \<and> ok (i2s_out.more t)"
proof (cases "o_queue s")
  case Nil
  then show ?thesis using assms by (simp add: i2s_task_step_def)
next
  case (Cons d q)
  define u where "u = s\<lparr>o_queue := q, o_current := Some d\<rparr>"
  have u: "i2s_wf u" "ok (i2s_out.more u)" "o_current u = Some d" "pulser u = pulser s"
    using assms Cons by (auto simp: u_def i2s_wf_def buf_ok_def regs_ok_def)
  have eq: "i2s_task_step 32 pf s = (case pulser u of
            STEPPING \<Rightarrow> map_option (map_sum id (set_filled d)) (i2s_fillout_dma_buffer pf d u)
          | WAITING \<Rightarrow>
              if o_next u ! d = None
              then let s = i2s_clear_o_dma_buffers 0 (i2s_out_stop 32 u)
                   in Some (Inr (snd (i2s_out_start 32 (s\<lparr>pulser := PASSTHROUGH\<rparr>))))
              else let s = (i2s_clear_dma_buffer d 0 u)\<lparr>o_rw_pos := 0\<rparr>
                   in Some (Inr (s\<lparr>o_next := (o_next s)[d := None]\<rparr>))
          | _ \<Rightarrow> Some (Inr ((i2s_clear_dma_buffer d 0 u)\<lparr>o_rw_pos := 0\<rparr>)))"
    by (simp only: i2s_task_step_def Cons list.case Let_def u_def)
  have c: "i2s_wf (i2s_clear_dma_buffer d 0 u)" "i2s_out.more (i2s_clear_dma_buffer d 0 u) = i2s_out.more u"
    using clear_wf [OF u(1)] by (simp_all, simp add: i2s_clear_dma_buffer_def)
  have drained: "i2s_wf (snd (i2s_out_start 32 ((i2s_clear_o_dma_buffers 0 (i2s_out_stop 32 u))\<lparr>pulser := PASSTHROUGH\<rparr>)))"
      "i2s_out.more (snd (i2s_out_start 32 ((i2s_clear_o_dma_buffers 0 (i2s_out_stop 32 u))\<lparr>pulser := PASSTHROUGH\<rparr>))) = i2s_out.more u"
    using u(1) by (auto simp: i2s_wf_def stop_eq start_eq clear_all_eq buf_ok_def regs_ok_def)
  show ?thesis
  proof (cases "pulser u")
    case STEPPING
    then show ?thesis
      using fillout_ok [OF u(1-3)] by (auto simp: eq set_filled_def)
  next
    case WAITING
    then show ?thesis
      using u(2) c(2) drained i2s_wf_frame(2) [OF c(1)] i2s_wf_frame(3) [OF i2s_wf_frame(2) [OF c(1)], of d None]
      by (simp add: eq Let_def)
  qed (use u c in \<open>auto simp: eq i2s_wf_def [of u]\<close>)
qed

end

subsection \<open>Spacing of the pulses\<close>

fun fill_steps :: "'a pulse_func \<Rightarrow> nat \<Rightarrow> nat \<Rightarrow> 'a i2s_out_scheme \<Rightarrow> 'a i2s_out_scheme i2s_result" where
  \<comment> \<open>some iterations of the loop\<close>
  "fill_steps pf d 0 s = Inr s"
| "fill_steps pf d (Suc n) s =
     (case fill_step pf d s of Inl e \<Rightarrow> Inl e | Inr (stop, s) \<Rightarrow> if stop then Inr s else fill_steps pf d n s)"

lemma put_samples_remain:
  "put_samples d n (s\<lparr>remain_time := r\<rparr>) = map_sum id (\<lambda>t. t\<lparr>remain_time := r\<rparr>) (put_samples d n s)"
proof (induction n arbitrary: s)
  case (Suc n)
  have "put_sample d (s\<lparr>remain_time := r\<rparr>) = map_sum id (\<lambda>t. t\<lparr>remain_time := r\<rparr>) (put_sample d s)"
    by (simp add: put_sample_def)
  then show ?case by (simp add: Suc split: sum.split)
qed simp

lemma idle_steps:
  assumes "4 * n \<le> unat (remain_time s)"
  shows "fill_steps pf d n s = map_sum id (\<lambda>t. t\<lparr>remain_time := remain_time s - of_nat (4 * n)\<rparr>) (put_samples d n s)"
  using assms
proof (induction n arbitrary: s)
  case 0
  then show ?case by simp
next
  case (Suc n)
  have ge: "4 \<le> unat (remain_time s)" using Suc.prems by simp
  then have r: "\<not> remain_time s < 4" "unat (remain_time s - 4) = unat (remain_time s) - 4"
    by (simp_all add: word_less_nat_alt unat_sub word_le_nat_alt)
  have step: "fill_step pf d s = map_sum id (\<lambda>t. (False, t\<lparr>remain_time := remain_time s - 4\<rparr>)) (put_sample d s)"
    using r(1) by (auto simp: fill_step_def I2S_OUT_USEC_PER_PULSE_def put_sample_def)
  show ?case
  proof (cases "put_sample d s")
    case (Inr t)
    have "4 * n \<le> unat (remain_time (t\<lparr>remain_time := remain_time s - 4\<rparr>))" using Suc.prems r(2) by simp
    from Suc.IH [OF this] show ?thesis
      by (simp add: step Inr put_samples_remain sum.map_comp comp_def sum.map_id0 algebra_simps split: sum.split)
  qed (simp add: step)
qed

subsection \<open>Draining\<close>

fun receive_all :: "nat \<Rightarrow> 'a pulse_func \<Rightarrow> nat list \<Rightarrow> 'a i2s_out_scheme \<Rightarrow> 'a i2s_out_scheme i2s_result option" where
  \<comment> \<open>the task, given the finished descriptors one after the other\<close>
  "receive_all bits pf [] s = Some (Inr s)"
| "receive_all bits pf (d # ds) s =
     (case i2s_task_step bits pf (s\<lparr>o_queue := [d]\<rparr>) of
        Some (Inr t) \<Rightarrow> receive_all bits pf ds t | r \<Rightarrow> r)"

definition uncut :: "'a i2s_out_scheme \<Rightarrow> nat" where
  "uncut s = card {d. d < 5 \<and> o_next s ! d \<noteq> None}"

lemma uncut_bound: "uncut s \<le> 5"
proof -
  have "uncut s \<le> card {..<5 :: nat}" unfolding uncut_def by (rule card_mono) auto
  then show ?thesis by simp
qed

lemma waiting_step:
  assumes "i2s_wf s" "pulser s = WAITING" "d < 5"
  shows "\<exists>t. i2s_task_step 32 pf (s\<lparr>o_queue := [d]\<rparr>) = Some (Inr t) \<and> i2s_wf t \<and> port_data t = port_data s \<and>
    (pulser t = PASSTHROUGH \<or> pulser t = WAITING \<and> uncut t < uncut s)"
proof (cases "o_next s ! d")
  case None
  then show ?thesis
    using assms by (auto simp: i2s_task_step_def Let_def i2s_wf_def stop_eq start_eq clear_all_eq buf_ok_def regs_ok_def)
next
  case (Some e)
  define u where "u = s\<lparr>o_queue := [], o_current := Some d\<rparr>"
  have u: "i2s_wf u" using assms by (auto simp: u_def i2s_wf_def buf_ok_def regs_ok_def)
  define c where "c = i2s_clear_dma_buffer d 0 u"
  have c: "i2s_wf c" unfolding c_def by (rule clear_wf [OF u])
  define t where "t = c\<lparr>o_rw_pos := 0, o_next := (o_next c)[d := None]\<rparr>"
  have "i2s_task_step 32 pf (s\<lparr>o_queue := [d]\<rparr>) = Some (Inr t)"
    using assms Some by (simp add: i2s_task_step_def Let_def t_def c_def u_def)
  moreover have "i2s_wf t"
    using i2s_wf_frame(3) [OF i2s_wf_frame(2) [OF c], of d None] by (simp add: t_def)
  moreover have nx: "o_next t = (o_next s)[d := None]" "pulser t = WAITING" "port_data t = port_data s"
    using assms(2) by (simp_all add: t_def c_def u_def i2s_clear_dma_buffer_def)
  moreover have "{e. e < 5 \<and> o_next t ! e \<noteq> None} \<subset> {e. e < 5 \<and> o_next s ! e \<noteq> None}"
    using assms(3) Some wf_lengths(3) [OF assms(1)] by (auto simp: nx(1) nth_list_update split: if_splits)
  then have "uncut t < uncut s" unfolding uncut_def by (intro psubset_card_mono) auto
  ultimately show ?thesis by blast
qed

lemma passthrough_step:
  assumes "i2s_wf s" "pulser s = PASSTHROUGH" "d < 5"
  shows "\<exists>t. i2s_task_step 32 pf (s\<lparr>o_queue := [d]\<rparr>) = Some (Inr t) \<and> i2s_wf t \<and> port_data t = port_data s \<and> pulser t = PASSTHROUGH"
  using assms
  by (auto simp: i2s_task_step_def Let_def i2s_wf_def i2s_clear_dma_buffer_def buf_ok_def regs_ok_def i2s_sizes
      dest!: set_update_subset_insert [THEN subsetD])

lemma drains:
  assumes "i2s_wf s" "pulser s = PASSTHROUGH \<or> pulser s = WAITING \<and> uncut s < length ds" "set ds \<subseteq> {..<5}"
  shows "\<exists>t. receive_all 32 pf ds s = Some (Inr t) \<and> i2s_wf t \<and> port_data t = port_data s \<and> pulser t = PASSTHROUGH"
  using assms
proof (induction ds arbitrary: s)
  case (Cons d ds)
  then have d: "d < 5" by simp
  have "\<exists>t. i2s_task_step 32 pf (s\<lparr>o_queue := [d]\<rparr>) = Some (Inr t) \<and> i2s_wf t \<and> port_data t = port_data s \<and>
      (pulser t = PASSTHROUGH \<or> pulser t = WAITING \<and> uncut t < length ds)"
  proof (cases "pulser s = PASSTHROUGH")
    case True
    then show ?thesis using passthrough_step [OF Cons.prems(1) True d, of pf] by blast
  next
    case False
    then show ?thesis using waiting_step [OF Cons.prems(1) _ d, of pf] Cons.prems(2) by fastforce
  qed
  then show ?case using Cons.IH Cons.prems(3) by fastforce
qed simp

subsection \<open>The shift registers\<close>








subsection \<open>Runs of the module\<close>

inductive i2s_step :: "'a pulse_func \<Rightarrow> 'a i2s_out_scheme \<Rightarrow> 'a i2s_out_scheme \<Rightarrow> bool"
  for pf where
  task: "i2s_task_step 32 pf s = Some (Inr t) \<Longrightarrow> i2s_step pf s t"
| intr: "d < I2S_OUT_DMABUF_COUNT \<Longrightarrow> i2s_step pf s (i2s_out_intr_handler eof fin d s)"
| wr: "i2s_step pf s (i2s_out_write 32 pin val s)"
| passthrough: "i2s_step pf s (i2s_out_set_passthrough s)"
| stepping: "i2s_out_set_stepping 32 s = Returned t \<Longrightarrow> i2s_step pf s t"
| poll: "set_stepping_poll 32 s = Returned t \<Longrightarrow> i2s_step pf s t"
| reset: "i2s_step pf s (i2s_out_reset 32 s)"
| callback: "i2s_step pf s (i2s_out_set_pulse_callback func s)"

lemma op_more [frame_simps]:
  "i2s_out.more (i2s_out_intr_handler eof fin d s) = i2s_out.more s"
  "i2s_out.more (i2s_out_write bits pin val s) = i2s_out.more s"
  "i2s_out.more (i2s_out_set_passthrough s) = i2s_out.more s"
  "i2s_out.more (i2s_out_set_pulse_callback func s) = i2s_out.more s"
  by (simp_all add: i2s_out_intr_handler_def i2s_out_write_def i2s_out_single_data_def i2s_out_set_passthrough_def
      i2s_out_set_pulse_callback_def i2s_clear_dma_buffer_def Let_def)

lemma wf_more [frame_simps]:
  "i2s_wf s \<Longrightarrow> i2s_out.more (i2s_out_reset bits s) = i2s_out.more s"
  "i2s_wf s \<Longrightarrow> i2s_out.more (enter_stepping bits s) = i2s_out.more s"
  by (auto simp: i2s_wf_def i2s_out_reset_def enter_stepping_def stop_eq start_eq clear_all_eq buf_ok_def Let_def)

lemma stepping_returned:
  "i2s_out_set_stepping bits s = Returned t \<Longrightarrow> t = s \<or> t = enter_stepping bits s"
  "set_stepping_poll bits s = Returned t \<Longrightarrow> t = s \<or> t = enter_stepping bits s"
  by (auto simp: i2s_out_set_stepping_def set_stepping_poll_def split: pulser_status.splits)

context pulse_callback begin

lemma step_wf:
  assumes "i2s_step pf s t" "i2s_wf s" "ok (i2s_out.more s)"
  shows "i2s_wf t \<and> ok (i2s_out.more t)"
  using assms
proof (cases rule: i2s_step.cases)
  case task
  then show ?thesis using task_ok [OF assms(2,3)] by auto
next
  case (callback func)
  then show ?thesis using assms by (simp add: i2s_out_set_pulse_callback_def i2s_wf_def buf_ok_def regs_ok_def)
qed (use assms in \<open>auto dest!: stepping_returned simp: frame_simps I2S_OUT_DMABUF_COUNT_def intro: wf_intros\<close>)

lemma reach_wf:
  "(i2s_step pf)\<^sup>*\<^sup>* s t \<Longrightarrow> i2s_wf s \<Longrightarrow> ok (i2s_out.more s) \<Longrightarrow> i2s_wf t \<and> ok (i2s_out.more t)"
  by (induction rule: rtranclp_induct) (auto dest: step_wf)

end

lemma mod_word_range:
  fixes a b k :: nat
  assumes "a < 4" "b < 2 ^ 31" "k \<le> 500"
  shows "nat ((int a + int b - 4 * int k) mod 2 ^ 32) = (if 4 * k \<le> a + b then a + b - 4 * k else 2 ^ 32 + a + b - 4 * k)"
proof -
  define x where "x = int a + int b - 4 * int k"
  have x: "- 2000 \<le> x" "x < 2147483652" using assms by (simp_all add: x_def)
  have "x mod 4294967296 = (if 0 \<le> x then x else 4294967296 + x)"
    using x mod_pos_pos_trivial [of "x + 4294967296" 4294967296] by (simp add: mod_pos_pos_trivial)
  then show ?thesis using assms unfolding x_def by simp linarith
qed

lemma remain_update:
  fixes r p :: u32
  assumes "unat r < 4" "unat p < 2 ^ 31" "k \<le> 500"
  shows "4 * k \<le> unat r + unat p \<Longrightarrow> unat (r + (p - 4 * of_nat k)) = unat r + unat p - 4 * k"
    "unat r + unat p < 4 * k \<Longrightarrow> unat (r + (p - 4 * of_nat k)) = 2 ^ 32 + unat r + unat p - 4 * k"
proof -
  have e: "r + (p - 4 * of_nat k) = word_of_int (int (unat r) + int (unat p) - 4 * int k)" by simp
  have "unat (r + (p - 4 * of_nat k)) = nat ((int (unat r) + int (unat p) - 4 * int k) mod 2 ^ 32)"
    unfolding e by (simp only: unat_eq_nat_uint uint_word_of_int) simp
  then have "unat (r + (p - 4 * of_nat k)) = (if 4 * k \<le> unat r + unat p then unat r + unat p - 4 * k else 2 ^ 32 + unat r + unat p - 4 * k)"
    by (simp only: mod_word_range [OF assms])
  then show "4 * k \<le> unat r + unat p \<Longrightarrow> unat (r + (p - 4 * of_nat k)) = unat r + unat p - 4 * k"
    "unat r + unat p < 4 * k \<Longrightarrow> unat (r + (p - 4 * of_nat k)) = 2 ^ 32 + unat r + unat p - 4 * k"
    by (simp_all only: if_True if_False not_le [symmetric] simp_thms)
qed

lemma pulse_step:
  assumes "pf s = Inr t" "pulser s = STEPPING" "pulser t = STEPPING" "has_pulse_func s" "unat (remain_time s) < 4"
    and "remain_time t = remain_time s" "o_rw_pos s \<le> o_rw_pos t"
  shows "fill_step pf d s = Inr (False, t\<lparr>remain_time := remain_time s +
    (pulse_period t - 4 * of_nat (o_rw_pos t - o_rw_pos s))\<rparr>)"
  using assms by (simp add: fill_step_def I2S_OUT_USEC_PER_PULSE_def word_less_nat_alt Let_def of_nat_diff)

subsection \<open>Properties\<close>


text \<open>
   A period shorter than the pulse stalls the motors.  If the callback pushes more time than
  is due (the driver limits the pulse to four samples and a direction change adds two, and the
  shortest period is the pulse time plus two microseconds), the remaining time wraps below zero:
  afterwards at least 2 to the 30 less 6 samples, more than an hour, are written without any
  call of the callback, although the module is in its stepping mode.
\<close>
theorem pulse_stall:
  assumes "pf s = Inr t" "pulser s = STEPPING" "pulser t = STEPPING" "has_pulse_func s"
    and "unat (remain_time s) < 4" "remain_time t = remain_time s" "unat (pulse_period t) < 2 ^ 31" "o_rw_pos t = o_rw_pos s + k"
    and "k \<le> 6" "unat (remain_time s) + unat (pulse_period t) < 4 * k"
  shows "\<exists>u. fill_step pf d s = Inr (False, u) \<and> pulser u = STEPPING \<and>
    (\<forall>n qf. n \<le> 2 ^ 30 - 6 \<longrightarrow> fill_steps pf d n u = fill_steps qf d n u)"
proof -
  define q where "q = remain_time s + (pulse_period t - 4 * of_nat k)"
  define u where "u = t\<lparr>remain_time := q\<rparr>"
  have "unat q = 2 ^ 32 + unat (remain_time s) + unat (pulse_period t) - 4 * k"
    unfolding q_def
  proof (rule remain_update(2) [OF assms(5,7) _ assms(10)])
    show "k \<le> 500" using assms(9) by linarith
  qed
  then have r: "2 ^ 32 - 24 \<le> unat q" using assms(9) by linarith
  have "fill_step pf d s = Inr (False, u)"
    using pulse_step [of pf s t d] assms(1-6,8) by (simp add: u_def q_def)
  moreover have "fill_steps pf d n u = fill_steps qf d n u" if "n \<le> 2 ^ 30 - 6" for n qf
  proof -
    have "4 * n \<le> unat q" using r that by simp
    then have "4 * n \<le> unat (remain_time u)" by (simp add: u_def)
    then show ?thesis by (simp only: idle_steps)
  qed
  moreover have "pulser u = STEPPING" using assms(3) by (simp add: u_def)
  ultimately show ?thesis by blast
qed

text \<open>
  C16.  Stepping ends.  After \<open>i2s_out_set_passthrough\<close> the ring of DMA buffers is cut, and
  whatever descriptors the hardware reports as finished, in whatever order, the task has stopped
  the DMA after at most six of them: the module is in pass-through mode, outputs exactly the port's
  value from the constant register, and a caller waiting in \<open>i2s_out_set_stepping\<close> returns.
\<close>
theorem i2s_drains:
  assumes "i2s_wf s" "set ds \<subseteq> {..<5}" "6 \<le> length ds"
  shows "\<exists>t. receive_all 32 pf ds (i2s_out_set_passthrough s) = Some (Inr t) \<and> pulser t = PASSTHROUGH \<and>
    tx_chan_mod t = 3 \<and> conf_single_data t = port_data s \<and> (\<exists>u. set_stepping_poll 32 t = Returned u \<and> pulser u = STEPPING)"
proof -
  let ?s = "i2s_out_set_passthrough s"
  have p: "i2s_wf ?s" "port_data ?s = port_data s"
    using set_passthrough_wf [OF assms(1)] by (simp, simp add: i2s_out_set_passthrough_def)
  have "pulser ?s = PASSTHROUGH \<or> pulser ?s = WAITING \<and> uncut ?s < length ds"
    using assms(1,3) uncut_bound [of ?s] by (cases "pulser s") (auto simp: i2s_out_set_passthrough_def i2s_wf_def)
  from drains [OF p(1) this assms(2), of pf] obtain t where t: "receive_all 32 pf ds ?s = Some (Inr t)" "i2s_wf t"
      "port_data t = port_data s" "pulser t = PASSTHROUGH"
    using p(2) by auto
  have "pulser (enter_stepping 32 t) = STEPPING"
    using t(2) by (simp add: enter_stepping_def i2s_wf_def stop_eq start_eq clear_all_eq buf_ok_def Let_def)
  with t show ?thesis
    by (auto simp: set_stepping_poll_def i2s_wf_def regs_ok_def)
qed


subsection \<open>Concrete inputs\<close>

definition ex_i2s :: i2s_out where
  "ex_i2s = \<lparr>o_buffers = replicate 5 (replicate 500 0), o_length = replicate 5 2000, o_next = replicate 5 (Some 0),
     o_current = Some 0, o_rw_pos = 0, o_queue = [], port_data = 5, pulse_period = 16, remain_time = 0, has_pulse_func = True,
     pulser = STEPPING, i2s_initialized = True, tx_chan_mod = 4, conf_single_data = 0, tx_running = True, out_link = 0,
     i2s_attached = True, gpio_log = []\<rparr>"

definition ex_pulse :: "nat \<Rightarrow> unit pulse_func" where
  \<comment> \<open>a callback that leaves the given number of samples as they are\<close>
  "ex_pulse k s = Inr (s\<lparr>o_rw_pos := o_rw_pos s + k\<rparr>)"

lemma ex_i2s_wf: "i2s_wf ex_i2s" "i2s_wf (ex_i2s\<lparr>o_rw_pos := 2\<rparr>)"
  by (simp_all add: ex_i2s_def i2s_wf_def buf_ok_def regs_ok_def)


theorem pulse_stall_witness: "\<exists>u. fill_step (ex_pulse 6) 0 ex_i2s = Inr (False, u) \<and> pulser u = STEPPING"
  using pulse_stall [of "ex_pulse 6" ex_i2s "ex_i2s\<lparr>o_rw_pos := 6\<rparr>" 6 0] by (auto simp: ex_pulse_def ex_i2s_def)

theorem i2s_drains_witness:
  "\<exists>t. receive_all 32 (ex_pulse 1) [0, 1, 2, 3, 4, 0] (i2s_out_set_passthrough ex_i2s) = Some (Inr t) \<and> pulser t = PASSTHROUGH"
  using i2s_drains [OF ex_i2s_wf(1), of "[0, 1, 2, 3, 4, 0]" "ex_pulse 1"] by auto


end
