(* ===== verification/StepSystem.thy ===== *)
theory StepSystem
  imports I2sOut
begin

text \<open>
  The stepper driver on top of the I2S output, as \<open>main/driver.c\<close> couples them: the task that fills
  the DMA buffers calls the core's stepper interrupt, which calls back into the driver's I2S
  functions, which write the port and push samples into the buffer being filled.  The core is a
  function from its state to the calls it makes; the board map is the function that puts pin
  levels into the port.
\<close>

subsection \<open>State and calls\<close>












subsection \<open>What is assumed of the core and of the settings\<close>





subsection \<open>Facts\<close>















subsection \<open>Properties\<close>





end
