(* ===== verification/DnsServer.thy ===== *)
theory DnsServer
  imports Prelude
begin

text \<open>
  The captive portal's name server, \<open>main/dns_server.c\<close> with the structures of
  \<open>main/dns_server.h\<close>: it answers every query with the access point's address.  The two buffers
  of the task are byte lists of their declared sizes, every access is checked against them and an
  access outside is a value of \<open>dns_error\<close>; the packed structures are written byte by byte in
  the little-endian layout of the target.  The network delivers a datagram or an error; logging
  keeps the text that is logged.
\<close>

unbundle bit_operations_syntax

subsection \<open>Buffers and structures\<close>

definition DNS_QUERY_MAX_SIZE :: nat where "DNS_QUERY_MAX_SIZE = 80"

definition DNS_ANSWER_MAX_SIZE :: nat where "DNS_ANSWER_MAX_SIZE = DNS_QUERY_MAX_SIZE + 16"

definition dns_header_size :: nat where "dns_header_size = 12"
definition dns_answer_size :: nat where "dns_answer_size = 16"

datatype dns_error =
    Data_overflow      \<comment> \<open>access outside \<open>data\<close>\<close>
  | Response_overflow  \<comment> \<open>access outside \<open>response\<close>\<close>
  | Copy_underflow     \<comment> \<open>a copy of about \<open>SIZE_MAX\<close> bytes\<close>

definition put_bytes :: "dns_error \<Rightarrow> nat \<Rightarrow> u8 list \<Rightarrow> u8 list \<Rightarrow> dns_error + u8 list" where
  "put_bytes e off new buf =
     (if off + length new \<le> length buf then Inr (take off buf @ new @ drop (off + length new) buf) else Inl e)"

definition set_header_flags :: "u8 \<Rightarrow> u8 \<Rightarrow> u8 \<times> u8" where
  \<comment> \<open>bytes 2 (\<open>QR\<close> 7, \<open>OPCode\<close> 6 to 3, \<open>AA\<close> 2, \<open>TC\<close> 1, \<open>RD\<close> 0) and 3 (\<open>RA\<close> 7, \<open>Z\<close> 6 to 4, \<open>RCode\<close> 3 to 0)\<close>
  "set_header_flags b2 b3 =
     (let b2 = set_bit 7 b2;                \<comment> \<open>\<open>QR = 1\<close>\<close>
          b2 = b2 AND NOT 0x78;             \<comment> \<open>\<open>OPCode = DNS_OPCODE_QUERY\<close>\<close>
          b2 = set_bit 2 b2;                \<comment> \<open>\<open>AA = 1\<close>\<close>
          b3 = b3 AND NOT 0x0F;             \<comment> \<open>\<open>RCode = DNS_REPLY_CODE_NO_ERROR\<close>\<close>
          b2 = unset_bit 1 b2;              \<comment> \<open>\<open>TC = 0\<close>\<close>
          b2 = unset_bit 0 b2               \<comment> \<open>\<open>RD = 0\<close>\<close>
      in (b2, b3))"

definition set_header :: "u8 list \<Rightarrow> u8 list" where
  \<comment> \<open>the assignments to the header at the start of \<open>response\<close>\<close>
  "set_header r =
     (let (b2, b3) = set_header_flags (r ! 2) (r ! 3);
          r = r[2 := b2, 3 := b3];
          r = r[6 := r ! 4, 7 := r ! 5]     \<comment> \<open>\<open>ANCount = QDCount\<close>\<close>
      in r[8 := 0, 9 := 0, 10 := 0, 11 := 0])"

definition bswap_16 :: "u16 \<Rightarrow> u16" where
  "bswap_16 w = push_bit 8 w OR drop_bit 8 w"

definition le16 :: "u16 \<Rightarrow> u8 list" where
  "le16 w = [ucast w, ucast (drop_bit 8 w)]"

definition le32 :: "u32 \<Rightarrow> u8 list" where
  "le32 w = [ucast w, ucast (drop_bit 8 w), ucast (drop_bit 16 w), ucast (drop_bit 24 w)]"

definition dns_answer :: "u32 \<Rightarrow> u8 list" where
  "dns_answer addr = le16 (bswap_16 0xC00C) @ le16 (bswap_16 1) @ le16 (bswap_16 1) @ le32 0 @ le16 (bswap_16 4) @ le32 addr"

subsection \<open>The task\<close>

fun log_domain :: "u8 list \<Rightarrow> u8 list option" where
  \<comment> \<open>the loop over the domain: what it leaves in the buffer up to the zero, or nothing if it runs out of the buffer\<close>
  "log_domain [] = None"
| "log_domain (c # cs) =
     (if c = 0 then Some []
      else map_option (Cons (if c < 0x20 \<or> c > 0x7A then 0x2E else c)) (log_domain cs))"

record dns_state =
  response :: "u8 list"
  dns_sent :: "u8 list list"     \<comment> \<open>newest first\<close>
  dns_log :: "u8 list list"      \<comment> \<open>domains logged, newest first\<close>

definition process_query :: "u32 \<Rightarrow> u8 list \<Rightarrow> nat \<Rightarrow> dns_state \<Rightarrow> dns_error + dns_state" where
  \<comment> \<open>the guarded block, for the buffer \<open>data\<close> and \<open>length\<close> of it received\<close>
  "process_query addr data len s =
     (case put_bytes Data_overflow len [0] data of Inl e \<Rightarrow> Inl e | Inr data \<Rightarrow>
      case put_bytes Response_overflow 0 (take dns_header_size data) (response s) of Inl e \<Rightarrow> Inl e | Inr r \<Rightarrow>
      let r = set_header r in
      if len < dns_header_size then Inl Copy_underflow else
      case put_bytes Response_overflow dns_header_size (take (len - dns_header_size) (drop dns_header_size data)) r of
        Inl e \<Rightarrow> Inl e | Inr r \<Rightarrow>
      case log_domain (drop (dns_header_size + 1) data) of None \<Rightarrow> Inl Data_overflow | Some domain \<Rightarrow>
      case put_bytes Response_overflow len (dns_answer addr) r of Inl e \<Rightarrow> Inl e | Inr r \<Rightarrow>
      Inr (s\<lparr>response := r, dns_sent := take (len + dns_answer_size) r # dns_sent s, dns_log := domain # dns_log s\<rparr>))"

definition dns_iteration :: "u32 \<Rightarrow> u8 list option \<Rightarrow> dns_state \<Rightarrow> dns_error + dns_state" where
  \<comment> \<open>the body of the endless loop; \<open>None\<close> is an error of \<open>recvfrom\<close>, a longer datagram is cut\<close>
  "dns_iteration addr received s =
     (case received of
        None \<Rightarrow> Inr s
      | Some packet \<Rightarrow>
          let got = take DNS_QUERY_MAX_SIZE packet;
              data = got @ replicate (DNS_QUERY_MAX_SIZE - length got) 0;
              len = length got
          in if 0 < len \<and> len + dns_answer_size - 1 < DNS_ANSWER_MAX_SIZE
             then process_query addr data len s else Inr s)"

fun dns_loop :: "u32 \<Rightarrow> u8 list option list \<Rightarrow> dns_state \<Rightarrow> dns_error + dns_state" where
  "dns_loop addr [] s = Inr s"
| "dns_loop addr (p # ps) s = (case dns_iteration addr p s of Inl e \<Rightarrow> Inl e | Inr s \<Rightarrow> dns_loop addr ps s)"

datatype dns_exit = Task_returned | Exit_code nat

definition dns_task_init :: "u32 option \<Rightarrow> bool \<Rightarrow> bool \<Rightarrow> dns_exit + u32" where
  \<comment> \<open>the task up to its loop: the access point's address if it is set and parses, whether a socket is made and bound\<close>
  "dns_task_init ap_ip socket_ok bind_ok =
     (case ap_ip of
        None \<Rightarrow> Inl Task_returned
      | Some addr \<Rightarrow> if \<not> socket_ok then Inl (Exit_code 0) else if \<not> bind_ok then Inl (Exit_code 1) else Inr addr)"

record dns_task =
  task_dns_server :: bool     \<comment> \<open>not \<open>NULL\<close>\<close>
  socket_closed :: nat        \<comment> \<open>calls of \<open>close(socket_fd)\<close>\<close>

definition dns_server_start :: "bool \<Rightarrow> dns_task \<Rightarrow> bool \<times> dns_task" where
  \<comment> \<open>the argument is the result of \<open>xTaskCreate\<close>, which sets the handle\<close>
  "dns_server_start ok t = (ok, if ok then t\<lparr>task_dns_server := True\<rparr> else t)"

definition dns_server_stop :: "dns_task \<Rightarrow> dns_task" where
  "dns_server_stop t = (if task_dns_server t then t\<lparr>task_dns_server := False, socket_closed := socket_closed t + 1\<rparr> else t)"

subsection \<open>Reference: reading a response\<close>

fun encode_name :: "u8 list list \<Rightarrow> u8 list" where
  "encode_name [] = [0]"
| "encode_name (l # ls) = of_nat (length l) # l @ encode_name ls"

definition label_ok :: "u8 list \<Rightarrow> bool" where
  "label_ok l \<longleftrightarrow> l \<noteq> [] \<and> length l < 64"

function parse_name :: "u8 list \<Rightarrow> (u8 list list \<times> u8 list) option" where
  "parse_name [] = None"
| "parse_name (n # bs) =
     (if n = 0 then Some ([], bs)
      else if unat n < 64 \<and> unat n \<le> length bs
           then map_option (apfst (Cons (take (unat n) bs))) (parse_name (drop (unat n) bs))
      else None)"
  by pat_completeness auto
termination
  by (relation "measure length") auto

record dns_reply =
  rp_id :: "u8 list"
  rp_is_response :: bool
  rp_rcode :: u8
  rp_name :: "u8 list list"
  rp_qtype :: "u8 list"     \<comment> \<open>type and class of the question\<close>
  rp_answer :: "u8 list"    \<comment> \<open>the address\<close>

definition parse_answer :: "u8 list \<Rightarrow> u8 list option" where
  \<comment> \<open>one internet address for the name at offset 12, not to be cached, and nothing after it\<close>
  "parse_answer bs =
     (if length bs = 16 \<and> take 12 bs = [0xC0, 0x0C, 0, 1, 0, 1, 0, 0, 0, 0, 0, 4] then Some (drop 12 bs) else None)"

definition parse_reply :: "u8 list \<Rightarrow> dns_reply option" where
  \<comment> \<open>a response with one question, one answer and no other record\<close>
  "parse_reply bs =
     (if length bs < 12 \<or> take 8 (drop 4 bs) \<noteq> [0, 1, 0, 1, 0, 0, 0, 0] then None
      else case parse_name (drop 12 bs) of
             None \<Rightarrow> None
           | Some (ls, rest) \<Rightarrow>
               if length rest < 4 then None
               else map_option (\<lambda>a. \<lparr>rp_id = take 2 bs, rp_is_response = bit (bs ! 2) 7, rp_rcode = bs ! 3 AND 0x0F,
                                      rp_name = ls, rp_qtype = take 4 rest, rp_answer = a\<rparr>)
                      (parse_answer (drop 4 rest)))"

subsection \<open>Facts\<close>

lemma parse_encode_name: "\<forall>l \<in> set ls. label_ok l \<Longrightarrow> parse_name (encode_name ls @ r) = Some (ls, r)"
proof (induction ls)
  case (Cons l ls)
  then have "unat (of_nat (length l) :: u8) = length l" "(of_nat (length l) :: u8) \<noteq> 0"
    by (auto simp: label_ok_def unat_of_nat take_bit_nat_eq_self word_of_nat_eq_0_iff dest: nat_dvd_not_less)
  with Cons show ?case
    by (simp add: label_ok_def)
qed simp

lemma header_flags: "set_header_flags b2 b3 = (0x84, b3 AND 0xF0)"
proof -
  have cases: "n < 8 \<Longrightarrow> n \<in> {0, 1, 2, 3, 4, 5, 6, 7}" for n :: nat by auto
  have "unset_bit 0 (unset_bit 1 (set_bit 2 (set_bit 7 b2 AND NOT 0x78))) = 0x84"
  proof (rule bit_word_eqI)
    fix n assume "n < LENGTH(8)"
    then show "bit (unset_bit 0 (unset_bit 1 (set_bit 2 (set_bit 7 b2 AND NOT 0x78)))) n = bit (0x84 :: u8) n"
      using cases [of n] by (auto simp: bit_and_iff bit_not_iff bit_set_bit_iff bit_unset_bit_iff bit_numeral_rec)
  qed
  moreover have "b3 AND NOT 0x0F = b3 AND 0xF0"
  proof (rule bit_word_eqI)
    fix n assume "n < LENGTH(8)"
    then show "bit (b3 AND NOT 0x0F) n = bit (b3 AND 0xF0) n"
      using cases [of n] by (auto simp: bit_and_iff bit_not_iff bit_numeral_rec)
  qed
  ultimately show ?thesis
    by (simp add: set_header_flags_def Let_def)
qed

lemma length_dns_answer [simp]: "length (dns_answer addr) = 16"
  by (simp add: dns_answer_def le16_def le32_def)

lemma dns_answer_bytes: "dns_answer addr = [0xC0, 0x0C, 0, 1, 0, 1, 0, 0, 0, 0, 0, 4] @ le32 addr"
  by (simp add: dns_answer_def le16_def le32_def bswap_16_def)

lemma put_bytes_Inr: "off + length new \<le> length buf \<Longrightarrow> put_bytes e off new buf = Inr (take off buf @ new @ drop (off + length new) buf)"
  by (simp add: put_bytes_def)

lemma log_domain_zero: "0 \<in> set cs \<Longrightarrow> \<exists>d. log_domain cs = Some d"
  by (induction cs) auto

definition reply_to :: "u32 \<Rightarrow> u8 list \<Rightarrow> u8 list" where
  \<comment> \<open>the datagram that answers a query\<close>
  "reply_to addr p = take 2 p @ [0x84, p ! 3 AND 0xF0] @ take 2 (drop 4 p) @ take 2 (drop 4 p) @ [0, 0, 0, 0] @
     drop 12 p @ dns_answer addr"

lemma query_split:
  assumes "12 \<le> length p"
  obtains a0 a1 a2 a3 a4 a5 a6 a7 a8 a9 a10 a11 r where "p = [a0, a1, a2, a3, a4, a5, a6, a7, a8, a9, a10, a11] @ r"
proof -
  obtain h r where "p = h @ r" "length h = 12"
    using assms append_take_drop_id [of 12 p] by (metis length_take min.absorb2)
  moreover from this(2) obtain a0 a1 a2 a3 a4 a5 a6 a7 a8 a9 a10 a11 where
      "h = [a0, a1, a2, a3, a4, a5, a6, a7, a8, a9, a10, a11]"
    by (auto simp: numeral_eq_Suc length_Suc_conv)
  ultimately show ?thesis using that by blast
qed

lemma put_bytes_Inl: "length buf < off + length new \<Longrightarrow> put_bytes e off new buf = Inl e"
  by (simp add: put_bytes_def)

lemma data_overflow: "process_query addr data (length data) s = Inl Data_overflow"
  by (simp add: process_query_def put_bytes_Inl)

lemma copy_underflow:
  assumes "len < 12" "12 < length data" "length (response s) = 96"
  shows "process_query addr data len s = Inl Copy_underflow"
  using assms by (simp add: process_query_def put_bytes_Inr dns_header_size_def Let_def)

lemma process_query_ok:
  assumes "12 \<le> length p" "length p < 80" "length (response s) = 96"
  shows "\<exists>d r. process_query addr (p @ replicate (80 - length p) 0) (length p) s =
     Inr (s\<lparr>response := r, dns_sent := reply_to addr p # dns_sent s, dns_log := d # dns_log s\<rparr>) \<and> length r = 96"
proof -
  obtain a0 a1 a2 a3 a4 a5 a6 a7 a8 a9 a10 a11 q where p: "p = [a0, a1, a2, a3, a4, a5, a6, a7, a8, a9, a10, a11] @ q"
    using assms(1) by (rule query_split)
  define m where "m = 79 - length p"
  have m: "80 - length p = Suc m" "length p + Suc m = 80"
    using assms(2) by (auto simp: m_def)
  define pad where "pad = replicate (Suc m) (0 :: u8)"
  have data: "put_bytes Data_overflow (length p) [0] (p @ pad) = Inr (p @ pad)"
    by (simp add: put_bytes_Inr pad_def)
  obtain d where d: "log_domain (drop 13 (p @ pad)) = Some d"
  proof -
    have "0 \<in> set (drop 13 (p @ pad))"
      using m(2) p by (cases q) (auto simp: pad_def)
    then show ?thesis using that log_domain_zero by blast
  qed
  have r1: "put_bytes Response_overflow 0 (take 12 (p @ pad)) (response s) = Inr (take 12 p @ drop 12 (response s))"
    using assms by (simp add: put_bytes_Inr)
  define hd where "hd = [a0, a1, 0x84, a3 AND 0xF0, a4, a5, a4, a5, 0, 0, 0, 0 :: u8]"
  have r2: "set_header (take 12 p @ drop 12 (response s)) = hd @ drop 12 (response s)"
    by (simp add: set_header_def p hd_def header_flags)
  have q: "take (length p - 12) (drop 12 (p @ pad)) = q" "length p = 12 + length q" "length hd = 12"
    by (simp_all add: p hd_def)
  have r3: "put_bytes Response_overflow 12 q (hd @ drop 12 (response s)) = Inr (hd @ q @ drop (12 + length q) (response s))"
    using assms q by (simp add: put_bytes_Inr add.commute)
  have r4: "put_bytes Response_overflow (length p) (dns_answer addr) (hd @ q @ drop (12 + length q) (response s)) =
      Inr (hd @ q @ dns_answer addr @ drop (28 + length q) (response s))"
    using assms q by (simp add: put_bytes_Inr add.commute)
  have "hd @ q @ dns_answer addr = reply_to addr p"
    by (simp add: reply_to_def p hd_def)
  then have sent: "take (length p + 16) (hd @ q @ dns_answer addr @ drop (28 + length q) (response s)) = reply_to addr p"
    using q by simp
  show ?thesis
    unfolding process_query_def dns_header_size_def dns_answer_size_def m(1) pad_def [symmetric] data sum.case r1 r2 Let_def q(1) r3
    using assms(1,2) d r4 sent q assms(3)
    by simp (intro exI [of _ d] exI [of _ "hd @ q @ dns_answer addr @ drop (28 + length q) (response s)"], simp)
qed

lemma iteration_eq:
  "dns_iteration addr (Some p) s =
     (if p = [] then Inr s
      else process_query addr (take 80 p @ replicate (80 - length (take 80 p)) 0) (length (take 80 p)) s)"
  by (auto simp: dns_iteration_def Let_def DNS_QUERY_MAX_SIZE_def DNS_ANSWER_MAX_SIZE_def dns_answer_size_def)

subsection \<open>Properties\<close>

text \<open>
  C21.  What a datagram does to the name server, for every length.  Nothing received or an empty
  datagram changes nothing; from one to eleven bytes the copy of the query's rest has a negative
  length and runs out of both buffers; eighty or more bytes pass the length guard and the
  terminating zero is written behind the buffer; every length between is answered, and the
  buffers are never left.
\<close>
theorem dns_iteration_errors:
  assumes "length (response s) = 96"
  shows "case dns_iteration addr rcv s of
     Inl e \<Rightarrow> (\<exists>p. rcv = Some p \<and> (e = Copy_underflow \<and> length p \<in> {1..11} \<or> e = Data_overflow \<and> 80 \<le> length p))
   | Inr t \<Rightarrow> length (response t) = 96 \<and>
       (if rcv = None \<or> rcv = Some [] then t = s
        else length (the rcv) \<in> {12..79} \<and> dns_sent t = reply_to addr (the rcv) # dns_sent s)"
proof (cases rcv)
  case None
  then show ?thesis using assms by (simp add: dns_iteration_def)
next
  case (Some p)
  consider "p = []" | "p \<noteq> []" "length p < 12" | "12 \<le> length p" "length p < 80" | "80 \<le> length p"
    by linarith
  then show ?thesis
  proof cases
    case 2
    then show ?thesis
      using Some assms copy_underflow [of "length p" "p @ replicate (80 - length p) 0" s addr]
      by (cases p) (simp_all add: iteration_eq)
  next
    case 3
    then obtain d r where "process_query addr (p @ replicate (80 - length p) 0) (length p) s =
        Inr (s\<lparr>response := r, dns_sent := reply_to addr p # dns_sent s, dns_log := d # dns_log s\<rparr>)" "length r = 96"
      using assms process_query_ok by blast
    then show ?thesis using Some 3 by (auto simp: iteration_eq)
  next
    case 4
    then show ?thesis
      using Some data_overflow [of addr "take 80 p" s] by (auto simp: iteration_eq)
  qed (use Some assms in \<open>simp add: iteration_eq\<close>)
qed

text \<open>
  C22.  The answer means what it should: for a query of one question with no further record, whose
  name is any sequence of labels that fits, the datagram sent back reads as a response with the
  query's identification, no error code, the same name and question type, and exactly one
  address record, the configured address.
\<close>
theorem dns_reply_roundtrip:
  assumes "\<forall>l \<in> set ls. label_ok l" "length qt = 4" "query = [i, j, f, g, 0, 1, 0, 0, 0, 0, 0, 0] @ encode_name ls @ qt"
    and "length query < 80" "length (response s) = 96"
  shows "\<exists>t d. dns_iteration addr (Some query) s = Inr t \<and> dns_sent t = d # dns_sent s \<and>
     parse_reply d = Some \<lparr>rp_id = [i, j], rp_is_response = True, rp_rcode = 0, rp_name = ls, rp_qtype = qt, rp_answer = le32 addr\<rparr>"
proof -
  obtain d r where "process_query addr (query @ replicate (80 - length query) 0) (length query) s =
      Inr (s\<lparr>response := r, dns_sent := reply_to addr query # dns_sent s, dns_log := d # dns_log s\<rparr>)"
    using process_query_ok [of query s addr] assms(3-5) by (auto simp: assms(3))
  then have "dns_iteration addr (Some query) s =
      Inr (s\<lparr>response := r, dns_sent := reply_to addr query # dns_sent s, dns_log := d # dns_log s\<rparr>)"
    using assms(3,4) by (simp add: iteration_eq)
  moreover have "parse_reply (reply_to addr query) =
      Some \<lparr>rp_id = [i, j], rp_is_response = True, rp_rcode = 0, rp_name = ls, rp_qtype = qt, rp_answer = le32 addr\<rparr>"
  proof -
    have "(g AND 0xF0) AND 0x0F = 0"
      by (simp add: and.assoc)
    then show ?thesis
      using assms(2) parse_encode_name [OF assms(1), of "qt @ dns_answer addr"]
      by (simp add: reply_to_def assms(3) parse_reply_def dns_answer_bytes parse_answer_def le32_def bit_numeral_rec)
  qed
  ultimately show ?thesis by auto
qed

lemma dns_loop_answers:
  assumes "length (response s) = 96" "\<forall>p \<in> set ps. length p \<in> {12..79}"
  shows "\<exists>t. dns_loop addr (List.map Some ps) s = Inr t \<and> dns_sent t = rev (List.map (reply_to addr) ps) @ dns_sent s"
  using assms
proof (induction ps arbitrary: s)
  case (Cons p ps)
  then obtain t where t: "dns_iteration addr (Some p) s = Inr t" "length (response t) = 96"
      "dns_sent t = reply_to addr p # dns_sent s"
  proof -
    have "p \<noteq> []" "length p < 80" "12 \<le> length p" using Cons.prems(2) by auto
    then show ?thesis
      using that process_query_ok [of p s addr] Cons.prems(1) by (auto simp: iteration_eq)
  qed
  moreover have "\<exists>u. dns_loop addr (List.map Some ps) t = Inr u \<and> dns_sent u = rev (List.map (reply_to addr) ps) @ dns_sent t"
    using Cons t(2) by simp
  ultimately show ?case by auto
qed simp

definition ex_dns :: dns_state where
  "ex_dns = \<lparr>response = replicate 96 0, dns_sent = [], dns_log = []\<rparr>"

definition ex_query :: "u8 list" where
  "ex_query = [1, 2, 1, 0, 0, 1, 0, 0, 0, 0, 0, 0] @ encode_name [[97], [98, 99]] @ [0, 1, 0, 1]"

theorem dns_iteration_errors_witness: "\<exists>e. dns_iteration 0 (Some (replicate 80 1)) ex_dns = Inl e"
  using dns_iteration_errors [where s = ex_dns and addr = 0 and rcv = "Some (replicate 80 1)"] by (simp add: ex_dns_def split: sum.splits)

theorem dns_reply_roundtrip_witness: "\<exists>t d. dns_iteration 5 (Some ex_query) ex_dns = Inr t \<and> dns_sent t = [d]"
  using dns_reply_roundtrip [of "[[97], [98, 99]]" "[0, 1, 0, 1]" ex_query 1 2 1 0 ex_dns 5]
  by (auto simp: ex_dns_def ex_query_def label_ok_def)

end
