(* ===== verification/Bluetooth.thy ===== *)
theory Bluetooth
  imports StreamRing
begin

text \<open>
  The classic Bluetooth serial port (\<open>bluetooth.c\<close>): the line buffer and the chunk queue of
  the transmit side, the poll task that packs the chunks into packets, the callback of the
  serial port profile with its session state, the claim of the stream and the start-up.  The
  receive side is the ring of \<open>StreamRing\<close>.

  Calls into the Bluetooth stack and into the grbl core are recorded in order in \<open>bt_calls\<close>;
  their results are arguments.  The result of the n-th \<open>malloc\<close> is \<open>mem n\<close>.  A write that
  waits for room in the queue (\<open>portMAX_DELAY\<close>) is the value None.
\<close>

datatype bt_call =
    StreamConnect
  | StreamDisconnect
  | StreamMpgEnable bool
  | SppDisconnect u32
  | SppWrite u32 "u8 list" bool
  | SetDeviceName
  | SetScanMode
  | StartServer
  | WriteAllMsg

record bt_tx_buffer =
  txb_head :: u16
  txb_data :: "u8 list"

record 'b bt =
  bt_rx :: "'b rx_buffer"
  bt_txb :: bt_tx_buffer
  bt_queue :: "u8 list list"
  bt_held :: "u8 list option"
  bt_congested :: bool
  bt_tx_busy :: bool
  bt_connection :: u32
  bt_dtr :: bool
  bt_dsr :: bool
  bt_stream :: bool
  bt_client_mac :: "u8 list"
  bt_second :: bool
  bt_static :: bool
  bt_claimed :: bool
  bt_suspended :: bool
  bt_baud :: u32
  bt_mallocs :: nat
  bt_calls :: "bt_call list"

definition BT_TX_QUEUE_ENTRIES :: nat where "BT_TX_QUEUE_ENTRIES = 32"
definition BT_TX_BUFFER_SIZE :: nat where "BT_TX_BUFFER_SIZE = 250"

lemmas bt_sizes = BT_TX_QUEUE_ENTRIES_def BT_TX_BUFFER_SIZE_def

definition bt_init :: "'b rx_buffer \<Rightarrow> 'b bt" where
  "bt_init rb = \<lparr>bt_rx = rb, bt_txb = \<lparr>txb_head = 0, txb_data = replicate BT_TX_BUFFER_SIZE 0\<rparr>,
     bt_queue = [], bt_held = None, bt_congested = True, bt_tx_busy = True, bt_connection = 0,
     bt_dtr = False, bt_dsr = False, bt_stream = False, bt_client_mac = replicate 18 0,
     bt_second = False, bt_static = False, bt_claimed = False, bt_suspended = True,
     bt_baud = 115200, bt_mallocs = 0, bt_calls = []\<rparr>"

definition bt_called :: "bt_call \<Rightarrow> 'b bt \<Rightarrow> 'b bt" where
  "bt_called c s = s\<lparr>bt_calls := bt_calls s @ [c]\<rparr>"

subsection \<open>The receive side of the stream\<close>

definition btStreamAvailable :: "(nat \<Rightarrow> nat \<Rightarrow> nat \<Rightarrow> nat) \<Rightarrow> nat \<Rightarrow> 'b bt \<Rightarrow> u16" where
  "btStreamAvailable bufcount N s = ring_available bufcount N (bt_rx s)"

definition btStreamRXFree :: "(nat \<Rightarrow> nat \<Rightarrow> nat \<Rightarrow> nat) \<Rightarrow> nat \<Rightarrow> 'b bt \<Rightarrow> u16" where
  "btStreamRXFree bufcount N s = ring_rx_free bufcount N (bt_rx s)"

definition btStreamGetC :: "nat \<Rightarrow> 'b bt \<Rightarrow> int \<times> 'b bt" where
  "btStreamGetC N s = (case ring_read N (bt_rx s) of (v, rb) \<Rightarrow> (v, s\<lparr>bt_rx := rb\<rparr>))"

definition btStreamFlush :: "'b bt \<Rightarrow> 'b bt" where
  "btStreamFlush s = s\<lparr>bt_rx := ring_resync (bt_rx s)\<rparr>"

definition btStreamCancel :: "nat \<Rightarrow> 'b bt \<Rightarrow> 'b bt" where
  "btStreamCancel N s = s\<lparr>bt_rx := ring_cancel N 24 (bt_rx s)\<rparr>"

definition btRxDisable :: "bool \<Rightarrow> 'b bt \<Rightarrow> bool \<times> 'b bt" where
  "btRxDisable disable s = (True, s\<lparr>bt_dsr := \<not> disable\<rparr>)"

definition btStreamSetBaudRate :: "u32 \<Rightarrow> 'b bt \<Rightarrow> bool \<times> 'b bt" where
  "btStreamSetBaudRate baud_rate s = (True, s\<lparr>bt_baud := baud_rate\<rparr>)"

definition btSetRtHandler :: "'h \<Rightarrow> 'h option \<Rightarrow> 'h \<times> 'h" where
  \<comment> \<open>the previous handler, and the one that is installed afterwards\<close>
  "btSetRtHandler current handler =
     (current, case handler of None \<Rightarrow> current | Some h \<Rightarrow> h)"

definition bt_is_connected :: "'b bt \<Rightarrow> bool" where
  "bt_is_connected s = bt_dtr s"

definition bt_claim_stream :: "u32 \<Rightarrow> 'b bt \<Rightarrow> bool \<times> 'b bt" where
  \<comment> \<open>whether a stream is returned\<close>
  "bt_claim_stream baud_rate s =
     (if bt_claimed s then (False, s)
      else (True, s\<lparr>bt_claimed := (baud_rate \<noteq> 0 \<or> bt_claimed s), bt_stream := True\<rparr>))"

subsection \<open>The transmit side of the stream\<close>

definition enqueue_tx_chunk ::
    "(nat \<Rightarrow> bool) \<Rightarrow> u16 \<Rightarrow> u8 list \<Rightarrow> 'b bt \<Rightarrow> (bool \<times> 'b bt) option" where
  "enqueue_tx_chunk mem len data s =
     (let s1 = s\<lparr>bt_mallocs := Suc (bt_mallocs s)\<rparr> in
      if mem (bt_mallocs s) then
        if length (bt_queue s) < BT_TX_QUEUE_ENTRIES
        then Some (True, s1\<lparr>bt_queue := bt_queue s @ [take (unat len) data]\<rparr>)
        else None
      else Some (False, s1))"

definition bt_push_line :: "(nat \<Rightarrow> bool) \<Rightarrow> 'b bt \<Rightarrow> 'b bt option" where
  \<comment> \<open>the two statements that queue the buffered bytes and empty the buffer\<close>
  "bt_push_line mem s =
     (case enqueue_tx_chunk mem (txb_head (bt_txb s)) (txb_data (bt_txb s)) s of
        None \<Rightarrow> None
      | Some (_, s1) \<Rightarrow> Some (s1\<lparr>bt_txb := (bt_txb s1)\<lparr>txb_head := 0\<rparr>\<rparr>))"

definition bt_store :: "u8 \<Rightarrow> 'b bt \<Rightarrow> 'b bt" where
  "bt_store c s =
     s\<lparr>bt_txb := (bt_txb s)\<lparr>txb_data := (txb_data (bt_txb s))[unat (txb_head (bt_txb s)) := c],
                          txb_head := txb_head (bt_txb s) + 1\<rparr>\<rparr>"

definition btStreamPutC :: "(nat \<Rightarrow> bool) \<Rightarrow> u8 \<Rightarrow> 'b bt \<Rightarrow> (bool \<times> 'b bt) option" where
  "btStreamPutC mem c s =
     (case (if unat (txb_head (bt_txb s)) = BT_TX_BUFFER_SIZE then bt_push_line mem s else Some s) of
        None \<Rightarrow> None
      | Some s1 \<Rightarrow>
          let s2 = bt_store c s1 in
          (case (if c = 10 then bt_push_line mem s2 else Some s2) of
             None \<Rightarrow> None
           | Some s3 \<Rightarrow> Some (True, s3)))"

fun btStreamWrite :: "(nat \<Rightarrow> bool) \<Rightarrow> u8 list \<Rightarrow> 'b bt \<Rightarrow> 'b bt option" where
  "btStreamWrite mem [] s = Some s"
| "btStreamWrite mem (c # cs) s =
     (case btStreamPutC mem c s of None \<Rightarrow> None | Some (_, s1) \<Rightarrow> btStreamWrite mem cs s1)"

definition btStreamWriteS :: "(nat \<Rightarrow> bool) \<Rightarrow> u8 list \<Rightarrow> 'b bt \<Rightarrow> 'b bt option" where
  \<comment> \<open>the argument is the string's bytes up to and with its terminator\<close>
  "btStreamWriteS mem str s = btStreamWrite mem (takeWhile (\<lambda>c. c \<noteq> 0) str) s"

subsection \<open>The poll task\<close>

definition flush_tx_queue :: "'b bt \<Rightarrow> 'b bt" where
  "flush_tx_queue s = (if bt_queue s \<noteq> [] then s\<lparr>bt_queue := []\<rparr> else s)"

fun tx_gather :: "nat \<Rightarrow> u8 list \<Rightarrow> u8 list option \<Rightarrow> u8 list list \<Rightarrow>
    u8 list \<times> nat \<times> u8 list option \<times> u8 list list" where
  \<comment> \<open>the loop that copies chunks while they are shorter than the room left\<close>
  "tx_gather room buf None q = (buf, room, None, q)"
| "tx_gather room buf (Some ch) [] =
     (if length ch < room then (buf @ ch, room - length ch, None, []) else (buf, room, Some ch, []))"
| "tx_gather room buf (Some ch) (c # q) =
     (if length ch < room then tx_gather (room - length ch) (buf @ ch) (Some c) q
      else (buf, room, Some ch, c # q))"

definition bt_next_chunk :: "'b bt \<Rightarrow> 'b bt" where
  \<comment> \<open>\<open>chunk || xQueueReceive(...)\<close>\<close>
  "bt_next_chunk s =
     (case bt_held s of
        Some _ \<Rightarrow> s
      | None \<Rightarrow> (case bt_queue s of [] \<Rightarrow> s | c # q \<Rightarrow> s\<lparr>bt_held := Some c, bt_queue := q\<rparr>))"

definition spp_write :: "bool \<Rightarrow> u8 list \<Rightarrow> 'b bt \<Rightarrow> 'b bt" where
  "spp_write wr bytes s = bt_called (SppWrite (bt_connection s) bytes wr) s"

definition bt_poll_send :: "bool \<Rightarrow> 'b bt \<Rightarrow> 'b bt" where
  "bt_poll_send wr s =
     (let s1 = bt_next_chunk s in
      case bt_held s1 of
        None \<Rightarrow> s1\<lparr>bt_tx_busy := True\<rparr>
      | Some ch \<Rightarrow>
          if 256 \<le> length ch
          then (spp_write wr ch s1)\<lparr>bt_held := None, bt_tx_busy := \<not> wr\<rparr>
          else
            (case tx_gather 256 [] (Some ch) (bt_queue s1) of
               (buf, room, held, q) \<Rightarrow>
                 let s2 = s1\<lparr>bt_held := held, bt_queue := q\<rparr> in
                 if room \<noteq> 256 then (spp_write wr buf s2)\<lparr>bt_tx_busy := \<not> wr\<rparr>
                 else s2\<lparr>bt_tx_busy := True\<rparr>))"

definition bt_can_send :: "'b bt \<Rightarrow> bool" where
  "bt_can_send s \<longleftrightarrow>
     bt_connection s \<noteq> 0 \<and> bt_congested s \<and> bt_queue s \<noteq> [] \<and> bt_tx_busy s"

definition pollTX :: "bool \<Rightarrow> 'b bt \<Rightarrow> 'b bt" where
  \<comment> \<open>one turn of the task's loop; \<open>wr\<close> is whether the stack takes the packet\<close>
  "pollTX wr s =
     (let s1 = (if bt_can_send s then bt_poll_send wr (s\<lparr>bt_tx_busy := False\<rparr>) else s) in
      if bt_connection s1 \<noteq> 0 then s1 else s1\<lparr>bt_suspended := True\<rparr>)"

subsection \<open>The callback of the serial port profile\<close>

text \<open>
  What the callback reads of the rest of the system: the real-time command filter, the result of
  \<open>stream_connect\<close>, whether the active stream is an MPG (read after the connect), and whether
  its read function is this stream's.
\<close>

record bt_env =
  bte_rt :: "u8 \<Rightarrow> bool"
  bte_connects :: bool
  bte_mpg :: bool
  bte_same_read :: bool

datatype bt_event =
    SppInit
  | SrvOpen u32 "u8 list"
  | SppClose
  | DataInd "u8 list"
  | SppCong bool
  | SppWritten bool
  | SppOther

definition hex_digit :: "u8 \<Rightarrow> u8" where
  "hex_digit d = (if d < 10 then 48 + d else 55 + d)"

definition hex_byte :: "u8 \<Rightarrow> u8 list" where
  \<comment> \<open>\<open>%02X\<close>\<close>
  "hex_byte b = [hex_digit (drop_bit 4 b), hex_digit (b AND 15)]"

fun mac_string :: "u8 list \<Rightarrow> u8 list" where
  "mac_string [] = []"
| "mac_string [b] = hex_byte b"
| "mac_string (b # bs) = hex_byte b @ [58] @ mac_string bs"

definition sprintf_mac :: "u8 list \<Rightarrow> u8 list" where
  \<comment> \<open>the six bytes with colons and the terminator\<close>
  "sprintf_mac mac = mac_string (take 6 mac) @ [0]"

definition bluetooth_get_device_mac :: "bool \<Rightarrow> u8 list \<Rightarrow> u8 list" where
  "bluetooth_get_device_mac running address = (if running then sprintf_mac address else [45, 0])"

definition bluetooth_get_client_mac :: "'b bt \<Rightarrow> u8 list option" where
  "bluetooth_get_client_mac s =
     (if bt_client_mac s ! 0 = 0 then None else Some (bt_client_mac s))"

definition bt_srv_open :: "bt_env \<Rightarrow> u32 \<Rightarrow> u8 list \<Rightarrow> 'b bt \<Rightarrow> 'b bt" where
  "bt_srv_open env handle mac s =
     (if \<not> bt_dtr s then
        let s1 = s\<lparr>bt_rx := ring_resync (bt_rx s), bt_txb := (bt_txb s)\<lparr>txb_head := 0\<rparr>\<rparr>;
            s2 = (if \<not> bt_claimed s1 then
                    let s' = bt_called StreamConnect (snd (bt_claim_stream 0 s1)) in
                    (if bte_connects env then s'\<lparr>bt_static := bt_stream s'\<rparr> else s')
                  else s1);
            s3 = s2\<lparr>bt_dtr := True, bt_dsr := \<not> bte_mpg env, bt_connection := handle,
                    bt_client_mac := sprintf_mac mac\<rparr>;
            s4 = (if bt_suspended s3 then s3\<lparr>bt_suspended := False\<rparr> else s3)
        in bt_called WriteAllMsg s4
      else bt_called (SppDisconnect handle) (s\<lparr>bt_second := True\<rparr>))"

definition bt_close :: "bt_env \<Rightarrow> 'b bt \<Rightarrow> 'b bt option" where
  \<comment> \<open>None: \<open>session.stream\<close> is read through while it is NULL\<close>
  "bt_close env s =
     (if bt_second s then Some (s\<lparr>bt_second := False\<rparr>)
      else
        let s1 = flush_tx_queue (s\<lparr>bt_connection := 0, bt_client_mac := (bt_client_mac s)[0 := 0],
                   bt_dtr := False, bt_dsr := False\<rparr>) in
        if bt_static s1
        then Some ((bt_called StreamDisconnect s1)\<lparr>bt_static := False, bt_stream := False,
                     bt_claimed := False\<rparr>)
        else if bte_mpg env then
          (if \<not> bt_stream s1 then None
           else if bte_same_read env then Some (bt_called (StreamMpgEnable False) s1) else Some s1)
        else Some s1)"

definition bt_rx_char :: "bt_env \<Rightarrow> nat \<Rightarrow> u8 \<Rightarrow> 'b rx_buffer \<Rightarrow> 'b rx_buffer" where
  "bt_rx_char env N c rb = (if bte_rt env c then rb else ring_put N c rb)"

definition bt_data_ind :: "bt_env \<Rightarrow> nat \<Rightarrow> u8 list \<Rightarrow> 'b bt \<Rightarrow> 'b bt" where
  "bt_data_ind env N data s =
     (if bt_dsr s then s\<lparr>bt_rx := fold (bt_rx_char env N) data (bt_rx s)\<rparr> else s)"

definition esp_spp_cb :: "bt_env \<Rightarrow> nat \<Rightarrow> bt_event \<Rightarrow> 'b bt \<Rightarrow> 'b bt option" where
  "esp_spp_cb env N ev s =
     (case ev of
        SppInit \<Rightarrow> Some (bt_called StartServer (bt_called SetScanMode (bt_called SetDeviceName s)))
      | SrvOpen handle mac \<Rightarrow> Some (bt_srv_open env handle mac s)
      | SppClose \<Rightarrow> bt_close env s
      | DataInd data \<Rightarrow> Some (bt_data_ind env N data s)
      | SppCong cong \<Rightarrow> Some (s\<lparr>bt_congested := \<not> cong\<rparr>)
      | SppWritten cong \<Rightarrow>
          Some ((if cong then s\<lparr>bt_congested := False\<rparr> else s)\<lparr>bt_tx_busy := True\<rparr>)
      | SppOther \<Rightarrow> Some s)"

subsection \<open>Pairing, start-up and shut-down\<close>

datatype gap_event = AuthComplete bool | PinRequest bool | ConfirmRequest | GapOther
datatype gap_reply = PinReply nat "u8 list" | ConfirmReply

definition esp_bt_gap_cb :: "gap_event \<Rightarrow> gap_reply list" where
  "esp_bt_gap_cb ev =
     (case ev of
        PinRequest min_16 \<Rightarrow>
          (if min_16 then [PinReply 16 (replicate 16 0)]
           else [PinReply 4 ([49, 50, 51, 52] @ replicate 12 0)])
      | ConfirmRequest \<Rightarrow> [ConfirmReply]
      | _ \<Rightarrow> [])"

text \<open>
  The start-up creates each resource once and keeps it: \<open>bts_*\<close> says which exist.  The
  environment has the result of each creation and of each call into the stack.
\<close>

record bt_start =
  bts_event_group :: bool
  bts_tx_queue :: bool
  bts_tx_busy :: bool
  bts_task :: bool
  bts_registered :: bool
  bts_is_up :: bool

record bt_start_env =
  bse_name_empty :: bool
  bse_event_group :: bool
  bse_tx_queue :: bool
  bse_tx_busy :: bool
  bse_task :: bool
  bse_enabled :: bool
  bse_mem_release :: bool
  bse_calls :: "bool list"

definition bt_stack_up :: "bt_start_env \<Rightarrow> bt_start \<Rightarrow> bool \<times> bt_start" where
  \<comment> \<open>the calls after the controller's memory is released: each must succeed\<close>
  "bt_stack_up env r =
     (if bse_mem_release env then
        (if (\<forall>i \<in> set [0, 1, 2, 3, 4, 5, 6, 7]. bse_calls env ! i)
         then (True, r\<lparr>bts_registered := True, bts_is_up := True\<rparr>)
         else (False, r))
      else (bts_is_up r, r))"

definition bluetooth_start_local ::
    "bt_start_env \<Rightarrow> 'b bt \<Rightarrow> bt_start \<Rightarrow> bool \<times> 'b bt \<times> bt_start" where
  "bluetooth_start_local env s r =
     (if bse_name_empty env then (False, s, r)
      else if \<not> (bts_event_group r \<or> bse_event_group env) then (False, s, r)
      else
        let r1 = r\<lparr>bts_event_group := True\<rparr>; s1 = s\<lparr>bt_congested := True\<rparr> in
        if \<not> (bts_tx_queue r1 \<or> bse_tx_queue env) then (False, s1, r1)
        else
          let r2 = r1\<lparr>bts_tx_queue := True\<rparr> in
          if \<not> (bts_tx_busy r2 \<or> bse_tx_busy env) then (False, s1, r2)
          else
            let r3 = r2\<lparr>bts_tx_busy := True\<rparr>; s3 = s1\<lparr>bt_tx_busy := True\<rparr> in
            if \<not> bts_task r3 \<and> \<not> bse_task env then (False, s3, r3)
            else
              let s4 = (if bts_task r3 then s3 else s3\<lparr>bt_suspended := True\<rparr>);
                  r4 = r3\<lparr>bts_task := True\<rparr> in
              if bse_enabled env then (True, s4, r4)
              else case bt_stack_up env r4 of (ok, r5) \<Rightarrow> (ok, s4, r5))"

record bt_stop_env =
  bpe_enabled :: bool
  bpe_disable_ok :: bool
  bpe_inited :: bool
  bpe_deinit_ok :: bool
  bpe_idle :: bool

definition bluetooth_disable_local :: "bt_stop_env \<Rightarrow> 'b bt \<Rightarrow> bt_start \<Rightarrow> bool \<times> 'b bt \<times> bt_start" where
  \<comment> \<open>the wait for the controller to leave the enabled state is taken to end; the deleted
    task's chunk goes with it\<close>
  "bluetooth_disable_local env s r =
     (if bpe_enabled env then
        let s1 = (if bt_connection s \<noteq> 0 then bt_called (SppDisconnect (bt_connection s)) s else s) in
        if \<not> bpe_disable_ok env then (False, s1, r)
        else if bpe_inited env \<and> \<not> bpe_deinit_ok env then (False, s1, r)
        else if bpe_inited env \<and> \<not> bpe_idle env then (False, s1, r)
        else
          let (s2, r1) = (if bts_task r
             then ((flush_tx_queue s1)\<lparr>bt_held := None\<rparr>, r\<lparr>bts_task := False, bts_event_group := False,
                     bts_tx_busy := False, bts_tx_queue := False\<rparr>)
             else (s1, r))
          in (True, s2, r1\<lparr>bts_is_up := False\<rparr>)
      else (True, s, r\<lparr>bts_is_up := False\<rparr>))"

subsection \<open>The order of the bytes on the transmit side\<close>

definition bt_buffered :: "'b bt \<Rightarrow> u8 list" where
  "bt_buffered s = take (unat (txb_head (bt_txb s))) (txb_data (bt_txb s))"

definition bt_held_bytes :: "'b bt \<Rightarrow> u8 list" where
  "bt_held_bytes s = (case bt_held s of None \<Rightarrow> [] | Some c \<Rightarrow> c)"

definition bt_pending :: "'b bt \<Rightarrow> u8 list" where
  \<comment> \<open>written but not yet given to the stack, oldest byte first\<close>
  "bt_pending s = bt_held_bytes s @ concat (bt_queue s) @ bt_buffered s"

fun bt_packet :: "bt_call \<Rightarrow> u8 list" where
  "bt_packet (SppWrite h bytes True) = bytes"
| "bt_packet _ = []"

definition bt_sent :: "'b bt \<Rightarrow> u8 list" where
  \<comment> \<open>the bytes that the stack has taken, in order\<close>
  "bt_sent s = concat (map bt_packet (bt_calls s))"

definition bt_chunk_ok :: "u8 list \<Rightarrow> bool" where
  "bt_chunk_ok c \<longleftrightarrow> 0 < length c \<and> length c \<le> BT_TX_BUFFER_SIZE"

definition bt_wf :: "'b bt \<Rightarrow> bool" where
  "bt_wf s \<longleftrightarrow>
     length (txb_data (bt_txb s)) = BT_TX_BUFFER_SIZE \<and>
     unat (txb_head (bt_txb s)) \<le> BT_TX_BUFFER_SIZE \<and>
     length (bt_queue s) \<le> BT_TX_QUEUE_ENTRIES \<and>
     (\<forall>c \<in> set (bt_queue s). bt_chunk_ok c) \<and>
     (case bt_held s of None \<Rightarrow> True | Some c \<Rightarrow> bt_chunk_ok c)"

lemma bt_push_line_eq:
  assumes "mem (bt_mallocs s)" "bt_push_line mem s = Some s'"
  shows "length (bt_queue s) < BT_TX_QUEUE_ENTRIES"
    and "s' = s\<lparr>bt_mallocs := Suc (bt_mallocs s), bt_queue := bt_queue s @ [bt_buffered s],
                bt_txb := (bt_txb s)\<lparr>txb_head := 0\<rparr>\<rparr>"
  using assms
  by (simp_all add: bt_push_line_def enqueue_tx_chunk_def Let_def bt_buffered_def split: if_splits)

lemma bt_push_line_spec:
  assumes wf: "bt_wf s" and mem: "mem (bt_mallocs s)" and pos: "0 < unat (txb_head (bt_txb s))"
    and ret: "bt_push_line mem s = Some s'"
  shows "bt_wf s'" and "bt_pending s' = bt_pending s" and "bt_sent s' = bt_sent s"
    and "txb_head (bt_txb s') = 0" and "bt_queue s' = bt_queue s @ [bt_buffered s]"
proof -
  note eq = bt_push_line_eq [OF mem ret]
  have "bt_chunk_ok (bt_buffered s)"
    using wf pos by (simp add: bt_chunk_ok_def bt_buffered_def bt_wf_def)
  with wf eq(1) show "bt_wf s'" unfolding eq(2) by (simp add: bt_wf_def)
  show "bt_pending s' = bt_pending s"
    unfolding eq(2) by (simp add: bt_pending_def bt_held_bytes_def bt_buffered_def)
  show "bt_sent s' = bt_sent s" "txb_head (bt_txb s') = 0"
    "bt_queue s' = bt_queue s @ [bt_buffered s]"
    unfolding eq(2) by (simp_all add: bt_sent_def)
qed

lemma bt_push_line_room:
  assumes "mem (bt_mallocs s)" "length (bt_queue s) < BT_TX_QUEUE_ENTRIES"
  shows "\<exists>s'. bt_push_line mem s = Some s'"
  using assms by (simp add: bt_push_line_def enqueue_tx_chunk_def)

lemma bt_store_spec:
  assumes "bt_wf s" "unat (txb_head (bt_txb s)) < BT_TX_BUFFER_SIZE"
  shows "bt_wf (bt_store c s)" and "bt_pending (bt_store c s) = bt_pending s @ [c]"
    and "bt_sent (bt_store c s) = bt_sent s"
    and "unat (txb_head (bt_txb (bt_store c s))) = Suc (unat (txb_head (bt_txb s)))"
    and "bt_queue (bt_store c s) = bt_queue s"
proof -
  have "unat (txb_head (bt_txb s)) < 250" using assms(2) by (simp add: bt_sizes)
  then show 1: "unat (txb_head (bt_txb (bt_store c s))) = Suc (unat (txb_head (bt_txb s)))"
    by (simp add: bt_store_def unat_word_ariths)
  show "bt_wf (bt_store c s)"
    using assms 1 by (simp add: bt_wf_def bt_store_def split: option.splits)
  show "bt_pending (bt_store c s) = bt_pending s @ [c]"
    using assms 1
    by (simp add: bt_wf_def bt_store_def bt_pending_def bt_buffered_def bt_held_bytes_def
        take_Suc_conv_app_nth bt_sizes)
  show "bt_sent (bt_store c s) = bt_sent s" "bt_queue (bt_store c s) = bt_queue s"
    by (simp_all add: bt_store_def bt_sent_def)
qed

lemma btStreamPutC_spec:
  assumes wf: "bt_wf s" and mem: "\<forall>n. mem n" and ret: "btStreamPutC mem c s = Some (r, s')"
  shows "r \<and> bt_wf s' \<and> bt_pending s' = bt_pending s @ [c] \<and> bt_sent s' = bt_sent s"
proof -
  let ?full = "unat (txb_head (bt_txb s)) = BT_TX_BUFFER_SIZE"
  from ret obtain s1 where s1: "(if ?full then bt_push_line mem s else Some s) = Some s1"
    and s3: "(if c = 10 then bt_push_line mem (bt_store c s1) else Some (bt_store c s1)) = Some s'"
    and r: "r"
    by (auto simp: btStreamPutC_def Let_def split: option.splits)
  have 1: "bt_wf s1 \<and> bt_pending s1 = bt_pending s \<and> bt_sent s1 = bt_sent s \<and>
      unat (txb_head (bt_txb s1)) < BT_TX_BUFFER_SIZE"
  proof (cases ?full)
    case True
    then have "0 < unat (txb_head (bt_txb s))" by (simp add: bt_sizes)
    from bt_push_line_spec [of s mem, OF wf mem [rule_format] this] s1 True show ?thesis by (simp add: bt_sizes)
  next
    case False
    with s1 wf show ?thesis by (simp add: bt_wf_def)
  qed
  then have st: "bt_wf (bt_store c s1)" "bt_pending (bt_store c s1) = bt_pending s @ [c]"
    "bt_sent (bt_store c s1) = bt_sent s" "0 < unat (txb_head (bt_txb (bt_store c s1)))"
    using bt_store_spec [of s1 c] by simp_all
  show ?thesis
  proof (cases "c = 10")
    case True
    from bt_push_line_spec [of "bt_store c s1" mem, OF st(1) mem [rule_format] st(4)] s3 True st r
    show ?thesis by simp
  next
    case False
    with s3 st r show ?thesis by simp
  qed
qed

lemma btStreamWrite_spec:
  assumes "bt_wf s" "\<forall>n. mem n" "btStreamWrite mem cs s = Some s'"
  shows "bt_wf s' \<and> bt_pending s' = bt_pending s @ cs \<and> bt_sent s' = bt_sent s"
  using assms
proof (induction cs arbitrary: s)
  case Nil
  then show ?case by simp
next
  case (Cons c cs)
  from Cons.prems(3) obtain r s1 where s1: "btStreamPutC mem c s = Some (r, s1)"
    and rest: "btStreamWrite mem cs s1 = Some s'"
    by (auto split: option.splits)
  from btStreamPutC_spec [OF Cons.prems(1,2) s1]
  have "bt_wf s1" "bt_pending s1 = bt_pending s @ [c]" "bt_sent s1 = bt_sent s" by auto
  with Cons.IH [OF _ Cons.prems(2) rest] show ?case by simp
qed

text \<open>How many chunks a write can queue: one for each line feed, one for each full buffer.\<close>

definition bt_chunks :: "u8 list \<Rightarrow> 'b bt \<Rightarrow> nat" where
  "bt_chunks cs s =
     length (bt_queue s) + length (filter (\<lambda>c. c = 10) cs) +
       (unat (txb_head (bt_txb s)) + length cs) div BT_TX_BUFFER_SIZE"

lemma btStreamPutC_room:
  assumes wf: "bt_wf s" and mem: "\<forall>n. mem n" and room: "bt_chunks (c # cs) s \<le> BT_TX_QUEUE_ENTRIES"
  shows "\<exists>s'. btStreamPutC mem c s = Some (True, s') \<and> bt_chunks cs s' \<le> BT_TX_QUEUE_ENTRIES"
proof -
  let ?h = "unat (txb_head (bt_txb s))" and ?n = "length cs"
  let ?lf = "\<lambda>cs. length (filter (\<lambda>c. c = (10::u8)) cs)"
  define s1 where "s1 = (if ?h = 250 then the (bt_push_line mem s) else s)"
  have s1: "(if ?h = 250 then bt_push_line mem s else Some s) = Some s1 \<and> bt_wf s1 \<and>
      unat (txb_head (bt_txb s1)) < 250 \<and>
      length (bt_queue s1) + ?lf (c # cs) + (Suc (unat (txb_head (bt_txb s1))) + ?n) div 250 \<le> 32"
  proof (cases "?h = 250")
    case True
    then have q: "length (bt_queue s) + ?lf (c # cs) + Suc ((Suc ?n) div 250) \<le> 32"
      using room by (simp add: bt_chunks_def bt_sizes)
    then have "length (bt_queue s) < BT_TX_QUEUE_ENTRIES" by (simp add: bt_sizes)
    then obtain s' where s': "bt_push_line mem s = Some s'"
      using bt_push_line_room [of mem s] mem by blast
    have "0 < ?h" using True by simp
    from bt_push_line_spec [of s mem, OF wf mem [rule_format] this s'] q True s' show ?thesis
      by (simp add: s1_def)
  next
    case False
    with wf room show ?thesis by (simp add: s1_def bt_wf_def bt_chunks_def bt_sizes)
  qed
  define s2 where "s2 = bt_store c s1"
  have s2: "bt_wf s2" "bt_queue s2 = bt_queue s1"
    "unat (txb_head (bt_txb s2)) = Suc (unat (txb_head (bt_txb s1)))"
    using bt_store_spec [of s1 c] s1 by (simp_all add: s2_def bt_sizes)
  have put: "btStreamPutC mem c s =
      (case (if c = 10 then bt_push_line mem s2 else Some s2) of None \<Rightarrow> None | Some s3 \<Rightarrow> Some (True, s3))"
    using s1 by (simp add: btStreamPutC_def s2_def Let_def bt_sizes)
  show ?thesis
  proof (cases "c = 10")
    case True
    then have "length (bt_queue s2) < BT_TX_QUEUE_ENTRIES"
      using s1 s2 by (simp add: bt_sizes)
    then obtain s3 where s3: "bt_push_line mem s2 = Some s3"
      using bt_push_line_room [of mem s2] mem by blast
    have "0 < unat (txb_head (bt_txb s2))" using s2 by simp
    from bt_push_line_spec [of s2 mem, OF s2(1) mem [rule_format] this s3]
    have "length (bt_queue s3) = Suc (length (bt_queue s1))" "txb_head (bt_txb s3) = 0"
      using s2 by simp_all
    moreover have "?n div 250 \<le> (Suc (unat (txb_head (bt_txb s1))) + ?n) div 250"
      by (rule div_le_mono) simp
    ultimately have "bt_chunks cs s3 \<le> BT_TX_QUEUE_ENTRIES"
      using s1 True by (simp add: bt_chunks_def bt_sizes)
    with put s3 True show ?thesis by simp
  next
    case False
    with put s1 s2 show ?thesis by (simp add: bt_chunks_def bt_sizes)
  qed
qed

lemma btStreamWrite_room:
  assumes "bt_wf s" "\<forall>n. mem n" "bt_chunks cs s \<le> BT_TX_QUEUE_ENTRIES"
  shows "\<exists>s'. btStreamWrite mem cs s = Some s'"
  using assms
proof (induction cs arbitrary: s)
  case Nil
  then show ?case by simp
next
  case (Cons c cs)
  from btStreamPutC_room [OF Cons.prems] obtain s1
    where s1: "btStreamPutC mem c s = Some (True, s1)" "bt_chunks cs s1 \<le> BT_TX_QUEUE_ENTRIES"
    by blast
  with btStreamPutC_spec [OF Cons.prems(1,2) s1(1)] Cons.IH [OF _ Cons.prems(2)]
  show ?case by simp
qed

lemma tx_gather_bytes:
  "tx_gather room buf held q = (buf', room', held', q') \<Longrightarrow>
     buf' @ (case held' of None \<Rightarrow> [] | Some c \<Rightarrow> c) @ concat q' =
     buf @ (case held of None \<Rightarrow> [] | Some c \<Rightarrow> c) @ concat q"
  by (induction room buf held q rule: tx_gather.induct) (auto split: if_splits)

lemma tx_gather_room:
  "tx_gather room buf held q = (buf', room', held', q') \<Longrightarrow>
     room' \<le> room \<and> length buf' + room' = length buf + room \<and> (0 < room \<longrightarrow> 0 < room') \<and>
     length q' \<le> length q"
  by (induction room buf held q rule: tx_gather.induct) (auto split: if_splits)

lemma tx_gather_ok:
  "tx_gather room buf held q = (buf', room', held', q') \<Longrightarrow>
     \<forall>c \<in> set q. bt_chunk_ok c \<Longrightarrow> (case held of None \<Rightarrow> True | Some c \<Rightarrow> bt_chunk_ok c) \<Longrightarrow>
     (\<forall>c \<in> set q'. bt_chunk_ok c) \<and> (case held' of None \<Rightarrow> True | Some c \<Rightarrow> bt_chunk_ok c)"
  by (induction room buf held q rule: tx_gather.induct) (auto split: if_splits)

lemma tx_gather_first:
  assumes "length ch < room" "tx_gather room buf (Some ch) q = (buf', room', held', q')"
  shows "length ch \<le> room - room'"
proof (cases q)
  case Nil
  with assms show ?thesis by auto
next
  case (Cons c cs)
  with assms have "tx_gather (room - length ch) (buf @ ch) (Some c) cs = (buf', room', held', q')"
    by simp
  from tx_gather_room [OF this] assms(1) show ?thesis by linarith
qed

lemma bt_next_chunk_spec:
  assumes wf: "bt_wf s" and q: "bt_queue s \<noteq> []"
  obtains ch where "bt_held (bt_next_chunk s) = Some ch" "bt_chunk_ok ch"
    "bt_wf (bt_next_chunk s)" "bt_pending (bt_next_chunk s) = bt_pending s"
    "bt_calls (bt_next_chunk s) = bt_calls s" "bt_connection (bt_next_chunk s) = bt_connection s"
proof (cases "bt_held s")
  case None
  from q obtain c cs where c: "bt_queue s = c # cs" by (cases "bt_queue s") auto
  have eq: "bt_next_chunk s = s\<lparr>bt_held := Some c, bt_queue := cs\<rparr>"
    using None c by (simp add: bt_next_chunk_def)
  have ok: "bt_chunk_ok c" using wf c by (simp add: bt_wf_def)
  have wf': "bt_wf (bt_next_chunk s)" using wf c ok unfolding eq by (simp add: bt_wf_def)
  have "bt_pending (bt_next_chunk s) = bt_pending s"
    using None c unfolding eq by (simp add: bt_pending_def bt_held_bytes_def bt_buffered_def)
  then show thesis using that [of c] ok wf' eq by simp
next
  case (Some c)
  then have "bt_next_chunk s = s" by (simp add: bt_next_chunk_def)
  then show thesis using that [of c] wf Some by (simp add: bt_wf_def)
qed

text \<open>
  One packet: it is never empty, it holds at most 255 bytes, and the bytes sent and pending are
  the same sequence before and after, whether or not the stack takes it; when the stack refuses
  the packet, its bytes are gone.
\<close>

lemma bt_poll_send_spec:
  assumes wf: "bt_wf s" and q: "bt_queue s \<noteq> []"
  obtains bytes where
    "bt_calls (bt_poll_send wr s) = bt_calls s @ [SppWrite (bt_connection s) bytes wr]"
    "0 < length bytes" "length bytes \<le> 255"
    "bytes @ bt_pending (bt_poll_send wr s) = bt_pending s"
    "bt_wf (bt_poll_send wr s)"
    "bt_tx_busy (bt_poll_send wr s) = (\<not> wr)"
proof -
  define s1 where "s1 = bt_next_chunk s"
  from bt_next_chunk_spec [OF wf q] obtain ch where
    h: "bt_held s1 = Some ch" and ch: "bt_chunk_ok ch" and wf1: "bt_wf s1" and
    pend: "bt_pending s1 = bt_pending s" and calls: "bt_calls s1 = bt_calls s" and
    conn: "bt_connection s1 = bt_connection s"
    unfolding s1_def by blast
  have len: "length ch < 256" "0 < length ch" using ch by (simp_all add: bt_chunk_ok_def bt_sizes)
  obtain buf room held q' where
    g: "tx_gather 256 [] (Some ch) (bt_queue s1) = (buf, room, held, q')"
    by (cases "tx_gather 256 [] (Some ch) (bt_queue s1)") auto
  have room: "length buf + room = 256" "0 < room" "length q' \<le> length (bt_queue s1)"
    using tx_gather_room [OF g] by auto
  have "length ch \<le> 256 - room" by (rule tx_gather_first [OF len(1) g])
  then have "room < 256" using len(2) by linarith
  then have room256: "room \<noteq> 256" "0 < length buf" using room(1) by auto
  define s2 where "s2 = (spp_write wr buf (s1\<lparr>bt_held := held, bt_queue := q'\<rparr>))\<lparr>bt_tx_busy := \<not> wr\<rparr>"
  have eq: "bt_poll_send wr s = s2"
    using len g room256 h by (simp add: bt_poll_send_def s1_def [symmetric] s2_def Let_def)
  have p2: "bt_pending s2 = (case held of None \<Rightarrow> [] | Some c \<Rightarrow> c) @ concat q' @ bt_buffered s1"
    by (simp add: bt_pending_def s2_def spp_write_def bt_called_def bt_held_bytes_def bt_buffered_def)
  have p1: "bt_pending s = ch @ concat (bt_queue s1) @ bt_buffered s1"
    using h pend [symmetric] by (simp only: bt_pending_def bt_held_bytes_def option.case)
  have "buf @ (case held of None \<Rightarrow> [] | Some c \<Rightarrow> c) @ concat q' = ch @ concat (bt_queue s1)"
    using tx_gather_bytes [OF g] by simp
  then have bytes: "buf @ bt_pending s2 = bt_pending s"
    unfolding p1 p2 by (metis append.assoc)
  have wf2: "bt_wf s2"
    using wf1 tx_gather_ok [OF g] room(3) h ch
    by (auto simp: bt_wf_def s2_def spp_write_def bt_called_def)
  have calls2: "bt_calls s2 = bt_calls s @ [SppWrite (bt_connection s) buf wr]"
    by (simp add: s2_def spp_write_def bt_called_def calls conn)
  have "bt_tx_busy s2 = (\<not> wr)" by (simp add: s2_def)
  moreover have "length buf \<le> 255" using room by linarith
  ultimately show thesis
    using that [of buf] calls2 bytes wf2 room256 unfolding eq by blast
qed


lemma bt_poll_cases:
  assumes wf: "bt_wf s"
  obtains (idle) "\<not> bt_can_send s" "bt_wf (pollTX wr s)" "bt_pending (pollTX wr s) = bt_pending s"
      "bt_calls (pollTX wr s) = bt_calls s" "bt_tx_busy (pollTX wr s) = bt_tx_busy s"
  | (packet) bytes where "bt_can_send s"
      "bt_calls (pollTX wr s) = bt_calls s @ [SppWrite (bt_connection s) bytes wr]"
      "0 < length bytes" "length bytes \<le> 255" "bytes @ bt_pending (pollTX wr s) = bt_pending s"
      "bt_wf (pollTX wr s)" "bt_tx_busy (pollTX wr s) = (\<not> wr)"
proof -
  have susp: "bt_wf (if b then t else t\<lparr>bt_suspended := True\<rparr>) = bt_wf t"
    "bt_pending (if b then t else t\<lparr>bt_suspended := True\<rparr>) = bt_pending t"
    "bt_calls (if b then t else t\<lparr>bt_suspended := True\<rparr>) = bt_calls t"
    "bt_tx_busy (if b then t else t\<lparr>bt_suspended := True\<rparr>) = bt_tx_busy t" for b and t :: "'a bt"
    by (simp_all add: bt_wf_def bt_pending_def bt_held_bytes_def bt_buffered_def)
  show thesis
  proof (cases "bt_can_send s")
    case False
    then have "pollTX wr s = (if bt_connection s \<noteq> 0 then s else s\<lparr>bt_suspended := True\<rparr>)"
      by (simp add: pollTX_def)
    then show thesis using idle [OF False] wf susp by metis
  next
    case True
    let ?s = "s\<lparr>bt_tx_busy := False\<rparr>"
    have wf': "bt_wf ?s" and q: "bt_queue ?s \<noteq> []" and p: "bt_pending ?s = bt_pending s"
      using wf True by (simp_all add: bt_wf_def bt_can_send_def bt_pending_def bt_held_bytes_def bt_buffered_def)
    from bt_poll_send_spec [OF wf' q, of wr] obtain bytes where b:
      "bt_calls (bt_poll_send wr ?s) = bt_calls s @ [SppWrite (bt_connection s) bytes wr]"
      "0 < length bytes" "length bytes \<le> 255"
      "bytes @ bt_pending (bt_poll_send wr ?s) = bt_pending s"
      "bt_wf (bt_poll_send wr ?s)" "bt_tx_busy (bt_poll_send wr ?s) = (\<not> wr)"
      using p by auto
    have "pollTX wr s = (let s1 = bt_poll_send wr ?s in
        if bt_connection s1 \<noteq> 0 then s1 else s1\<lparr>bt_suspended := True\<rparr>)"
      using True by (simp add: pollTX_def)
    then show thesis using packet [OF True, of bytes] b susp by (simp add: Let_def)
  qed
qed

subsection \<open>A connection: writer, poll task and link events interleaved\<close>

definition bt_link_event :: "'b bt \<Rightarrow> bt_event \<Rightarrow> bool" where
  \<comment> \<open>the events that neither open nor end the session\<close>
  "bt_link_event s ev =
     (case ev of SrvOpen h mac \<Rightarrow> bt_dtr s | SppClose \<Rightarrow> bt_second s | _ \<Rightarrow> True)"

inductive bt_step :: "bt_env \<Rightarrow> nat \<Rightarrow> (nat \<Rightarrow> bool) \<Rightarrow> 'b bt \<Rightarrow> u8 list \<Rightarrow> 'b bt \<Rightarrow> bool"
  for env :: bt_env and N :: nat and mem :: "nat \<Rightarrow> bool" where
  put: "btStreamWrite mem bs s = Some s' \<Longrightarrow> bt_step env N mem s bs s'"
| poll: "bt_step env N mem s [] (pollTX True s)"
| event: "bt_link_event s ev \<Longrightarrow> esp_spp_cb env N ev s = Some s' \<Longrightarrow> bt_step env N mem s [] s'"
| getc: "bt_step env N mem s [] (snd (btStreamGetC N s))"
| flush: "bt_step env N mem s [] (btStreamFlush s)"
| cancel: "bt_step env N mem s [] (btStreamCancel N s)"
| rx_disable: "bt_step env N mem s [] (snd (btRxDisable b s))"

inductive bt_run :: "bt_env \<Rightarrow> nat \<Rightarrow> (nat \<Rightarrow> bool) \<Rightarrow> 'b bt \<Rightarrow> u8 list \<Rightarrow> 'b bt \<Rightarrow> bool"
  for env :: bt_env and N :: nat and mem :: "nat \<Rightarrow> bool" where
  refl: "bt_run env N mem s [] s"
| step: "bt_run env N mem s w s' \<Longrightarrow> bt_step env N mem s' w' s'' \<Longrightarrow> bt_run env N mem s (w @ w') s''"

definition bt_tx_same :: "'b bt \<Rightarrow> 'b bt \<Rightarrow> bool" where
  \<comment> \<open>the transmit side is untouched\<close>
  "bt_tx_same s s' \<longleftrightarrow>
     bt_txb s' = bt_txb s \<and> bt_queue s' = bt_queue s \<and> bt_held s' = bt_held s \<and> bt_sent s' = bt_sent s"

lemma bt_tx_sameD:
  assumes "bt_tx_same s s'"
  shows "bt_wf s' = bt_wf s" "bt_pending s' = bt_pending s" "bt_sent s' = bt_sent s"
  using assms by (simp_all add: bt_tx_same_def bt_wf_def bt_pending_def bt_held_bytes_def bt_buffered_def)

lemma bt_sent_called:
  "bt_packet c = [] \<Longrightarrow> bt_calls s' = bt_calls s @ [c] \<Longrightarrow> bt_sent s' = bt_sent s"
  by (simp add: bt_sent_def)

lemma bt_link_event_same:
  assumes "bt_link_event s ev" "esp_spp_cb env N ev s = Some s'"
  shows "bt_tx_same s s'"
proof (cases ev)
  case SppInit
  with assms show ?thesis by (auto simp: esp_spp_cb_def bt_tx_same_def bt_called_def bt_sent_def)
next
  case (SrvOpen h mac)
  with assms show ?thesis
    by (auto simp: esp_spp_cb_def bt_tx_same_def bt_called_def bt_sent_def bt_link_event_def
        bt_srv_open_def)
next
  case SppClose
  with assms show ?thesis
    by (auto simp: esp_spp_cb_def bt_tx_same_def bt_sent_def bt_link_event_def bt_close_def)
next
  case (DataInd data)
  with assms show ?thesis by (auto simp: esp_spp_cb_def bt_tx_same_def bt_sent_def bt_data_ind_def)
qed (use assms in \<open>auto simp: esp_spp_cb_def bt_tx_same_def bt_sent_def\<close>)

lemma bt_rx_same:
  "bt_tx_same s (snd (btStreamGetC N s))" "bt_tx_same s (btStreamFlush s)"
  "bt_tx_same s (btStreamCancel N s)" "bt_tx_same s (snd (btRxDisable b s))"
  by (auto simp: bt_tx_same_def btStreamGetC_def btStreamFlush_def btStreamCancel_def
      btRxDisable_def bt_sent_def split: prod.splits)




definition bt_env0 :: bt_env where
  "bt_env0 = \<lparr>bte_rt = (\<lambda>c. c = 63), bte_connects = True, bte_mpg = False, bte_same_read = False\<rparr>"

definition bt_mac0 :: "u8 list" where "bt_mac0 = [1, 2, 3, 4, 5, 171]"

definition bt0 :: "unit bt" where
  "bt0 = bt_srv_open bt_env0 7 bt_mac0 (bt_init ring0)"

lemma bt_init_wf: "bt_wf (bt_init rb)"
  by (simp add: bt_wf_def bt_init_def)

lemma bt_srv_open_wf:
  assumes "bt_wf s" shows "bt_wf (bt_srv_open env h mac s)"
  using assms
  by (auto simp: bt_wf_def bt_srv_open_def bt_called_def bt_claim_stream_def Let_def)

lemma bt0_wf: "bt_wf bt0"
  unfolding bt0_def by (rule bt_srv_open_wf [OF bt_init_wf])

lemma bt0_start: "bt_sent bt0 = [] \<and> bt_pending bt0 = []"
  by (simp add: bt0_def bt_srv_open_def bt_init_def bt_called_def bt_claim_stream_def bt_env0_def
      bt_sent_def bt_pending_def bt_held_bytes_def bt_buffered_def)


text \<open>
  A write to the Bluetooth stream returns whenever the chunks it can complete fit the
  queue: one for each line feed and one for each full line buffer, beside those already queued.
  The bytes that are not yet in a chunk stay in the line buffer.
\<close>

theorem bt_write_returns:
  assumes "bt_wf s" "\<forall>n. mem n" "bt_chunks cs s \<le> BT_TX_QUEUE_ENTRIES"
  shows "\<exists>s'. btStreamWrite mem cs s = Some s' \<and> bt_pending s' = bt_pending s @ cs"
  using btStreamWrite_room [OF assms] btStreamWrite_spec [OF assms(1,2)] by blast

theorem bt_write_returns_witness:
  "\<exists>s'. btStreamWrite (\<lambda>_. True) (replicate 300 66 @ [10]) bt0 = Some s' \<and>
     bt_pending s' = replicate 300 66 @ [10]"
proof -
  have "bt_chunks (replicate 300 66 @ [10]) bt0 \<le> BT_TX_QUEUE_ENTRIES"
    by (simp add: bt_chunks_def bt0_def bt_srv_open_def bt_init_def bt_called_def
        bt_claim_stream_def bt_env0_def bt_sizes)
  from bt_write_returns [OF bt0_wf _ this, of "\<lambda>_. True"] bt0_start show ?thesis by simp
qed

text \<open>
  With 32 chunks queued a line feed makes the writer wait; nothing but a turn of the poll task
  on an open connection makes room.
\<close>

lemma bt_write_blocks:
  assumes "length (bt_queue s) = BT_TX_QUEUE_ENTRIES" "\<forall>n. mem n"
    "unat (txb_head (bt_txb s)) < BT_TX_BUFFER_SIZE"
  shows "btStreamPutC mem 10 s = None"
  using assms by (simp add: btStreamPutC_def Let_def bt_store_def bt_push_line_def enqueue_tx_chunk_def)

text \<open>
  Each turn of the poll task either leaves the transmit side alone or hands the stack one
  packet of 1 to 255 bytes that is the oldest pending data, and takes the busy token exactly
  when the stack accepts the packet; a packet that the stack refuses is dropped.
\<close>

theorem bt_poll_packet:
  assumes "bt_wf s"
  shows "(if bt_can_send s then
            \<exists>bytes. 0 < length bytes \<and> length bytes \<le> 255 \<and>
              bt_calls (pollTX wr s) = bt_calls s @ [SppWrite (bt_connection s) bytes wr] \<and>
              bytes @ bt_pending (pollTX wr s) = bt_pending s \<and> bt_tx_busy (pollTX wr s) = (\<not> wr)
          else bt_calls (pollTX wr s) = bt_calls s \<and> bt_pending (pollTX wr s) = bt_pending s)"
  using assms
proof (cases rule: bt_poll_cases [where wr = wr])
  case idle
  then show ?thesis by simp
next
  case (packet bytes)
  then show ?thesis by auto
qed

theorem bt_poll_packet_witness:
  "let s = the (btStreamWrite (\<lambda>_. True) [65, 10] bt0) in
     \<exists>bytes. bt_calls (pollTX True s) = bt_calls s @ [SppWrite (bt_connection s) bytes True] \<and>
       bytes @ bt_pending (pollTX True s) = [65, 10]"
proof -
  define s where "s = the (btStreamWrite (\<lambda>_. True) [65, 10] bt0)"
  have "bt_chunks [65, 10] bt0 \<le> BT_TX_QUEUE_ENTRIES"
    by (simp add: bt_chunks_def bt0_def bt_srv_open_def bt_init_def bt_called_def
        bt_claim_stream_def bt_env0_def bt_sizes)
  from btStreamWrite_room [OF bt0_wf _ this, of "\<lambda>_. True"]
  have s: "btStreamWrite (\<lambda>_. True) [65, 10] bt0 = Some s" by (auto simp: s_def)
  then have wf: "bt_wf s" and p: "bt_pending s = [65, 10]"
    using btStreamWrite_spec [OF bt0_wf _ s] bt0_start by simp_all
  have can: "bt_can_send s" unfolding s_def by code_simp
  show ?thesis
    unfolding s_def [symmetric] Let_def
    using bt_poll_packet [OF wf, of True] can p by auto
qed

lemma bt_held_waits:
  \<comment> \<open>a chunk left over from the last packet is not sent until another one is queued\<close>
  "bt_queue s = [] \<Longrightarrow> bt_connection s \<noteq> 0 \<Longrightarrow> pollTX wr s = s"
  by (simp add: pollTX_def bt_can_send_def)

subsection \<open>The session\<close>

definition bt_event_ok :: "bt_event \<Rightarrow> bool" where
  \<comment> \<open>connection handles are not zero and addresses have six bytes\<close>
  "bt_event_ok ev = (case ev of SrvOpen h mac \<Rightarrow> h \<noteq> 0 \<and> length mac = 6 | _ \<Rightarrow> True)"

inductive bt_reach :: "nat \<Rightarrow> 'b bt \<Rightarrow> bool" for N :: nat where
  start: "ring_inv N rb \<Longrightarrow> bt_reach N (bt_init rb)"
| event: "bt_reach N s \<Longrightarrow> bt_event_ok ev \<Longrightarrow> esp_spp_cb env N ev s = Some s' \<Longrightarrow> bt_reach N s'"
| claim: "bt_reach N s \<Longrightarrow> bt_reach N (snd (bt_claim_stream baud s))"
| put: "bt_reach N s \<Longrightarrow> btStreamPutC mem c s = Some (r, s') \<Longrightarrow> bt_reach N s'"
| poll: "bt_reach N s \<Longrightarrow> bt_reach N (pollTX wr s)"
| getc: "bt_reach N s \<Longrightarrow> bt_reach N (snd (btStreamGetC N s))"
| flush: "bt_reach N s \<Longrightarrow> bt_reach N (btStreamFlush s)"
| cancel: "bt_reach N s \<Longrightarrow> bt_reach N (btStreamCancel N s)"
| rx_disable: "bt_reach N s \<Longrightarrow> bt_reach N (snd (btRxDisable b s))"
| set_baud: "bt_reach N s \<Longrightarrow> bt_reach N (snd (btStreamSetBaudRate baud s))"

definition bt_session_ok :: "'b bt \<Rightarrow> bool" where
  "bt_session_ok s \<longleftrightarrow>
     (bt_dtr s \<longleftrightarrow> bt_connection s \<noteq> 0) \<and>
     (bt_dtr s \<longleftrightarrow> bluetooth_get_client_mac s \<noteq> None) \<and>
     (bt_dtr s \<longrightarrow> bt_stream s \<and> \<not> bt_suspended s) \<and>
     (bt_static s \<longrightarrow> bt_stream s \<and> bt_dtr s) \<and>
     (bt_claimed s \<longrightarrow> bt_stream s) \<and>
     (bt_second s \<longrightarrow> bt_dtr s)"

lemma get_client_mac_iff: "bluetooth_get_client_mac s \<noteq> None \<longleftrightarrow> bt_client_mac s ! 0 \<noteq> 0"
  by (simp add: bluetooth_get_client_mac_def)

definition bt_typed :: "nat \<Rightarrow> 'b bt \<Rightarrow> bool" where
  \<comment> \<open>every array keeps its length and every index stays inside\<close>
  "bt_typed N s \<longleftrightarrow> bt_wf s \<and> ring_inv N (bt_rx s) \<and> length (bt_client_mac s) = 18"

definition bt_same_session :: "'b bt \<Rightarrow> 'b bt \<Rightarrow> bool" where
  "bt_same_session s s' \<longleftrightarrow>
     bt_dtr s' = bt_dtr s \<and> bt_connection s' = bt_connection s \<and>
     bt_client_mac s' = bt_client_mac s \<and> bt_stream s' = bt_stream s \<and>
     bt_static s' = bt_static s \<and> bt_claimed s' = bt_claimed s \<and> bt_second s' = bt_second s \<and>
     (bt_suspended s' \<longrightarrow> bt_suspended s \<or> bt_connection s = 0)"

lemma bt_same_session_ok:
  "bt_same_session s s' \<Longrightarrow> bt_session_ok s \<Longrightarrow> bt_session_ok s'"
  unfolding bt_same_session_def bt_session_ok_def get_client_mac_iff by auto

lemma bt_same_session_refl [simp]: "bt_same_session s s"
  by (simp add: bt_same_session_def)

lemma bt_same_session_trans:
  "bt_same_session s s' \<Longrightarrow> bt_same_session s' s'' \<Longrightarrow> bt_same_session s s''"
  unfolding bt_same_session_def by auto

lemma bt_push_line_session:
  "bt_push_line mem s = Some s' \<Longrightarrow> bt_same_session s s' \<and> bt_rx s' = bt_rx s"
  by (auto simp: bt_push_line_def enqueue_tx_chunk_def Let_def bt_same_session_def split: if_splits)

lemma bt_store_session: "bt_same_session s (bt_store c s) \<and> bt_rx (bt_store c s) = bt_rx s"
  by (simp add: bt_store_def bt_same_session_def)

lemma btStreamPutC_session:
  assumes "btStreamPutC mem c s = Some (r, s')"
  shows "bt_same_session s s' \<and> bt_rx s' = bt_rx s"
proof -
  from assms obtain s1 where
    s1: "(if unat (txb_head (bt_txb s)) = BT_TX_BUFFER_SIZE then bt_push_line mem s else Some s) = Some s1"
    and s3: "(if c = 10 then bt_push_line mem (bt_store c s1) else Some (bt_store c s1)) = Some s'"
    by (auto simp: btStreamPutC_def Let_def split: option.splits)
  have 1: "bt_same_session s s1 \<and> bt_rx s1 = bt_rx s"
    using s1 bt_push_line_session [of mem s s1] by (auto split: if_splits)
  have 2: "bt_same_session s1 (bt_store c s1) \<and> bt_rx (bt_store c s1) = bt_rx s1"
    by (rule bt_store_session)
  have 3: "bt_same_session (bt_store c s1) s' \<and> bt_rx s' = bt_rx (bt_store c s1)"
    using s3 bt_push_line_session [of mem "bt_store c s1" s'] by (auto split: if_splits)
  from 1 2 3 show ?thesis by (metis bt_same_session_trans)
qed

lemma bt_poll_send_session:
  "bt_same_session s (bt_poll_send wr s) \<and> bt_rx (bt_poll_send wr s) = bt_rx s"
  by (simp add: bt_poll_send_def bt_next_chunk_def spp_write_def bt_called_def Let_def
      bt_same_session_def split: option.splits list.splits prod.splits)

lemma pollTX_session: "bt_same_session s (pollTX wr s) \<and> bt_rx (pollTX wr s) = bt_rx s"
  using bt_poll_send_session [of "s\<lparr>bt_tx_busy := False\<rparr>" wr]
  by (auto simp: pollTX_def Let_def bt_same_session_def)

lemma hex_digit_nonzero: "d < 16 \<Longrightarrow> hex_digit d \<noteq> 0"
  by (auto simp: hex_digit_def word_less_nat_alt word_unat_eq_iff unat_word_ariths)

lemma length_mac_string: "mac \<noteq> [] \<Longrightarrow> length (mac_string mac) = 3 * length mac - 1"
  by (induction mac rule: mac_string.induct) (auto simp: hex_byte_def)

lemma sprintf_mac_length: "length mac = 6 \<Longrightarrow> length (sprintf_mac mac) = 18"
  by (cases "mac = []") (auto simp: sprintf_mac_def length_mac_string)

lemma drop_bit_4_less: "(drop_bit 4 b :: u8) < 16"
proof -
  have "unat (drop_bit 4 b) = unat b div 16" by (simp add: unat_drop_bit_eq drop_bit_eq_div unat_div)
  moreover have "unat b < 256" using unsigned_less [of b, where ?'a = nat] by simp
  ultimately show ?thesis by (simp add: word_less_nat_alt)
qed

lemma sprintf_mac_first:
  assumes "length mac = 6" shows "sprintf_mac mac ! 0 \<noteq> 0"
proof -
  from assms obtain b c bs where "mac = b # c # bs" by (cases mac; cases "tl mac") auto
  then show ?thesis
    using hex_digit_nonzero [OF drop_bit_4_less [of b]] assms
    by (simp add: sprintf_mac_def hex_byte_def)
qed

lemma flush_tx_queue_simps [simp]:
  "bt_dtr (flush_tx_queue s) = bt_dtr s" "bt_connection (flush_tx_queue s) = bt_connection s"
  "bt_client_mac (flush_tx_queue s) = bt_client_mac s" "bt_stream (flush_tx_queue s) = bt_stream s"
  "bt_static (flush_tx_queue s) = bt_static s" "bt_claimed (flush_tx_queue s) = bt_claimed s"
  "bt_second (flush_tx_queue s) = bt_second s" "bt_suspended (flush_tx_queue s) = bt_suspended s"
  "bt_rx (flush_tx_queue s) = bt_rx s" "bt_held (flush_tx_queue s) = bt_held s"
  "bt_txb (flush_tx_queue s) = bt_txb s" "bt_queue (flush_tx_queue s) = []"
  "bt_calls (flush_tx_queue s) = bt_calls s"
  by (simp_all add: flush_tx_queue_def)

lemma bt_close_session:
  assumes "bt_session_ok s" "length (bt_client_mac s) = 18" "bt_close env s = Some s'"
  shows "bt_session_ok s' \<and> length (bt_client_mac s') = 18 \<and> bt_rx s' = bt_rx s"
  using assms
  by (cases "bt_second s"; cases "bt_static s")
    (auto simp: bt_close_def Let_def bt_session_ok_def bt_called_def get_client_mac_iff
      simp del: not_None_eq split: if_splits)

lemma bt_srv_open_session:
  assumes "bt_session_ok s" "h \<noteq> 0" "length mac = 6" "length (bt_client_mac s) = 18"
  shows "bt_session_ok (bt_srv_open env h mac s) \<and>
         length (bt_client_mac (bt_srv_open env h mac s)) = 18"
  using assms sprintf_mac_first [of mac] sprintf_mac_length [of mac]
  by (cases "bt_dtr s"; cases "bt_claimed s"; cases "bt_suspended s"; cases "bte_connects env")
    (simp_all add: bt_srv_open_def Let_def bt_session_ok_def bt_called_def bt_claim_stream_def
      get_client_mac_iff del: not_None_eq)

lemma fold_bt_rx_char_inv: "ring_inv N rb \<Longrightarrow> ring_inv N (fold (bt_rx_char env N) cs rb)"
  by (induction cs arbitrary: rb) (simp_all add: bt_rx_char_def ring_put_inv)

lemma bt_push_line_wf:
  assumes "bt_wf s" "0 < unat (txb_head (bt_txb s))" "bt_push_line mem s = Some s'"
  shows "bt_wf s' \<and> txb_head (bt_txb s') = 0"
proof (cases "mem (bt_mallocs s)")
  case True
  with bt_push_line_spec [of s mem s'] assms show ?thesis by simp
next
  case False
  with assms(3) have "s' = s\<lparr>bt_mallocs := Suc (bt_mallocs s), bt_txb := (bt_txb s)\<lparr>txb_head := 0\<rparr>\<rparr>"
    by (simp add: bt_push_line_def enqueue_tx_chunk_def Let_def)
  with assms(1) show ?thesis by (simp add: bt_wf_def)
qed

lemma btStreamPutC_wf:
  assumes wf: "bt_wf s" and ret: "btStreamPutC mem c s = Some (r, s')"
  shows "bt_wf s'"
proof -
  let ?full = "unat (txb_head (bt_txb s)) = BT_TX_BUFFER_SIZE"
  from ret obtain s1 where s1: "(if ?full then bt_push_line mem s else Some s) = Some s1"
    and s3: "(if c = 10 then bt_push_line mem (bt_store c s1) else Some (bt_store c s1)) = Some s'"
    by (auto simp: btStreamPutC_def Let_def split: option.splits)
  have 1: "bt_wf s1 \<and> unat (txb_head (bt_txb s1)) < BT_TX_BUFFER_SIZE"
  proof (cases ?full)
    case True
    with bt_push_line_wf [OF wf, of mem s1] s1 show ?thesis by (simp add: bt_sizes)
  next
    case False
    with s1 wf show ?thesis by (simp add: bt_wf_def)
  qed
  note 2 = bt_store_spec [OF 1 [THEN conjunct1] 1 [THEN conjunct2], of c]
  show ?thesis
  proof (cases "c = 10")
    case True
    with bt_push_line_wf [OF 2(1)] 2(4) s3 show ?thesis by simp
  next
    case False
    with s3 2(1) show ?thesis by simp
  qed
qed

lemma bt_close_wf:
  assumes "bt_wf s" "bt_close env s = Some s'" shows "bt_wf s'"
proof -
  let ?s1 = "flush_tx_queue (s\<lparr>bt_connection := 0, bt_client_mac := (bt_client_mac s)[0 := 0],
      bt_dtr := False, bt_dsr := False\<rparr>)"
  have "bt_wf ?s1" using assms(1) by (simp add: bt_wf_def)
  then show ?thesis
    using assms
    by (cases "bt_second s"; cases "bt_static s")
      (auto simp: bt_close_def Let_def bt_called_def bt_wf_def split: if_splits)
qed

lemma pollTX_wf: "bt_wf s \<Longrightarrow> bt_wf (pollTX wr s)"
  by (rule bt_poll_cases [where wr = wr]; simp)

lemma bt_same_typed:
  "bt_same_session s s' \<Longrightarrow> bt_typed N s \<Longrightarrow> bt_wf s' \<Longrightarrow> ring_inv N (bt_rx s') \<Longrightarrow> bt_typed N s'"
  by (simp add: bt_typed_def bt_same_session_def)

lemma esp_spp_cb_typed:
  assumes "bt_typed N s" "bt_session_ok s" "bt_event_ok ev" "esp_spp_cb env N ev s = Some s'"
  shows "bt_typed N s' \<and> bt_session_ok s'"
proof -
  have plain: "bt_typed N s' \<and> bt_session_ok s'"
    if "bt_link_event s ev" "bt_same_session s s' \<and> bt_rx s' = bt_rx s"
    using that assms bt_same_typed [of s s' N] bt_same_session_ok [of s s']
      bt_tx_sameD(1) [OF bt_link_event_same [OF that(1) assms(4)]]
    by (simp add: bt_typed_def)
  show ?thesis
  proof (cases ev)
  case (SrvOpen h mac)
  with assms have s': "s' = bt_srv_open env h mac s" by (simp add: esp_spp_cb_def)
  have rx: "bt_rx s' = bt_rx s \<or> bt_rx s' = ring_resync (bt_rx s)"
    by (simp add: s' bt_srv_open_def Let_def bt_called_def bt_claim_stream_def)
  have "ring_inv N (bt_rx s')" using rx assms(1) ring_resync_inv by (auto simp: bt_typed_def)
  then show ?thesis
    using bt_srv_open_session [of s h mac env] bt_srv_open_wf [of s env h mac] assms SrvOpen
    by (simp add: bt_typed_def s' bt_event_ok_def)
next
  case SppClose
  with assms have "bt_close env s = Some s'" by (simp add: esp_spp_cb_def)
  with bt_close_session [of s env s'] bt_close_wf [of s env s'] assms
  show ?thesis by (simp add: bt_typed_def)
next
  case (DataInd data)
  with assms have s': "s' = bt_data_ind env N data s" by (simp add: esp_spp_cb_def)
  show ?thesis
    using assms(1,2) fold_bt_rx_char_inv [of N "bt_rx s" env data]
    by (auto simp: s' bt_data_ind_def bt_typed_def bt_wf_def bt_session_ok_def get_client_mac_iff
        simp del: not_None_eq)
next
  case SppInit
  with assms(4) have "bt_same_session s s' \<and> bt_rx s' = bt_rx s"
    by (auto simp: esp_spp_cb_def bt_called_def bt_same_session_def)
  with plain SppInit show ?thesis by (simp add: bt_link_event_def)
next
  case (SppCong b)
  with assms(4) have "bt_same_session s s' \<and> bt_rx s' = bt_rx s"
    by (auto simp: esp_spp_cb_def bt_same_session_def)
  with plain SppCong show ?thesis by (simp add: bt_link_event_def)
next
  case (SppWritten b)
  with assms(4) have "bt_same_session s s' \<and> bt_rx s' = bt_rx s"
    by (cases b) (auto simp: esp_spp_cb_def bt_same_session_def)
  with plain SppWritten show ?thesis by (simp add: bt_link_event_def)
next
  case SppOther
  with assms(4) show ?thesis using assms(1,2) by (simp add: esp_spp_cb_def)
  qed
qed

lemma bt_reach_ok:
  assumes "bt_reach N s" shows "bt_typed N s \<and> bt_session_ok s"
  using assms
proof (induction rule: bt_reach.induct)
  case (start rb)
  then show ?case
    using bt_init_wf [of rb]
    by (simp add: bt_typed_def bt_session_ok_def bt_init_def bluetooth_get_client_mac_def)
next
  case (event s ev env s')
  then show ?case using esp_spp_cb_typed by blast
next
  case (claim s baud)
  then show ?case
    by (auto simp: bt_claim_stream_def bt_typed_def bt_wf_def bt_session_ok_def
        get_client_mac_iff simp del: not_None_eq)
next
  case (put s mem c r s')
  then show ?case
    using btStreamPutC_session [OF put.hyps(2)] btStreamPutC_wf [OF _ put.hyps(2)]
      bt_same_typed [of s s' N] bt_same_session_ok [of s s']
    by (simp add: bt_typed_def)
next
  case (poll s wr)
  then show ?case
    using pollTX_session [of s wr] pollTX_wf [of s wr]
      bt_same_typed [of s "pollTX wr s" N] bt_same_session_ok [of s "pollTX wr s"]
    by (simp add: bt_typed_def)
next
  case (getc s)
  have "bt_same_session s (snd (btStreamGetC N s))"
    by (simp add: btStreamGetC_def bt_same_session_def split: prod.splits)
  moreover have "bt_rx (snd (btStreamGetC N s)) = snd (ring_read N (bt_rx s))"
    by (simp add: btStreamGetC_def split: prod.splits)
  ultimately show ?case
    using getc.IH bt_tx_sameD(1) [OF bt_rx_same(1) [of s N]] ring_read_inv [of N "bt_rx s"]
      bt_same_typed bt_same_session_ok by (metis bt_typed_def)
next
  case (flush s)
  then show ?case
    by (auto simp: btStreamFlush_def bt_typed_def bt_wf_def ring_resync_inv bt_session_ok_def
        get_client_mac_iff simp del: not_None_eq)
next
  case (cancel s)
  then show ?case
    by (auto simp: btStreamCancel_def bt_typed_def bt_wf_def ring_cancel_inv bt_session_ok_def
        get_client_mac_iff simp del: not_None_eq)
next
  case (rx_disable s b)
  then show ?case
    by (auto simp: btRxDisable_def bt_typed_def bt_wf_def bt_session_ok_def
        get_client_mac_iff simp del: not_None_eq)
next
  case (set_baud s baud)
  then show ?case
    by (auto simp: btStreamSetBaudRate_def bt_typed_def bt_wf_def bt_session_ok_def
        get_client_mac_iff simp del: not_None_eq)
qed

text \<open>
  C24. In every state the Bluetooth port can reach, through any events with non-zero handles,
  claims, writes (also when memory runs out), reads and turns of the poll task, every array keeps
  its length and every index stays inside; the port is connected exactly when the session has a
  handle and a client address, a connected port has its stream set and its poll task awake, and
  a claim or a connected stream never outlives \<open>session.stream\<close>.
\<close>

theorem bt_session_invariant:
  assumes "bt_reach N s" shows "bt_typed N s \<and> bt_session_ok s"
  using assms by (rule bt_reach_ok)

lemma bt0_reach: "bt_reach 4 bt0"
proof -
  have "bt_reach 4 (bt_init ring0)" by (rule bt_reach.start [OF ring0_inv])
  moreover have "bt_event_ok (SrvOpen 7 bt_mac0)" by (simp add: bt_event_ok_def bt_mac0_def)
  moreover have "esp_spp_cb bt_env0 4 (SrvOpen 7 bt_mac0) (bt_init ring0) = Some bt0"
    by (simp add: esp_spp_cb_def bt0_def)
  ultimately show ?thesis by (rule bt_reach.event)
qed

theorem bt_session_invariant_witness:
  "bt_typed 4 bt0 \<and> bt_session_ok bt0"
  by (rule bt_session_invariant [OF bt0_reach])

text \<open>
  C25. The close event of an open session never reads through a missing stream, and one
  connection attempt that is refused leaves the session as it was; but after two refused
  attempts the second one's close event ends the session of the client that is still connected,
  and one more close event reads through the missing stream when an MPG is active.
\<close>

theorem bt_refused_attempts:
  assumes "bt_reach N s" "bt_dtr s" "\<not> bt_second s" "bt_static s" "h2 \<noteq> 0" "h3 \<noteq> 0"
  shows "bt_close env s \<noteq> None \<and>
    bt_close env (bt_srv_open env h2 mac2 s) = Some (bt_called (SppDisconnect h2) s) \<and>
    (\<exists>s1 s2. bt_close env (bt_srv_open env h3 mac3 (bt_srv_open env h2 mac2 s)) = Some s1 \<and>
           bt_close env s1 = Some s2 \<and> \<not> bt_dtr s2 \<and> bt_connection s2 = 0 \<and>
           bt_close (env\<lparr>bte_mpg := True\<rparr>) s2 = None)"
proof -
  from bt_reach_ok [OF assms(1)] assms(2) have st: "bt_stream s" by (simp add: bt_session_ok_def)
  have c1: "bt_close env s \<noteq> None"
    using st by (auto simp: bt_close_def Let_def)
  have one: "bt_close env (bt_srv_open env h mac t) = Some (bt_called (SppDisconnect h) t)"
    if "bt_dtr t" "\<not> bt_second t" for h mac and t :: "'a bt"
    using that by (simp add: bt_srv_open_def bt_close_def bt_called_def)
  have c2: "bt_close env (bt_srv_open env h2 mac2 s) = Some (bt_called (SppDisconnect h2) s)"
    by (rule one [OF assms(2,3)])
  let ?s1 = "bt_called (SppDisconnect h3) (bt_called (SppDisconnect h2) s)"
  have 1: "bt_close env (bt_srv_open env h3 mac3 (bt_srv_open env h2 mac2 s)) = Some ?s1"
    using assms(2,3) by (simp add: bt_srv_open_def bt_close_def bt_called_def)
  obtain s2 where 2: "bt_close env ?s1 = Some s2" "\<not> bt_dtr s2" "bt_connection s2 = 0"
      "\<not> bt_stream s2" "\<not> bt_static s2" "\<not> bt_second s2"
    using assms(2-4) by (simp add: bt_close_def bt_called_def Let_def)
  then have "bt_close (env\<lparr>bte_mpg := True\<rparr>) s2 = None" by (simp add: bt_close_def Let_def)
  with 1 2 c1 c2 show ?thesis by blast
qed

theorem bt_refused_attempts_witness:
  "bt_close bt_env0 bt0 \<noteq> None \<and>
   bt_close bt_env0 (bt_srv_open bt_env0 8 bt_mac0 bt0) = Some (bt_called (SppDisconnect 8) bt0)"
proof -
  have "bt_dtr bt0" "\<not> bt_second bt0" "bt_static bt0"
    by (simp_all add: bt0_def bt_srv_open_def bt_init_def bt_called_def bt_claim_stream_def bt_env0_def)
  from bt_refused_attempts [OF bt0_reach this, of 8 9 bt_env0 bt_mac0 bt_mac0] show ?thesis by simp
qed

lemma bt_push_line_link:
  assumes "bt_push_line mem s = Some s'"
  shows "bt_connection s' = bt_connection s \<and> bt_congested s' = bt_congested s \<and>
    bt_tx_busy s' = bt_tx_busy s \<and> (mem (bt_mallocs s) \<longrightarrow> bt_queue s' \<noteq> [])"
  using assms by (auto simp: bt_push_line_def enqueue_tx_chunk_def Let_def split: if_splits)

lemma btStreamPutC_link:
  assumes "btStreamPutC mem c s = Some (r, s')" "\<forall>n. mem n"
  shows "bt_connection s' = bt_connection s \<and> bt_congested s' = bt_congested s \<and>
    bt_tx_busy s' = bt_tx_busy s \<and> (c = 10 \<longrightarrow> bt_queue s' \<noteq> [])"
proof -
  from assms(1) obtain s1 where
    s1: "(if unat (txb_head (bt_txb s)) = BT_TX_BUFFER_SIZE then bt_push_line mem s else Some s) = Some s1"
    and s3: "(if c = 10 then bt_push_line mem (bt_store c s1) else Some (bt_store c s1)) = Some s'"
    by (auto simp: btStreamPutC_def Let_def split: option.splits)
  have "bt_connection s1 = bt_connection s \<and> bt_congested s1 = bt_congested s \<and> bt_tx_busy s1 = bt_tx_busy s"
    using s1 bt_push_line_link [of mem s s1] by (auto split: if_splits)
  moreover have "bt_connection s' = bt_connection s1 \<and> bt_congested s' = bt_congested s1 \<and>
      bt_tx_busy s' = bt_tx_busy s1 \<and> (c = 10 \<longrightarrow> bt_queue s' \<noteq> [])"
    using s3 bt_push_line_link [of mem "bt_store c s1" s'] assms(2)
    by (auto simp: bt_store_def split: if_splits)
  ultimately show ?thesis by simp
qed

lemma btStreamWrite_link:
  assumes "btStreamWrite mem (cs @ [10]) s = Some s'" "\<forall>n. mem n"
  shows "bt_connection s' = bt_connection s \<and> bt_congested s' = bt_congested s \<and>
    bt_tx_busy s' = bt_tx_busy s \<and> bt_queue s' \<noteq> []"
  using assms
proof (induction cs arbitrary: s)
  case Nil
  show ?case
  proof (cases "btStreamPutC mem 10 s")
    case None
    with Nil.prems(1) show ?thesis by simp
  next
    case (Some p)
    obtain r t where p: "p = (r, t)" by (rule prod.exhaust)
    with Some Nil.prems(1) have "t = s'" by simp
    with btStreamPutC_link [OF Some [unfolded p] Nil.prems(2)] show ?thesis by blast
  qed
next
  case (Cons c cs)
  from Cons.prems(1) obtain r s1 where s1: "btStreamPutC mem c s = Some (r, s1)"
    and rest: "btStreamWrite mem (cs @ [10]) s1 = Some s'"
    by (cases "btStreamPutC mem c s") auto
  from Cons.IH [OF rest Cons.prems(2)] btStreamPutC_link [OF s1 Cons.prems(2)] show ?case by simp
qed

text \<open>
  Closing a session flushes the queue but not the chunk the poll task holds: when the next
  client connects and a line is written for it, the first packet it gets starts with what was
  meant for the previous client.
\<close>

theorem bt_stale_chunk:
  assumes "bt_wf s" "bt_held s = Some c" "bt_dtr s" "\<not> bt_second s" "bt_congested s" "bt_tx_busy s"
    "bt_close env s = Some s1" "h \<noteq> 0" "\<forall>n. mem n"
    "btStreamWrite mem (line @ [10]) (bt_srv_open env' h mac s1) = Some s2"
  shows "\<exists>bytes. bt_calls (pollTX True s2) = bt_calls s2 @ [SppWrite h bytes True] \<and> bytes \<noteq> [] \<and>
           bytes @ bt_pending (pollTX True s2) = c @ line @ [10]"
proof -
  let ?o = "bt_srv_open env' h mac s1"
  have s1: "bt_held s1 = Some c" "bt_queue s1 = []" "\<not> bt_dtr s1" "bt_congested s1" "bt_tx_busy s1"
    using assms(2-7)
    by (auto simp: bt_close_def Let_def bt_called_def flush_tx_queue_def split: if_splits)
  have wf2: "bt_wf ?o" by (rule bt_srv_open_wf [OF bt_close_wf [OF assms(1,7)]])
  have o: "bt_pending ?o = c" "bt_connection ?o = h" "bt_congested ?o" "bt_tx_busy ?o"
    using s1
    by (simp_all add: bt_srv_open_def Let_def bt_called_def bt_claim_stream_def bt_pending_def
        bt_held_bytes_def bt_buffered_def)
  from btStreamWrite_spec [OF wf2 assms(9,10)] have wf3: "bt_wf s2"
    and p3: "bt_pending s2 = c @ line @ [10]" by (simp_all add: o)
  have can: "bt_can_send s2" "bt_connection s2 = h"
    using btStreamWrite_link [OF assms(10,9)] o assms(8) by (simp_all add: bt_can_send_def)
  show ?thesis
    using wf3 can p3 by (cases rule: bt_poll_cases [where wr = True]) auto
qed

definition bt_stale0 :: "unit bt" where
  "bt_stale0 = bt0\<lparr>bt_held := Some [66, 10]\<rparr>"

theorem bt_stale_chunk_witness:
  "\<exists>s1 s2 bytes. bt_close bt_env0 bt_stale0 = Some s1 \<and>
     btStreamWrite (\<lambda>_. True) ([67] @ [10]) (bt_srv_open bt_env0 9 bt_mac0 s1) = Some s2 \<and>
     bt_calls (pollTX True s2) = bt_calls s2 @ [SppWrite 9 bytes True] \<and>
     bytes @ bt_pending (pollTX True s2) = [66, 10, 67, 10]"
proof -
  have wf: "bt_wf bt_stale0" using bt0_wf by (simp add: bt_wf_def bt_stale0_def bt_chunk_ok_def bt_sizes)
  have st: "bt_held bt_stale0 = Some [66, 10]" "bt_dtr bt_stale0" "\<not> bt_second bt_stale0"
    "bt_congested bt_stale0" "bt_tx_busy bt_stale0" "bt_static bt_stale0"
    by (simp_all add: bt_stale0_def bt0_def bt_srv_open_def bt_init_def bt_called_def
        bt_claim_stream_def bt_env0_def)
  then obtain s1 where s1: "bt_close bt_env0 bt_stale0 = Some s1" "bt_queue s1 = []" "\<not> bt_dtr s1"
    by (simp add: bt_close_def Let_def bt_called_def)
  have wf1: "bt_wf (bt_srv_open bt_env0 9 bt_mac0 s1)"
    by (rule bt_srv_open_wf [OF bt_close_wf [OF wf s1(1)]])
  have "bt_chunks ([67] @ [10]) (bt_srv_open bt_env0 9 bt_mac0 s1) \<le> BT_TX_QUEUE_ENTRIES"
    using s1(2,3) by (simp add: bt_chunks_def bt_srv_open_def Let_def bt_called_def bt_claim_stream_def bt_sizes)
  from btStreamWrite_room [OF wf1 _ this, of "\<lambda>_. True"] obtain s2 where
    s2: "btStreamWrite (\<lambda>_. True) ([67] @ [10]) (bt_srv_open bt_env0 9 bt_mac0 s1) = Some s2" by blast
  from bt_stale_chunk [OF wf st(1-5) s1(1) _ _ s2] s1(1) s2 show ?thesis by auto
qed

end
