(* ===== verification/I2sOutS3.thy ===== *)
theory I2sOutS3
  imports I2sOut
begin

text \<open>
  The output expander of the ESP32-S3, \<open>main/i2s_out_s3.c\<close>.  There is no register that is
  output while no steps are generated: the DMA runs on a ring of twelve one-sample descriptors
  instead, and rests on the one that is linked to itself (\<open>idle\<close>).  \<open>i2s_out_commit\<close> writes the
  samples of one step behind it and moves the self-link.  In stepping mode the DMA runs on the
  ring of buffers of the ESP32 version, whose constants and status type are used here.

  Descriptors are named by their index, accesses to a buffer are checked, and the critical
  sections make each operation atomic.  The build is the one with the FreeRTOS queue
  (\<open>I2S_LOCAL_QUEUE\<close> is 0).
\<close>

subsection \<open>State\<close>

definition DMA_SAMPLE_COUNT_PASSTROUGH :: nat where "DMA_SAMPLE_COUNT_PASSTROUGH = 12"

datatype dma_addr = Pass_desc nat | Ring_desc nat

record i2s_sr =
  s3_initialized :: bool
  s3_port :: u32
  step_mask :: u32
  s3_period :: u32
  s3_remain :: u32
  s3_pins :: bool                    \<comment> \<open>the pin numbers are set\<close>
  s3_func :: bool
  s3_status :: pulser_status
  s3_buffers :: "u32 list list"
  s3_current :: "nat option"         \<comment> \<open>buffer of this descriptor\<close>
  s3_rw_pos :: nat
  s3_length :: "nat list"
  s3_next :: "nat option list"
  s3_queue :: "nat list"
  s3_idle :: "nat option"
  s3_idle_next :: nat
  s3_pass :: "u32 list"              \<comment> \<open>\<open>pass_data\<close>\<close>
  s3_pnext :: "nat list"             \<comment> \<open>\<open>next\<close> of \<open>pass_dma\<close>\<close>
  s3_start :: dma_addr
  s3_running :: bool
  s3_irq :: bool
  s3_log :: "gpio_event list"        \<comment> \<open>newest first\<close>

subsection \<open>Internal functions\<close>

definition s3_clear_dma_buffer :: "nat \<Rightarrow> u32 \<Rightarrow> 'a i2s_sr_scheme \<Rightarrow> 'a i2s_sr_scheme" where
  "s3_clear_dma_buffer d v s =
     s\<lparr>s3_buffers := (s3_buffers s)[d := replicate DMA_SAMPLE_COUNT v],
       s3_length := (s3_length s)[d := I2S_OUT_DMABUF_LEN]\<rparr>"

definition s3_clear_o_dma_buffers :: "u32 \<Rightarrow> 'a i2s_sr_scheme \<Rightarrow> 'a i2s_sr_scheme" where
  "s3_clear_o_dma_buffers v s =
     fold (\<lambda>d s. s3_clear_dma_buffer d v
              (s\<lparr>s3_next := (s3_next s)[d := Some (if d < I2S_OUT_DMABUF_COUNT - 1 then d + 1 else 0)]\<rparr>))
       [0..<I2S_OUT_DMABUF_COUNT] s"

definition s3_gpio_shiftout :: "nat \<Rightarrow> u32 \<Rightarrow> 'a i2s_sr_scheme \<Rightarrow> 'a i2s_sr_scheme" where
  \<comment> \<open>the levels of the ESP32 version and one more on the word select\<close>
  "s3_gpio_shiftout bits v s =
     s\<lparr>s3_log := Ws False # rev (shiftout_events bits v) @ s3_log s\<rparr>"

definition pass_ring_init :: "'a i2s_sr_scheme \<Rightarrow> 'a i2s_sr_scheme" where
  \<comment> \<open>the block that links the descriptors at the first start\<close>
  "pass_ring_init s =
     s\<lparr>s3_pnext := List.map (\<lambda>i. if i = 0 \<or> i = DMA_SAMPLE_COUNT_PASSTROUGH - 1 then 0 else i + 1)
         [0..<DMA_SAMPLE_COUNT_PASSTROUGH],
       s3_idle := Some 0, s3_idle_next := 1\<rparr>"

definition s3_start_mode :: "pulser_status \<Rightarrow> 'a i2s_sr_scheme \<Rightarrow> 'a i2s_sr_scheme" where
  \<comment> \<open>from the stop of the DMA to its start; \<open>idle\<close> is set\<close>
  "s3_start_mode status s =
     (let s1 = s\<lparr>s3_running := False, s3_status := status\<rparr>;
          idle = the (s3_idle s1);
          s2 = (if status = PASSTHROUGH then s1\<lparr>s3_pass := (s3_pass s1)[idle := s3_port s1]\<rparr>
                else (s3_clear_o_dma_buffers (s3_port s1) s1)\<lparr>s3_rw_pos := 0, s3_current := Some 0\<rparr>)
      in s2\<lparr>s3_start := (if status = PASSTHROUGH then Pass_desc idle else Ring_desc 0),
            s3_irq := (status \<noteq> PASSTHROUGH), s3_running := True\<rparr>)"

definition s3_out_start :: "pulser_status \<Rightarrow> 'a i2s_sr_scheme \<Rightarrow> bool \<times> 'a i2s_sr_scheme" where
  "s3_out_start status s =
     (if \<not> s3_initialized s then (False, s)
      else
        let s1 = (if s3_idle s = None then pass_ring_init s else s);
            status1 = (if \<not> s3_func s1 then PASSTHROUGH else status)
        in if s3_status s1 = status1 then (True, s1)
           else (True, s3_start_mode status1 s1))"

subsection \<open>Interrupt, samples and task\<close>

definition s3_intr_handler :: "bool \<Rightarrow> bool \<Rightarrow> nat \<Rightarrow> 'a i2s_sr_scheme \<Rightarrow> 'a i2s_sr_scheme" where
  \<comment> \<open>the flags \<open>TX_DONE\<close> and \<open>TX_TOTAL_EOF\<close> and the descriptor finished\<close>
  "s3_intr_handler fin total_eof d s =
     (if total_eof then snd (s3_out_start PASSTHROUGH s)
      else if fin \<and> s3_status s \<noteq> PASSTHROUGH then
        let s1 = (if length (s3_queue s) = I2S_OUT_DMABUF_COUNT
                  then s3_clear_dma_buffer (hd (s3_queue s)) (if s3_status s = STEPPING then s3_port s else 0)
                         (s\<lparr>s3_queue := tl (s3_queue s)\<rparr>)
                  else s)
        in if length (s3_queue s1) < I2S_OUT_DMABUF_COUNT then s1\<lparr>s3_queue := s3_queue s1 @ [d]\<rparr> else s1
      else s)"

definition s3_put_sample :: "nat \<Rightarrow> 'a i2s_sr_scheme \<Rightarrow> 'a i2s_sr_scheme i2s_result" where
  "s3_put_sample d s =
     (if s3_rw_pos s < DMA_SAMPLE_COUNT
      then Inr (s\<lparr>s3_buffers := (s3_buffers s)[d := (s3_buffers s ! d)[s3_rw_pos s := s3_port s]],
                  s3_rw_pos := s3_rw_pos s + 1\<rparr>)
      else Inl Sample_overflow)"

fun s3_put_samples :: "nat \<Rightarrow> nat \<Rightarrow> 'a i2s_sr_scheme \<Rightarrow> 'a i2s_sr_scheme i2s_result" where
  "s3_put_samples d 0 s = Inr s"
| "s3_put_samples d (Suc n) s =
     (case s3_put_sample d s of Inl e \<Rightarrow> Inl e | Inr s1 \<Rightarrow> s3_put_samples d n s1)"

definition s3_push_sample :: "nat \<Rightarrow> 'a i2s_sr_scheme \<Rightarrow> (nat \<times> 'a i2s_sr_scheme) i2s_result" where
  \<comment> \<open>unlike the ESP32 version it returns the number asked for, zero when one sample is pushed for it\<close>
  "s3_push_sample num s =
     (if num > SAMPLE_SAFE_COUNT then Inr (0, s)
      else case s3_current s of
             None \<Rightarrow> Inl Null_buffer
           | Some d \<Rightarrow>
               (case s3_put_samples d (if num = 0 then 1 else num) s of
                  Inl e \<Rightarrow> Inl e | Inr s1 \<Rightarrow> Inr (num, s1)))"

type_synonym 'a s3_pulse_func = "'a i2s_sr_scheme \<Rightarrow> 'a i2s_sr_scheme i2s_result"

definition s3_add_period :: "nat \<Rightarrow> 'a i2s_sr_scheme \<Rightarrow> 'a i2s_sr_scheme" where
  \<comment> \<open>the time to the next pulse, from the time the samples pushed since \<open>old\<close> take\<close>
  "s3_add_period old t =
     (let period = of_nat I2S_OUT_USEC_PER_PULSE * (of_nat (s3_rw_pos t) - of_nat old) in
      t\<lparr>s3_remain := s3_remain t + (if s3_period t \<ge> period then s3_period t - period
                                    else of_nat I2S_OUT_USEC_PER_PULSE)\<rparr>)"

definition s3_fill_step :: "'a s3_pulse_func \<Rightarrow> nat \<Rightarrow> 'a i2s_sr_scheme \<Rightarrow> (bool \<times> 'a i2s_sr_scheme) i2s_result" where
  \<comment> \<open>the body of the loop; the truth value is its \<open>break\<close>\<close>
  "s3_fill_step pf d s =
     (if s3_remain s < of_nat I2S_OUT_USEC_PER_PULSE \<and> s3_status s = STEPPING
      then
        case pf s of Inl e \<Rightarrow> Inl e | Inr t0 \<Rightarrow>
        let t = s3_add_period (s3_rw_pos s) t0
        in if s3_status t = WAITING then Inr (False, t\<lparr>s3_next := (s3_next t)[d := None]\<rparr>)
           else if s3_status t = PASSTHROUGH then Inr (True, t\<lparr>s3_remain := 0, s3_rw_pos := DMA_SAMPLE_COUNT\<rparr>)
           else Inr (False, t)
      else
        case s3_put_sample d s of Inl e \<Rightarrow> Inl e | Inr t \<Rightarrow>
        Inr (False, t\<lparr>s3_remain := (if s3_remain t \<ge> of_nat I2S_OUT_USEC_PER_PULSE
                                  then s3_remain t - of_nat I2S_OUT_USEC_PER_PULSE else 0)\<rparr>))"

partial_function (option) s3_fill_loop ::
    "'a s3_pulse_func \<Rightarrow> nat \<Rightarrow> 'a i2s_sr_scheme \<Rightarrow> 'a i2s_sr_scheme i2s_result option" where
  "s3_fill_loop pf d s =
     (if s3_rw_pos s < DMA_SAMPLE_COUNT - SAMPLE_SAFE_COUNT
      then case s3_fill_step pf d s of
             Inl e \<Rightarrow> Some (Inl e)
           | Inr (stop, t) \<Rightarrow> if stop then Some (Inr t) else s3_fill_loop pf d t
      else Some (Inr s))"

definition s3_set_filled :: "nat \<Rightarrow> 'a i2s_sr_scheme \<Rightarrow> 'a i2s_sr_scheme" where
  "s3_set_filled d s = s\<lparr>s3_length := (s3_length s)[d := s3_rw_pos s * I2S_SAMPLE_SIZE]\<rparr>"

definition s3_fillout_dma_buffer ::
    "'a s3_pulse_func \<Rightarrow> nat \<Rightarrow> 'a i2s_sr_scheme \<Rightarrow> 'a i2s_sr_scheme i2s_result option" where
  "s3_fillout_dma_buffer pf d s =
     map_option (map_sum id (s3_set_filled d)) (s3_fill_loop pf d (s\<lparr>s3_rw_pos := 0\<rparr>))"

definition i2s_step_gen ::
    "'a s3_pulse_func \<Rightarrow> nat \<Rightarrow> 'a i2s_sr_scheme \<Rightarrow> 'a i2s_sr_scheme i2s_result option" where
  "i2s_step_gen pf d s =
     (let s1 = s\<lparr>s3_current := Some d\<rparr> in
      case s3_status s1 of
        STEPPING \<Rightarrow> map_option (map_sum id (s3_set_filled d)) (s3_fillout_dma_buffer pf d s1)
      | WAITING \<Rightarrow>
          if s3_next s1 ! d = None then Some (Inr (snd (s3_out_start PASSTHROUGH s1)))
          else let s2 = (s3_clear_dma_buffer d 0 s1)\<lparr>s3_rw_pos := 0\<rparr>
               in Some (Inr (s2\<lparr>s3_next := (s3_next s2)[d := None]\<rparr>))
      | _ \<Rightarrow> Some (Inr ((s3_clear_dma_buffer d 0 s1)\<lparr>s3_rw_pos := 0\<rparr>)))"

definition s3_task_step ::
    "'a s3_pulse_func \<Rightarrow> 'a i2s_sr_scheme \<Rightarrow> 'a i2s_sr_scheme i2s_result option" where
  \<comment> \<open>the task blocks while the queue is empty; descriptors have addresses above 1000\<close>
  "s3_task_step pf s =
     (case s3_queue s of [] \<Rightarrow> Some (Inr s) | d # q \<Rightarrow> i2s_step_gen pf d (s\<lparr>s3_queue := q\<rparr>))"

subsection \<open>External functions\<close>

definition s3_out_delay_us :: "'a i2s_sr_scheme \<Rightarrow> nat" where
  "s3_out_delay_us s = (if s3_status s = PASSTHROUGH then I2S_OUT_USEC_PER_PULSE * 2 else I2S_OUT_DELAY_MS * 1000)"

definition s3_out_write :: "nat \<Rightarrow> bool \<Rightarrow> 'a i2s_sr_scheme \<Rightarrow> 'a i2s_sr_scheme i2s_result" where
  "s3_out_write pin val s =
     (let s1 = s\<lparr>s3_port := (if val then s3_port s OR port_bit pin else s3_port s AND NOT (port_bit pin))\<rparr> in
      if s3_status s1 = PASSTHROUGH
      then case s3_idle s1 of
             None \<Rightarrow> Inl Null_buffer
           | Some i \<Rightarrow> Inr (s1\<lparr>s3_pass := (s3_pass s1)[i := s3_port s1 AND NOT (step_mask s1)]\<rparr>)
      else Inr s1)"

fun pass_write :: "nat list \<Rightarrow> u32 \<Rightarrow> nat \<Rightarrow> nat \<times> u32 list \<Rightarrow> nat \<times> u32 list" where
  \<comment> \<open>the loop that stores a value in consecutive descriptors\<close>
  "pass_write nx v 0 dp = dp"
| "pass_write nx v (Suc n) dp = pass_write nx v n (nx ! fst dp, (snd dp)[fst dp := v])"

definition i2s_out_commit :: "nat \<Rightarrow> nat \<Rightarrow> 'a i2s_sr_scheme \<Rightarrow> 'a i2s_sr_scheme i2s_result" where
  "i2s_out_commit pulse delay s =
     (case s3_idle s of
        None \<Rightarrow> Inl Null_buffer
      | Some idle \<Rightarrow>
          let data = s3_port s;
              dp1 = pass_write (s3_pnext s) (data AND NOT (step_mask s)) delay (s3_idle_next s, s3_pass s);
              dp2 = pass_write (s3_pnext s) data pulse dp1;
              desc = fst dp2;
              port = s3_port s AND NOT (step_mask s);
              nx = (s3_pnext s)[idle := s3_idle_next s]
          in Inr (s\<lparr>s3_port := port, s3_pass := (snd dp2)[desc := port], s3_idle_next := nx ! desc,
                    s3_idle := Some desc, s3_pnext := nx[desc := desc], s3_running := True\<rparr>))"

definition s3_out_state :: "nat \<Rightarrow> 'a i2s_sr_scheme \<Rightarrow> bool" where
  "s3_out_state pin s = (s3_port s AND port_bit pin \<noteq> 0)"

definition s3_get_pulser_status :: "'a i2s_sr_scheme \<Rightarrow> pulser_status" where
  "s3_get_pulser_status s = s3_status s"

definition s3_set_passthrough :: "'a i2s_sr_scheme \<Rightarrow> 'a i2s_sr_scheme" where
  "s3_set_passthrough s = (if s3_status s = STEPPING then s\<lparr>s3_status := WAITING\<rparr> else s)"

definition s3_set_stepping :: "'a i2s_sr_scheme \<Rightarrow> 'a i2s_sr_scheme poll" where
  \<comment> \<open>up to its end or its first wait\<close>
  "s3_set_stepping s =
     (case s3_status s of
        STEPPING \<Rightarrow> Returned s
      | WAITING \<Rightarrow> Polling s
      | PASSTHROUGH \<Rightarrow> Returned (snd (s3_out_start STEPPING (s\<lparr>s3_running := False\<rparr>)))
      | STOPPED \<Rightarrow> Returned (snd (s3_out_start STEPPING s)))"

definition s3_set_stepping_poll :: "'a i2s_sr_scheme \<Rightarrow> 'a i2s_sr_scheme poll" where
  \<comment> \<open>after each wait\<close>
  "s3_set_stepping_poll s =
     (if s3_status s = WAITING then Polling s else Returned (snd (s3_out_start STEPPING s)))"

definition s3_set_pulse_period :: "u32 \<Rightarrow> 'a i2s_sr_scheme \<Rightarrow> 'a i2s_sr_scheme" where
  "s3_set_pulse_period period s = s\<lparr>s3_period := period\<rparr>"

definition s3_set_pulse_callback :: "bool \<Rightarrow> 'a i2s_sr_scheme \<Rightarrow> 'a i2s_sr_scheme" where
  "s3_set_pulse_callback func s = s\<lparr>s3_func := func\<rparr>"

definition s3_out_reset :: "'a i2s_sr_scheme \<Rightarrow> 'a i2s_sr_scheme" where
  "s3_out_reset s =
     (let s1 = (if s3_status s = STEPPING then s3_clear_o_dma_buffers (s3_port s) s else s)
      in snd (s3_out_start (if s3_status s1 = WAITING then PASSTHROUGH else s3_status s1) s1))"

definition i2s_set_step_mask :: "'a i2s_sr_scheme \<Rightarrow> 'a i2s_sr_scheme" where
  "i2s_set_step_mask s =
     (let s1 = s\<lparr>s3_initialized := True, step_mask := s3_port s\<rparr>;
          s2 = s1\<lparr>s3_port := s3_port s1 XOR step_mask s1\<rparr>
      in snd (s3_out_start PASSTHROUGH s2))"

fun allocate_dma_channel :: "(nat \<Rightarrow> u32) \<Rightarrow> nat \<Rightarrow> int" where
  \<comment> \<open>the link address of each channel, and the number of channels still to look at\<close>
  "allocate_dma_channel addr 0 = - 1"
| "allocate_dma_channel addr (Suc ch) = (if addr ch = 0 then int ch else allocate_dma_channel addr ch)"

record s3_init_param =
  ip_func :: bool
  ip_period :: u32
  ip_init_val :: u32

definition s3_out_init2 ::
    "nat \<Rightarrow> (nat \<Rightarrow> u32) \<Rightarrow> nat \<Rightarrow> bool \<Rightarrow> bool \<Rightarrow> s3_init_param \<Rightarrow> 'a i2s_sr_scheme \<Rightarrow> bool \<times> 'a i2s_sr_scheme" where
  \<comment> \<open>the channels' link addresses and number, whether all memory is allocated, and whether the
     interrupt is; the pins, the period and the callback are taken over only when it is not\<close>
  "s3_out_init2 bits addr n mem intr_ok param s =
     (if s3_initialized s then (True, s)
      else if allocate_dma_channel addr n = - 1 then (False, s)
      else if \<not> mem then (False, s)
      else
        let s1 = s\<lparr>s3_port := ip_init_val param,
                   s3_buffers := replicate I2S_OUT_DMABUF_COUNT (replicate DMA_SAMPLE_COUNT 0),
                   s3_length := replicate I2S_OUT_DMABUF_COUNT 0,
                   s3_next := replicate I2S_OUT_DMABUF_COUNT None\<rparr>;
            s2 = (s3_clear_o_dma_buffers (ip_init_val param) s1)\<lparr>s3_rw_pos := 0, s3_current := None,
                    s3_queue := [], s3_irq := False\<rparr>
        in if \<not> intr_ok
           then (False, s3_gpio_shiftout bits (ip_init_val param)
                   (s2\<lparr>s3_period := ip_period param, s3_func := ip_func param, s3_pins := True\<rparr>))
           else (True, s2))"

subsection \<open>The passthrough ring\<close>

definition pass_ok :: "'a i2s_sr_scheme \<Rightarrow> bool" where
  \<comment> \<open>a ring of twelve descriptors in which \<open>idle\<close> is linked to itself\<close>
  "pass_ok s \<longleftrightarrow>
     length (s3_pass s) = 12 \<and> length (s3_pnext s) = 12 \<and>
     (\<exists>i < 12. s3_idle s = Some i \<and> s3_idle_next s = (i + 1) mod 12 \<and>
       (\<forall>j < 12. s3_pnext s ! j = (if j = i then i else (j + 1) mod 12)))"

fun dma_out :: "'a i2s_sr_scheme \<Rightarrow> nat \<Rightarrow> nat \<Rightarrow> u32 list" where
  \<comment> \<open>the next samples the DMA sends when it is about to fetch descriptor \<open>j\<close>\<close>
  "dma_out s j 0 = []"
| "dma_out s j (Suc n) = s3_pass s ! j # dma_out s (s3_pnext s ! j) n"

definition step_wave :: "nat \<Rightarrow> nat \<Rightarrow> u32 \<Rightarrow> u32 \<Rightarrow> u32 list" where
  \<comment> \<open>what one step has to look like: step lines low, then as set, then low again\<close>
  "step_wave pulse delay msk data =
     replicate delay (data AND NOT msk) @ replicate pulse data @ [data AND NOT msk]"

lemma ring12_inj:
  assumes "m < 12" "k < 12" shows "(i + m) mod 12 = (i + k) mod (12::nat) \<longleftrightarrow> m = k"
proof
  assume "(i + m) mod 12 = (i + k) mod 12"
  then have "m mod 12 = k mod 12" by (simp add: nat_mod_eq_iff)
  with assms show "m = k" by simp
qed simp

lemma pass_write_spec:
  assumes "length pass = 12" "k + n \<le> 12"
    "\<forall>m. k \<le> m \<and> m < k + n \<longrightarrow> nx ! ((i + m) mod 12) = (i + Suc m) mod 12"
  shows "fst (pass_write nx v n ((i + k) mod 12, pass)) = (i + k + n) mod 12 \<and>
    length (snd (pass_write nx v n ((i + k) mod 12, pass))) = 12 \<and>
    (\<forall>m < 12. snd (pass_write nx v n ((i + k) mod 12, pass)) ! ((i + m) mod 12) =
       (if k \<le> m \<and> m < k + n then v else pass ! ((i + m) mod 12)))"
  using assms
proof (induction n arbitrary: k pass)
  case 0
  then show ?case by auto
next
  case (Suc n)
  let ?p = "pass[(i + k) mod 12 := v]"
  have nx: "nx ! ((i + k) mod 12) = (i + Suc k) mod 12" using Suc.prems(3) by simp
  have eq: "pass_write nx v (Suc n) ((i + k) mod 12, pass) = pass_write nx v n ((i + Suc k) mod 12, ?p)"
    by (simp add: nx)
  have ih: "fst (pass_write nx v n ((i + Suc k) mod 12, ?p)) = (i + Suc k + n) mod 12 \<and>
    length (snd (pass_write nx v n ((i + Suc k) mod 12, ?p))) = 12 \<and>
    (\<forall>m < 12. snd (pass_write nx v n ((i + Suc k) mod 12, ?p)) ! ((i + m) mod 12) =
       (if Suc k \<le> m \<and> m < Suc k + n then v else ?p ! ((i + m) mod 12)))"
    by (rule Suc.IH) (use Suc.prems in auto)
  have p: "?p ! ((i + m) mod 12) = (if m = k then v else pass ! ((i + m) mod 12))" if "m < 12" for m
    using that Suc.prems(1,2) ring12_inj [of m k i] by (auto simp: nth_list_update)
  have "snd (pass_write nx v n ((i + Suc k) mod 12, ?p)) ! ((i + m) mod 12) =
      (if k \<le> m \<and> m < k + Suc n then v else pass ! ((i + m) mod 12))" if "m < 12" for m
    using ih that p [OF that] by auto
  with ih show ?case unfolding eq by simp
qed

lemma dma_out_idle:
  "s3_pnext s ! e = e \<Longrightarrow> dma_out s e n = replicate n (s3_pass s ! e)"
  by (induction n) simp_all

lemma dma_out_path:
  assumes "\<forall>m. 1 \<le> m \<and> m < c \<longrightarrow> s3_pnext s ! ((i + m) mod 12) = (i + Suc m) mod 12"
    "s3_pnext s ! ((i + c) mod 12) = (i + c) mod 12" "1 \<le> k" "k \<le> c"
  shows "dma_out s ((i + k) mod 12) (c - k + 1 + n) =
     List.map (\<lambda>m. s3_pass s ! ((i + m) mod 12)) [k..<c] @ replicate (Suc n) (s3_pass s ! ((i + c) mod 12))"
  using assms(3,4)
proof (induction "c - k" arbitrary: k)
  case 0
  then have "k = c" by simp
  then show ?case using dma_out_idle [OF assms(2), of "Suc n"] by simp
next
  case (Suc x)
  then have k: "k < c" "x = c - Suc k" by simp_all
  have "dma_out s ((i + k) mod 12) (c - k + 1 + n) =
      s3_pass s ! ((i + k) mod 12) # dma_out s ((i + Suc k) mod 12) (c - Suc k + 1 + n)"
    using k(1) assms(1) Suc.prems(1) by (simp add: Suc_diff_Suc [OF k(1), symmetric])
  also have "dma_out s ((i + Suc k) mod 12) (c - Suc k + 1 + n) =
      List.map (\<lambda>m. s3_pass s ! ((i + m) mod 12)) [Suc k..<c] @ replicate (Suc n) (s3_pass s ! ((i + c) mod 12))"
    by (rule Suc.hyps(1) [OF k(2)]) (use k in simp_all)
  finally show ?case using k(1) by (simp add: upt_conv_Cons)
qed

text \<open>
  C26. One step in passthrough mode on the S3: as long as delay and pulse together take at most
  ten samples, a commit leaves the descriptors a ring whose resting descriptor has moved on, and
  the DMA sends exactly the wave form of a step, the delay with the step lines low, the pulse,
  the lines low again, and then rests there with the lines low.
\<close>

theorem s3_commit_waveform:
  assumes ok: "pass_ok s" and idle: "s3_idle s = Some i" and fit: "delay + pulse \<le> 10"
  shows "\<exists>t. i2s_out_commit pulse delay s = Inr t \<and> pass_ok t \<and>
    s3_port t = s3_port s AND NOT (step_mask s) \<and>
    dma_out t (s3_pnext t ! i) (length (step_wave pulse delay (step_mask s) (s3_port s)) + n) =
      step_wave pulse delay (step_mask s) (s3_port s) @ replicate n (s3_port t)"
proof -
  let ?low = "s3_port s AND NOT (step_mask s)" and ?c = "delay + pulse + 1"
  let ?e = "(i + ?c) mod 12"
  have i: "i < 12" "s3_idle_next s = (i + 1) mod 12" "length (s3_pass s) = 12" "length (s3_pnext s) = 12"
    and nx: "\<And>j. j < 12 \<Longrightarrow> s3_pnext s ! j = (if j = i then i else (j + 1) mod 12)"
    using ok idle by (auto simp: pass_ok_def)
  have ni: "(i + m) mod 12 \<noteq> i" if "1 \<le> m" "m < 12" for m
    using ring12_inj [of m 0 i] that i(1) by auto
  have nxm: "s3_pnext s ! ((i + m) mod 12) = (i + Suc m) mod 12" if "1 \<le> m" "m < 12" for m
    using nx [of "(i + m) mod 12"] ni [OF that] by (simp add: mod_Suc_eq)
  define dp1 where "dp1 = pass_write (s3_pnext s) ?low delay (s3_idle_next s, s3_pass s)"
  have dp1: "fst dp1 = (i + 1 + delay) mod 12" "length (snd dp1) = 12"
    "\<forall>m < 12. snd dp1 ! ((i + m) mod 12) =
       (if 1 \<le> m \<and> m < 1 + delay then ?low else s3_pass s ! ((i + m) mod 12))"
    using pass_write_spec [of "s3_pass s" 1 delay "s3_pnext s" i ?low] i fit nxm
    by (auto simp: dp1_def)
  define dp2 where "dp2 = pass_write (s3_pnext s) (s3_port s) pulse dp1"
  have d1: "dp1 = ((i + (1 + delay)) mod 12, snd dp1)" using dp1(1) by (metis add.assoc prod.collapse)
  have dp2: "fst dp2 = ?e" "length (snd dp2) = 12"
    "\<forall>m < 12. snd dp2 ! ((i + m) mod 12) =
       (if 1 + delay \<le> m \<and> m < 1 + delay + pulse then s3_port s else snd dp1 ! ((i + m) mod 12))"
    using pass_write_spec [of "snd dp1" "1 + delay" pulse "s3_pnext s" i "s3_port s"] dp1(2) fit nxm
    unfolding dp2_def d1 [symmetric] by (auto simp: algebra_simps)
  have ne: "?e \<noteq> i" using ni [of ?c] fit by simp
  have e: "?e < 12" by simp
  define t where "t = s\<lparr>s3_port := ?low, s3_pass := (snd dp2)[?e := ?low],
      s3_idle_next := (s3_pnext s)[i := s3_idle_next s] ! ?e, s3_idle := Some ?e,
      s3_pnext := ((s3_pnext s)[i := s3_idle_next s])[?e := ?e], s3_running := True\<rparr>"
  have commit: "i2s_out_commit pulse delay s = Inr t"
    using idle by (simp add: i2s_out_commit_def Let_def t_def dp1_def [symmetric] dp2_def [symmetric] dp2(1))
  have tn: "s3_pnext t ! j = (if j = ?e then ?e else (j + 1) mod 12)" if "j < 12" for j
    using that i nx [OF that] ne by (auto simp: t_def nth_list_update)
  have tin: "s3_idle_next t = (?e + 1) mod 12"
    using nx [OF e] ne i by (simp add: t_def nth_list_update)
  have "pass_ok t"
    unfolding pass_ok_def
    using tn tin e dp2(2) i(4) by (intro conjI exI [of _ ?e]) (auto simp: t_def)
  moreover have port: "s3_port t = ?low" by (simp add: t_def)
  moreover have "dma_out t (s3_pnext t ! i) (length (step_wave pulse delay (step_mask s) (s3_port s)) + n) =
      step_wave pulse delay (step_mask s) (s3_port s) @ replicate n (s3_port t)"
  proof -
    have start: "s3_pnext t ! i = (i + 1) mod 12" using tn [OF i(1)] ne by simp
    have path: "\<forall>m. 1 \<le> m \<and> m < ?c \<longrightarrow> s3_pnext t ! ((i + m) mod 12) = (i + Suc m) mod 12"
    proof (intro allI impI)
      fix m assume m: "1 \<le> m \<and> m < ?c"
      then have "(i + m) mod 12 \<noteq> ?e" using ring12_inj [of m ?c i] fit by auto
      then show "s3_pnext t ! ((i + m) mod 12) = (i + Suc m) mod 12"
        using tn [of "(i + m) mod 12"] by (simp add: mod_Suc_eq)
    qed
    have self: "s3_pnext t ! ?e = ?e" using tn [OF e] by simp
    have vals: "s3_pass t ! ((i + m) mod 12) = (if m < 1 + delay then ?low else s3_port s)"
      if "1 \<le> m" "m < ?c" for m
    proof -
      have "m < 12" "(i + m) mod 12 \<noteq> ?e" using that fit ring12_inj [of m ?c i] by auto
      then show ?thesis using dp2(3) dp1(3) that by (auto simp: t_def)
    qed
    have last: "s3_pass t ! ?e = ?low" using dp2(2) e by (simp add: t_def)
    have "List.map (\<lambda>m. s3_pass t ! ((i + m) mod 12)) [1..<?c] =
        List.map (\<lambda>m. if m < 1 + delay then ?low else s3_port s) [1..<?c]"
      by (rule map_cong) (use vals in auto)
    also have "\<dots> = replicate delay ?low @ replicate pulse (s3_port s)"
      by (rule nth_equalityI) (auto simp: nth_append simp del: upt_Suc)
    finally have m: "List.map (\<lambda>m. s3_pass t ! ((i + m) mod 12)) [1..<?c] =
        replicate delay ?low @ replicate pulse (s3_port s)" .
    show ?thesis
      using dma_out_path [OF path self, of 1 n] m start last port
      by (simp add: step_wave_def add.commute add.left_commute)
  qed
  ultimately show ?thesis using commit by blast
qed

definition s3_sr0 :: i2s_sr where
  \<comment> \<open>in passthrough mode after the step mask has been taken, with step line 0 and direction line 4 set\<close>
  "s3_sr0 = \<lparr>s3_initialized = True, s3_port = 17, step_mask = 3, s3_period = 100, s3_remain = 0,
     s3_pins = False, s3_func = True, s3_status = PASSTHROUGH,
     s3_buffers = replicate 5 (replicate 500 0), s3_current = Some 0, s3_rw_pos = 0,
     s3_length = replicate 5 2000, s3_next = [Some 1, Some 2, Some 3, Some 4, Some 0], s3_queue = [],
     s3_idle = Some 0, s3_idle_next = 1, s3_pass = replicate 12 0,
     s3_pnext = [0, 2, 3, 4, 5, 6, 7, 8, 9, 10, 11, 0], s3_start = Pass_desc 0, s3_running = True,
     s3_irq = False, s3_log = []\<rparr>"

lemma all_less_12:
  "(\<forall>j < 12. P j) \<longleftrightarrow> P 0 \<and> P 1 \<and> P 2 \<and> P 3 \<and> P 4 \<and> P 5 \<and> P 6 \<and> P 7 \<and> P 8 \<and> P 9 \<and> P 10 \<and> P (11::nat)"
  by (simp add: numeral_eq_Suc All_less_Suc2)

lemma s3_sr0_ok: "pass_ok s3_sr0"
  by (simp add: pass_ok_def s3_sr0_def all_less_12)

theorem s3_commit_waveform_witness:
  "\<exists>t. i2s_out_commit 2 1 s3_sr0 = Inr t \<and> pass_ok t \<and>
     dma_out t (s3_pnext t ! 0) 6 = [16, 17, 17, 16, 16, 16]"
proof -
  have "s3_idle s3_sr0 = Some 0" "step_wave 2 1 (step_mask s3_sr0) (s3_port s3_sr0) = [16, 17, 17, 16]"
    by (simp_all add: s3_sr0_def step_wave_def numeral_eq_Suc)
  with s3_commit_waveform [OF s3_sr0_ok this(1), of 1 2 2] show ?thesis
    by (auto simp: s3_sr0_def eval_nat_numeral)
qed

text \<open>
  With eleven samples the commit comes round to the descriptor the DMA rests on: the DMA never
  leaves it and the pulse is not sent.  The settings allow six (\<open>step_pulse_config\<close>).
\<close>

lemma s3_commit_overrun:
  assumes ok: "pass_ok s" and idle: "s3_idle s = Some i" and over: "delay + pulse = 11"
  shows "\<exists>t. i2s_out_commit pulse delay s = Inr t \<and> s3_idle t = Some i \<and>
    dma_out t (s3_pnext t ! i) n = replicate n (s3_port t)"
proof -
  let ?low = "s3_port s AND NOT (step_mask s)"
  have i: "i < 12" "s3_idle_next s = (i + 1) mod 12" "length (s3_pass s) = 12" "length (s3_pnext s) = 12"
    and nx: "\<And>j. j < 12 \<Longrightarrow> s3_pnext s ! j = (if j = i then i else (j + 1) mod 12)"
    using ok idle by (auto simp: pass_ok_def)
  have nxm: "s3_pnext s ! ((i + m) mod 12) = (i + Suc m) mod 12" if "1 \<le> m" "m < 12" for m
    using nx [of "(i + m) mod 12"] ring12_inj [of m 0 i] that i(1) by (simp add: mod_Suc_eq)
  define dp1 where "dp1 = pass_write (s3_pnext s) ?low delay (s3_idle_next s, s3_pass s)"
  have dp1: "fst dp1 = (i + 1 + delay) mod 12" "length (snd dp1) = 12"
    using pass_write_spec [of "s3_pass s" 1 delay "s3_pnext s" i ?low] i over nxm
    by (auto simp: dp1_def)
  define dp2 where "dp2 = pass_write (s3_pnext s) (s3_port s) pulse dp1"
  have d1: "dp1 = ((i + (1 + delay)) mod 12, snd dp1)" using dp1(1) by (metis add.assoc prod.collapse)
  have sum: "i + (1 + delay) + pulse = i + 12" using over by simp
  have "fst dp2 = (i + 12) mod 12 \<and> length (snd dp2) = 12"
    using pass_write_spec [of "snd dp1" "1 + delay" pulse "s3_pnext s" i "s3_port s"] dp1(2) over nxm
    unfolding dp2_def d1 [symmetric] sum by auto
  then have dp2: "fst dp2 = i" "length (snd dp2) = 12" using i(1) by simp_all
  define t where "t = s\<lparr>s3_port := ?low, s3_pass := (snd dp2)[i := ?low],
      s3_idle_next := (s3_pnext s)[i := s3_idle_next s] ! i, s3_idle := Some i,
      s3_pnext := ((s3_pnext s)[i := s3_idle_next s])[i := i], s3_running := True\<rparr>"
  have commit: "i2s_out_commit pulse delay s = Inr t"
    using idle by (simp add: i2s_out_commit_def Let_def t_def dp1_def [symmetric] dp2_def [symmetric] dp2(1))
  have "s3_pnext t ! i = i" "s3_pass t ! i = s3_port t" using i dp2(2) by (simp_all add: t_def)
  then have "dma_out t (s3_pnext t ! i) n = replicate n (s3_port t)" by (simp add: dma_out_idle)
  then show ?thesis using commit by (simp add: t_def)
qed

subsection \<open>Filling the buffers\<close>

definition s3_wf :: "'a i2s_sr_scheme \<Rightarrow> bool" where
  "s3_wf s \<longleftrightarrow>
     length (s3_buffers s) = 5 \<and> (\<forall>b \<in> set (s3_buffers s). length b = 500) \<and>
     length (s3_length s) = 5 \<and> length (s3_next s) = 5 \<and> set (s3_queue s) \<subseteq> {..<5} \<and>
     length (s3_queue s) \<le> 5 \<and> (\<forall>d. s3_current s = Some d \<longrightarrow> d < 5) \<and> s3_rw_pos s \<le> 500 \<and>
     4 \<le> unat (s3_period s) \<and> unat (s3_period s) < 2 ^ 31"

definition s3_callback_ok :: "'a s3_pulse_func \<Rightarrow> bool" where
  \<comment> \<open>what the module relies on: the callback pushes at most six samples, which is what the
     settings of the driver allow for one step, and leaves the time alone\<close>
  "s3_callback_ok pf \<longleftrightarrow>
     (\<forall>s d. s3_wf s \<longrightarrow> s3_status s = STEPPING \<longrightarrow> s3_current s = Some d \<longrightarrow> s3_rw_pos s \<le> 494 \<longrightarrow>
        (\<exists>t. pf s = Inr t \<and> s3_wf t \<and> s3_current t = s3_current s \<and> s3_remain t = s3_remain s \<and>
           s3_rw_pos s \<le> s3_rw_pos t \<and> s3_rw_pos t \<le> s3_rw_pos s + 6))"

lemma s3_wf_put:
  assumes "s3_wf s" "d < 5" "s3_rw_pos s < 500"
  shows "\<exists>B. s3_put_sample d s = Inr (s\<lparr>s3_buffers := B, s3_rw_pos := s3_rw_pos s + 1\<rparr>) \<and>
    s3_wf (s\<lparr>s3_buffers := B, s3_rw_pos := s3_rw_pos s + 1, s3_remain := r\<rparr>)"
proof -
  let ?B = "(s3_buffers s)[d := (s3_buffers s ! d)[s3_rw_pos s := s3_port s]]"
  have "s3_buffers s ! d \<in> set (s3_buffers s)" using assms by (simp add: s3_wf_def)
  then have "\<forall>b \<in> set ?B. length b = 500"
    using assms(1) by (auto simp: s3_wf_def dest!: set_update_subset_insert [THEN subsetD])
  then have "s3_wf (s\<lparr>s3_buffers := ?B, s3_rw_pos := s3_rw_pos s + 1, s3_remain := r\<rparr>)"
    using assms by (simp add: s3_wf_def)
  moreover have "s3_put_sample d s = Inr (s\<lparr>s3_buffers := ?B, s3_rw_pos := s3_rw_pos s + 1\<rparr>)"
    using assms(3) by (simp add: s3_put_sample_def i2s_sizes)
  ultimately show ?thesis by blast
qed

lemma s3_put_samples_ok:
  "s3_wf s \<Longrightarrow> d < 5 \<Longrightarrow> s3_rw_pos s + n \<le> 500 \<Longrightarrow>
     \<exists>B. s3_put_samples d n s = Inr (s\<lparr>s3_buffers := B, s3_rw_pos := s3_rw_pos s + n\<rparr>) \<and>
       s3_wf (s\<lparr>s3_buffers := B, s3_rw_pos := s3_rw_pos s + n\<rparr>)"
proof (induction n arbitrary: s)
  case 0
  then show ?case by (intro exI [of _ "s3_buffers s"]) simp
next
  case (Suc n)
  then have "s3_rw_pos s < 500" by simp
  from s3_wf_put [OF Suc.prems(1,2) this, of "s3_remain s"] obtain B where
    B: "s3_put_sample d s = Inr (s\<lparr>s3_buffers := B, s3_rw_pos := s3_rw_pos s + 1\<rparr>)"
    and wf: "s3_wf (s\<lparr>s3_buffers := B, s3_rw_pos := s3_rw_pos s + 1\<rparr>)" by auto
  from Suc.IH [OF wf Suc.prems(2)] Suc.prems(3) B show ?case by simp
qed

lemma s3_push_ok:
  assumes "s3_wf s" "s3_current s = Some d" "n \<le> 5" "s3_rw_pos s + max 1 n \<le> 500"
  shows "\<exists>B. s3_push_sample n s = Inr (n, s\<lparr>s3_buffers := B, s3_rw_pos := s3_rw_pos s + max 1 n\<rparr>) \<and>
    s3_wf (s\<lparr>s3_buffers := B, s3_rw_pos := s3_rw_pos s + max 1 n\<rparr>)"
proof -
  have "d < 5" using assms by (simp add: s3_wf_def)
  moreover have "(if n = 0 then 1 else n) = max 1 n" by simp
  ultimately show ?thesis
    using s3_put_samples_ok [OF assms(1) _ assms(4), of d] assms(2,3)
    by (auto simp: s3_push_sample_def i2s_sizes simp del: s3_put_samples.simps)
qed

text \<open>The time to the next pulse never wraps, and a callback that pushes nothing still adds time.\<close>

lemma s3_add_period_bounds:
  assumes "unat (s3_period t) < 2 ^ 31" "4 \<le> unat (s3_period t)" "unat (s3_remain t) < 4"
    "old \<le> s3_rw_pos t" "s3_rw_pos t \<le> old + 500"
  shows "unat (s3_remain (s3_add_period old t)) =
    unat (s3_remain t) + (if 4 * (s3_rw_pos t - old) \<le> unat (s3_period t)
      then unat (s3_period t) - 4 * (s3_rw_pos t - old) else 4)"
proof -
  let ?n = "s3_rw_pos t - old"
  have w: "of_nat I2S_OUT_USEC_PER_PULSE * (of_nat (s3_rw_pos t) - of_nat old) = (of_nat (4 * ?n) :: u32)"
    using assms(4) by (simp add: I2S_OUT_USEC_PER_PULSE_def of_nat_diff)
  have "unat (of_nat j :: u32) = j" if "j < 2 ^ 32" for j
    using that by (simp add: unat_of_nat take_bit_nat_eq_self)
  moreover have "4 * ?n < 2 ^ 32" using assms(4,5) by simp
  ultimately have n: "unat (of_nat (4 * ?n) :: u32) = 4 * ?n" by blast
  have le: "s3_period t \<ge> of_nat (4 * ?n) \<longleftrightarrow> 4 * ?n \<le> unat (s3_period t)"
    by (simp only: word_le_nat_alt n)
  show ?thesis
  proof (cases "4 * ?n \<le> unat (s3_period t)")
    case True
    then have "unat (s3_period t - of_nat (4 * ?n)) = unat (s3_period t) - 4 * ?n"
      using le by (simp only: unat_sub n)
    then show ?thesis
      using True le assms(1,3) unfolding s3_add_period_def Let_def w
      by (simp add: unat_word_ariths)
  next
    case False
    then show ?thesis
      using le assms(3) unfolding s3_add_period_def Let_def w
      by (simp add: unat_word_ariths I2S_OUT_USEC_PER_PULSE_def)
  qed
qed

definition s3_work :: "'a i2s_sr_scheme \<Rightarrow> nat" where
  \<comment> \<open>bounds the iterations left of the loop\<close>
  "s3_work s = (495 - s3_rw_pos s) * 2 + (if unat (s3_remain s) < 4 then 1 else 0)"

lemma s3_work_less:
  "s3_rw_pos s < 495 \<Longrightarrow> s3_rw_pos s < s3_rw_pos t \<Longrightarrow> s3_work t < s3_work s"
  unfolding s3_work_def by (cases "unat (s3_remain s) < 4"; cases "unat (s3_remain t) < 4") auto

lemma s3_fill_step_ok:
  assumes cb: "s3_callback_ok pf" and wf: "s3_wf s" and cur: "s3_current s = Some d"
    and room: "s3_rw_pos s < 495"
  shows "\<exists>b t. s3_fill_step pf d s = Inr (b, t) \<and> s3_wf t \<and> s3_current t = Some d \<and>
    (if b then 495 \<le> s3_rw_pos t else s3_work t < s3_work s)"
proof -
  have d: "d < 5" using wf cur by (simp add: s3_wf_def)
  have word: "s3_remain s < of_nat I2S_OUT_USEC_PER_PULSE \<longleftrightarrow> unat (s3_remain s) < 4"
    by (simp add: I2S_OUT_USEC_PER_PULSE_def word_less_nat_alt)
  show ?thesis
  proof (cases "s3_remain s < of_nat I2S_OUT_USEC_PER_PULSE \<and> s3_status s = STEPPING")
    case False
    let ?r = "if s3_remain s \<ge> of_nat I2S_OUT_USEC_PER_PULSE
              then s3_remain s - of_nat I2S_OUT_USEC_PER_PULSE else 0"
    from s3_wf_put [OF wf d, of ?r] room obtain B where
      B: "s3_put_sample d s = Inr (s\<lparr>s3_buffers := B, s3_rw_pos := s3_rw_pos s + 1\<rparr>)"
      and wf': "s3_wf (s\<lparr>s3_buffers := B, s3_rw_pos := s3_rw_pos s + 1, s3_remain := ?r\<rparr>)" by auto
    define t where "t = s\<lparr>s3_buffers := B, s3_rw_pos := s3_rw_pos s + 1, s3_remain := ?r\<rparr>"
    have "s3_fill_step pf d s = Inr (False, t)"
      unfolding s3_fill_step_def if_not_P [OF False] B t_def by simp
    moreover have "s3_work t < s3_work s" by (rule s3_work_less) (use room in \<open>simp_all add: t_def\<close>)
    moreover have "s3_current t = Some d" using cur by (simp add: t_def)
    ultimately show ?thesis using wf' t_def by (intro exI [of _ False] exI [of _ t]) simp
  next
    case True
    then have st: "s3_status s = STEPPING" "s3_rw_pos s \<le> 494" "unat (s3_remain s) < 4"
      using room word by auto
    from cb [unfolded s3_callback_ok_def, rule_format, OF wf st(1) cur st(2)] obtain t0 where
      t0: "pf s = Inr t0" "s3_wf t0" "s3_current t0 = s3_current s" "s3_remain t0 = s3_remain s"
        "s3_rw_pos s \<le> s3_rw_pos t0" "s3_rw_pos t0 \<le> s3_rw_pos s + 6" by blast
    define u where "u = s3_add_period (s3_rw_pos s) t0"
    have p: "4 \<le> unat (s3_period t0)" "unat (s3_period t0) < 2 ^ 31" using t0(2) by (simp_all add: s3_wf_def)
    have rem: "unat (s3_remain u) = unat (s3_remain s) +
        (if 4 * (s3_rw_pos t0 - s3_rw_pos s) \<le> unat (s3_period t0)
         then unat (s3_period t0) - 4 * (s3_rw_pos t0 - s3_rw_pos s) else 4)"
      using s3_add_period_bounds [OF p(2,1), of "s3_rw_pos s"] t0 st(3) unfolding u_def by simp
    have u: "s3_wf u" "s3_current u = Some d" "s3_rw_pos u = s3_rw_pos t0"
      using t0 cur by (simp_all add: u_def s3_add_period_def Let_def s3_wf_def)
    have work: "s3_work u < s3_work s"
    proof (cases "s3_rw_pos t0 = s3_rw_pos s")
      case eq: True
      then have "4 \<le> unat (s3_remain u)" using rem p(1) by simp
      then show ?thesis using eq st(3) u(3) by (simp add: s3_work_def)
    next
      case False
      with t0(5) u(3) have "s3_rw_pos s < s3_rw_pos u" by simp
      then show ?thesis by (rule s3_work_less [OF room])
    qed
    have eq: "s3_fill_step pf d s =
        (if s3_status u = WAITING then Inr (False, u\<lparr>s3_next := (s3_next u)[d := None]\<rparr>)
         else if s3_status u = PASSTHROUGH then Inr (True, u\<lparr>s3_remain := 0, s3_rw_pos := 500\<rparr>)
         else Inr (False, u))"
      unfolding s3_fill_step_def if_P [OF True] t0(1) by (simp add: u_def Let_def i2s_sizes)
    have w1: "s3_wf (u\<lparr>s3_next := (s3_next u)[d := None]\<rparr>)" "s3_wf (u\<lparr>s3_remain := 0, s3_rw_pos := 500\<rparr>)"
      using u(1) by (simp_all add: s3_wf_def)
    have w2: "s3_work (u\<lparr>s3_next := (s3_next u)[d := None]\<rparr>) = s3_work u" by (simp add: s3_work_def)
    show ?thesis
    proof (cases "s3_status u = WAITING")
      case True
      then show ?thesis using eq w1(1) w2 u(2) work
        by (intro exI [of _ False] exI [of _ "u\<lparr>s3_next := (s3_next u)[d := None]\<rparr>"]) simp
    next
      case False
      then show ?thesis using eq w1(2) u(1,2) work by (cases "s3_status u = PASSTHROUGH") auto
    qed
  qed
qed

lemma s3_fill_loop_ok:
  assumes "s3_callback_ok pf"
  shows "s3_wf s \<Longrightarrow> s3_current s = Some d \<Longrightarrow>
    \<exists>t. s3_fill_loop pf d s = Some (Inr t) \<and> s3_wf t \<and> s3_current t = Some d \<and> 495 \<le> s3_rw_pos t"
proof (induction "s3_work s" arbitrary: s rule: less_induct)
  case less
  show ?case
  proof (cases "s3_rw_pos s < 495")
    case True
    from s3_fill_step_ok [OF assms less.prems True] obtain b t where
      t: "s3_fill_step pf d s = Inr (b, t)" "s3_wf t" "s3_current t = Some d"
        "if b then 495 \<le> s3_rw_pos t else s3_work t < s3_work s" by blast
    show ?thesis
    proof (cases b)
      case bt: True
      then show ?thesis using t True by (subst s3_fill_loop.simps) (simp add: i2s_sizes)
    next
      case False
      with less.hyps [of t] t have "\<exists>t'. s3_fill_loop pf d t = Some (Inr t') \<and> s3_wf t' \<and>
          s3_current t' = Some d \<and> 495 \<le> s3_rw_pos t'" by simp
      then show ?thesis using t False True by (subst s3_fill_loop.simps) (simp add: i2s_sizes)
    qed
  next
    case False
    then show ?thesis using less.prems by (subst s3_fill_loop.simps) (auto simp: i2s_sizes)
  qed
qed

text \<open>
  On the S3 a buffer is always filled: whatever the pulse period, the callback's pulses and
  changes of the mode, the fill loop returns after finitely many turns without writing outside
  the buffer, fills at least 495 of the 500 samples, and sets the length to what it filled.
\<close>

theorem s3_buffer_filled:
  assumes "s3_callback_ok pf" "s3_wf s" "s3_status s = STEPPING" "d < 5"
  shows "\<exists>t. i2s_step_gen pf d s = Some (Inr t) \<and> s3_wf t \<and> 495 \<le> s3_rw_pos t \<and>
    s3_length t ! d = 4 * s3_rw_pos t"
proof -
  have "s3_wf (s\<lparr>s3_current := Some d, s3_rw_pos := 0\<rparr>)" using assms(2,4) by (simp add: s3_wf_def)
  from s3_fill_loop_ok [OF assms(1) this, of d] obtain t where
    t: "s3_fill_loop pf d (s\<lparr>s3_current := Some d, s3_rw_pos := 0\<rparr>) = Some (Inr t)" "s3_wf t"
      "495 \<le> s3_rw_pos t" by auto
  define u where "u = s3_set_filled d (s3_set_filled d t)"
  have "i2s_step_gen pf d s = Some (Inr u)"
    using assms(3) t(1) by (simp add: i2s_step_gen_def s3_fillout_dma_buffer_def Let_def u_def)
  moreover have "s3_wf u" "s3_rw_pos u = s3_rw_pos t" "s3_length u ! d = 4 * s3_rw_pos u"
    using t(2) assms(4) by (simp_all add: u_def s3_set_filled_def s3_wf_def i2s_sizes)
  ultimately show ?thesis using t(3) by auto
qed

definition s3_push2 :: "unit s3_pulse_func" where
  \<comment> \<open>a callback that sends a pulse of two samples on line 0\<close>
  "s3_push2 s =
     (case s3_push_sample 2 (s\<lparr>s3_port := s3_port s OR 1\<rparr>) of
        Inl e \<Rightarrow> Inl e | Inr (_, t) \<Rightarrow> Inr (t\<lparr>s3_port := s3_port t AND NOT 1\<rparr>))"

lemma s3_push2_ok: "s3_callback_ok s3_push2"
  unfolding s3_callback_ok_def
proof (intro allI impI)
  fix s :: "unit i2s_sr_scheme" and d
  assume s: "s3_wf s" "s3_status s = STEPPING" "s3_current s = Some d" "s3_rw_pos s \<le> 494"
  let ?s = "s\<lparr>s3_port := s3_port s OR 1\<rparr>"
  have "s3_wf ?s" "s3_current ?s = Some d" "s3_rw_pos ?s + max 1 2 \<le> 500"
    using s by (simp_all add: s3_wf_def)
  from s3_push_ok [OF this(1,2) _ this(3)] obtain B where
    "s3_push_sample 2 ?s = Inr (2, ?s\<lparr>s3_buffers := B, s3_rw_pos := s3_rw_pos s + 2\<rparr>)"
    "s3_wf (?s\<lparr>s3_buffers := B, s3_rw_pos := s3_rw_pos s + 2\<rparr>)" by auto
  then show "\<exists>t. s3_push2 s = Inr t \<and> s3_wf t \<and> s3_current t = s3_current s \<and>
      s3_remain t = s3_remain s \<and> s3_rw_pos s \<le> s3_rw_pos t \<and> s3_rw_pos t \<le> s3_rw_pos s + 6"
    by (simp add: s3_push2_def s3_wf_def)
qed

definition s3_sr1 :: i2s_sr where
  "s3_sr1 = s3_sr0\<lparr>s3_status := STEPPING\<rparr>"

theorem s3_buffer_filled_witness:
  "\<exists>t. i2s_step_gen s3_push2 1 s3_sr1 = Some (Inr t) \<and> 495 \<le> s3_rw_pos t \<and>
     s3_length t ! 1 = 4 * s3_rw_pos t"
proof -
  have "s3_wf s3_sr1" "s3_status s3_sr1 = STEPPING"
    by (simp_all add: s3_wf_def s3_sr1_def s3_sr0_def)
  from s3_buffer_filled [OF s3_push2_ok this, of 1] show ?thesis by auto
qed

subsection \<open>Changing the mode, and start-up\<close>

lemma allocate_dma_channel_spec:
  "(allocate_dma_channel addr n = - 1 \<longleftrightarrow> (\<forall>c < n. addr c \<noteq> 0)) \<and>
   (\<forall>c. allocate_dma_channel addr n = int c \<longrightarrow>
      c < n \<and> addr c = 0 \<and> (\<forall>c'. c < c' \<and> c' < n \<longrightarrow> addr c' \<noteq> 0))"
  by (induction n) (auto simp: less_Suc_eq)

text \<open>
  Without a callback the request for the stepping mode stops the DMA and does not start it again:
  the port is no longer sent.
\<close>

lemma s3_set_stepping_no_callback:
  assumes "s3_initialized s" "s3_idle s = Some i" "\<not> s3_func s" "s3_status s = PASSTHROUGH"
  shows "s3_set_stepping s = Returned (s\<lparr>s3_running := False\<rparr>)"
  using assms by (simp add: s3_set_stepping_def s3_out_start_def Let_def)

lemma s3_start_ring:
  assumes "s3_wf s" "s3_initialized s" "s3_idle s = Some i" "s3_func s" "s3_status s \<noteq> STEPPING"
  shows "\<exists>t. s3_out_start STEPPING s = (True, t) \<and> s3_status t = STEPPING \<and> s3_running t \<and>
    s3_start t = Ring_desc 0 \<and> s3_irq t \<and> s3_buffers t = replicate 5 (replicate 500 (s3_port s)) \<and>
    s3_next t = [Some 1, Some 2, Some 3, Some 4, Some 0]"
proof -
  obtain a b c d e where B: "s3_buffers s = [a, b, c, d, e]"
    using assms(1) length_5 [of "s3_buffers s"] by (auto simp: s3_wf_def)
  obtain f g h i' j where L: "s3_length s = [f, g, h, i', j]"
    using assms(1) length_5 [of "s3_length s"] by (auto simp: s3_wf_def)
  obtain k l m n q where X: "s3_next s = [k, l, m, n, q]"
    using assms(1) length_5 [of "s3_next s"] by (auto simp: s3_wf_def)
  have 5: "[0..<5] = [0, 1, 2, 3, 4 :: nat]" by (simp add: eval_nat_numeral)
  have r: "replicate 5 x = [x, x, x, x, x]" for x :: "u32 list" by (simp add: numeral_eq_Suc)
  show ?thesis
    using assms(2-5)
    by (simp add: s3_out_start_def s3_start_mode_def Let_def s3_clear_o_dma_buffers_def
        s3_clear_dma_buffer_def i2s_sizes B L X 5 r)
qed

text \<open>
  The start-up of the S3 module takes the pin numbers, the period and the callback over
  only when the interrupt could not be allocated, in which case it reports failure: after a
  start-up that reports success the module has none of them.
\<close>

theorem s3_init_parameters:
  assumes "\<not> s3_initialized s" "\<exists>c < n. addr c = 0" "mem"
  shows "case s3_out_init2 bits addr n mem intr_ok param s of (r, t) \<Rightarrow>
    r = intr_ok \<and>
    (if r then s3_pins t = s3_pins s \<and> s3_period t = s3_period s \<and> s3_func t = s3_func s
     else s3_pins t \<and> s3_period t = ip_period param \<and> s3_func t = ip_func param)"
proof -
  have a: "allocate_dma_channel addr n \<noteq> - 1" using allocate_dma_channel_spec [of addr n] assms(2) by auto
  have frame: "s3_pins (fold (\<lambda>d s. s3_clear_dma_buffer d v (s\<lparr>s3_next := nx d s\<rparr>)) ds u) = s3_pins u \<and>
      s3_period (fold (\<lambda>d s. s3_clear_dma_buffer d v (s\<lparr>s3_next := nx d s\<rparr>)) ds u) = s3_period u \<and>
      s3_func (fold (\<lambda>d s. s3_clear_dma_buffer d v (s\<lparr>s3_next := nx d s\<rparr>)) ds u) = s3_func u"
    for v nx ds and u :: "'a i2s_sr_scheme"
    by (induction ds arbitrary: u) (simp_all add: s3_clear_dma_buffer_def)
  show ?thesis
    using assms a frame
    by (simp add: s3_out_init2_def Let_def s3_clear_o_dma_buffers_def s3_gpio_shiftout_def)
qed

theorem s3_init_parameters_witness:
  "fst (s3_out_init2 32 (\<lambda>c. if c = 2 then 0 else 1) 5 True True
     \<lparr>ip_func = True, ip_period = 100, ip_init_val = 0\<rparr> (s3_sr0\<lparr>s3_initialized := False\<rparr>)) \<and>
   \<not> s3_pins (snd (s3_out_init2 32 (\<lambda>c. if c = 2 then 0 else 1) 5 True True
     \<lparr>ip_func = True, ip_period = 100, ip_init_val = 0\<rparr> (s3_sr0\<lparr>s3_initialized := False\<rparr>)))"
proof -
  have "\<not> s3_initialized (s3_sr0\<lparr>s3_initialized := False\<rparr>)" "\<exists>c < (5::nat). (if c = 2 then 0 else 1 :: u32) = 0"
    by (auto intro: exI [of _ 2])
  from s3_init_parameters [OF this TrueI, where bits = 32 and intr_ok = True and param = "\<lparr>ip_func = True, ip_period = 100, ip_init_val = 0\<rparr>"]
  show ?thesis by (simp add: s3_sr0_def split: prod.splits)
qed

end
