(* ===== verification/Trinamic.thy ===== *)
theory Trinamic
  imports Prelude
begin

text \<open>
  The register access to the Trinamic stepper drivers: the byte transfers of \<open>spi.c\<close>, the
  datagrams over SPI of \<open>tmc_spi.c\<close>, for drivers in a daisy chain (one chip select) and for
  drivers with a chip select each, and the datagrams over a serial port of \<open>tmc_uart.c\<close>.

  The drivers are hardware: a chip is a state \<open>'d\<close> with a function \<open>latch\<close> that takes the five
  bytes in its shift register when the chip select goes high, and gives the five bytes it puts
  there for the next transfer.  What the code relies on is \<open>tmc_chip\<close>: a read datagram is
  answered by the status and the register, a write datagram changes the register.  A chain of
  chips is one long shift register.  The loops over the chain count down from the number of
  motors, which is at least one.  The delays between the transfers are left out.
\<close>

subsection \<open>The bus\<close>

record 'd tmc_bus =
  shift :: "u8 list"     \<comment> \<open>the shift registers, the byte that comes out next first\<close>
  chips :: "'d list"     \<comment> \<open>the chip next to MOSI first\<close>

definition spi_xfer :: "u8 \<Rightarrow> 'd tmc_bus \<Rightarrow> u8 \<times> 'd tmc_bus" where
  "spi_xfer b s = (hd (shift s), s\<lparr>shift := tl (shift s) @ [b]\<rparr>)"

definition spi_get_byte :: "bool \<Rightarrow> u8 \<Rightarrow> 'd tmc_bus \<Rightarrow> u8 \<times> 'd tmc_bus" where
  \<comment> \<open>whether the transfer succeeds, and the level pattern sent while nothing is\<close>
  "spi_get_byte ok idle s = (if ok then spi_xfer idle s else (255, s))"

definition spi_put_byte :: "bool \<Rightarrow> u8 \<Rightarrow> 'd tmc_bus \<Rightarrow> u8 \<times> 'd tmc_bus" where
  "spi_put_byte ok b s = (if ok then (0, snd (spi_xfer b s)) else (255, s))"

fun chunks5 :: "'b list \<Rightarrow> 'b list list" where
  "chunks5 (a # b # c # d # e # xs) = [a, b, c, d, e] # chunks5 xs"
| "chunks5 _ = []"

definition spi_deselect :: "('d \<Rightarrow> u8 list \<Rightarrow> 'd \<times> u8 list) \<Rightarrow> 'd tmc_bus \<Rightarrow> 'd tmc_bus" where
  \<comment> \<open>the chip select goes high: every chip takes its datagram\<close>
  "spi_deselect latch s =
     (let rs = map2 latch (chips s) (rev (chunks5 (shift s)))
      in s\<lparr>chips := map fst rs, shift := concat (rev (map snd rs))\<rparr>)"

subsection \<open>Datagrams\<close>

record tmc_datagram =
  dg_addr :: u8     \<comment> \<open>bit 7 is \<open>write\<close>, the rest \<open>idx\<close>\<close>
  dg_value :: u32

definition clear_write :: "u8 \<Rightarrow> u8" where "clear_write a = a AND 127"
definition set_write :: "u8 \<Rightarrow> u8" where "set_write a = a OR 128"

definition data_byte :: "nat \<Rightarrow> u32 \<Rightarrow> u8" where
  \<comment> \<open>\<open>payload.data[i]\<close>\<close>
  "data_byte i v = ucast (drop_bit (8 * i) v)"

definition from_bytes :: "u8 \<Rightarrow> u8 \<Rightarrow> u8 \<Rightarrow> u8 \<Rightarrow> u32" where
  "from_bytes d3 d2 d1 d0 =
     push_bit 24 (ucast d3) OR push_bit 16 (ucast d2) OR push_bit 8 (ucast d1) OR ucast d0"

definition value_bytes :: "u32 \<Rightarrow> u8 list" where
  "value_bytes v = [data_byte 3 v, data_byte 2 v, data_byte 1 v, data_byte 0 v]"

fun send_bytes :: "bool \<Rightarrow> u8 list \<Rightarrow> 'd tmc_bus \<Rightarrow> 'd tmc_bus" where
  "send_bytes ok [] s = s"
| "send_bytes ok (b # bs) s = send_bytes ok bs (snd (spi_put_byte ok b s))"

definition get_value :: "bool \<Rightarrow> u8 \<Rightarrow> 'd tmc_bus \<Rightarrow> u32 \<times> 'd tmc_bus" where
  \<comment> \<open>four bytes, the most significant first\<close>
  "get_value ok idle s =
     (let (d3, s) = spi_get_byte ok idle s;
          (d2, s) = spi_get_byte ok idle s;
          (d1, s) = spi_get_byte ok idle s;
          (d0, s) = spi_get_byte ok idle s
      in (from_bytes d3 d2 d1 d0, s))"

subsection \<open>Drivers in a chain\<close>

fun send_reads :: "bool \<Rightarrow> tmc_datagram list \<Rightarrow> nat \<Rightarrow> 'd tmc_bus \<Rightarrow> 'd tmc_bus" where
  \<comment> \<open>the first loop of the read, from index \<open>n - 1\<close> down to 0\<close>
  "send_reads ok ds 0 s = s"
| "send_reads ok ds (Suc i) s = send_reads ok ds i (send_bytes ok [dg_addr (ds ! i), 0, 0, 0, 0] s)"

fun fetch_reply :: "bool \<Rightarrow> u8 \<Rightarrow> tmc_datagram list \<Rightarrow> nat \<Rightarrow> nat \<Rightarrow>
    u8 \<times> u32 \<Rightarrow> 'd tmc_bus \<Rightarrow> (u8 \<times> u32) \<times> 'd tmc_bus" where
  \<comment> \<open>the second loop\<close>
  "fetch_reply ok idle ds sq 0 r s = (r, s)"
| "fetch_reply ok idle ds sq (Suc i) r s =
     (let (res, s) = spi_put_byte ok (dg_addr (ds ! i)) s;
          (v, s) = get_value ok idle s
      in fetch_reply ok idle ds sq i (if i = sq then (res, v) else r) s)"

definition chain_read :: "bool \<Rightarrow> u8 \<Rightarrow> ('d \<Rightarrow> u8 list \<Rightarrow> 'd \<times> u8 list) \<Rightarrow> nat \<Rightarrow> nat \<Rightarrow> u8 \<Rightarrow>
    u8 \<Rightarrow> tmc_datagram list \<Rightarrow> 'd tmc_bus \<Rightarrow> (u8 \<times> u32) \<times> tmc_datagram list \<times> 'd tmc_bus" where
  \<comment> \<open>\<open>n\<close> motors, motor \<open>sq\<close>, register address; \<open>status0\<close> is the static status of the last call\<close>
  "chain_read ok idle latch n sq addr status0 ds s =
     (let ds = ds[sq := (ds ! sq)\<lparr>dg_addr := clear_write addr\<rparr>];
          s = spi_deselect latch (send_reads ok ds n s);
          (r, s) = fetch_reply ok idle ds sq n (status0, 0) s
      in (r, ds, spi_deselect latch s))"

fun send_write :: "bool \<Rightarrow> nat \<Rightarrow> nat \<Rightarrow> u8 \<Rightarrow> tmc_datagram list \<Rightarrow> 'd tmc_bus \<Rightarrow>
    u8 \<times> tmc_datagram list \<times> 'd tmc_bus" where
  \<comment> \<open>the loop of the write\<close>
  "send_write ok sq 0 st ds s = (st, ds, s)"
| "send_write ok sq (Suc i) st ds s =
     (let (res, s) = spi_put_byte ok (dg_addr (ds ! i)) s;
          s = send_bytes ok (value_bytes (dg_value (ds ! i))) s
      in if i = sq then send_write ok sq i res (ds[i := (ds ! i)\<lparr>dg_addr := 0\<rparr>]) s
         else send_write ok sq i st ds s)"

definition chain_write :: "bool \<Rightarrow> ('d \<Rightarrow> u8 list \<Rightarrow> 'd \<times> u8 list) \<Rightarrow> nat \<Rightarrow> nat \<Rightarrow> tmc_datagram \<Rightarrow>
    tmc_datagram list \<Rightarrow> 'd tmc_bus \<Rightarrow> u8 \<times> tmc_datagram list \<times> 'd tmc_bus" where
  "chain_write ok latch n sq reg ds s =
     (let ds = ds[sq := reg\<lparr>dg_addr := set_write (dg_addr reg)\<rparr>];
          (st, ds, s) = send_write ok sq n 0 ds s
      in (st, ds, spi_deselect latch s))"

definition chain_init :: "nat \<Rightarrow> tmc_datagram list \<Rightarrow> tmc_datagram list" where
  \<comment> \<open>\<open>tmc_spi_init\<close>: \<open>idx\<close> is cleared, \<open>write\<close> keeps its static value 0\<close>
  "chain_init n_max ds =
     map (\<lambda>d. d\<lparr>dg_addr := dg_addr d AND 128\<rparr>) (take n_max ds) @ drop n_max ds"

subsection \<open>Drivers with a chip select each\<close>

definition single_read :: "bool \<Rightarrow> u8 \<Rightarrow> ('d \<Rightarrow> u8 list \<Rightarrow> 'd \<times> u8 list) \<Rightarrow> u8 \<Rightarrow>
    'd tmc_bus \<Rightarrow> (u8 \<times> u32) \<times> 'd tmc_bus" where
  \<comment> \<open>the bus is that of the selected chip\<close>
  "single_read ok idle latch addr s =
     (let s = spi_deselect latch (send_bytes ok [clear_write addr, 0, 0, 0, 0] s);
          (status, s) = spi_put_byte ok (clear_write addr) s;
          (v, s) = get_value ok idle s
      in ((status, v), spi_deselect latch s))"

definition single_write :: "bool \<Rightarrow> ('d \<Rightarrow> u8 list \<Rightarrow> 'd \<times> u8 list) \<Rightarrow> tmc_datagram \<Rightarrow>
    'd tmc_bus \<Rightarrow> u8 \<times> 'd tmc_bus" where
  "single_write ok latch reg s =
     (let (status, s) = spi_put_byte ok (set_write (dg_addr reg)) s;
          s = send_bytes ok (value_bytes (dg_value reg)) s
      in (status, spi_deselect latch s))"

datatype cs_function = MotorChipSelectX | MotorChipSelectY | MotorChipSelectZ
  | MotorChipSelectM3 | MotorChipSelectM4 | MotorChipSelectM5 | OtherFunction

definition cs_motor :: "cs_function \<Rightarrow> nat option" where
  "cs_motor f =
     (case f of MotorChipSelectX \<Rightarrow> Some 0 | MotorChipSelectY \<Rightarrow> Some 1 | MotorChipSelectZ \<Rightarrow> Some 2
      | MotorChipSelectM3 \<Rightarrow> Some 3 | MotorChipSelectM4 \<Rightarrow> Some 4 | MotorChipSelectM5 \<Rightarrow> Some 5
      | OtherFunction \<Rightarrow> None)"

definition add_cs_pin :: "u16 \<Rightarrow> bool \<Rightarrow> cs_function \<Rightarrow> bool \<Rightarrow> u16 \<Rightarrow> u16 list \<Rightarrow> u16 list" where
  \<comment> \<open>\<open>I2S_OUT_PIN_BASE\<close>; whether the pin is in the chip select group, its function, whether it has a
     port, its number; the table of pins\<close>
  "add_cs_pin base in_group f port pin cs =
     (if in_group then
        (case cs_motor f of None \<Rightarrow> cs | Some m \<Rightarrow> cs[m := if port then pin + base else pin])
      else cs)"

subsection \<open>Drivers on a serial port\<close>

text \<open>
  The stream is a parameter: the state \<open>'s\<close> with the operations the code calls.  The wait for
  the answer polls the receive count and the clock; \<open>obs\<close> is what the polls see, in order.
\<close>

record 's tmc_stream =
  ts_present :: bool
  ts_reset_write :: "'s \<Rightarrow> 's"
  ts_write_n :: "u8 list \<Rightarrow> 's \<Rightarrow> 's"
  ts_reset_read :: "'s \<Rightarrow> 's"
  ts_disable_rx :: "bool \<Rightarrow> 's \<Rightarrow> 's"
  ts_read :: "'s \<Rightarrow> int \<times> 's"

fun wait_response :: "u32 \<Rightarrow> (nat \<times> u32) list \<Rightarrow> nat option" where
  \<comment> \<open>receive count and clock at each poll; the count the wait ends with\<close>
  "wait_response ms [] = None"
| "wait_response ms ((count, now) # obs) =
     (if count < 8 then (if now - ms \<ge> 11 then Some count else wait_response ms obs) else Some count)"

fun read_bytes :: "('s \<Rightarrow> int \<times> 's) \<Rightarrow> nat \<Rightarrow> 's \<Rightarrow> u8 list \<times> 's" where
  "read_bytes rd 0 s = ([], s)"
| "read_bytes rd (Suc n) s =
     (case rd s of (v, s1) \<Rightarrow> case read_bytes rd n s1 of (vs, s2) \<Rightarrow> (word_of_int v # vs, s2))"

definition tmc_uart_read :: "nat \<Rightarrow> 's tmc_stream \<Rightarrow> u8 list \<Rightarrow> u32 \<Rightarrow> (nat \<times> u32) list \<Rightarrow>
    u8 list \<Rightarrow> 's \<Rightarrow> (u8 list \<times> 's) option" where
  \<comment> \<open>the place of \<open>msg.addr\<close> in a datagram, the request, the clock at the start, what the polls see, the last answer (static); the count
     is read once more after the wait and taken to be what the last poll saw or more\<close>
  "tmc_uart_read addr_ix st dgr ms obs wdgr s =
     (if \<not> ts_present st then Some (wdgr, s)
      else
        let s1 = ts_write_n st dgr (ts_reset_write st s);
            s2 = ts_disable_rx st False (ts_reset_read st s1)
        in case wait_response ms obs of
             None \<Rightarrow> None
           | Some count \<Rightarrow>
               let (wdgr', s3) = (if count \<ge> 8 then read_bytes (ts_read st) 8 s2
                                  else (wdgr[addr_ix := 255], s2))
               in Some (wdgr', ts_disable_rx st True s3))"

definition tmc_uart_write :: "'s tmc_stream \<Rightarrow> u8 list \<Rightarrow> 's \<Rightarrow> 's" where
  "tmc_uart_write st dgr s =
     (if \<not> ts_present st then s else ts_write_n st dgr (ts_reset_read st s))"

subsection \<open>Bytes and words\<close>

lemma from_value_bytes: "from_bytes (data_byte 3 v) (data_byte 2 v) (data_byte 1 v) (data_byte 0 v) = v"
proof (rule bit_word_eqI)
  fix n assume "n < LENGTH(32)"
  then have n: "n < 32" by simp
  consider "n < 8" | "8 \<le> n" "n < 16" | "16 \<le> n" "n < 24" | "24 \<le> n" using n by linarith
  then show "bit (from_bytes (data_byte 3 v) (data_byte 2 v) (data_byte 1 v) (data_byte 0 v)) n = bit v n"
    using n by cases (auto simp: from_bytes_def data_byte_def bit_simps)
qed

lemma clear_write_bit [simp]: "\<not> bit (clear_write a) 7"
  by (simp add: clear_write_def bit_and_iff)

lemma set_write_bit [simp]: "bit (set_write a) 7"
  by (simp add: set_write_def bit_or_iff)

lemma clear_set_write [simp]: "clear_write (set_write a) = clear_write a"
proof (rule bit_word_eqI)
  fix n assume "n < LENGTH(8)"
  then have "n < 8" by simp
  then have "n = 0 \<or> n = 1 \<or> n = 2 \<or> n = 3 \<or> n = 4 \<or> n = 5 \<or> n = 6 \<or> n = 7" by arith
  then show "bit (clear_write (set_write a)) n = bit (clear_write a) n"
    by (auto simp: clear_write_def set_write_def bit_and_iff bit_or_iff)
qed

lemma length_value_bytes [simp]: "length (value_bytes v) = 4"
  by (simp add: value_bytes_def)

subsection \<open>Transfers\<close>

definition tmc_chip ::
    "('d \<Rightarrow> u8 list \<Rightarrow> 'd \<times> u8 list) \<Rightarrow> ('d \<Rightarrow> u8 \<Rightarrow> u32) \<Rightarrow> ('d \<Rightarrow> u8) \<Rightarrow> bool" where
  \<comment> \<open>a read is answered by the status and the register and changes no register; a write sets its register\<close>
  "tmc_chip latch regs stat \<longleftrightarrow>
     (\<forall>d dg. length dg = 5 \<longrightarrow>
        length (snd (latch d dg)) = 5 \<and>
        (\<not> bit (hd dg) 7 \<longrightarrow> regs (fst (latch d dg)) = regs d \<and>
           snd (latch d dg) = stat d # value_bytes (regs d (hd dg))) \<and>
        (\<forall>v. bit (hd dg) 7 \<and> tl dg = value_bytes v \<longrightarrow>
           regs (fst (latch d dg)) = (regs d)(clear_write (hd dg) := v)))"

definition bus_ok :: "nat \<Rightarrow> 'd tmc_bus \<Rightarrow> bool" where
  "bus_ok n s \<longleftrightarrow> length (chips s) = n \<and> length (shift s) = 5 * n"

lemma send_bytes_shift:
  "length bs \<le> length (shift s) \<Longrightarrow>
     shift (send_bytes True bs s) = drop (length bs) (shift s) @ bs \<and> chips (send_bytes True bs s) = chips s"
proof (induction bs arbitrary: s)
  case Nil
  then show ?case by simp
next
  case (Cons b bs)
  let ?s = "s\<lparr>shift := tl (shift s) @ [b]\<rparr>"
  have "length bs \<le> length (shift ?s)" using Cons.prems by simp
  from Cons.IH [OF this] Cons.prems show ?case
    by (simp add: spi_put_byte_def spi_xfer_def drop_Suc)
qed

lemma chunks5_concat: "\<forall>x \<in> set xs. length x = 5 \<Longrightarrow> chunks5 (concat xs) = xs"
proof (induction xs)
  case Nil
  then show ?case by simp
next
  case (Cons x xs)
  then have "length x = 5" by simp
  then obtain a b c d e where "x = [a, b, c, d, e]" by (auto simp: numeral_eq_Suc length_Suc_conv)
  with Cons show ?case by simp
qed

definition down :: "(nat \<Rightarrow> 'b) \<Rightarrow> nat \<Rightarrow> 'b list" where
  \<comment> \<open>\<open>f (n - 1), ..., f 0\<close>\<close>
  "down f n = rev (map f [0..<n])"

lemma down_Suc: "down f (Suc n) = f n # down f n"
  by (simp add: down_def)

lemma down_0 [simp]: "down f 0 = []" by (simp add: down_def)

lemma length_down [simp]: "length (down f n) = n" by (simp add: down_def)

lemma length_concat_down: "(\<And>i. i < n \<Longrightarrow> length (f i) = 5) \<Longrightarrow> length (concat (down f n)) = 5 * n"
  by (induction n) (simp_all add: down_Suc)

lemma send_reads_shift:
  "5 * n \<le> length (shift s) \<Longrightarrow>
     shift (send_reads True ds n s) =
       drop (5 * n) (shift s) @ concat (down (\<lambda>i. [dg_addr (ds ! i), 0, 0, 0, 0]) n) \<and>
     chips (send_reads True ds n s) = chips s"
proof (induction n arbitrary: s)
  case 0
  then show ?case by simp
next
  case (Suc i)
  let ?b = "[dg_addr (ds ! i), 0, 0, 0, 0]"
  have p: "shift (send_bytes True ?b s) = drop 5 (shift s) @ ?b" "chips (send_bytes True ?b s) = chips s"
    using send_bytes_shift [of ?b s] Suc.prems by (simp_all add: eval_nat_numeral del: send_bytes.simps)
  have "5 * i \<le> length (shift (send_bytes True ?b s))" using Suc.prems p(1) by simp
  from Suc.IH [OF this] p Suc.prems show ?case
    by (simp add: down_Suc add.commute del: send_bytes.simps)
qed

lemma deselect_chunks:
  assumes "shift s = concat (down dg n)" "length (chips s) = n" "\<And>i. i < n \<Longrightarrow> length (dg i) = 5"
  shows "spi_deselect latch s = s\<lparr>chips := map (\<lambda>i. fst (latch (chips s ! i) (dg i))) [0..<n],
           shift := concat (down (\<lambda>i. snd (latch (chips s ! i) (dg i))) n)\<rparr>"
proof -
  have "chunks5 (shift s) = down dg n"
    unfolding assms(1) by (rule chunks5_concat) (use assms(3) in \<open>auto simp: down_def\<close>)
  then have r: "rev (chunks5 (shift s)) = map dg [0..<n]" by (simp add: down_def)
  have m: "map2 latch (chips s) (map dg [0..<n]) = map (\<lambda>i. latch (chips s ! i) (dg i)) [0..<n]"
    by (rule nth_equalityI) (use assms(2) in auto)
  show ?thesis
    unfolding spi_deselect_def r m Let_def by (simp add: comp_def down_def)
qed

text \<open>The second loop of the read: it returns what the chip of the motor has put into its register.\<close>

lemma length_5_E: "length x = 5 \<Longrightarrow> (\<And>a b c d e. x = [a, b, c, d, e] \<Longrightarrow> P) \<Longrightarrow> P"
  by (auto simp: numeral_eq_Suc length_Suc_conv)

lemma put_then_get:
  assumes "shift s = [a, b, c, d, e] @ xs"
  shows "\<exists>s2. get_value True idle (snd (spi_put_byte True x s)) = (from_bytes b c d e, s2) \<and>
    shift s2 = xs @ [x, idle, idle, idle, idle] \<and> chips s2 = chips s"
  using assms
  by (simp add: get_value_def spi_put_byte_def spi_get_byte_def spi_xfer_def)

lemma fetch_reply_value:
  assumes "\<And>i. i < n \<Longrightarrow> length (rp i) = 5" "shift s = concat (down rp n) @ xs" "sq < n"
  shows "\<exists>s2. fetch_reply True idle ds sq n r s =
      ((0, from_bytes (rp sq ! 1) (rp sq ! 2) (rp sq ! 3) (rp sq ! 4)), s2) \<and>
    shift s2 = xs @ concat (down (\<lambda>i. [dg_addr (ds ! i), idle, idle, idle, idle]) n) \<and> chips s2 = chips s"
proof -
  have step: "\<exists>s2. fetch_reply True idle ds sq n r s =
      (if sq < n then (0, from_bytes (rp sq ! 1) (rp sq ! 2) (rp sq ! 3) (rp sq ! 4)) else r, s2) \<and>
    shift s2 = xs @ concat (down (\<lambda>i. [dg_addr (ds ! i), idle, idle, idle, idle]) n) \<and> chips s2 = chips s"
    if "\<And>i. i < n \<Longrightarrow> length (rp i) = 5" "shift s = concat (down rp n) @ xs" for n r xs and s :: "'a tmc_bus"
    using that
  proof (induction n arbitrary: r s xs)
    case 0
    then show ?case by simp
  next
    case (Suc i)
    have "length (rp i) = 5" by (rule Suc.prems(1)) simp
    then obtain a b c d e where rp: "rp i = [a, b, c, d, e]" by (rule length_5_E)
    have sh: "shift s = [a, b, c, d, e] @ (concat (down rp i) @ xs)"
      using Suc.prems(2) rp by (simp add: down_Suc)
    obtain s2 where s2: "get_value True idle (snd (spi_put_byte True (dg_addr (ds ! i)) s)) = (from_bytes b c d e, s2)"
      "shift s2 = concat (down rp i) @ xs @ [dg_addr (ds ! i), idle, idle, idle, idle]" "chips s2 = chips s"
      using put_then_get [OF sh, of idle "dg_addr (ds ! i)"] by auto
    let ?r = "if i = sq then (0, from_bytes b c d e) else r"
    have eq: "fetch_reply True idle ds sq (Suc i) r s = fetch_reply True idle ds sq i ?r s2"
      using s2(1) by (simp add: spi_put_byte_def split: prod.splits)
    from Suc.IH [OF _ s2(2), of ?r] Suc.prems(1) obtain s3 where
      s3: "fetch_reply True idle ds sq i ?r s2 =
          (if sq < i then (0, from_bytes (rp sq ! 1) (rp sq ! 2) (rp sq ! 3) (rp sq ! 4)) else ?r, s3)"
        "shift s3 = (xs @ [dg_addr (ds ! i), idle, idle, idle, idle]) @
          concat (down (\<lambda>i. [dg_addr (ds ! i), idle, idle, idle, idle]) i)" "chips s3 = chips s2"
      by auto
    show ?case
      using s3 s2(3) rp unfolding eq by (auto simp: down_Suc less_Suc_eq)
  qed
  from step [OF assms(1,2), of r] assms(3) show ?thesis by simp
qed

lemma tmc_chip_read:
  assumes "tmc_chip latch regs stat" "length dg = 5" "\<not> bit (hd dg) 7"
  shows "regs (fst (latch d dg)) = regs d" "snd (latch d dg) = stat d # value_bytes (regs d (hd dg))"
    "length (snd (latch d dg)) = 5"
  using assms by (simp_all add: tmc_chip_def)

text \<open>
  C27. Reading a register of one driver of a chain returns the value of that register of that
  driver, leaves every register of every driver as it was, and keeps the chain in the state from
  which the next access starts: no driver is left with a write datagram.  The status the
  function returns is zero, whatever the driver answers, since \<open>spi_put_byte\<close> returns whether the
  transfer succeeded and not the byte received.
\<close>

theorem chain_read_register:
  assumes chip: "tmc_chip latch regs stat" and bus: "bus_ok n s" and sq: "sq < n" and len: "n \<le> length ds"
    and rd: "\<forall>i < n. \<not> bit (dg_addr (ds ! i)) 7"
  shows "\<exists>s2. chain_read True idle_level latch n sq addr st0 ds s =
      ((0, regs (chips s ! sq) (clear_write addr)), ds[sq := (ds ! sq)\<lparr>dg_addr := clear_write addr\<rparr>], s2) \<and>
    bus_ok n s2 \<and> map regs (chips s2) = map regs (chips s) \<and>
    (\<forall>i < n. \<not> bit (dg_addr (ds[sq := (ds ! sq)\<lparr>dg_addr := clear_write addr\<rparr>] ! i)) 7)"
proof -
  let ?ds = "ds[sq := (ds ! sq)\<lparr>dg_addr := clear_write addr\<rparr>]"
  have rd': "\<not> bit (dg_addr (?ds ! i)) 7" if "i < n" for i
    using that rd sq len by (cases "i = sq") auto
  have sqa: "dg_addr (?ds ! sq) = clear_write addr" using sq len by simp
  have lens: "length (chips s) = n" "length (shift s) = 5 * n" using bus by (simp_all add: bus_ok_def)
  define dg1 where "dg1 = (\<lambda>i. [dg_addr (?ds ! i), 0, 0, 0, 0])"
  define s1 where "s1 = send_reads True ?ds n s"
  have s1: "shift s1 = concat (down dg1 n)" "chips s1 = chips s"
    using send_reads_shift [of n s ?ds] lens by (simp_all add: s1_def dg1_def)
  have len1: "length (dg1 i) = 5" for i by (simp add: dg1_def)
  define rp where "rp = (\<lambda>i. snd (latch (chips s ! i) (dg1 i)))"
  define s2 where "s2 = spi_deselect latch s1"
  have s2: "chips s2 = map (\<lambda>i. fst (latch (chips s ! i) (dg1 i))) [0..<n]" "shift s2 = concat (down rp n)"
    using deselect_chunks [OF s1(1) _ len1, of latch] lens s1(2) by (simp_all add: s2_def rp_def)
  have rp: "rp i = stat (chips s ! i) # value_bytes (regs (chips s ! i) (dg_addr (?ds ! i)))"
    "regs (fst (latch (chips s ! i) (dg1 i))) = regs (chips s ! i)" if "i < n" for i
    using tmc_chip_read [OF chip len1] rd' [OF that] by (simp_all add: rp_def dg1_def)
  have lrp: "length (rp i) = 5" if "i < n" for i using rp(1) [OF that] by simp
  have sh2: "shift s2 = concat (down rp n) @ []" using s2(2) by simp
  from fetch_reply_value [OF lrp sh2 sq, of idle_level ?ds "(st0, 0)"] obtain s3 where
    s3: "fetch_reply True idle_level ?ds sq n (st0, 0) s2 =
        ((0, from_bytes (rp sq ! 1) (rp sq ! 2) (rp sq ! 3) (rp sq ! 4)), s3)"
      "shift s3 = concat (down (\<lambda>i. [dg_addr (?ds ! i), idle_level, idle_level, idle_level, idle_level]) n)"
      "chips s3 = chips s2" by auto
  have val: "from_bytes (rp sq ! 1) (rp sq ! 2) (rp sq ! 3) (rp sq ! 4) = regs (chips s ! sq) (clear_write addr)"
    using rp(1) [OF sq] sqa from_value_bytes [of "regs (chips s ! sq) (clear_write addr)"]
    by (simp add: value_bytes_def)
  define dg2 where "dg2 = (\<lambda>i. [dg_addr (?ds ! i), idle_level, idle_level, idle_level, idle_level])"
  have len2: "length (dg2 i) = 5" for i by (simp add: dg2_def)
  have l3: "length (chips s3) = n" using s3(3) s2(1) by simp
  define s4 where "s4 = spi_deselect latch s3"
  have s4: "s4 = s3\<lparr>chips := map (\<lambda>i. fst (latch (chips s3 ! i) (dg2 i))) [0..<n],
      shift := concat (down (\<lambda>i. snd (latch (chips s3 ! i) (dg2 i))) n)\<rparr>"
    unfolding s4_def by (rule deselect_chunks) (use s3(2) l3 len2 dg2_def in simp_all)
  have keep: "regs (fst (latch d (dg2 i))) = regs d" "length (snd (latch d (dg2 i))) = 5" if "i < n" for d i
    using tmc_chip_read [OF chip len2] rd' [OF that] by (simp_all add: dg2_def)
  have "bus_ok n s4" unfolding bus_ok_def s4 by (simp add: length_concat_down keep)
  moreover have "map regs (chips s4) = map regs (chips s)"
    unfolding s4 by (rule nth_equalityI) (use lens s3(3) s2(1) keep rp(2) in auto)
  moreover have "chain_read True idle_level latch n sq addr st0 ds s =
      ((0, regs (chips s ! sq) (clear_write addr)), ?ds, s4)"
    using s3(1) val by (simp add: chain_read_def Let_def s1_def [symmetric] s2_def [symmetric] s4_def)
  ultimately show ?thesis using rd' by blast
qed

definition write_bytes :: "tmc_datagram \<Rightarrow> u8 list" where
  "write_bytes d = dg_addr d # value_bytes (dg_value d)"

lemma length_write_bytes [simp]: "length (write_bytes d) = 5"
  by (simp add: write_bytes_def)

lemma send_write_shift:
  "5 * n \<le> length (shift s) \<Longrightarrow>
     \<exists>s2. send_write True sq n st ds s =
       (if sq < n then 0 else st, if sq < n then ds[sq := (ds ! sq)\<lparr>dg_addr := 0\<rparr>] else ds, s2) \<and>
     shift s2 = drop (5 * n) (shift s) @ concat (down (\<lambda>i. write_bytes (ds ! i)) n) \<and> chips s2 = chips s"
proof (induction n arbitrary: s st ds)
  case 0
  then show ?case by simp
next
  case (Suc i)
  define s1 where "s1 = send_bytes True (write_bytes (ds ! i)) s"
  have s1: "shift s1 = drop 5 (shift s) @ write_bytes (ds ! i)" "chips s1 = chips s"
    using send_bytes_shift [of "write_bytes (ds ! i)" s] Suc.prems by (simp_all add: s1_def)
  let ?ds = "if i = sq then ds[i := (ds ! i)\<lparr>dg_addr := 0\<rparr>] else ds" and ?st = "if i = sq then 0 else st"
  have eq: "send_write True sq (Suc i) st ds s = send_write True sq i ?st ?ds s1"
    by (simp add: s1_def write_bytes_def spi_put_byte_def)
  have ge: "5 * i \<le> length (shift s1)" using Suc.prems s1(1) by simp
  from Suc.IH [OF ge, of ?st ?ds] obtain s2 where
    s2: "send_write True sq i ?st ?ds s1 =
        (if sq < i then 0 else ?st, if sq < i then ?ds[sq := (?ds ! sq)\<lparr>dg_addr := 0\<rparr>] else ?ds, s2)"
      "shift s2 = drop (5 * i) (shift s1) @ concat (down (\<lambda>j. write_bytes (?ds ! j)) i)"
      "chips s2 = chips s1" by blast
  have same: "down (\<lambda>j. write_bytes (?ds ! j)) i = down (\<lambda>j. write_bytes (ds ! j)) i"
    by (auto simp: down_def)
  show ?case
    using s2 s1 Suc.prems unfolding eq same
    by (auto simp: down_Suc less_Suc_eq add.commute)
qed

text \<open>
  Writing a register of one driver of a chain sets that register of that driver and no
  other register of any driver, although every driver of the chain is sent a datagram, and
  leaves no driver with a write datagram for the next access.
\<close>

theorem chain_write_register:
  assumes chip: "tmc_chip latch regs stat" and bus: "bus_ok n s" and sq: "sq < n" and len: "n \<le> length ds"
    and rd: "\<forall>i < n. \<not> bit (dg_addr (ds ! i)) 7"
  shows "\<exists>s2 ds2. chain_write True latch n sq reg ds s = (0, ds2, s2) \<and>
    bus_ok n s2 \<and> length ds2 = length ds \<and> (\<forall>i < n. \<not> bit (dg_addr (ds2 ! i)) 7) \<and>
    (\<forall>i < n. regs (chips s2 ! i) =
       (if i = sq then (regs (chips s ! i))(clear_write (dg_addr reg) := dg_value reg) else regs (chips s ! i)))"
proof -
  let ?ds = "ds[sq := reg\<lparr>dg_addr := set_write (dg_addr reg)\<rparr>]"
  let ?ds2 = "?ds[sq := (?ds ! sq)\<lparr>dg_addr := 0\<rparr>]"
  have lens: "length (chips s) = n" "length (shift s) = 5 * n" using bus by (simp_all add: bus_ok_def)
  obtain s1 where s1: "send_write True sq n 0 ?ds s = (0, ?ds2, s1)"
      "shift s1 = concat (down (\<lambda>i. write_bytes (?ds ! i)) n)" "chips s1 = chips s"
    using send_write_shift [of n s sq 0 ?ds] lens sq by auto
  define s2 where "s2 = spi_deselect latch s1"
  have s2: "s2 = s1\<lparr>chips := map (\<lambda>i. fst (latch (chips s ! i) (write_bytes (?ds ! i)))) [0..<n],
      shift := concat (down (\<lambda>i. snd (latch (chips s ! i) (write_bytes (?ds ! i)))) n)\<rparr>"
    unfolding s2_def s1(3) [symmetric]
    by (rule deselect_chunks) (use s1 lens in simp_all)
  have l5: "length (snd (latch d (write_bytes x))) = 5" for d x
    using chip by (simp add: tmc_chip_def)
  have "bus_ok n s2" unfolding bus_ok_def s2 by (simp add: length_concat_down l5)
  moreover have "\<forall>i < n. regs (chips s2 ! i) =
      (if i = sq then (regs (chips s ! i))(clear_write (dg_addr reg) := dg_value reg) else regs (chips s ! i))"
  proof (intro allI impI)
    fix i assume i: "i < n"
    show "regs (chips s2 ! i) =
        (if i = sq then (regs (chips s ! i))(clear_write (dg_addr reg) := dg_value reg) else regs (chips s ! i))"
    proof (cases "i = sq")
      case True
      then have "write_bytes (?ds ! i) = set_write (dg_addr reg) # value_bytes (dg_value reg)"
        using sq len by (simp add: write_bytes_def)
      then show ?thesis
        using chip i True by (simp add: s2 tmc_chip_def)
    next
      case False
      then have "\<not> bit (hd (write_bytes (?ds ! i))) 7" using rd i by (simp add: write_bytes_def)
      from tmc_chip_read(1) [OF chip length_write_bytes this] False i show ?thesis by (simp add: s2)
    qed
  qed
  moreover have "\<forall>i < n. \<not> bit (dg_addr (?ds2 ! i)) 7"
    using rd len sq by (auto simp: nth_list_update)
  moreover have "chain_write True latch n sq reg ds s = (0, ?ds2, s2)"
    using s1(1) by (simp add: chain_write_def Let_def s2_def)
  ultimately show ?thesis by (intro exI [of _ s2] exI [of _ ?ds2]) simp
qed

text \<open>A chip that the hypotheses describe: sixteen-bit addresses, all registers readable.\<close>

definition tmc_chip0 :: "(u8 \<Rightarrow> u32) \<Rightarrow> u8 list \<Rightarrow> (u8 \<Rightarrow> u32) \<times> u8 list" where
  "tmc_chip0 d dg =
     (if \<not> bit (hd dg) 7 then (d, 9 # value_bytes (d (hd dg)))
      else (d(clear_write (hd dg) := from_bytes (dg ! 1) (dg ! 2) (dg ! 3) (dg ! 4)), 9 # tl dg))"

lemma tmc_chip0_ok: "tmc_chip tmc_chip0 (\<lambda>d. d) (\<lambda>d. 9)"
proof -
  have "from_bytes (dg ! 1) (dg ! 2) (dg ! 3) (dg ! 4) = v"
    if "length dg = 5" "tl dg = value_bytes v" for dg v
  proof -
    from that(1) obtain a b c d e where "dg = [a, b, c, d, e]" by (rule length_5_E)
    with that(2) show ?thesis using from_value_bytes [of v] by (simp add: value_bytes_def)
  qed
  then show ?thesis by (auto simp: tmc_chip_def tmc_chip0_def)
qed

definition tmc_bus0 :: "(u8 \<Rightarrow> u32) tmc_bus" where
  "tmc_bus0 = \<lparr>shift = replicate 15 0, chips = [\<lambda>a. 1, \<lambda>a. 2, \<lambda>a. ucast a + 256]\<rparr>"

definition tmc_ds0 :: "tmc_datagram list" where
  "tmc_ds0 = replicate 3 \<lparr>dg_addr = 0, dg_value = 0\<rparr>"

lemma tmc0: "bus_ok 3 tmc_bus0" "3 \<le> length tmc_ds0" "\<forall>i < 3. \<not> bit (dg_addr (tmc_ds0 ! i)) 7"
  by (simp_all add: bus_ok_def tmc_bus0_def tmc_ds0_def)

theorem chain_read_register_witness:
  "\<exists>s2 ds2. chain_read True 255 tmc_chip0 3 2 (5 :: u8) 0 tmc_ds0 tmc_bus0 = ((0, 261), ds2, s2)"
proof -
  have "clear_write 5 = 5" by (simp add: clear_write_def)
  moreover have "chips tmc_bus0 ! 2 = (\<lambda>a. ucast a + 256)" by (simp add: tmc_bus0_def)
  ultimately have v: "(chips tmc_bus0 ! 2) (clear_write 5) = 261" by simp
  have "2 < (3::nat)" by simp
  from chain_read_register [OF tmc_chip0_ok tmc0(1) this tmc0(2,3), of 255 5 0, unfolded v]
  obtain s2 where "chain_read True 255 tmc_chip0 3 2 5 0 tmc_ds0 tmc_bus0 =
      ((0, 261), tmc_ds0[2 := (tmc_ds0 ! 2)\<lparr>dg_addr := clear_write 5\<rparr>], s2)" by (elim exE conjE)
  then show ?thesis by (intro exI)
qed

theorem chain_write_register_witness:
  "\<exists>s2 ds2. chain_write True tmc_chip0 3 1 \<lparr>dg_addr = 7, dg_value = 1000\<rparr> tmc_ds0 tmc_bus0 = (0, ds2, s2) \<and>
     (chips s2 ! 1) 7 = 1000 \<and> (chips s2 ! 0) 7 = 1"
proof -
  have "clear_write 7 = 7" by (simp add: clear_write_def)
  then show ?thesis
    using chain_write_register [OF tmc_chip0_ok tmc0(1) _ tmc0(2,3), of 1 "\<lparr>dg_addr = 7, dg_value = 1000\<rparr>"]
    by (auto simp: tmc_bus0_def)
qed

lemma tmc_status_never_read:
  \<comment> \<open>the status is 0 or 255, whatever is on the bus\<close>
  "fst (spi_put_byte ok b s) \<in> {0, 255}"
  by (simp add: spi_put_byte_def)

subsection \<open>The wait for a serial answer\<close>

text \<open>
  The wait ends at the latest with the first poll that sees the clock eleven ticks past the
  start, also when the clock wraps in between.
\<close>

lemma wait_response_ends:
  "\<exists>o1 c now o2. obs = o1 @ (c, now) # o2 \<and> (8 \<le> c \<or> now - ms \<ge> 11) \<Longrightarrow>
     \<exists>c. wait_response ms obs = Some c"
  by (induction obs) (auto simp: Cons_eq_append_conv, blast+)

lemma wait_response_count:
  "wait_response ms obs = Some c \<Longrightarrow> 8 \<le> c \<or> (\<exists>now. (c, now) \<in> set obs \<and> now - ms \<ge> 11)"
  by (induction obs) (auto split: if_splits)

lemma length_read_bytes: "read_bytes rd n s = (vs, s') \<Longrightarrow> length vs = n"
  by (induction n arbitrary: s vs) (auto split: prod.splits)

lemma tmc_uart_read_present:
  assumes "ts_present st" "wait_response ms obs = Some c" "length wdgr = 8" "addr_ix < 8"
  shows "\<exists>w s2. tmc_uart_read addr_ix st dgr ms obs wdgr s = Some (w, s2) \<and> length w = 8 \<and>
    (c < 8 \<longrightarrow> w ! addr_ix = 255)"
  using assms by (auto simp: tmc_uart_read_def Let_def length_read_bytes split: prod.splits)

end
