(* ===== verification/Timers.thy ===== *)
theory Timers
  imports Prelude
begin

text \<open>
  The hardware timers the driver lends to the core, \<open>main/timers.c\<close>: three timers of the two
  timer groups (timer 0 of group 0 is the stepper timer), claimed once and never given back.
  A handle is the index in the table, NULL is None.  The registers are the fields \<open>t_*\<close>; the
  callback of an interrupt is recorded by its context.
\<close>

subsection \<open>State\<close>

record timer_cfg =
  single_shot :: bool
  cfg_period :: u32
  cfg_context :: nat

record dtimer =
  t_group :: nat
  t_index :: nat
  freq_hz :: u32
  timer_claimed :: bool
  t_timebase :: u32
  t_cfg :: timer_cfg
  t_divider :: u32
  t_auto_reload :: bool
  t_isr :: bool               \<comment> \<open>the interrupt is registered and enabled\<close>
  t_counter :: u64
  t_alarm :: u64
  t_counting :: bool
  t_alarm_on :: bool

type_synonym timers = "dtimer list"

definition dtimer_init :: "nat \<Rightarrow> nat \<Rightarrow> dtimer" where
  "dtimer_init g i = \<lparr>t_group = g, t_index = i, freq_hz = 80000000, timer_claimed = False, t_timebase = 0,
     t_cfg = \<lparr>single_shot = False, cfg_period = 0, cfg_context = 0\<rparr>, t_divider = 0, t_auto_reload = False,
     t_isr = False, t_counter = 0, t_alarm = 0, t_counting = False, t_alarm_on = False\<rparr>"

definition timers_init :: timers where
  "timers_init = [dtimer_init 0 1, dtimer_init 1 0, dtimer_init 1 1]"

subsection \<open>Operations\<close>

fun claim_from :: "u32 \<Rightarrow> nat \<Rightarrow> nat \<Rightarrow> timers \<Rightarrow> nat option \<times> timers" where
  \<comment> \<open>the loop of \<open>timerClaim\<close>: index, and iterations left\<close>
  "claim_from tb idx 0 ts = (None, ts)"
| "claim_from tb idx (Suc n) ts =
     (if timer_claimed (ts ! idx) then claim_from tb (idx + 1) n ts
      else (Some idx, ts[idx := (ts ! idx)\<lparr>timer_claimed := True, t_timebase := tb\<rparr>]))"

definition timerClaim :: "u32 \<Rightarrow> timers \<Rightarrow> nat option \<times> timers" where
  "timerClaim tb ts = claim_from tb 0 (length ts) ts"

definition timer_divider :: "u32 \<Rightarrow> u32 \<Rightarrow> u32" where
  "timer_divider freq tb = ((freq div 1000) * tb) div 1000000"

definition timerCfg :: "nat option \<Rightarrow> timer_cfg \<Rightarrow> timers \<Rightarrow> bool \<times> timers" where
  "timerCfg timer cfg ts =
     (case timer of
        None \<Rightarrow> (False, ts)
      | Some i \<Rightarrow>
          (True, ts[i := (ts ! i)\<lparr>t_cfg := cfg, t_counting := False, t_alarm_on := True,
             t_auto_reload := \<not> single_shot cfg, t_divider := timer_divider (freq_hz (ts ! i)) (t_timebase (ts ! i)),
             t_counter := 0, t_isr := True\<rparr>]))"

definition timerStart :: "nat \<Rightarrow> u32 \<Rightarrow> timers \<Rightarrow> bool \<times> timers" where
  "timerStart i period ts =
     (let t = ts ! i in
      (True, if single_shot (t_cfg t) \<or> period \<noteq> cfg_period (t_cfg t)
             then ts[i := t\<lparr>t_cfg := (t_cfg t)\<lparr>cfg_period := period\<rparr>, t_counter := 0, t_alarm := ucast period,
                            t_counting := True, t_alarm_on := True\<rparr>]
             else ts))"

definition timerStop :: "nat \<Rightarrow> timers \<Rightarrow> bool \<times> timers" where
  "timerStop i ts =
     (True, ts[i := (ts ! i)\<lparr>t_cfg := (t_cfg (ts ! i))\<lparr>cfg_period := 0\<rparr>, t_counting := False\<rparr>])"

definition timer_isr :: "nat \<Rightarrow> timers \<Rightarrow> nat \<times> timers" where
  \<comment> \<open>\<open>timer01_isr\<close>, \<open>timer10_isr\<close> and \<open>timer11_isr\<close>: the context the callback gets, and the timers\<close>
  "timer_isr i ts =
     (let t = ts ! i;
          t = (if \<not> single_shot (t_cfg t) then t\<lparr>t_alarm_on := True\<rparr> else t)
      in (cfg_context (t_cfg t), ts[i := t]))"

subsection \<open>Claims\<close>

lemma claim_from_length: "length (snd (claim_from tb idx n ts)) = length ts"
  by (induction tb idx n ts rule: claim_from.induct) auto

lemma claim_from_spec:
  assumes "idx + n \<le> length ts"
  shows "case claim_from tb idx n ts of
     (None, ts') \<Rightarrow> ts' = ts \<and> (\<forall>j. idx \<le> j \<and> j < idx + n \<longrightarrow> timer_claimed (ts ! j))
   | (Some i, ts') \<Rightarrow> idx \<le> i \<and> i < idx + n \<and> \<not> timer_claimed (ts ! i) \<and>
       ts' = ts[i := (ts ! i)\<lparr>timer_claimed := True, t_timebase := tb\<rparr>]"
  using assms
proof (induction n arbitrary: idx)
  case 0
  then show ?case by auto
next
  case (Suc n)
  show ?case
  proof (cases "timer_claimed (ts ! idx)")
    case True
    have le: "idx \<le> j \<longleftrightarrow> j = idx \<or> Suc idx \<le> j" for j by auto
    from Suc.IH [of "idx + 1"] Suc.prems True show ?thesis
      by (auto simp: le split: prod.splits option.splits)
  next
    case False
    then show ?thesis by auto
  qed
qed

fun claim_all :: "u32 list \<Rightarrow> timers \<Rightarrow> nat option list \<times> timers" where
  "claim_all [] ts = ([], ts)"
| "claim_all (tb # tbs) ts =
     (case timerClaim tb ts of (h, ts1) \<Rightarrow> case claim_all tbs ts1 of (hs, ts2) \<Rightarrow> (h # hs, ts2))"

definition free_timers :: "timers \<Rightarrow> nat set" where
  "free_timers ts = {i. i < length ts \<and> \<not> timer_claimed (ts ! i)}"

lemma claim_free:
  "case timerClaim tb ts of
     (None, ts') \<Rightarrow> ts' = ts \<and> free_timers ts = {}
   | (Some i, ts') \<Rightarrow> i \<in> free_timers ts \<and> free_timers ts' = free_timers ts - {i} \<and>
       length ts' = length ts \<and> t_timebase (ts' ! i) = tb"
  using claim_from_spec [of 0 "length ts" ts tb]
  by (auto simp: timerClaim_def free_timers_def nth_list_update split: prod.splits option.splits)

lemma claim_all_distinct:
  "case claim_all tbs ts of (hs, ts') \<Rightarrow>
     distinct [i. Some i \<leftarrow> hs] \<and> set [i. Some i \<leftarrow> hs] \<subseteq> free_timers ts \<and>
     free_timers ts' = free_timers ts - set [i. Some i \<leftarrow> hs] \<and>
     (None \<in> set hs \<longrightarrow> free_timers ts' = {})"
proof (induction tbs arbitrary: ts)
  case Nil
  then show ?case by simp
next
  case (Cons tb tbs)
  obtain h ts1 where c: "timerClaim tb ts = (h, ts1)" by (cases "timerClaim tb ts")
  obtain hs ts2 where r: "claim_all tbs ts1 = (hs, ts2)" by (cases "claim_all tbs ts1")
  have all: "claim_all (tb # tbs) ts = (h # hs, ts2)" using c r by simp
  show ?case
  proof (cases h)
    case None
    then show ?thesis using claim_free [where tb = tb and ts = ts] c r Cons.IH [where ts = ts1] all by auto
  next
    case (Some i)
    then show ?thesis using claim_free [where tb = tb and ts = ts] c r Cons.IH [where ts = ts1] all by auto
  qed
qed

text \<open>
  Whatever the number of claims, no timer is lent twice, and a claim is refused only when
  all three timers are lent.
\<close>

theorem timers_lent_once:
  "case claim_all tbs timers_init of (hs, ts) \<Rightarrow>
     distinct [i. Some i \<leftarrow> hs] \<and> set [i. Some i \<leftarrow> hs] \<subseteq> {0, 1, 2} \<and>
     (None \<in> set hs \<longrightarrow> set [i. Some i \<leftarrow> hs] = {0, 1, 2}) \<and> length hs = length tbs"
proof -
  obtain hs ts where r: "claim_all tbs timers_init = (hs, ts)" by (cases "claim_all tbs timers_init")
  have fr: "free_timers timers_init = {0, 1, 2}"
    by (auto simp: free_timers_def timers_init_def dtimer_init_def less_Suc_eq)
  have "length hs = length tbs" if "claim_all tbs ts0 = (hs, ts)" for tbs hs and ts0 ts :: timers
    using that by (induction tbs arbitrary: hs ts0) (auto split: prod.splits)
  with claim_all_distinct [where tbs = tbs and ts = timers_init] r fr show ?thesis by auto
qed

theorem timers_lent_once_witness:
  "fst (claim_all [5, 6, 7, 8] timers_init) = [Some 0, Some 1, Some 2, None] \<and>
   set [i. Some i \<leftarrow> fst (claim_all [5, 6, 7, 8] timers_init)] = {0, 1, 2}"
proof -
  have r: "fst (claim_all [5, 6, 7, 8] timers_init) = [Some 0, Some 1, Some 2, None]" by code_simp
  then have "None \<in> set (fst (claim_all [5, 6, 7, 8] timers_init))" by simp
  with r timers_lent_once [of "[5, 6, 7, 8]"] show ?thesis
    by (cases "claim_all [5, 6, 7, 8] timers_init") simp
qed

subsection \<open>Running a timer\<close>

text \<open>
  The divider is exact, the number of 80 MHz cycles in the time base, for time bases up to
  53687 nanoseconds; above, the product of the 32-bit multiplication wraps.
\<close>

theorem timer_divider_exact:
  "unat (timer_divider 80000000 tb) = (80000 * unat tb) mod 2 ^ 32 div 1000000 \<and>
   (unat tb \<le> 53687 \<longrightarrow> unat (timer_divider 80000000 tb) = 80 * unat tb div 1000)"
proof -
  have d: "(80000000 :: u32) div 1000 = 80000" by simp
  have 1: "unat (timer_divider 80000000 tb) = unat (80000 * tb) div 1000000"
    unfolding timer_divider_def d by (simp add: unat_div)
  have 2: "unat (80000 * tb) = (80000 * unat tb) mod 2 ^ 32"
    by (simp only: unat_word_ariths) simp
  have 3: "80000 * x div 1000000 = 80 * x div (1000::nat)" for x
    using div_mult_mult1 [of 1000 "80 * x" 1000] by simp
  have 4: "(80000 * unat tb) mod 2 ^ 32 = 80000 * unat tb" if "unat tb \<le> 53687"
    by (rule mod_less) (use that in simp)
  show ?thesis unfolding 1 2 using 3 4 by metis
qed

lemma timerStart_running:
  assumes "i < length ts" "single_shot (t_cfg (ts ! i)) \<or> period \<noteq> cfg_period (t_cfg (ts ! i))"
  shows "t_counting (snd (timerStart i period ts) ! i) \<and> t_alarm (snd (timerStart i period ts) ! i) = ucast period \<and>
    t_alarm_on (snd (timerStart i period ts) ! i) \<and> t_counter (snd (timerStart i period ts) ! i) = 0"
  using assms by (simp add: timerStart_def Let_def)

text \<open>
  A periodic timer that is configured with its period does not run when it is started
  with that period: \<open>timerCfg\<close> takes the period over and pauses the counter, \<open>timerStart\<close>
  only enables it for another period, and reports success all the same.  After \<open>timerStop\<close> any
  period but zero starts it.
\<close>

theorem timer_start_same_period:
  assumes "i < length ts" "\<not> single_shot cfg"
  shows "\<not> t_counting (snd (timerStart i (cfg_period cfg) (snd (timerCfg (Some i) cfg ts))) ! i) \<and>
    fst (timerStart i (cfg_period cfg) (snd (timerCfg (Some i) cfg ts))) \<and>
    (period \<noteq> 0 \<longrightarrow> t_counting (snd (timerStart i period (snd (timerStop i (snd (timerCfg (Some i) cfg ts))))) ! i))"
  using assms by (simp add: timerStart_def timerCfg_def timerStop_def Let_def)

theorem timer_start_same_period_witness:
  "\<not> t_counting (snd (timerStart 1 500 (snd (timerCfg (Some 1)
       \<lparr>single_shot = False, cfg_period = 500, cfg_context = 0\<rparr> timers_init))) ! 1)"
proof -
  have "1 < length timers_init" by (simp add: timers_init_def)
  from timer_start_same_period [OF this, of "\<lparr>single_shot = False, cfg_period = 500, cfg_context = 0\<rparr>"]
  show ?thesis by simp
qed

lemma timer_isr_keeps_running:
  "i < length ts \<Longrightarrow> \<not> single_shot (t_cfg (ts ! i)) \<Longrightarrow>
     t_alarm_on (snd (timer_isr i ts) ! i) \<and> fst (timer_isr i ts) = cfg_context (t_cfg (ts ! i))"
  by (simp add: timer_isr_def Let_def)

end
