(* ===== verification/Neopixel.thy ===== *)
theory Neopixel
  imports Prelude
begin

text \<open>
  The addressable LEDs: \<open>main/neopixel_rmt.c\<close> sends them with the RMT peripheral, one item of two
  levels per bit, \<open>main/neopixel_spi.c\<close> as a bit pattern over SPI.  The colour functions of the
  core (\<open>rgb_set_intensity\<close>, \<open>rgb_1bpp_assign\<close>, \<open>rgb_3bpp_pack\<close>, \<open>rgb_3bpp_unpack\<close>) are
  parameters, the results of allocations and of the peripheral drivers are arguments, and what is
  given to the peripheral is recorded, oldest first.
\<close>

type_synonym rgb = "u8 \<times> u8 \<times> u8"     \<comment> \<open>green, red, blue: the order of the bytes on the strip\<close>
type_synonym rmt_item = "nat \<times> nat"   \<comment> \<open>ticks high, ticks low\<close>

subsection \<open>The RMT encoding\<close>

record neo_ticks =
  t0h :: nat
  t0l :: nat
  t1h :: nat
  t1l :: nat

definition byte_items :: "neo_ticks \<Rightarrow> u8 \<Rightarrow> rmt_item list" where
  \<comment> \<open>the loop over \<open>bitmask\<close>, the most significant bit first\<close>
  "byte_items t b = map (\<lambda>i. if bit b (7 - i) then (t1h t, t1l t) else (t0h t, t0l t)) [0..<8]"

definition led_items :: "neo_ticks \<Rightarrow> (u8 \<Rightarrow> rgb \<Rightarrow> rgb) \<Rightarrow> u8 \<Rightarrow> rgb \<Rightarrow> rmt_item list" where
  "led_items t scale intensity c =
     (case scale intensity c of (g, r, b) \<Rightarrow> byte_items t g @ byte_items t r @ byte_items t b)"

fun adapter_loop :: "neo_ticks \<Rightarrow> (u8 \<Rightarrow> rgb \<Rightarrow> rgb) \<Rightarrow> u8 \<Rightarrow> u8 list \<Rightarrow> nat \<Rightarrow> nat \<Rightarrow> nat \<Rightarrow> nat \<Rightarrow>
    (rmt_item list \<times> nat \<times> nat) option" where
  \<comment> \<open>what is left of the source, \<open>src_size\<close>, \<open>wanted_num\<close>, \<open>size\<close> and \<open>num\<close>; None: a read behind the source\<close>
  "adapter_loop t scale intensity (g # r # b # src) src_size wanted sz num =
     (if sz < src_size \<and> num < wanted then
        (case adapter_loop t scale intensity src src_size wanted (sz + 3) (num + 24) of
           None \<Rightarrow> None
         | Some (items, s, n) \<Rightarrow> Some (led_items t scale intensity (g, r, b) @ items, s, n))
      else Some ([], sz, num))"
| "adapter_loop t scale intensity src src_size wanted sz num =
     (if sz < src_size \<and> num < wanted then None else Some ([], sz, num))"

definition ws2812_rmt_adapter :: "neo_ticks \<Rightarrow> (u8 \<Rightarrow> rgb \<Rightarrow> rgb) \<Rightarrow> u8 \<Rightarrow> u8 list \<Rightarrow> nat \<Rightarrow>
    (rmt_item list \<times> nat \<times> nat) option" where
  \<comment> \<open>items, \<open>translated_size\<close>, \<open>item_num\<close>\<close>
  "ws2812_rmt_adapter t scale intensity src wanted =
     adapter_loop t scale intensity src (length src) wanted 0 0"

subsection \<open>The strip on the RMT\<close>

record neopixel =
  np_leds :: "u8 list option"
  np_num_bytes :: nat
  np_num_leds :: nat
  np_intensity :: u8
  np_devices :: nat            \<comment> \<open>\<open>hal.rgb0.num_devices\<close>\<close>
  np_sent :: "u8 list list"    \<comment> \<open>buffers given to the RMT driver\<close>

function write_chunks :: "nat \<Rightarrow> u8 list \<Rightarrow> u8 list list" where
  \<comment> \<open>the loop of \<open>_neopixels_write\<close>; \<open>k\<close> is 3 on the S3 and 6 on the ESP32\<close>
  "write_chunks k bs =
     (if k = 0 \<or> length bs \<le> k then [bs] else take k bs # write_chunks k (drop k bs))"
  by auto
termination by (relation "measure (\<lambda>(k, bs). length bs)") auto

declare write_chunks.simps [simp del]

definition neopixels_write_all :: "nat \<Rightarrow> neopixel \<Rightarrow> neopixel" where
  \<comment> \<open>\<open>_neopixels_write\<close>\<close>
  "neopixels_write_all k s =
     (case np_leds s of
        None \<Rightarrow> s
      | Some buf \<Rightarrow> s\<lparr>np_sent := np_sent s @ write_chunks k (take (np_num_bytes s) buf)\<rparr>)"

definition neopixels_write :: "nat \<Rightarrow> neopixel \<Rightarrow> neopixel" where
  "neopixels_write k s = (if np_num_bytes s > 1 then neopixels_write_all k s else s)"

definition neopixel_out_masked ::
    "nat \<Rightarrow> ('m \<Rightarrow> rgb \<Rightarrow> u8 list \<Rightarrow> u8 list) \<Rightarrow> nat \<Rightarrow> rgb \<Rightarrow> 'm \<Rightarrow> neopixel \<Rightarrow> neopixel option" where
  \<comment> \<open>\<open>assign\<close> gives the new three bytes of the LED; None: a write outside the buffer\<close>
  "neopixel_out_masked k assign device color msk s =
     (if np_num_leds s \<noteq> 0 \<and> device < np_num_leds s then
        (case np_leds s of
           None \<Rightarrow> None
         | Some buf \<Rightarrow>
             if device * 3 + 3 \<le> length buf then
               let s1 = s\<lparr>np_leds := Some (take (device * 3) buf @
                            take 3 (assign msk color (take 3 (drop (device * 3) buf))) @ drop (device * 3 + 3) buf)\<rparr>
               in Some (if np_num_leds s1 = 1 then neopixels_write_all k s1 else s1)
             else None)
      else Some s)"

definition neopixel_out ::
    "nat \<Rightarrow> ('m \<Rightarrow> rgb \<Rightarrow> u8 list \<Rightarrow> u8 list) \<Rightarrow> 'm \<Rightarrow> nat \<Rightarrow> rgb \<Rightarrow> neopixel \<Rightarrow> neopixel option" where
  "neopixel_out k assign all_mask device color s = neopixel_out_masked k assign device color all_mask s"

definition neopixels_set_intensity :: "nat \<Rightarrow> u8 \<Rightarrow> neopixel \<Rightarrow> u8 \<times> neopixel" where
  "neopixels_set_intensity k v s =
     (np_intensity s, if np_intensity s \<noteq> v then neopixels_write_all k (s\<lparr>np_intensity := v\<rparr>) else s)"

definition neo_settings_changed :: "bool \<Rightarrow> nat \<Rightarrow> neopixel \<Rightarrow> nat \<times> neopixel" where
  \<comment> \<open>whether the allocation succeeds, \<open>rgb_strip.length0\<close>; the setting afterwards.  \<open>rgb_clear\<close> and the
     next handler are calls into the core\<close>
  "neo_settings_changed alloc length0 s =
     (if np_leds s = None \<or> np_devices s \<noteq> length0 then
        let (len0, s1) = (if length0 = 0 then (np_devices s, s) else (length0, s\<lparr>np_devices := length0\<rparr>));
            s2 = s1\<lparr>np_leds := None\<rparr>;
            s3 = (if np_devices s2 \<noteq> 0 then
                    let s' = s2\<lparr>np_num_bytes := np_devices s2 * 3\<rparr> in
                    (if alloc then s'\<lparr>np_leds := Some (replicate (np_num_bytes s') 0)\<rparr> else s'\<lparr>np_devices := 0\<rparr>)
                  else s2)
        in (len0, s3\<lparr>np_num_leds := np_devices s3\<rparr>)
      else (length0, s))"

definition neo_ticks_of :: "nat \<Rightarrow> neo_ticks" where
  \<comment> \<open>the conversion in \<open>neopixel_rmt_init\<close>, exact instead of in float\<close>
  "neo_ticks_of clk_hz =
     \<lparr>t0h = clk_hz * 450 div 1000000000, t0l = clk_hz * 850 div 1000000000,
      t1h = clk_hz * 800 div 1000000000, t1l = clk_hz * 450 div 1000000000\<rparr>"

subsection \<open>The strip on SPI\<close>

record neo_spi =
  ns_leds :: "u8 list option"
  ns_num_bytes :: nat
  ns_num_leds :: nat
  ns_intensity :: u8
  ns_devices :: nat
  ns_busy :: bool
  ns_queued :: "u8 list list"

definition spi_write :: "bool \<Rightarrow> neo_spi \<Rightarrow> neo_spi" where
  \<comment> \<open>whether the driver takes the transaction\<close>
  "spi_write ok s =
     (if \<not> ns_busy s then
        s\<lparr>ns_busy := ok, ns_queued := (if ok then ns_queued s @ [case ns_leds s of None \<Rightarrow> [] | Some b \<Rightarrow> b] else ns_queued s)\<rparr>
      else s)"

definition spi_neopixels_write :: "bool \<Rightarrow> neo_spi \<Rightarrow> neo_spi" where
  "spi_neopixels_write ok s = (if ns_num_leds s > 1 then spi_write ok s else s)"

definition spi_neopixel_out_masked ::
    "bool \<Rightarrow> ('m \<Rightarrow> u8 \<Rightarrow> rgb \<Rightarrow> u8 list \<Rightarrow> u8 list) \<Rightarrow> nat \<Rightarrow> rgb \<Rightarrow> 'm \<Rightarrow> neo_spi \<Rightarrow> neo_spi option" where
  "spi_neopixel_out_masked ok pack device color msk s =
     (if ns_num_leds s \<noteq> 0 \<and> device < ns_num_leds s then
        (case ns_leds s of
           None \<Rightarrow> None
         | Some buf \<Rightarrow>
             if device * 9 + 9 \<le> length buf then
               let s1 = s\<lparr>ns_leds := Some (take (device * 9) buf @
                            take 9 (pack msk (ns_intensity s) color (take 9 (drop (device * 9) buf))) @ drop (device * 9 + 9) buf)\<rparr>
               in Some (if ns_num_leds s1 = 1 then spi_write ok s1 else s1)
             else None)
      else Some s)"

fun spi_repack :: "bool \<Rightarrow> ('m \<Rightarrow> u8 \<Rightarrow> rgb \<Rightarrow> u8 list \<Rightarrow> u8 list) \<Rightarrow> (u8 list \<Rightarrow> u8 \<Rightarrow> rgb) \<Rightarrow> 'm \<Rightarrow> u8 \<Rightarrow>
    nat \<Rightarrow> neo_spi \<Rightarrow> neo_spi option" where
  \<comment> \<open>the loop that repacks every LED, from the last to the first\<close>
  "spi_repack ok pack unpack all_mask prev 0 s = Some s"
| "spi_repack ok pack unpack all_mask prev (Suc d) s =
     (case spi_neopixel_out_masked ok pack d
             (unpack (case ns_leds s of None \<Rightarrow> [] | Some buf \<Rightarrow> take 9 (drop (d * 9) buf)) prev) all_mask s of
        None \<Rightarrow> None
      | Some s1 \<Rightarrow> spi_repack ok pack unpack all_mask prev d s1)"

definition spi_neopixels_set_intensity ::
    "bool \<Rightarrow> ('m \<Rightarrow> u8 \<Rightarrow> rgb \<Rightarrow> u8 list \<Rightarrow> u8 list) \<Rightarrow> (u8 list \<Rightarrow> u8 \<Rightarrow> rgb) \<Rightarrow> 'm \<Rightarrow> u8 \<Rightarrow>
    neo_spi \<Rightarrow> (u8 \<times> neo_spi) option" where
  "spi_neopixels_set_intensity ok pack unpack all_mask v s =
     (let prev = ns_intensity s in
      if prev \<noteq> v then
        let s1 = s\<lparr>ns_intensity := v\<rparr> in
        if ns_num_leds s1 \<noteq> 0 then
          (case spi_repack ok pack unpack all_mask prev (ns_num_leds s1) s1 of
             None \<Rightarrow> None
           | Some s2 \<Rightarrow> Some (prev, if ns_num_leds s2 \<noteq> 1 then spi_write ok s2 else s2))
        else Some (prev, s1)
      else Some (prev, s))"

definition spi_settings_changed :: "bool \<Rightarrow> nat \<Rightarrow> neo_spi \<Rightarrow> neo_spi" where
  "spi_settings_changed alloc length0 s =
     (if ns_leds s = None \<or> ns_devices s \<noteq> length0 then
        let s2 = s\<lparr>ns_devices := length0, ns_leds := None\<rparr>;
            s3 = (if ns_devices s2 \<noteq> 0 then
                    let s' = s2\<lparr>ns_num_bytes := ns_devices s2 * 9 + 24\<rparr> in
                    (if alloc then s'\<lparr>ns_leds := Some (replicate (ns_num_bytes s') 0)\<rparr> else s'\<lparr>ns_devices := 0\<rparr>)
                  else s2)
        in s3\<lparr>ns_num_leds := ns_devices s3\<rparr>
      else s)"

definition post_cb :: "neo_spi \<Rightarrow> neo_spi" where
  "post_cb s = s\<lparr>ns_busy := False\<rparr>"

subsection \<open>What the strip sees\<close>

fun leds3 :: "u8 list \<Rightarrow> rgb list" where
  "leds3 (g # r # b # xs) = (g, r, b) # leds3 xs"
| "leds3 _ = []"

definition decode_byte :: "neo_ticks \<Rightarrow> rmt_item list \<Rightarrow> u8" where
  \<comment> \<open>a LED takes the long pulse for a one, the most significant bit first\<close>
  "decode_byte t items = horner_sum of_bool 2 (map (\<lambda>x. x = (t1h t, t1l t)) (rev items))"

fun decode_bytes :: "neo_ticks \<Rightarrow> nat \<Rightarrow> rmt_item list \<Rightarrow> u8 list" where
  "decode_bytes t 0 items = []"
| "decode_bytes t (Suc n) items = decode_byte t (take 8 items) # decode_bytes t n (drop 8 items)"

definition rgb_bytes :: "rgb \<Rightarrow> u8 list" where
  "rgb_bytes c = (case c of (g, r, b) \<Rightarrow> [g, r, b])"

lemma length_byte_items [simp]: "length (byte_items t b) = 8"
  by (simp add: byte_items_def)

lemma decode_byte_items:
  assumes "(t0h t, t0l t) \<noteq> (t1h t, t1l t)"
  shows "decode_byte t (byte_items t b) = b"
proof -
  have "rev (byte_items t b) = map (\<lambda>i. if bit b i then (t1h t, t1l t) else (t0h t, t0l t)) [0..<8]"
    by (rule nth_equalityI) (simp_all add: byte_items_def rev_nth)
  then have "map (\<lambda>x. x = (t1h t, t1l t)) (rev (byte_items t b)) = map (bit b) [0..<8]"
    using assms by simp
  then have "decode_byte t (byte_items t b) = take_bit 8 b"
    by (simp add: decode_byte_def horner_sum_bit_eq_take_bit)
  also have "\<dots> = b" using take_bit_length_eq [of b] by simp
  finally show ?thesis .
qed

lemma length_led_items [simp]: "length (led_items t scale i c) = 24"
  by (simp add: led_items_def split: prod.splits)

lemma decode_bytes_led:
  assumes "(t0h t, t0l t) \<noteq> (t1h t, t1l t)"
  shows "decode_bytes t (3 + n) (led_items t scale i c @ rest) = rgb_bytes (scale i c) @ decode_bytes t n rest"
proof (cases "scale i c")
  case (fields g r b)
  have "decode_bytes t (Suc (Suc (Suc n))) (byte_items t g @ byte_items t r @ byte_items t b @ rest) =
      [g, r, b] @ decode_bytes t n rest"
    by (simp add: decode_byte_items [OF assms])
  then show ?thesis by (simp add: fields led_items_def rgb_bytes_def numeral_3_eq_3)
qed

lemma decode_bytes_leds:
  assumes "(t0h t, t0l t) \<noteq> (t1h t, t1l t)"
  shows "decode_bytes t (3 * length cs) (concat (map (led_items t scale i) cs)) =
    concat (map (rgb_bytes \<circ> scale i) cs)"
proof (induction cs)
  case Nil
  then show ?case by simp
next
  case (Cons c cs)
  have "3 * length (c # cs) = 3 + 3 * length cs" by simp
  then show ?case using decode_bytes_led [OF assms, of "3 * length cs" scale i c] Cons by simp
qed

lemma adapter_loop_spec:
  "length src = 3 * m \<Longrightarrow> sz + 3 * m = src_size \<Longrightarrow> num + 24 * m \<le> wanted \<Longrightarrow>
     adapter_loop t scale i src src_size wanted sz num =
       Some (concat (map (led_items t scale i) (leds3 src)), sz + 3 * m, num + 24 * m)"
proof (induction m arbitrary: src sz num)
  case 0
  then show ?case by simp
next
  case (Suc m)
  from Suc.prems(1) obtain g r b xs where src: "src = g # r # b # xs" "length xs = 3 * m"
    by (auto simp: numeral_eq_Suc length_Suc_conv)
  have p: "sz + 3 + 3 * m = src_size" "num + 24 + 24 * m \<le> wanted"
    using Suc.prems(2,3) by (simp_all only: mult_Suc mult_Suc_right ac_simps)
  then have c: "sz < src_size" "num < wanted" by (auto)
  note ih = Suc.IH [OF src(2) p]
  have e: "sz + 3 + 3 * m = sz + 3 * Suc m" "num + 24 + 24 * m = num + 24 * Suc m"
    by (simp_all only: mult_Suc mult_Suc_right ac_simps)
  show ?case unfolding src(1) adapter_loop.simps(1) ih e using c by simp
qed

lemma leds3_append:
  "length xs = 3 * m \<Longrightarrow> leds3 (xs @ ys) = leds3 xs @ leds3 ys \<and> length (leds3 xs) = m"
proof (induction m arbitrary: xs)
  case 0
  then show ?case by simp
next
  case (Suc m)
  from Suc.prems obtain g r b zs where "xs = g # r # b # zs" "length zs = 3 * m"
    by (auto simp: numeral_eq_Suc length_Suc_conv)
  with Suc.IH [of zs] show ?case by simp
qed

lemma length_leds3: "length xs = 3 * m \<Longrightarrow> length (leds3 xs) = m"
  using leds3_append by blast

text \<open>The items of a whole write: every buffer given to the driver is translated in one go.\<close>

fun sent_items :: "neo_ticks \<Rightarrow> (u8 \<Rightarrow> rgb \<Rightarrow> rgb) \<Rightarrow> u8 \<Rightarrow> nat \<Rightarrow> u8 list list \<Rightarrow> rmt_item list option" where
  "sent_items t scale i wanted [] = Some []"
| "sent_items t scale i wanted (c # cs) =
     (case ws2812_rmt_adapter t scale i c wanted of
        None \<Rightarrow> None
      | Some (items, sz, num) \<Rightarrow>
          if sz \<noteq> length c \<or> num \<noteq> length items \<or> wanted < num then None
          else map_option ((@) items) (sent_items t scale i wanted cs))"

lemma adapter_chunk:
  assumes "length c = 3 * m" "24 * m \<le> wanted"
  shows "ws2812_rmt_adapter t scale i c wanted = Some (concat (map (led_items t scale i) (leds3 c)), 3 * m, 24 * m)"
  using adapter_loop_spec [of c m 0 "length c" 0 wanted t scale i] assms
  by (simp add: ws2812_rmt_adapter_def)

lemma length_items: "length (concat (map (led_items t scale i) cs)) = 24 * length cs"
  by (induction cs) simp_all

lemma sent_items_chunks:
  assumes "k = 3 * j" "0 < j" "24 * j \<le> wanted"
  shows "length bs = 3 * n \<Longrightarrow>
    sent_items t scale i wanted (write_chunks k bs) = Some (concat (map (led_items t scale i) (leds3 bs)))"
proof (induction "length bs" arbitrary: bs n rule: less_induct)
  case less
  show ?case
  proof (cases "length bs \<le> k")
    case True
    then have "n \<le> j" using less.prems assms(1) by simp
    then have "24 * n \<le> wanted" using assms(3) by linarith
    then show ?thesis
      using True adapter_chunk [OF less.prems, of wanted t scale i] less.prems
      by (simp add: write_chunks.simps length_items length_leds3)
  next
    case False
    let ?c = "take k bs" and ?r = "drop k bs"
    have c: "length ?c = 3 * j" and r: "length ?r = 3 * (n - j)" "length ?r < length bs"
      using False less.prems assms(1,2) by auto
    have "leds3 bs = leds3 ?c @ leds3 ?r"
      using leds3_append [OF c, of ?r] by simp
    moreover have "write_chunks k bs = ?c # write_chunks k ?r"
      using False assms(1,2) by (simp add: write_chunks.simps)
    ultimately show ?thesis
      using less.hyps [OF r(2,1)] adapter_chunk [OF c assms(3), of t scale i] c assms(3)
      by (simp add: length_items length_leds3)
  qed
qed

text \<open>
  C28. A strip of any length is sent exactly: on the ESP32 (buffers of six bytes, 64 items of RMT
  memory) and on the S3 (three bytes, 48 items) no buffer is translated into more items than fit
  the memory, every buffer is used up, no byte behind the LED data is read, and the bits the strip
  sees are those of the colours of all LEDs, scaled by the intensity, in order.
\<close>

theorem neopixel_stream_roundtrip:
  assumes "length bs = 3 * n" "(t0h t, t0l t) \<noteq> (t1h t, t1l t)" "(k, wanted) = (6, 64) \<or> (k, wanted) = (3, 48)"
  shows "\<exists>items. sent_items t scale i wanted (write_chunks k bs) = Some items \<and> length items = 24 * n \<and>
    decode_bytes t (3 * n) items = concat (map (rgb_bytes \<circ> scale i) (leds3 bs))"
proof -
  have "\<exists>j. k = 3 * j \<and> 0 < j \<and> 24 * j \<le> wanted"
    using assms(3) by (elim disjE) (rule exI [of _ 2], simp, rule exI [of _ 1], simp)
  then obtain j where "k = 3 * j" "0 < j" "24 * j \<le> wanted" by blast
  then have "sent_items t scale i wanted (write_chunks k bs) = Some (concat (map (led_items t scale i) (leds3 bs)))"
    using sent_items_chunks assms(1) by blast
  then show ?thesis
    using decode_bytes_leds [OF assms(2), where cs = "leds3 bs" and scale = scale and i = i] length_leds3 [OF assms(1)]
    by (simp add: length_items)
qed

definition ticks0 :: neo_ticks where "ticks0 = neo_ticks_of 40000000"

theorem neopixel_stream_roundtrip_witness:
  "\<exists>items. sent_items ticks0 (\<lambda>i c. c) 255 64 (write_chunks 6 [1, 2, 3, 4, 5, 6, 7, 8, 9]) = Some items \<and>
     length items = 72 \<and> decode_bytes ticks0 9 items = [1, 2, 3, 4, 5, 6, 7, 8, 9]"
proof -
  have "(t0h ticks0, t0l ticks0) \<noteq> (t1h ticks0, t1l ticks0)"
    by (simp add: ticks0_def neo_ticks_of_def)
  from neopixel_stream_roundtrip [of "[1, 2, 3, 4, 5, 6, 7, 8, 9]" 3 ticks0 6 64 "\<lambda>i c. c" 255, OF _ this]
  show ?thesis by (simp add: rgb_bytes_def)
qed

text \<open>
  Nine bytes in one buffer, as a strip of three LEDs would be sent without the loop, give 72 items
  for a memory of 64: the test of \<open>num\<close> comes before the LED is written, not after.
\<close>

lemma adapter_overruns:
  "\<exists>items. ws2812_rmt_adapter t scale i [a, b, c, d, e, f, g, h, j] 64 = Some (items, 9, 72) \<and> length items = 72"
  by (simp add: ws2812_rmt_adapter_def)

subsection \<open>The buffer of the strip\<close>

definition np_ok :: "neopixel \<Rightarrow> bool" where
  "np_ok s \<longleftrightarrow>
     (case np_leds s of
        None \<Rightarrow> np_num_leds s = 0
      | Some b \<Rightarrow> length b = 3 * np_num_leds s \<and> np_num_bytes s = 3 * np_num_leds s) \<and>
     np_num_leds s = np_devices s"

datatype 'm np_op = Out nat rgb 'm | Intensity u8 | Write_strip | Settings bool nat

fun np_run :: "nat \<Rightarrow> ('m \<Rightarrow> rgb \<Rightarrow> u8 list \<Rightarrow> u8 list) \<Rightarrow> 'm np_op list \<Rightarrow> neopixel \<Rightarrow> neopixel option" where
  "np_run k assign [] s = Some s"
| "np_run k assign (op # ops) s =
     (case (case op of
              Out device color msk \<Rightarrow> neopixel_out_masked k assign device color msk s
            | Intensity v \<Rightarrow> Some (snd (neopixels_set_intensity k v s))
            | Write_strip \<Rightarrow> Some (neopixels_write k s)
            | Settings alloc len0 \<Rightarrow> Some (snd (neo_settings_changed alloc len0 s))) of
        None \<Rightarrow> None
      | Some s1 \<Rightarrow> np_run k assign ops s1)"

definition np_init :: neopixel where
  "np_init = \<lparr>np_leds = None, np_num_bytes = 0, np_num_leds = 0, np_intensity = 255, np_devices = 0, np_sent = []\<rparr>"

lemma np_write_ok [simp]: "np_ok (neopixels_write_all k s) = np_ok s"
  by (simp add: neopixels_write_all_def np_ok_def split: option.splits)

lemma np_settings_ok: "np_ok s \<Longrightarrow> np_ok (snd (neo_settings_changed alloc len0 s))"
  by (auto simp: neo_settings_changed_def np_ok_def Let_def split: option.splits)

lemma np_out_ok:
  assumes "np_ok s" "\<forall>m c xs. length (assign m c xs) = length xs"
  shows "\<exists>s1. neopixel_out_masked k assign device color msk s = Some s1 \<and> np_ok s1"
proof (cases "np_num_leds s \<noteq> 0 \<and> device < np_num_leds s")
  case False
  then show ?thesis using assms(1) by (auto simp: neopixel_out_masked_def)
next
  case True
  then obtain buf where b: "np_leds s = Some buf" "length buf = 3 * np_num_leds s"
    "np_num_bytes s = 3 * np_num_leds s" "np_num_leds s = np_devices s"
    using assms(1) by (auto simp: np_ok_def split: option.splits)
  let ?b = "take (device * 3) buf @ take 3 (assign msk color (take 3 (drop (device * 3) buf))) @ drop (device * 3 + 3) buf"
  have fit: "device * 3 + 3 \<le> length buf" using True b(2) by simp
  have "length (assign msk color (take 3 (drop (device * 3) buf))) = length (take 3 (drop (device * 3) buf))"
    using assms(2) by blast
  then have "length ?b = length buf" using fit by simp
  then have "np_ok (s\<lparr>np_leds := Some ?b\<rparr>)" using b by (simp add: np_ok_def)
  then show ?thesis using True b(1) fit by (simp add: neopixel_out_masked_def Let_def)
qed

text \<open>
  Whatever the core does with the strip, changes of its length and failing allocations
  included, no LED is written outside the buffer and the buffer, its size and the number of LEDs
  agree.
\<close>

theorem neopixel_in_bounds:
  assumes "\<forall>m c xs. length (assign m c xs) = length xs" "np_ok s"
  shows "\<exists>s1. np_run k assign ops s = Some s1 \<and> np_ok s1"
  using assms(2)
proof (induction ops arbitrary: s)
  case Nil
  then show ?case by simp
next
  case (Cons op ops)
  show ?case
  proof (cases op)
    case (Out device color msk)
    from np_out_ok [OF Cons.prems assms(1)] obtain s1 where
      "neopixel_out_masked k assign device color msk s = Some s1" "np_ok s1" by blast
    with Cons.IH [of s1] Out show ?thesis by simp
  next
    case (Intensity v)
    have "np_ok (s\<lparr>np_intensity := v\<rparr>)" using Cons.prems by (simp add: np_ok_def split: option.splits)
    then have "np_ok (snd (neopixels_set_intensity k v s))"
      using Cons.prems by (simp add: neopixels_set_intensity_def)
    with Cons.IH Intensity show ?thesis by simp
  next
    case Write_strip
    have "np_ok (neopixels_write k s)" using Cons.prems by (simp add: neopixels_write_def)
    with Cons.IH Write_strip show ?thesis by simp
  next
    case (Settings alloc len0)
    with Cons.IH np_settings_ok [OF Cons.prems] show ?thesis by simp
  qed
qed

theorem neopixel_in_bounds_witness:
  "\<exists>s1. np_run 6 (\<lambda>m c xs. if length xs = 3 then rgb_bytes c else xs)
     [Settings True 2, Out 1 (1, 2, 3) (), Settings False 5, Out 1 (4, 5, 6) (), Write_strip] np_init = Some s1 \<and> np_ok s1"
proof -
  have a: "\<forall>m c xs. length ((\<lambda>(m :: unit) c xs. if length xs = 3 then rgb_bytes c else xs) m c xs) = length xs"
    by (simp add: rgb_bytes_def split: prod.splits)
  have "np_ok np_init" by (simp add: np_ok_def np_init_def)
  from neopixel_in_bounds [OF a this] show ?thesis by blast
qed

text \<open>
  On SPI a write while the last transaction runs is dropped, not postponed: a changed LED is only
  sent with the next write.
\<close>

lemma spi_write_dropped: "ns_busy s \<Longrightarrow> spi_write ok s = s"
  by (simp add: spi_write_def)

lemma spi_settings_sizes:
  "ns_num_leds (spi_settings_changed True n s) = (if ns_leds s = None \<or> ns_devices s \<noteq> n then n else ns_num_leds s)"
  by (simp add: spi_settings_changed_def Let_def)

end
