(* ===== verification/Storage.thy ===== *)
theory Storage
  imports Prelude
begin

text \<open>
  What the firmware keeps in flash: the settings (\<open>main/nvs.c\<close>), the block operations under
  littlefs (\<open>main/littlefs_hal.c\<close>), and the read-only files of the web interface, which are
  linked into the program (\<open>main/esp_webui/fs_embedded.c\<close>).

  The partition functions of ESP-IDF are the record \<open>partition\<close> over a state of the flash;
  \<open>partition_ok\<close> is their documented behaviour: a partition of a size that is a multiple of the
  sector, accesses inside it are possible but may fail, a failing access changes nothing, a write
  can only clear bits, and an erase of whole sectors sets them.
\<close>

subsection \<open>The partition\<close>

definition SPI_FLASH_SEC_SIZE :: nat where "SPI_FLASH_SEC_SIZE = 4096"

record 'f partition =
  part_size :: nat
  part_read :: "nat \<Rightarrow> nat \<Rightarrow> 'f \<Rightarrow> u8 list option \<times> 'f"     \<comment> \<open>offset, size\<close>
  part_write :: "nat \<Rightarrow> u8 list \<Rightarrow> 'f \<Rightarrow> bool \<times> 'f"
  part_erase :: "nat \<Rightarrow> nat \<Rightarrow> 'f \<Rightarrow> bool \<times> 'f"

definition partition_ok :: "'f partition \<Rightarrow> ('f \<Rightarrow> nat \<Rightarrow> u8) \<Rightarrow> bool" where
  \<comment> \<open>the second argument: the byte at an offset\<close>
  "partition_ok p at \<longleftrightarrow>
     (\<forall>off n f. at (snd (part_read p off n f)) = at f \<and>
        (\<forall>bs. fst (part_read p off n f) = Some bs \<longrightarrow> bs = map (at f) [off..<off + n])) \<and>
     (\<forall>off bs f. (\<not> fst (part_write p off bs f) \<longrightarrow> at (snd (part_write p off bs f)) = at f) \<and>
        (fst (part_write p off bs f) \<longrightarrow> (\<forall>i. at (snd (part_write p off bs f)) i =
           (if off \<le> i \<and> i < off + length bs then at f i AND bs ! (i - off) else at f i)))) \<and>
     (\<forall>off n f. (\<not> fst (part_erase p off n f) \<longrightarrow> at (snd (part_erase p off n f)) = at f) \<and>
        (fst (part_erase p off n f) \<longrightarrow> (\<forall>i. at (snd (part_erase p off n f)) i =
           (if off \<le> i \<and> i < off + n then 255 else at f i))))"

lemma part_readD:
  assumes "partition_ok p at" "part_read p off n f = (r, f')"
  shows "at f' = at f" "r = Some bs \<Longrightarrow> bs = map (at f) [off..<off + n]"
  using assms(1) [unfolded partition_ok_def, THEN conjunct1, rule_format, of off n f] assms(2) by simp_all

lemma part_writeD:
  assumes "partition_ok p at" "part_write p off bs f = (ok, f')"
  shows "\<not> ok \<Longrightarrow> at f' = at f"
    "ok \<Longrightarrow> at f' i = (if off \<le> i \<and> i < off + length bs then at f i AND bs ! (i - off) else at f i)"
  using assms(1) [unfolded partition_ok_def, THEN conjunct2, THEN conjunct1, rule_format, of off bs f] assms(2)
  by simp_all

lemma part_eraseD:
  assumes "partition_ok p at" "part_erase p off n f = (ok, f')"
  shows "\<not> ok \<Longrightarrow> at f' = at f"
    "ok \<Longrightarrow> at f' i = (if off \<le> i \<and> i < off + n then 255 else at f i)"
  using assms(1) [unfolded partition_ok_def, THEN conjunct2, THEN conjunct2, rule_format, of off n f] assms(2)
  by simp_all

subsection \<open>Settings\<close>

text \<open>
  \<open>nvs_found\<close> is whether \<open>grblNVS\<close> is set; the real-time handler is installed in the stream, and
  \<open>nvs_seen\<close> records which one was in place while the flash was written.
\<close>

datatype rt_handler = Rt_handler nat | Nvs_filter

record 'f nvs =
  nvs_found :: bool
  nvs_flash :: 'f
  nvs_handler :: rt_handler
  nvs_seen :: "rt_handler list"

definition nvs_enqueue_realtime_command :: "u8 \<Rightarrow> bool" where
  \<comment> \<open>whether the character is dropped\<close>
  "nvs_enqueue_realtime_command c \<longleftrightarrow> (c < 32 \<and> \<not> (c = 13 \<or> c = 10)) \<or> c = 63 \<or> c \<ge> 127"

definition set_enqueue_rt_handler :: "rt_handler \<Rightarrow> 'f nvs \<Rightarrow> rt_handler \<times> 'f nvs" where
  "set_enqueue_rt_handler h s = (nvs_handler s, s\<lparr>nvs_handler := h\<rparr>)"

definition nvsInit :: "bool \<Rightarrow> 'f nvs \<Rightarrow> bool \<times> 'f nvs" where
  "nvsInit found s = (found, s\<lparr>nvs_found := found\<rparr>)"

definition nvsRead :: "'f partition \<Rightarrow> nat \<Rightarrow> 'f nvs \<Rightarrow> (bool \<times> u8 list option) \<times> 'f nvs" where
  \<comment> \<open>the size is \<open>hal.nvs.size\<close>; the result and what is stored in \<open>dest\<close>\<close>
  "nvsRead p size_n s =
     (if nvs_found s then
        (case part_read p 0 size_n (nvs_flash s) of
           (Some bs, f) \<Rightarrow> ((True, Some bs), s\<lparr>nvs_flash := f\<rparr>)
         | (None, f) \<Rightarrow> ((False, None), s\<lparr>nvs_flash := f, nvs_found := False\<rparr>))
      else ((False, None), s))"

definition nvs_store :: "'f partition \<Rightarrow> u8 list \<Rightarrow> 'f nvs \<Rightarrow> bool \<times> 'f nvs" where
  \<comment> \<open>the expression that computes \<open>ok\<close>\<close>
  "nvs_store p source s =
     (if nvs_found s then
        (case part_erase p 0 SPI_FLASH_SEC_SIZE (nvs_flash s) of
           (False, f) \<Rightarrow> (False, s\<lparr>nvs_flash := f, nvs_seen := nvs_seen s @ [nvs_handler s]\<rparr>)
         | (True, f) \<Rightarrow>
             (case part_write p 0 source f of
                (ok, f') \<Rightarrow> (ok, s\<lparr>nvs_flash := f', nvs_seen := nvs_seen s @ [nvs_handler s]\<rparr>)))
      else (False, s))"

definition nvsWrite :: "'f partition \<Rightarrow> u8 list \<Rightarrow> 'f nvs \<Rightarrow> bool \<times> 'f nvs" where
  "nvsWrite p source s =
     (let (handler, s1) = set_enqueue_rt_handler Nvs_filter s;
          (ok, s2) = nvs_store p source s1
      in (ok, snd (set_enqueue_rt_handler handler s2)))"

lemma and_255 [simp]: "(255 :: u8) AND b = b"
proof -
  have e: "(255 :: u8) = - 1" by simp
  show ?thesis unfolding e by (rule and.left_neutral)
qed

text \<open>
  C29. Settings of at most one sector that were written read back as they were written, every
  access that touches the flash during the write runs under the filter that needs no flash, and
  the real-time handler is the previous one afterwards, whether or not the write succeeds.
\<close>

theorem nvs_roundtrip:
  assumes "partition_ok p at" "length source \<le> SPI_FLASH_SEC_SIZE" "nvsWrite p source s = (ok, s1)"
  shows "nvs_handler s1 = nvs_handler s \<and> (\<exists>n. nvs_seen s1 = nvs_seen s @ replicate n Nvs_filter) \<and>
    (ok \<longrightarrow> (\<forall>r bs s2. nvsRead p (length source) s1 = ((r, Some bs), s2) \<longrightarrow> r \<and> bs = source))"
proof -
  let ?s0 = "s\<lparr>nvs_handler := Nvs_filter\<rparr>"
  obtain ok' t where st: "nvs_store p source ?s0 = (ok', t)" by (cases "nvs_store p source ?s0")
  have s1: "ok = ok'" "s1 = t\<lparr>nvs_handler := nvs_handler s\<rparr>"
    using assms(3) st by (simp_all add: nvsWrite_def set_enqueue_rt_handler_def)
  show ?thesis
  proof (cases "nvs_found s")
    case False
    then have "t = ?s0" "\<not> ok'" using st by (simp_all add: nvs_store_def)
    then show ?thesis using s1 by (auto intro: exI [of _ 0])
  next
    case True
    obtain e f where er: "part_erase p 0 SPI_FLASH_SEC_SIZE (nvs_flash s) = (e, f)"
      by (cases "part_erase p 0 SPI_FLASH_SEC_SIZE (nvs_flash s)")
    obtain w f' where wr: "part_write p 0 source f = (w, f')" by (cases "part_write p 0 source f")
    have seen: "nvs_seen t = nvs_seen s @ replicate 1 Nvs_filter" "nvs_found t = True"
      using st True er wr by (auto simp: nvs_store_def split: bool.splits)
    have "bs = source" if ok' and rd: "part_read p 0 (length source) (nvs_flash t) = (Some bs, g)" for bs g
    proof -
      have e: "e" "w" "nvs_flash t = f'"
        using st True er wr that(1) by (auto simp: nvs_store_def split: bool.splits)
      have "bs = map (at f') [0..<length source]" using part_readD [OF assms(1) rd] e(3) by simp
      also have "\<dots> = source"
      proof (rule nth_equalityI)
        fix i assume "i < length (map (at f') [0..<length source])"
        then have i: "i < length source" by simp
        have "at f i = 255" using part_eraseD(2) [OF assms(1) er e(1), of i] i assms(2) by simp
        then show "map (at f') [0..<length source] ! i = source ! i"
          using part_writeD(2) [OF assms(1) wr e(2), of i] i by simp
      qed simp
      finally show ?thesis .
    qed
    then have rd: "r \<and> bs = source"
      if "ok'" "nvsRead p (length source) s1 = ((r, Some bs), s2)" for r bs s2
      using that seen(2)
      by (cases "part_read p 0 (length source) (nvs_flash t)") (auto simp: s1(2) nvsRead_def split: option.splits)
    have "nvs_handler s1 = nvs_handler s" "nvs_seen s1 = nvs_seen s @ replicate 1 Nvs_filter"
      by (simp_all add: s1(2) seen(1))
    then show ?thesis using rd s1(1) by blast
  qed
qed

text \<open>A failing read gives the partition up: nothing is read or written until the next start.\<close>

lemma nvs_read_failure:
  assumes "nvs_found s" "fst (part_read p 0 n (nvs_flash s)) = None" "nvsRead p n s = (r, s1)"
  shows "fst (nvsWrite p bs s1) = False \<and> fst (fst (nvsRead p n s1)) = False"
  using assms
  by (auto simp: nvsRead_def nvsWrite_def nvs_store_def set_enqueue_rt_handler_def Let_def
      split: prod.splits option.splits)

subsection \<open>A flash to try it on\<close>

definition flash0 :: "(nat \<Rightarrow> u8) partition" where
  \<comment> \<open>two sectors; an access that does not fit fails\<close>
  "flash0 = \<lparr>part_size = 8192,
     part_read = (\<lambda>off n f. (if off + n \<le> 8192 then Some (map f [off..<off + n]) else None, f)),
     part_write = (\<lambda>off bs f. if off + length bs \<le> 8192
       then (True, \<lambda>i. if off \<le> i \<and> i < off + length bs then f i AND bs ! (i - off) else f i) else (False, f)),
     part_erase = (\<lambda>off n f. if off + n \<le> 8192
       then (True, \<lambda>i. if off \<le> i \<and> i < off + n then 255 else f i) else (False, f))\<rparr>"

lemma flash0_ok: "partition_ok flash0 (\<lambda>f. f)"
  by (auto simp: partition_ok_def flash0_def)

definition nvs0 :: "(nat \<Rightarrow> u8) nvs" where
  "nvs0 = \<lparr>nvs_found = True, nvs_flash = (\<lambda>i. 170), nvs_handler = Rt_handler 1, nvs_seen = []\<rparr>"

theorem nvs_roundtrip_witness:
  "\<exists>s1 s2. nvsWrite flash0 [1, 2, 3] nvs0 = (True, s1) \<and> nvsRead flash0 3 s1 = ((True, Some [1, 2, 3]), s2) \<and>
     nvs_handler s1 = Rt_handler 1"
proof -
  obtain s1 where w: "nvsWrite flash0 [1, 2, 3] nvs0 = (True, s1)" "nvs_found s1"
    by (simp add: nvsWrite_def nvs_store_def set_enqueue_rt_handler_def nvs0_def flash0_def SPI_FLASH_SEC_SIZE_def Let_def)
  have l: "length [1, 2, 3 :: u8] = 3" by simp
  have "length [1, 2, 3 :: u8] \<le> SPI_FLASH_SEC_SIZE" by (simp add: SPI_FLASH_SEC_SIZE_def)
  note rt = nvs_roundtrip [OF flash0_ok this w(1), unfolded l]
  have h: "nvs_handler s1 = Rt_handler 1" using rt by (simp add: nvs0_def)
  have r: "\<And>r bs s2. nvsRead flash0 3 s1 = ((r, Some bs), s2) \<Longrightarrow> r \<and> bs = [1, 2, 3]"
    using rt by blast
  obtain bs f where "part_read flash0 0 3 (nvs_flash s1) = (Some bs, f)"
    by (simp add: flash0_def)
  then have rd: "nvsRead flash0 3 s1 = ((True, Some bs), s1\<lparr>nvs_flash := f\<rparr>)"
    using w(2) by (simp add: nvsRead_def)
  with r [OF rd] h w(1) show ?thesis by blast
qed

subsection \<open>The block operations of littlefs\<close>

definition CONFIG_LITTLEFS_BLOCK_SIZE :: nat where "CONFIG_LITTLEFS_BLOCK_SIZE = 4096"




definition littlefs_api_sync :: int where "littlefs_api_sync = 0"

record lfs_cfg =
  lfs_block_size :: nat
  lfs_block_count :: nat
  lfs_read_size :: nat
  lfs_prog_size :: nat
  lfs_cache_size :: nat
  lfs_lookahead_size :: nat
  lfs_block_cycles :: nat

definition esp32_littlefs_hal :: "'f partition option \<Rightarrow> lfs_cfg option" where
  "esp32_littlefs_hal found =
     (case found of
        None \<Rightarrow> None
      | Some p \<Rightarrow> Some \<lparr>lfs_block_size = CONFIG_LITTLEFS_BLOCK_SIZE,
          lfs_block_count = part_size p div CONFIG_LITTLEFS_BLOCK_SIZE, lfs_read_size = 128, lfs_prog_size = 128,
          lfs_cache_size = 512, lfs_lookahead_size = 128, lfs_block_cycles = 512\<rparr>)"




subsection \<open>The embedded files\<close>

text \<open>Names are strings; the sizes are 32-bit.  A file that is not found is None.\<close>

record emb_file =
  ef_name :: string
  ef_data :: "u8 list"

record emb_handle =
  eh_file :: emb_file
  eh_remaining :: u32

definition ef_size :: "emb_file \<Rightarrow> u32" where "ef_size f = of_nat (length (ef_data f))"

definition ro_files :: "u8 list \<Rightarrow> u8 list \<Rightarrow> u8 list \<Rightarrow> emb_file list" where
  \<comment> \<open>the contents that the linker provides: \<open>favicon.ico\<close>, \<open>index.html.gz\<close>, \<open>ap_login.html\<close>\<close>
  "ro_files favicon index_html login =
     [\<lparr>ef_name = ''ok.txt'', ef_data = [111, 107]\<rparr>, \<lparr>ef_name = ''favicon.ico'', ef_data = favicon\<rparr>,
      \<lparr>ef_name = ''index.html.gz'', ef_data = index_html\<rparr>, \<lparr>ef_name = ''ap_login.html'', ef_data = login\<rparr>]"

fun search_file :: "emb_file list \<Rightarrow> string \<Rightarrow> emb_file option" where
  "search_file [] name = None"
| "search_file (f # fs) name = (if ef_name f = name then Some f else search_file fs name)"

definition find_file :: "emb_file list \<Rightarrow> string \<Rightarrow> emb_file option" where
  "find_file files filename =
     search_file files (case filename of c # cs \<Rightarrow> if c = CHR ''/'' then cs else filename | [] \<Rightarrow> filename)"

definition emb_open :: "emb_file list \<Rightarrow> bool \<Rightarrow> string \<Rightarrow> string \<Rightarrow> emb_handle option" where
  \<comment> \<open>whether memory is available, the name and the mode\<close>
  "emb_open files mem filename mode =
     (if CHR ''r'' \<in> set mode then
        (case find_file files filename of
           None \<Rightarrow> None
         | Some f \<Rightarrow> if mem then Some \<lparr>eh_file = f, eh_remaining = ef_size f\<rparr> else None)
      else None)"

definition emb_read :: "u32 \<Rightarrow> u32 \<Rightarrow> emb_handle \<Rightarrow> u8 list \<times> u32 \<times> emb_handle" where
  \<comment> \<open>the bytes copied to the buffer, their number, the handle\<close>
  "emb_read size_n count h =
     (let rcount = (if eh_remaining h \<noteq> 0
                    then (if size_n * count > eh_remaining h then eh_remaining h else size_n * count) else 0);
          from_ix = unat (ef_size (eh_file h) - eh_remaining h)
      in (take (unat rcount) (drop from_ix (ef_data (eh_file h))), rcount,
          h\<lparr>eh_remaining := eh_remaining h - rcount\<rparr>))"

definition emb_write :: nat where "emb_write = 0"

definition emb_tell :: "emb_handle \<Rightarrow> u32" where
  "emb_tell h = ef_size (eh_file h) - eh_remaining h"

definition emb_eof :: "emb_handle \<Rightarrow> bool" where
  "emb_eof h \<longleftrightarrow> eh_remaining h = 0"

definition emb_dirop :: int where "emb_dirop = - 1"

definition emb_stat :: "emb_file list \<Rightarrow> string \<Rightarrow> u32 option" where
  \<comment> \<open>the size; None is the result -1\<close>
  "emb_stat files filename = map_option ef_size (find_file files filename)"

definition emb_ok :: "emb_handle \<Rightarrow> bool" where
  "emb_ok h \<longleftrightarrow> length (ef_data (eh_file h)) < 2 ^ 32 \<and> unat (eh_remaining h) \<le> length (ef_data (eh_file h))"

fun emb_reads :: "(u32 \<times> u32) list \<Rightarrow> emb_handle \<Rightarrow> u8 list \<times> emb_handle" where
  \<comment> \<open>a client that reads with the given sizes and counts\<close>
  "emb_reads [] h = ([], h)"
| "emb_reads ((n, c) # ns) h =
     (case emb_read n c h of (bs, _, h1) \<Rightarrow> case emb_reads ns h1 of (cs, h2) \<Rightarrow> (bs @ cs, h2))"

lemma unat_ef_size: "length (ef_data f) < 2 ^ 32 \<Longrightarrow> unat (ef_size f) = length (ef_data f)"
  by (simp add: ef_size_def unat_of_nat take_bit_nat_eq_self)

lemma emb_tell_unat: "emb_ok h \<Longrightarrow> unat (emb_tell h) = length (ef_data (eh_file h)) - unat (eh_remaining h)"
  by (simp add: emb_tell_def emb_ok_def unat_ef_size unat_sub word_le_nat_alt)

lemma emb_read_spec:
  assumes "emb_ok h"
  shows "case emb_read n c h of (bs, r, h1) \<Rightarrow>
    bs = take (unat (n * c)) (drop (unat (emb_tell h)) (ef_data (eh_file h))) \<and> unat r = length bs \<and>
    emb_ok h1 \<and> eh_file h1 = eh_file h \<and> unat (emb_tell h1) = unat (emb_tell h) + length bs"
proof -
  let ?d = "ef_data (eh_file h)" and ?rem = "unat (eh_remaining h)"
  define r where "r = (if eh_remaining h \<noteq> 0 then (if n * c > eh_remaining h then eh_remaining h else n * c) else 0)"
  have t: "unat (emb_tell h) = length ?d - ?rem" by (rule emb_tell_unat [OF assms])
  have rem: "?rem \<le> length ?d" using assms by (simp add: emb_ok_def)
  have r: "unat r = min (unat (n * c)) ?rem"
    by (auto simp: r_def word_less_nat_alt min_def unat_eq_zero)
  have le: "r \<le> eh_remaining h" using r by (simp add: word_le_nat_alt)
  have sub: "unat (eh_remaining h - r) = ?rem - unat r" using le by (rule unat_sub)
  define h1 where "h1 = h\<lparr>eh_remaining := eh_remaining h - r\<rparr>"
  have ok1: "emb_ok h1"
    using assms sub by (auto simp: emb_ok_def h1_def intro: le_trans [OF diff_le_self])
  have rd: "emb_read n c h = (take (unat r) (drop (unat (emb_tell h)) ?d), r, h1)"
    by (simp add: emb_read_def Let_def r_def h1_def emb_tell_def)
  have bs: "take (unat r) (drop (unat (emb_tell h)) ?d) = take (unat (n * c)) (drop (unat (emb_tell h)) ?d)"
    using r t rem by (simp add: min_def)
  have len: "length (take (unat r) (drop (unat (emb_tell h)) ?d)) = unat r"
    using r t rem by simp
  have "unat (emb_tell h1) = unat (emb_tell h) + unat r"
    using emb_tell_unat [OF ok1] t sub r rem by (simp add: h1_def)
  with rd bs len ok1 show ?thesis by (simp add: h1_def)
qed

lemma take_length_take: "bs = take k d \<Longrightarrow> take (length bs) d = bs"
  by (metis append_eq_conv_conj append_take_drop_id)

lemma emb_reads_spec:
  "emb_ok h \<Longrightarrow> case emb_reads ns h of (bs, h1) \<Rightarrow>
     (\<exists>k. bs = take k (drop (unat (emb_tell h)) (ef_data (eh_file h)))) \<and> emb_ok h1 \<and>
     eh_file h1 = eh_file h \<and> unat (emb_tell h1) = unat (emb_tell h) + length bs"
proof (induction ns arbitrary: h)
  case Nil
  then show ?case by (auto intro: exI [of _ 0])
next
  case (Cons nc ns)
  obtain n c where nc: "nc = (n, c)" by (cases nc)
  obtain bs r h1 where r: "emb_read n c h = (bs, r, h1)" by (cases "emb_read n c h")
  obtain cs h2 where rs: "emb_reads ns h1 = (cs, h2)" by (cases "emb_reads ns h1")
  from emb_read_spec [OF Cons.prems, of n c] r have
    b: "bs = take (unat (n * c)) (drop (unat (emb_tell h)) (ef_data (eh_file h)))" "emb_ok h1"
      "eh_file h1 = eh_file h" "unat (emb_tell h1) = unat (emb_tell h) + length bs" by auto
  from Cons.IH [OF b(2)] rs obtain k where
    c: "cs = take k (drop (unat (emb_tell h1)) (ef_data (eh_file h1)))" "emb_ok h2"
      "eh_file h2 = eh_file h1" "unat (emb_tell h2) = unat (emb_tell h1) + length cs" by auto
  let ?d = "drop (unat (emb_tell h)) (ef_data (eh_file h))"
  have cs: "cs = take k (drop (length bs) ?d)" using c(1) b(3,4) by (simp add: add.commute)
  have "take (length bs) ?d = bs" using b(1) by (rule take_length_take)
  then have pre: "bs @ cs = take (length bs + k) ?d" unfolding cs by (simp only: take_add)
  have run: "emb_reads (nc # ns) h = (bs @ cs, h2)" using nc r rs by simp
  have same: "eh_file h2 = eh_file h" using b(3) c(3) by (rule trans [rotated])
  have tell: "unat (emb_tell h2) = unat (emb_tell h) + length (bs @ cs)"
    using b(4) c(4) by (simp only: length_append add.assoc)
  show ?case unfolding run prod.case using pre c(2) same tell by blast
qed

text \<open>
  A file that is opened and read in pieces of any sizes until the end of file gives exactly
  its contents, in order; the position is always the number of bytes read.
\<close>

theorem embedded_read_all:
  assumes "emb_open files True name mode = Some h" "\<forall>f \<in> set files. length (ef_data f) < 2 ^ 32"
    "emb_reads ns h = (bs, h1)"
  shows "unat (emb_tell h1) = length bs \<and> bs = take (length bs) (ef_data (eh_file h)) \<and>
    (emb_eof h1 \<longrightarrow> bs = ef_data (eh_file h))"
proof -
  have s: "search_file fs nm = Some f \<Longrightarrow> f \<in> set fs" for fs nm f
    by (induction fs) (auto split: if_splits)
  from assms(1) obtain f where f: "find_file files name = Some f"
    "h = \<lparr>eh_file = f, eh_remaining = ef_size f\<rparr>" by (auto simp: emb_open_def split: if_splits option.splits)
  from f(1) have "f \<in> set files" unfolding find_file_def by (rule s)
  with assms(2) have len: "length (ef_data f) < 2 ^ 32" by blast
  have ok: "emb_ok h" using len by (simp add: f(2) emb_ok_def unat_ef_size)
  have t0: "unat (emb_tell h) = 0" by (simp add: f(2) emb_tell_def)
  from emb_reads_spec [OF ok, of ns] assms(3) t0 obtain k where
    k: "bs = take k (ef_data (eh_file h))" "emb_ok h1" "eh_file h1 = eh_file h" "unat (emb_tell h1) = length bs"
    by auto
  have "bs = ef_data (eh_file h)" if "emb_eof h1"
  proof -
    have "unat (emb_tell h1) = length (ef_data (eh_file h))"
      using emb_tell_unat [OF k(2)] k(3) that by (simp add: emb_eof_def)
    with k(1,4) show ?thesis by simp
  qed
  with k take_length_take [OF k(1)] show ?thesis by simp
qed

theorem embedded_read_all_witness:
  "\<exists>h h1. emb_open (ro_files [] [1, 2, 3, 4, 5] []) True ''/index.html.gz'' ''r'' = Some h \<and>
     emb_reads [(1, 2), (3, 1), (1, 4)] h = ([1, 2, 3, 4, 5], h1) \<and> unat (emb_tell h1) = 5"
proof -
  obtain h where h: "emb_open (ro_files [] [1, 2, 3, 4, 5] []) True ''/index.html.gz'' ''r'' = Some h"
    by (simp add: emb_open_def find_file_def ro_files_def)
  then have hh: "h = \<lparr>eh_file = \<lparr>ef_name = ''index.html.gz'', ef_data = [1, 2, 3, 4, 5]\<rparr>, eh_remaining = 5\<rparr>"
    by (simp add: emb_open_def find_file_def ro_files_def ef_size_def)
  have "fst (emb_reads [(1, 2), (3, 1), (1, 4)] h) = [1, 2, 3, 4, 5]" unfolding hh by code_simp
  then obtain h1 where r: "emb_reads [(1, 2), (3, 1), (1, 4)] h = ([1, 2, 3, 4, 5], h1)"
    by (cases "emb_reads [(1, 2), (3, 1), (1, 4)] h") simp
  have "\<forall>f \<in> set (ro_files [] [1, 2, 3, 4, 5] []). length (ef_data f) < 2 ^ 32" by (simp add: ro_files_def)
  from embedded_read_all [OF h this r] h r show ?thesis by auto
qed

end
