(* ===== verification/I2cBus.thy ===== *)
theory I2cBus
  imports Trinamic
begin

text \<open>
  The I2C bus, \<open>main/i2c.c\<close>: transfers of the core and of plugins, the task that serves the
  keypad and the I/O expander, and register access to Trinamic drivers through an I2C bridge.

  A transfer is a list of commands that is built first and then run.  Its builder calls can fail
  (\<open>ie_build\<close>, by their number within the operation), as can the allocation of the list
  (\<open>ie_link\<close>).  The bus with everything on it is a parameter: \<open>begin\<close> takes the state of the
  devices and the commands, and gives whether the transfer succeeded, the bytes read and the new
  state.  \<open>i2cBusy\<close> is a token: taking it fails when it does not exist or when another task holds
  it to the end of the wait.
\<close>

subsection \<open>Command lists\<close>

datatype i2c_cmd =
    Start
  | Write "u8 list"
  | Read int nat bool    \<comment> \<open>where the bytes go in the buffer, how many, whether the last is acknowledged\<close>
  | Stop

record i2c_env =
  ie_link :: bool
  ie_build :: "nat \<Rightarrow> bool"

type_synonym i2c_link = "i2c_cmd list option \<times> nat"

definition i2c_cmd_link_create :: "i2c_env \<Rightarrow> i2c_link" where
  "i2c_cmd_link_create env = (if ie_link env then Some [] else None, 0)"

definition i2c_add :: "i2c_env \<Rightarrow> i2c_cmd \<Rightarrow> i2c_link \<Rightarrow> bool \<times> i2c_link" where
  \<comment> \<open>one builder call: whether it returns \<open>ESP_OK\<close>\<close>
  "i2c_add env c l =
     (case l of
        (None, k) \<Rightarrow> (False, None, k + 1)
      | (Some cs, k) \<Rightarrow> if ie_build env k then (True, Some (cs @ [c]), k + 1) else (False, Some cs, k + 1))"

fun i2c_add_while :: "i2c_env \<Rightarrow> i2c_cmd list \<Rightarrow> i2c_link \<Rightarrow> bool \<times> i2c_link" where
  \<comment> \<open>builder calls joined by \<open>&&\<close>\<close>
  "i2c_add_while env [] l = (True, l)"
| "i2c_add_while env (c # cs) l =
     (case i2c_add env c l of (ok, l1) \<Rightarrow> if ok then i2c_add_while env cs l1 else (False, l1))"

fun i2c_add_each :: "i2c_env \<Rightarrow> i2c_cmd list \<Rightarrow> i2c_link \<Rightarrow> i2c_link" where
  \<comment> \<open>builder calls whose results are not tested\<close>
  "i2c_add_each env [] l = l"
| "i2c_add_each env (c # cs) l = i2c_add_each env cs (snd (i2c_add env c l))"

fun deliver :: "i2c_cmd list \<Rightarrow> u8 list \<Rightarrow> u8 list \<Rightarrow> u8 list option" where
  \<comment> \<open>the bytes read are stored in the buffer; None: outside of it\<close>
  "deliver [] bs buf = Some buf"
| "deliver (Read off n ack # cs) bs buf =
     (let xs = take n bs in
      if xs = [] then deliver cs (drop n bs) buf
      else if 0 \<le> off \<and> nat off + length xs \<le> length buf
      then deliver cs (drop n bs) (take (nat off) buf @ xs @ drop (nat off + length xs) buf)
      else None)"
| "deliver (c # cs) bs buf = deliver cs bs buf"

subsection \<open>State\<close>

type_synonym 'd i2c_begin = "'d \<Rightarrow> i2c_cmd list \<Rightarrow> bool \<times> u8 list \<times> 'd"

record 'd i2c =
  i2c_created :: bool        \<comment> \<open>\<open>i2cBusy\<close> and \<open>i2cQueue\<close> are set\<close>
  i2c_token :: bool
  i2c_links :: nat           \<comment> \<open>command lists that are allocated\<close>
  i2c_tasks :: "(nat \<times> u16 \<times> u32) list"   \<comment> \<open>the queue: action, address, params\<close>
  i2c_keys :: "(u32 \<times> u8) list"           \<comment> \<open>calls of a keycode callback, newest last\<close>
  i2c_axis :: u8             \<comment> \<open>the static \<open>axis\<close>\<close>
  i2c_dev :: 'd
  i2c_frames :: "i2c_cmd list list"      \<comment> \<open>what was run on the bus, newest last\<close>

definition i2c_init :: "'d \<Rightarrow> 'd i2c" where
  "i2c_init d = \<lparr>i2c_created = False, i2c_token = False, i2c_links = 0, i2c_tasks = [], i2c_keys = [],
     i2c_axis = 255, i2c_dev = d, i2c_frames = []\<rparr>"

definition i2c_start :: "'d i2c \<Rightarrow> 'd i2c" where
  \<comment> \<open>only the first call acts\<close>
  "i2c_start s = (if i2c_created s then s else s\<lparr>i2c_created := True, i2c_tasks := [], i2c_token := True\<rparr>)"

definition i2c_take :: "'d i2c \<Rightarrow> bool \<times> 'd i2c" where
  "i2c_take s = (if i2c_created s \<and> i2c_token s then (True, s\<lparr>i2c_token := False\<rparr>) else (False, s))"

definition i2c_give :: "'d i2c \<Rightarrow> 'd i2c" where
  "i2c_give s = s\<lparr>i2c_token := True\<rparr>"

definition i2c_master_cmd_begin :: "'d i2c_begin \<Rightarrow> i2c_link \<Rightarrow> 'd i2c \<Rightarrow> bool \<times> u8 list \<times> 'd i2c" where
  \<comment> \<open>without a list the call returns an error\<close>
  "i2c_master_cmd_begin begn l s =
     (case fst l of
        None \<Rightarrow> (False, [], s)
      | Some cs \<Rightarrow> (case begn (i2c_dev s) cs of
          (ok, bs, d) \<Rightarrow> (ok, bs, s\<lparr>i2c_dev := d, i2c_frames := i2c_frames s @ [cs]\<rparr>)))"

definition i2c_open :: "i2c_link \<Rightarrow> 'd i2c \<Rightarrow> 'd i2c" where
  "i2c_open l s = (if fst l = None then s else s\<lparr>i2c_links := i2c_links s + 1\<rparr>)"

definition i2c_cmd_link_delete :: "i2c_link \<Rightarrow> 'd i2c \<Rightarrow> 'd i2c" where
  "i2c_cmd_link_delete l s = (if fst l = None then s else s\<lparr>i2c_links := i2c_links s - 1\<rparr>)"

definition addr_byte :: "u16 \<Rightarrow> bool \<Rightarrow> u8" where
  \<comment> \<open>\<open>(address << 1) | I2C_MASTER_READ\<close> or \<open>I2C_MASTER_WRITE\<close>, as a byte\<close>
  "addr_byte a rd = ucast (push_bit 1 a) OR (if rd then 1 else 0)"

subsection \<open>Transfers\<close>

definition i2c_checked :: "i2c_env \<Rightarrow> 'd i2c_begin \<Rightarrow> i2c_cmd list \<Rightarrow> u8 list \<Rightarrow> 'd i2c \<Rightarrow> (bool \<times> u8 list \<times> 'd i2c) option" where
  \<comment> \<open>the body \<open>i2c_probe\<close>, \<open>i2c_send\<close> and \<open>i2c_transfer\<close> have in common, the commands after the
     start as argument; None: a byte is stored outside the buffer\<close>
  "i2c_checked env begn cmds buf s =
     (case i2c_take s of
        (False, s1) \<Rightarrow> Some (False, buf, s1)
      | (True, s1) \<Rightarrow>
          let l = i2c_cmd_link_create env; s2 = i2c_open l s1 in
          if fst l = None then Some (False, buf, i2c_give s2)
          else (case i2c_add env Start l of
                 (False, l1) \<Rightarrow> Some (False, buf, i2c_give s2)
               | (True, l1) \<Rightarrow>
                   (case i2c_add_while env cmds l1 of
                      (False, l2) \<Rightarrow> Some (False, buf, i2c_give (i2c_cmd_link_delete l2 s2))
                    | (True, l2) \<Rightarrow>
                        (case i2c_master_cmd_begin begn l2 s2 of
                           (ret, bs, s3) \<Rightarrow>
                             (case deliver (the (fst l2)) bs buf of
                                None \<Rightarrow> None
                              | Some buf1 \<Rightarrow> Some (ret, buf1, i2c_give (i2c_cmd_link_delete l2 s3)))))))"

definition i2c_probe :: "i2c_env \<Rightarrow> 'd i2c_begin \<Rightarrow> u16 \<Rightarrow> 'd i2c \<Rightarrow> (bool \<times> u8 list \<times> 'd i2c) option" where
  "i2c_probe env begn a s = i2c_checked env begn [Write [addr_byte a False], Stop] [] s"


record i2c_transfer_t =
  it_address :: u16
  it_word_addr_bytes :: nat
  it_word_addr :: u16
  it_count :: nat

definition word_addr_cmds :: "i2c_transfer_t \<Rightarrow> i2c_cmd list" where
  "word_addr_cmds t =
     (if it_word_addr_bytes t = 2
      then [Write [ucast (drop_bit 8 (it_word_addr t))], Write [ucast (it_word_addr t AND 255)]]
      else [Write [ucast (it_word_addr t)]])"

definition transfer_cmds :: "i2c_transfer_t \<Rightarrow> bool \<Rightarrow> u8 list \<Rightarrow> i2c_cmd list" where
  \<comment> \<open>the commands after the start, for a read or a write of the data\<close>
  "transfer_cmds t rd data =
     [Write [addr_byte (it_address t) False]] @ word_addr_cmds t @
     (if rd then [Start, Write [addr_byte (it_address t) True]] @
                 (if it_count t > 1 then [Read 0 (it_count t - 1) True] else []) @
                 [Read (int (it_count t) - 1) 1 False, Stop]
      else [Write (take (it_count t) data), Stop])"

definition i2c_transfer :: "i2c_env \<Rightarrow> 'd i2c_begin \<Rightarrow> i2c_transfer_t \<Rightarrow> bool \<Rightarrow> u8 list \<Rightarrow> 'd i2c \<Rightarrow>
    (bool \<times> u8 list \<times> 'd i2c) option" where
  \<comment> \<open>the buffer \<open>i2c->data\<close> before and after\<close>
  "i2c_transfer env begn t rd data s = i2c_checked env begn (transfer_cmds t rd data) data s"

subsection \<open>The task\<close>


definition i2c_unchecked :: "i2c_env \<Rightarrow> 'd i2c_begin \<Rightarrow> i2c_cmd list \<Rightarrow> 'd i2c \<Rightarrow> bool \<times> u8 list \<times> 'd i2c" where
  \<comment> \<open>the body of the accesses that do not test the builder calls, run with the token held\<close>
  "i2c_unchecked env begn cmds s =
     (let l = i2c_cmd_link_create env; l1 = i2c_add_each env cmds l in
      case i2c_master_cmd_begin begn l1 (i2c_open l s) of
        (ret, bs, s1) \<Rightarrow> (ret, bs, i2c_cmd_link_delete l1 s1))"

definition i2c_built :: "i2c_env \<Rightarrow> i2c_cmd list \<Rightarrow> i2c_cmd list" where
  \<comment> \<open>the commands that get into the list\<close>
  "i2c_built env cmds =
     (case fst (i2c_add_each env cmds (i2c_cmd_link_create env)) of None \<Rightarrow> [] | Some cs \<Rightarrow> cs)"




subsection \<open>Trinamic drivers behind an I2C bridge\<close>

definition TMC_ADDR :: u8 where "TMC_ADDR = push_bit 1 71"

definition select_frame :: "u8 \<Rightarrow> i2c_cmd list" where
  "select_frame a = [Start, Write [TMC_ADDR], Write [a OR 128], Stop]"

definition tmc_set_axis :: "i2c_env \<Rightarrow> 'd i2c_begin \<Rightarrow> u8 \<Rightarrow> 'd i2c \<Rightarrow> bool \<times> 'd i2c" where
  "tmc_set_axis env begn a s =
     (case i2c_take s of
        (False, s1) \<Rightarrow> (False, s1)
      | (True, s1) \<Rightarrow>
          (case i2c_unchecked env begn (select_frame a) s1 of (ret, bs, s2) \<Rightarrow> (ret, i2c_give s2)))"

definition tmc_want_axis :: "i2c_env \<Rightarrow> 'd i2c_begin \<Rightarrow> u8 \<Rightarrow> 'd i2c \<Rightarrow> 'd i2c" where
  \<comment> \<open>the first statement of both accesses; the result of \<open>tmc_set_axis\<close> is not tested\<close>
  "tmc_want_axis env begn a s =
     (if a \<noteq> i2c_axis s then (snd (tmc_set_axis env begn a s))\<lparr>i2c_axis := a\<rparr> else s)"

definition read_frame :: "u8 \<Rightarrow> i2c_cmd list" where
  "read_frame r =
     [Start, Write [TMC_ADDR], Write [r], Start, Write [TMC_ADDR OR 1], Read 0 4 True, Read 4 1 False, Stop]"

definition tmc_i2c_read :: "i2c_env \<Rightarrow> i2c_env \<Rightarrow> 'd i2c_begin \<Rightarrow> u8 \<Rightarrow> u8 \<Rightarrow> 'd i2c \<Rightarrow> (u8 \<times> u32 \<times> 'd i2c) option" where
  \<comment> \<open>\<open>tmc_spi_read\<close>: status, value; the axis and the register address\<close>
  "tmc_i2c_read env1 env2 begn a addr s =
     (let s = tmc_want_axis env1 begn a s;
          buffer = [clear_write addr, 0, 0, 0, 0]
      in case (case i2c_take s of
                 (False, s1) \<Rightarrow> Some (buffer, s1)
               | (True, s1) \<Rightarrow>
                   (case i2c_unchecked env2 begn (read_frame (buffer ! 0)) s1 of
                      (ret, bs, s2) \<Rightarrow>
                        map_option (\<lambda>b. (b, i2c_give s2)) (deliver (i2c_built env2 (read_frame (buffer ! 0))) bs buffer))) of
           None \<Rightarrow> None
         | Some (b, s) \<Rightarrow> Some (b ! 0, from_bytes (b ! 1) (b ! 2) (b ! 3) (b ! 4), s))"

definition write_frame :: "tmc_datagram \<Rightarrow> i2c_cmd list" where
  "write_frame reg = [Start, Write [TMC_ADDR], Write (set_write (dg_addr reg) # value_bytes (dg_value reg)), Stop]"

definition tmc_i2c_write :: "i2c_env \<Rightarrow> i2c_env \<Rightarrow> 'd i2c_begin \<Rightarrow> u8 \<Rightarrow> tmc_datagram \<Rightarrow> 'd i2c \<Rightarrow>
    u8 \<times> tmc_datagram \<times> 'd i2c" where
  \<comment> \<open>\<open>tmc_spi_write\<close>: status, the datagram afterwards\<close>
  "tmc_i2c_write env1 env2 begn a reg s =
     (let s = tmc_want_axis env1 begn a s;
          reg' = reg\<lparr>dg_addr := clear_write (dg_addr reg)\<rparr>
      in case i2c_take s of
           (False, s1) \<Rightarrow> (0, reg', s1)
         | (True, s1) \<Rightarrow> (0, reg', i2c_give (snd (snd (i2c_unchecked env2 begn (write_frame reg) s1)))))"

subsection \<open>The token and the command lists\<close>

lemma i2c_take_ok: "i2c_take s = (True, s1) \<Longrightarrow> i2c_token s = True \<and> s1 = s\<lparr>i2c_token := False\<rparr>"
  by (auto simp: i2c_take_def split: if_splits)

lemma i2c_take_fails: "i2c_take s = (False, s1) \<Longrightarrow> s1 = s"
  by (auto simp: i2c_take_def split: if_splits)

definition i2c_kept :: "'d i2c \<Rightarrow> 'd i2c \<Rightarrow> bool" where
  \<comment> \<open>what every access leaves as it was\<close>
  "i2c_kept s s' \<longleftrightarrow> i2c_token s' = i2c_token s \<and> i2c_created s' = i2c_created s"

lemma i2c_add_some: "fst (snd (i2c_add env c l)) = None \<longleftrightarrow> fst l = None"
  by (auto simp: i2c_add_def split: prod.splits option.splits)


lemma i2c_add_each_some: "fst (i2c_add_each env cs l) = None \<longleftrightarrow> fst l = None"
  by (induction cs arbitrary: l) (simp_all add: i2c_add_some)

lemma i2c_begin_frame:
  "i2c_master_cmd_begin begn l s = (r, bs, s') \<Longrightarrow>
     i2c_token s' = i2c_token s \<and> i2c_created s' = i2c_created s \<and> i2c_links s' = i2c_links s \<and>
     i2c_tasks s' = i2c_tasks s \<and> i2c_axis s' = i2c_axis s \<and> i2c_keys s' = i2c_keys s"
  by (auto simp: i2c_master_cmd_begin_def split: option.splits prod.splits)

lemma i2c_unchecked_frame:
  assumes "i2c_unchecked env begn cmds s = (r, bs, s')"
  shows "i2c_token s' = i2c_token s \<and> i2c_created s' = i2c_created s \<and> i2c_links s' = i2c_links s \<and>
     i2c_tasks s' = i2c_tasks s \<and> i2c_axis s' = i2c_axis s \<and> i2c_keys s' = i2c_keys s"
proof -
  let ?l = "i2c_cmd_link_create env"
  obtain s1 where b: "i2c_master_cmd_begin begn (i2c_add_each env cmds ?l) (i2c_open ?l s) = (r, bs, s1)"
    "s' = i2c_cmd_link_delete (i2c_add_each env cmds ?l) s1"
    using assms by (auto simp: i2c_unchecked_def Let_def split: prod.splits)
  from i2c_begin_frame [OF b(1)] b(2) i2c_add_each_some [of env cmds ?l] show ?thesis
    by (auto simp: i2c_open_def i2c_cmd_link_delete_def)
qed





lemma tmc_want_axis_frame:
  "i2c_kept s (tmc_want_axis env begn a s) \<and> i2c_links (tmc_want_axis env begn a s) = i2c_links s \<and>
   i2c_tasks (tmc_want_axis env begn a s) = i2c_tasks s \<and> i2c_axis (tmc_want_axis env begn a s) = a"
proof (cases "a = i2c_axis s")
  case False
  show ?thesis
  proof (cases "i2c_take s")
    case (Pair t s1)
    show ?thesis
    proof (cases t)
      case True
      then have t: "i2c_token s" "s1 = s\<lparr>i2c_token := False\<rparr>" using i2c_take_ok [of s s1] Pair by simp_all
      obtain r bs s2 where u: "i2c_unchecked env begn (select_frame a) s1 = (r, bs, s2)"
        by (cases "i2c_unchecked env begn (select_frame a) s1")
      from i2c_unchecked_frame [OF u] t False Pair True u show ?thesis
        by (simp add: tmc_want_axis_def tmc_set_axis_def i2c_kept_def i2c_give_def)
    next
      case f: False
      with i2c_take_fails [of s s1] Pair False show ?thesis
        by (simp add: tmc_want_axis_def tmc_set_axis_def i2c_kept_def)
    qed
  qed
qed (simp add: tmc_want_axis_def i2c_kept_def)

lemma i2c_access_frame:
  \<comment> \<open>an access that takes the token, runs its commands and gives the token back\<close>
  assumes "i2c_take s = (True, s1)" "i2c_unchecked env begn cmds s1 = (r, bs, s2)"
  shows "i2c_kept s (i2c_give s2) \<and> i2c_links (i2c_give s2) = i2c_links s \<and> i2c_tasks (i2c_give s2) = i2c_tasks s"
  using i2c_unchecked_frame [OF assms(2)] i2c_take_ok [OF assms(1)] by (simp add: i2c_kept_def i2c_give_def)

lemma i2c_kept_trans: "i2c_kept s t \<Longrightarrow> i2c_kept t u \<Longrightarrow> i2c_kept s u"
  by (simp add: i2c_kept_def)


lemma tmc_i2c_write_frame:
  "i2c_kept s (snd (snd (tmc_i2c_write env1 env2 begn a reg s))) \<and>
   i2c_links (snd (snd (tmc_i2c_write env1 env2 begn a reg s))) = i2c_links s \<and>
   i2c_tasks (snd (snd (tmc_i2c_write env1 env2 begn a reg s))) = i2c_tasks s"
proof -
  let ?w = "tmc_want_axis env1 begn a s"
  obtain t s1 where t: "i2c_take ?w = (t, s1)" by (cases "i2c_take ?w")
  obtain ret bs s2 where u: "i2c_unchecked env2 begn (write_frame reg) s1 = (ret, bs, s2)"
    by (cases "i2c_unchecked env2 begn (write_frame reg) s1")
  have e: "snd (snd (tmc_i2c_write env1 env2 begn a reg s)) = (if t then i2c_give s2 else s1)"
    using t u by (cases t) (simp_all add: tmc_i2c_write_def Let_def)
  show ?thesis unfolding e
    using tmc_want_axis_frame [of s env1 begn a] t u i2c_access_frame [OF _ u] i2c_take_fails [of ?w s1]
    by (cases t) (auto intro: i2c_kept_trans)
qed




definition i2c_env_ok :: i2c_env where
  "i2c_env_ok = \<lparr>ie_link = True, ie_build = (\<lambda>_. True)\<rparr>"



lemma i2c_start_failure_leaks:
  assumes "i2c_created s" "i2c_token s" "ie_link env" "\<not> ie_build env 0"
  shows "\<exists>s'. i2c_probe env begn a s = Some (False, [], s') \<and> i2c_links s' = i2c_links s + 1"
  using assms by (simp add: i2c_probe_def i2c_checked_def i2c_take_def i2c_cmd_link_create_def
      i2c_add_def i2c_open_def i2c_give_def)

subsection \<open>A memory chip on the bus\<close>

definition word_at :: "u8 list \<Rightarrow> nat" where
  "word_at wa = foldl (\<lambda>n b. n * 256 + unat b) 0 wa"





definition addr_bytes :: "i2c_transfer_t \<Rightarrow> u8 list" where
  "addr_bytes t =
     (if it_word_addr_bytes t = 2 then [ucast (drop_bit 8 (it_word_addr t)), ucast (it_word_addr t AND 255)]
      else [ucast (it_word_addr t)])"

lemma word_addr_cmds_bytes: "word_addr_cmds t = map (\<lambda>b. Write [b]) (addr_bytes t)"
  by (simp add: word_addr_cmds_def addr_bytes_def)

lemma word_at_two: "word_at [ucast (drop_bit 8 w), ucast (w AND 255)] = unat (w :: u16)"
proof -
  have h: "unat (ucast (drop_bit 8 w) :: u8) = unat w div 256"
  proof -
    have "unat w < 65536" using unsigned_less [of w] by simp
    then have lt: "unat w div 256 < 256" by (simp add: less_mult_imp_div_less)
    have d: "unat (drop_bit 8 w) = unat w div 256" by (simp only: unat_drop_bit_eq) (simp add: drop_bit_eq_div)
    have "unat (ucast (drop_bit 8 w) :: u8) = take_bit 8 (unat (drop_bit 8 w))"
      by (simp only: unsigned_ucast_eq) simp
    then show ?thesis using lt unfolding d by (simp add: take_bit_nat_eq_self)
  qed
  have "(255 :: u16) = Bit_Operations.mask 8" by (simp add: mask_eq_decr_exp)
  then have "w AND 255 = take_bit 8 w" by (simp add: take_bit_eq_mask)
  then have l: "unat (ucast (w AND 255) :: u8) = unat w mod 256"
    by (simp only: unsigned_ucast_eq unsigned_take_bit_eq) (simp add: take_bit_eq_mod)
  show ?thesis by (simp add: word_at_def h l)
qed

lemma word_at_one: "unat (w :: u16) < 256 \<Longrightarrow> word_at [ucast w] = unat w"
  by (simp add: word_at_def unsigned_ucast_eq take_bit_eq_mod)

lemma i2c_add_while_ok:
  "\<forall>k. ie_build env k \<Longrightarrow> i2c_add_while env cs (Some xs, k) = (True, Some (xs @ cs), k + length cs)"
  by (induction cs arbitrary: xs k) (simp_all add: i2c_add_def)


lemma deliver_writes: "deliver (map (\<lambda>b. Write [b]) wa @ cs) bs buf = deliver cs bs buf"
  by (induction wa) simp_all

lemma deliver_no_read: "deliver [Write data, Stop] bs buf = Some buf"
  by simp





lemma i2c_read_none_outside:
  \<comment> \<open>a read of no bytes reads one and stores it in front of the buffer\<close>
  assumes "i2c_created s" "i2c_token s" "ie_link env" "\<forall>k. ie_build env k" "it_count t = 0"
    and "begn (i2c_dev s) (Start # transfer_cmds t True buf) = (ret, [b], d)"
  shows "i2c_transfer env begn t True buf s = None"
proof -
  have cs: "transfer_cmds t True buf = Write [addr_byte (it_address t) False] # map (\<lambda>b. Write [b]) (addr_bytes t) @
      [Start, Write [addr_byte (it_address t) True], Read (- 1) 1 False, Stop]"
    using assms(5) by (simp add: transfer_cmds_def word_addr_cmds_bytes)
  have "deliver (Start # transfer_cmds t True buf) [b] buf = None" unfolding cs by (simp add: deliver_writes)
  with assms i2c_add_while_ok [OF assms(4), of "transfer_cmds t True buf" "[Start]" 1] show ?thesis
    by (simp add: i2c_transfer_def i2c_checked_def i2c_take_def i2c_cmd_link_create_def i2c_add_def i2c_open_def
        Let_def i2c_master_cmd_begin_def)
qed






subsection \<open>The bridge\<close>

definition tmc_bridge :: "'d i2c_begin \<Rightarrow> ('d \<Rightarrow> u8) \<Rightarrow> ('d \<Rightarrow> u8 \<Rightarrow> u8 \<Rightarrow> u32) \<Rightarrow> bool" where
  \<comment> \<open>a bridge that answers: the axis selected and the registers of each axis' driver\<close>
  "tmc_bridge begn cur regs \<longleftrightarrow>
     (\<forall>d a. a < 128 \<longrightarrow> (case begn d (select_frame a) of (ok, bs, d') \<Rightarrow> ok \<and> cur d' = a \<and> regs d' = regs d)) \<and>
     (\<forall>d reg. case begn d (write_frame reg) of (ok, bs, d') \<Rightarrow> ok \<and> cur d' = cur d \<and>
        regs d' = (regs d)(cur d := (regs d (cur d))(clear_write (dg_addr reg) := dg_value reg))) \<and>
     (\<forall>d r. case begn d (read_frame r) of (ok, bs, d') \<Rightarrow> ok \<and> cur d' = cur d \<and> regs d' = regs d \<and>
        (\<exists>st. bs = st # value_bytes (regs d (cur d) r)))"

lemma bridge_select:
  assumes "tmc_bridge begn cur regs" "a < 128" "begn d (select_frame a) = (ok, bs, d')"
  shows "ok" "cur d' = a" "regs d' = regs d"
  using assms(1) [unfolded tmc_bridge_def, THEN conjunct1, rule_format, OF assms(2), of d] assms(3) by simp_all

lemma bridge_write:
  assumes "tmc_bridge begn cur regs" "begn d (write_frame reg) = (ok, bs, d')"
  shows "ok" "cur d' = cur d"
    "regs d' = (regs d)(cur d := (regs d (cur d))(clear_write (dg_addr reg) := dg_value reg))"
  using assms(1) [unfolded tmc_bridge_def, THEN conjunct2, THEN conjunct1, rule_format, of d reg] assms(2) by simp_all

lemma bridge_read:
  assumes "tmc_bridge begn cur regs" "begn d (read_frame r) = (ok, bs, d')"
  shows "ok" "cur d' = cur d" "regs d' = regs d" "\<exists>st. bs = st # value_bytes (regs d (cur d) r)"
  using assms(1) [unfolded tmc_bridge_def, THEN conjunct2, THEN conjunct2, rule_format, of d r] assms(2) by simp_all

definition axis_known :: "('d \<Rightarrow> u8) \<Rightarrow> 'd i2c \<Rightarrow> bool" where
  "axis_known cur s \<longleftrightarrow> i2c_axis s = 255 \<or> cur (i2c_dev s) = i2c_axis s"

lemma i2c_add_each_ok:
  "\<forall>k. ie_build env k \<Longrightarrow> i2c_add_each env cs (Some xs, k) = (Some (xs @ cs), k + length cs)"
  by (induction cs arbitrary: xs k) (simp_all add: i2c_add_def)

lemma i2c_built_ok: "\<forall>k. ie_build env k \<Longrightarrow> ie_link env \<Longrightarrow> i2c_built env cmds = cmds"
  by (simp add: i2c_built_def i2c_cmd_link_create_def i2c_add_each_ok)

lemma i2c_unchecked_ok:
  assumes "\<forall>k. ie_build env k" "ie_link env" "begn (i2c_dev s) cs = (ret, bs, d)"
  shows "\<exists>s1. i2c_unchecked env begn cs s = (ret, bs, s1) \<and> i2c_dev s1 = d \<and> i2c_axis s1 = i2c_axis s \<and>
    i2c_created s1 = i2c_created s \<and> i2c_frames s1 = i2c_frames s @ [cs]"
  using assms i2c_add_each_ok [OF assms(1), of cs "[]" 0]
  by (simp add: i2c_unchecked_def Let_def i2c_cmd_link_create_def i2c_master_cmd_begin_def i2c_open_def
      i2c_cmd_link_delete_def)

lemma tmc_want_axis_ok:
  assumes "tmc_bridge begn cur regs" "i2c_created s" "i2c_token s" "axis_known cur s" "a < 128"
    "ie_link env" "\<forall>k. ie_build env k"
  shows "let s1 = tmc_want_axis env begn a s in i2c_created s1 \<and> i2c_token s1 \<and> i2c_axis s1 = a \<and>
    cur (i2c_dev s1) = a \<and> regs (i2c_dev s1) = regs (i2c_dev s)"
proof (cases "a = i2c_axis s")
  case True
  then have "i2c_axis s \<noteq> 255" using assms(5) by auto
  with True assms(2-4) show ?thesis by (simp add: tmc_want_axis_def axis_known_def)
next
  case False
  obtain ok bs d where b: "begn (i2c_dev (s\<lparr>i2c_token := False\<rparr>)) (select_frame a) = (ok, bs, d)"
    by (cases "begn (i2c_dev (s\<lparr>i2c_token := False\<rparr>)) (select_frame a)")
  from bridge_select [OF assms(1,5) b] have d: "cur d = a" "regs d = regs (i2c_dev s)" by simp_all
  from i2c_unchecked_ok [where begn = begn and env = env, OF assms(7,6) b] obtain s1 where
    u: "i2c_unchecked env begn (select_frame a) (s\<lparr>i2c_token := False\<rparr>) = (ok, bs, s1)" "i2c_dev s1 = d"
      "i2c_created s1 = i2c_created s" by auto
  show ?thesis using False assms(2,3) u d
    by (simp add: tmc_want_axis_def tmc_set_axis_def i2c_take_def i2c_give_def)
qed

text \<open>
  Behind the bridge a register of one axis is written without touching any other register
  of any axis, and reading it returns its value, whatever axis was used before: the axis is
  selected when it changes, and the axis the module remembers is the one the bridge has.
\<close>

theorem tmc_bridge_registers:
  assumes br: "tmc_bridge begn cur regs" and s: "i2c_created s" "i2c_token s" "axis_known cur s" and a: "a < 128"
    and e1: "ie_link env1" "\<forall>k. ie_build env1 k" and e2: "ie_link env2" "\<forall>k. ie_build env2 k"
  shows "(case tmc_i2c_write env1 env2 begn a reg s of (st, reg', s1) \<Rightarrow>
      regs (i2c_dev s1) = (regs (i2c_dev s))(a := (regs (i2c_dev s) a)(clear_write (dg_addr reg) := dg_value reg)) \<and>
      axis_known cur s1) \<and>
    (\<exists>st s1. tmc_i2c_read env1 env2 begn a addr s = Some (st, regs (i2c_dev s) a (clear_write addr), s1) \<and>
      regs (i2c_dev s1) = regs (i2c_dev s) \<and> axis_known cur s1)"
proof -
  let ?w = "tmc_want_axis env1 begn a s"
  from tmc_want_axis_ok [OF br s a e1] have w: "i2c_created ?w" "i2c_token ?w" "i2c_axis ?w = a"
    "cur (i2c_dev ?w) = a" "regs (i2c_dev ?w) = regs (i2c_dev s)" by (simp_all add: Let_def)
  let ?t = "?w\<lparr>i2c_token := False\<rparr>"
  have take: "i2c_take ?w = (True, ?t)" using w by (simp add: i2c_take_def)
  obtain ok bs d where b: "begn (i2c_dev ?t) (write_frame reg) = (ok, bs, d)"
    by (cases "begn (i2c_dev ?t) (write_frame reg)")
  from i2c_unchecked_ok [where begn = begn and env = env2, OF e2(2,1) b] obtain s1 where
    u: "i2c_unchecked env2 begn (write_frame reg) ?t = (ok, bs, s1)" "i2c_dev s1 = d" "i2c_axis s1 = a"
    using w by auto
  have wr: "tmc_i2c_write env1 env2 begn a reg s = (0, reg\<lparr>dg_addr := clear_write (dg_addr reg)\<rparr>, i2c_give s1)"
    using take u by (simp add: tmc_i2c_write_def)
  obtain ok' bs' d' where b': "begn (i2c_dev ?t) (read_frame (clear_write addr)) = (ok', bs', d')"
    by (cases "begn (i2c_dev ?t) (read_frame (clear_write addr))")
  from i2c_unchecked_ok [where begn = begn and env = env2, OF e2(2,1) b'] obtain s2 where
    u': "i2c_unchecked env2 begn (read_frame (clear_write addr)) ?t = (ok', bs', s2)" "i2c_dev s2 = d'" "i2c_axis s2 = a"
    using w by auto
  from bridge_read [OF br b'] w obtain st where
    bs': "bs' = st # value_bytes (regs (i2c_dev s) a (clear_write addr))" by auto
  have dl: "deliver (i2c_built env2 (read_frame (clear_write addr))) bs' [clear_write addr, 0, 0, 0, 0] =
      Some (st # value_bytes (regs (i2c_dev s) a (clear_write addr)))"
    by (simp add: i2c_built_ok [OF e2(2,1)] bs' read_frame_def value_bytes_def Let_def)
  have rd: "tmc_i2c_read env1 env2 begn a addr s = Some (st, regs (i2c_dev s) a (clear_write addr), i2c_give s2)"
    using take u' dl by (simp add: tmc_i2c_read_def Let_def) (simp add: value_bytes_def from_value_bytes [unfolded One_nat_def])
  show ?thesis unfolding wr rd using bridge_write [OF br b] bridge_read [OF br b'] u u' w
    by (simp add: i2c_give_def axis_known_def)
qed

fun bridge_chip :: "(u8 \<times> (u8 \<Rightarrow> u8 \<Rightarrow> u32)) i2c_begin" where
  "bridge_chip (c, r) [Start, Write [x], Write [y], Stop] = (True, [], (y AND 127, r))"
| "bridge_chip (c, r) [Start, Write [x], Write [y, v3, v2, v1, v0], Stop] =
     (True, [], (c, r(c := (r c)(y AND 127 := from_bytes v3 v2 v1 v0))))"
| "bridge_chip (c, r) (Start # Write [x] # Write [y] # Start # cs) = (True, 0 # value_bytes (r c y), (c, r))"
| "bridge_chip d cs = (False, [], d)"

lemma low_bits: "(a OR 128) AND 127 = (a AND 127 :: u8)"
  by (rule clear_set_write [unfolded clear_write_def set_write_def])

lemma low_bits_id: "a < 128 \<Longrightarrow> a AND 127 = (a :: u8)"
proof -
  assume a: "a < 128"
  have "(127 :: u8) = Bit_Operations.mask 7" by (simp add: mask_eq_decr_exp)
  then have "a AND 127 = take_bit 7 a" by (simp add: take_bit_eq_mask)
  moreover have "unat (take_bit 7 a) = unat a"
    using a by (simp only: unsigned_take_bit_eq) (simp add: take_bit_nat_eq_self word_less_nat_alt)
  ultimately show "a AND 127 = a" by (simp add: word_unat_eq_iff)
qed

lemma bridge_chip_ok: "tmc_bridge bridge_chip fst snd"
  by (auto simp: tmc_bridge_def select_frame_def write_frame_def read_frame_def value_bytes_def
      low_bits low_bits_id set_write_def clear_write_def from_value_bytes [unfolded One_nat_def])

theorem tmc_bridge_registers_witness:
  "\<exists>st s2. tmc_i2c_read i2c_env_ok i2c_env_ok bridge_chip 2 108
      (snd (snd (tmc_i2c_write i2c_env_ok i2c_env_ok bridge_chip 2 \<lparr>dg_addr = 108, dg_value = 65537\<rparr>
         (i2c_start (i2c_init (0, \<lambda>_ _. 0)))))) = Some (st, 65537, s2)"
proof -
  let ?s = "i2c_start (i2c_init (0 :: u8, (\<lambda>_ _. 0) :: u8 \<Rightarrow> u8 \<Rightarrow> u32))"
  have 0: "ie_link i2c_env_ok" "\<forall>k. ie_build i2c_env_ok k" by (simp_all add: i2c_env_ok_def)
  have 1: "i2c_created ?s" "i2c_token ?s" "axis_known fst ?s" "(2 :: u8) < 128"
    by (simp_all add: i2c_start_def i2c_init_def axis_known_def)
  obtain st reg' s1 where w: "tmc_i2c_write i2c_env_ok i2c_env_ok bridge_chip 2 \<lparr>dg_addr = 108, dg_value = 65537\<rparr> ?s = (st, reg', s1)"
    by (cases "tmc_i2c_write i2c_env_ok i2c_env_ok bridge_chip 2 \<lparr>dg_addr = 108, dg_value = 65537\<rparr> ?s")
  from tmc_bridge_registers [OF bridge_chip_ok 1 0 0, of "\<lparr>dg_addr = 108, dg_value = 65537\<rparr>" 108] w
  have k: "snd (i2c_dev s1) 2 108 = 65537" "axis_known fst s1" by (simp_all add: clear_write_def)
  have 2: "i2c_created s1" "i2c_token s1"
    using tmc_i2c_write_frame [of ?s i2c_env_ok i2c_env_ok bridge_chip 2 "\<lparr>dg_addr = 108, dg_value = 65537\<rparr>"] 1 w
    by (simp_all add: i2c_kept_def)
  from tmc_bridge_registers [OF bridge_chip_ok 2 k(2) 1(4) 0 0, of undefined 108, THEN conjunct2] k(1)
  have "\<exists>st s2. tmc_i2c_read i2c_env_ok i2c_env_ok bridge_chip 2 108 s1 = Some (st, 65537, s2)"
    by (simp add: clear_write_def) blast
  then show ?thesis by (simp add: w)
qed

text \<open>
  An access that finds the bus taken still remembers its axis as selected: no later access to
  that axis selects it, and its write goes to the register of the axis selected before.
\<close>

lemma tmc_axis_stale:
  assumes "\<not> i2c_token s" "i2c_axis s \<noteq> a" "tmc_i2c_write env1 env2 begn a reg s = (st, reg', s1)"
    "tmc_bridge begn cur regs" "ie_link env2'" "\<forall>k. ie_build env2' k" "i2c_created s"
  shows "i2c_frames s1 = i2c_frames s \<and> i2c_axis s1 = a \<and>
    (let s2 = snd (snd (tmc_i2c_write env1' env2' begn a reg2 (s1\<lparr>i2c_token := True\<rparr>))) in
       i2c_frames s2 = i2c_frames s @ [write_frame reg2] \<and>
       regs (i2c_dev s2) = (regs (i2c_dev s))(cur (i2c_dev s) :=
         (regs (i2c_dev s) (cur (i2c_dev s)))(clear_write (dg_addr reg2) := dg_value reg2)))"
proof -
  have s1: "s1 = s\<lparr>i2c_axis := a\<rparr>"
    using assms(1-3) by (simp add: tmc_i2c_write_def tmc_want_axis_def tmc_set_axis_def i2c_take_def)
  let ?t = "s\<lparr>i2c_axis := a, i2c_token := False\<rparr>"
  obtain ok bs d where b: "begn (i2c_dev ?t) (write_frame reg2) = (ok, bs, d)"
    by (cases "begn (i2c_dev ?t) (write_frame reg2)")
  from i2c_unchecked_ok [where begn = begn and env = env2', OF assms(6,5) b] obtain s3 where
    u: "i2c_unchecked env2' begn (write_frame reg2) ?t = (ok, bs, s3)" "i2c_dev s3 = d"
      "i2c_frames s3 = i2c_frames s @ [write_frame reg2]" by auto
  have "snd (snd (tmc_i2c_write env1' env2' begn a reg2 (s1\<lparr>i2c_token := True\<rparr>))) = i2c_give s3"
    using u(1) assms(7) by (simp add: tmc_i2c_write_def tmc_want_axis_def i2c_take_def s1)
  with bridge_write [OF assms(4) b] u s1 show ?thesis by (simp add: Let_def i2c_give_def)
qed

end
