(* ===== verification/BluetoothLe.thy ===== *)
theory BluetoothLe
  imports Bluetooth
begin

text \<open>
  The Bluetooth low energy port, \<open>main/bluetooth_le.c\<close>, which its source calls work in progress:
  the stream functions, the prepared writes in their linked list on a heap, the callback of the
  GATT server and the start.  The list is modelled with its two global pointers; reading a node
  that does not exist, writing behind a buffer and using a queue that was not created are error
  values.  \<open>pollTX\<close> is modelled as far as it runs: what follows its first \<open>continue\<close> cannot be
  reached.
\<close>

datatype le_fault = Le_dangling | Le_null_buffer | Le_overrun | Le_null_queue

subsection \<open>Prepared writes\<close>

record wr_node =
  wn_len :: nat
  wn_buff :: "u8 list"
  wn_next :: "nat option"

type_synonym wr_heap = "nat \<Rightarrow> wr_node option"

record wr_state =
  wb_heap :: wr_heap
  wb_p1 :: "nat option"
  wb_p2 :: "nat option"
  wb_num :: int
  wb_size :: int
  wb_first :: "nat option"

definition wr_empty :: wr_state where
  "wr_empty = \<lparr>wb_heap = (\<lambda>a. None), wb_p1 = None, wb_p2 = None, wb_num = 0, wb_size = 0, wb_first = None\<rparr>"

definition wr_fresh :: wr_node where
  \<comment> \<open>the contents of a new node do not matter: all fields are written\<close>
  "wr_fresh = \<lparr>wn_len = 0, wn_buff = [], wn_next = None\<rparr>"

definition set_next :: "nat \<Rightarrow> nat option \<Rightarrow> wr_state \<Rightarrow> le_fault + wr_state" where
  "set_next q x s =
     (case wb_heap s q of
        None \<Rightarrow> Inl Le_dangling
      | Some n \<Rightarrow> Inr (s\<lparr>wb_heap := (wb_heap s)(q \<mapsto> n\<lparr>wn_next := x\<rparr>)\<rparr>))"

definition wr_link :: "nat \<Rightarrow> u8 list \<Rightarrow> wr_state \<Rightarrow> wr_state" where
  \<comment> \<open>the node is filled, becomes the last, and the first if there is none\<close>
  "wr_link a v s =
     s\<lparr>wb_heap := (wb_heap s)(a \<mapsto> \<lparr>wn_len = length v, wn_buff = v, wn_next = None\<rparr>),
       wb_size := wb_size s + int (length v), wb_p2 := Some a,
       wb_first := (if wb_num s = 0 then Some a else wb_first s), wb_num := wb_num s + 1\<rparr>"

definition store_wr_buffer :: "(wr_heap \<Rightarrow> nat option) \<Rightarrow> (u8 list \<Rightarrow> bool) \<Rightarrow> u8 list \<Rightarrow> wr_state \<Rightarrow>
    le_fault + (bool \<times> wr_state)" where
  \<comment> \<open>\<open>malloc\<close> of the node, and whether the one of its buffer succeeds\<close>
  "store_wr_buffer alloc mem v s =
     (case alloc (wb_heap s) of
        None \<Rightarrow> Inr (False, s\<lparr>wb_p1 := None\<rparr>)
      | Some a \<Rightarrow>
          let s = s\<lparr>wb_p1 := Some a, wb_heap := (wb_heap s)(a \<mapsto> wr_fresh)\<rparr> in
          (case (case wb_p2 s of None \<Rightarrow> Inr s | Some q \<Rightarrow> set_next q (Some a) s) of
             Inl e \<Rightarrow> Inl e
           | Inr s \<Rightarrow> if \<not> mem v \<and> v \<noteq> [] then Inl Le_null_buffer else Inr (True, wr_link a v s)))"

partial_function (option) free_loop :: "wr_state \<Rightarrow> (le_fault + wr_state) option" where
  "free_loop s =
     (case wb_p1 s of
        None \<Rightarrow> Some (Inr s)
      | Some a \<Rightarrow>
          (case wb_heap s a of
             None \<Rightarrow> Some (Inl Le_dangling)
           | Some n \<Rightarrow>
               free_loop (s\<lparr>wb_p2 := wn_next n, wb_heap := (wb_heap s)(a := None), wb_p1 := wn_next n\<rparr>)))"

definition free_write_buffer :: "wr_state \<Rightarrow> (le_fault + wr_state) option" where
  "free_write_buffer s =
     (case free_loop (s\<lparr>wb_p1 := wb_first s\<rparr>) of
        None \<Rightarrow> None
      | Some (Inl e) \<Rightarrow> Some (Inl e)
      | Some (Inr t) \<Rightarrow> Some (Inr (t\<lparr>wb_num := 0, wb_size := 0, wb_first := None\<rparr>)))"

partial_function (option) print_loop :: "wr_state \<Rightarrow> (le_fault + wr_state) option" where
  "print_loop s =
     (case wb_p1 s of
        None \<Rightarrow> Some (Inr s)
      | Some a \<Rightarrow>
          (case wb_heap s a of
             None \<Rightarrow> Some (Inl Le_dangling)
           | Some n \<Rightarrow> print_loop (s\<lparr>wb_p1 := wn_next n\<rparr>)))"

definition print_write_buffer :: "wr_state \<Rightarrow> (le_fault + wr_state) option" where
  "print_write_buffer s = print_loop (s\<lparr>wb_p1 := wb_first s\<rparr>)"

definition exec_write :: "bool \<Rightarrow> wr_state \<Rightarrow> (le_fault + wr_state) option" where
  \<comment> \<open>\<open>ESP_GATTS_EXEC_WRITE_EVT\<close>; the flag is off when the client cancels\<close>
  "exec_write flag s =
     (if flag
      then (case print_write_buffer s of
              Some (Inr t) \<Rightarrow> free_write_buffer t
            | r \<Rightarrow> r)
      else Some (Inr s))"

subsection \<open>The list on the heap\<close>

fun path :: "wr_heap \<Rightarrow> nat option \<Rightarrow> nat list \<Rightarrow> bool" where
  "path h p [] = (p = None)"
| "path h p (a # as) = (p = Some a \<and> (case h a of None \<Rightarrow> False | Some n \<Rightarrow> path h (wn_next n) as))"

definition node_buff :: "wr_heap \<Rightarrow> nat \<Rightarrow> u8 list" where
  "node_buff h a = (case h a of None \<Rightarrow> [] | Some n \<Rightarrow> wn_buff n)"



lemma node_buff_other: "a \<notin> set xs \<Longrightarrow> map (node_buff (h(a := x))) xs = map (node_buff h) xs"
  by (auto simp: node_buff_def)

lemma path_dom: "path h p xs \<Longrightarrow> set xs \<subseteq> dom h"
  by (induction xs arbitrary: p) (auto split: option.splits)







subsection \<open>A client that writes long values\<close>

datatype wr_op = Op_prepare "u8 list" | Op_execute bool

fun wr_run :: "(wr_heap \<Rightarrow> nat option) \<Rightarrow> (u8 list \<Rightarrow> bool) \<Rightarrow> wr_op list \<Rightarrow> wr_state \<Rightarrow> (le_fault + wr_state) option" where
  "wr_run alloc mem [] s = Some (Inr s)"
| "wr_run alloc mem (Op_prepare v # xs) s =
     (case store_wr_buffer alloc mem v s of Inl e \<Rightarrow> Some (Inl e) | Inr (r, t) \<Rightarrow> wr_run alloc mem xs t)"
| "wr_run alloc mem (Op_execute f # xs) s =
     (case exec_write f s of Some (Inr t) \<Rightarrow> wr_run alloc mem xs t | r \<Rightarrow> r)"




definition alloc_least :: "wr_heap \<Rightarrow> nat option" where
  \<comment> \<open>an allocator: one above the highest node\<close>
  "alloc_least h = (if finite (dom h) then Some (if dom h = {} then 0 else Suc (Max (dom h))) else None)"



lemma wr_cancel_keeps: "wr_run alloc mem (Op_execute False # xs) s = wr_run alloc mem xs s"
  by (simp add: exec_write_def)

subsection \<open>The port\<close>

datatype le_call = Le_set_name | Le_adv_data | Le_create_table u8 | Le_start_service u16 | Le_start_advertising
  | Le_stream_disconnect

record 'b ble =
  le_rx :: "'b rx_buffer"
  le_txb :: bt_tx_buffer
  le_queue :: "u8 list list"
  le_mallocs :: nat
  le_connection :: u16
  le_is_up :: bool
  le_client_mac :: "u8 list"
  le_dtr :: bool
  le_stream :: bool
  le_claimed :: bool
  le_mtu :: u16
  le_conn_id :: u16
  le_gatts_if :: u8
  le_profile_if :: u8
  le_data_ntf :: bool
  le_handles :: "u16 list"
  le_cmd_queue :: bool            \<comment> \<open>\<open>cmd_cmd_queue\<close> exists\<close>
  le_writes :: wr_state
  le_suspended :: bool
  le_calls :: "le_call list"

definition SPP_IDX_SPP_DATA_RECV_VAL :: nat where "SPP_IDX_SPP_DATA_RECV_VAL = 2"
definition SPP_IDX_SPP_DATA_NTF_CFG :: nat where "SPP_IDX_SPP_DATA_NTF_CFG = 5"
definition SPP_IDX_SPP_COMMAND_VAL :: nat where "SPP_IDX_SPP_COMMAND_VAL = 7"
definition SPP_IDX_NB :: nat where "SPP_IDX_NB = 11"

definition ble_init :: "'b rx_buffer \<Rightarrow> 'b ble" where
  "ble_init rb = \<lparr>le_rx = rb, le_txb = \<lparr>txb_head = 0, txb_data = replicate BT_TX_BUFFER_SIZE 0\<rparr>, le_queue = [],
     le_mallocs = 0, le_connection = 0xFFFF, le_is_up = False, le_client_mac = replicate 18 0, le_dtr = False,
     le_stream = False, le_claimed = False, le_mtu = 23, le_conn_id = 0xFFFF, le_gatts_if = 0xFF,
     le_profile_if = 0xFF, le_data_ntf = False, le_handles = replicate SPP_IDX_NB 0, le_cmd_queue = False,
     le_writes = wr_empty, le_suspended = True, le_calls = []\<rparr>"

definition le_called :: "le_call \<Rightarrow> 'b ble \<Rightarrow> 'b ble" where
  "le_called c s = s\<lparr>le_calls := le_calls s @ [c]\<rparr>"

definition BTStreamAvailable :: "(nat \<Rightarrow> nat \<Rightarrow> nat \<Rightarrow> nat) \<Rightarrow> nat \<Rightarrow> 'b ble \<Rightarrow> u16" where
  "BTStreamAvailable bufcount N s = ring_available bufcount N (le_rx s)"

definition BTStreamRXFree :: "(nat \<Rightarrow> nat \<Rightarrow> nat \<Rightarrow> nat) \<Rightarrow> nat \<Rightarrow> 'b ble \<Rightarrow> u16" where
  "BTStreamRXFree bufcount N s = ring_rx_free bufcount N (le_rx s)"

definition BTStreamGetC :: "nat \<Rightarrow> 'b ble \<Rightarrow> int \<times> 'b ble" where
  "BTStreamGetC N s = (case ring_read N (le_rx s) of (v, rb) \<Rightarrow> (v, s\<lparr>le_rx := rb\<rparr>))"

definition BTStreamFlush :: "'b ble \<Rightarrow> 'b ble" where
  "BTStreamFlush s = s\<lparr>le_rx := ring_resync (le_rx s)\<rparr>"

definition BTStreamCancel :: "nat \<Rightarrow> 'b ble \<Rightarrow> 'b ble" where
  "BTStreamCancel N s = s\<lparr>le_rx := ring_cancel N 24 (le_rx s)\<rparr>"

definition le_enqueue_tx_chunk :: "(nat \<Rightarrow> bool) \<Rightarrow> u16 \<Rightarrow> u8 list \<Rightarrow> 'b ble \<Rightarrow> (bool \<times> 'b ble) option" where
  \<comment> \<open>None: it waits for room in the queue\<close>
  "le_enqueue_tx_chunk mem len data s =
     (let s1 = s\<lparr>le_mallocs := Suc (le_mallocs s)\<rparr> in
      if mem (le_mallocs s) then
        if length (le_queue s) < BT_TX_QUEUE_ENTRIES
        then Some (True, s1\<lparr>le_queue := le_queue s @ [take (unat len) data]\<rparr>)
        else None
      else Some (False, s1))"

definition le_store :: "u8 \<Rightarrow> 'b ble \<Rightarrow> 'b ble" where
  "le_store c s =
     (if unat (txb_head (le_txb s)) < BT_TX_BUFFER_SIZE
      then s\<lparr>le_txb := (le_txb s)\<lparr>txb_data := (txb_data (le_txb s))[unat (txb_head (le_txb s)) := c],
                               txb_head := txb_head (le_txb s) + 1\<rparr>\<rparr>
      else s)"

definition BTStreamPutC :: "(nat \<Rightarrow> bool) \<Rightarrow> u8 \<Rightarrow> 'b ble \<Rightarrow> (bool \<times> 'b ble) option" where
  "BTStreamPutC mem c s =
     (let s = le_store c s in
      if c = 10
      then (case le_enqueue_tx_chunk mem (txb_head (le_txb s)) (txb_data (le_txb s)) s of
              None \<Rightarrow> None
            | Some (_, t) \<Rightarrow> Some (True, t\<lparr>le_txb := (le_txb t)\<lparr>txb_head := 0\<rparr>\<rparr>))
      else Some (True, s))"

fun le_put_all :: "(nat \<Rightarrow> bool) \<Rightarrow> u8 list \<Rightarrow> 'b ble \<Rightarrow> 'b ble option" where
  "le_put_all mem [] s = Some s"
| "le_put_all mem (c # cs) s = (case BTStreamPutC mem c s of None \<Rightarrow> None | Some (_, t) \<Rightarrow> le_put_all mem cs t)"

definition BTStreamWriteS :: "(nat \<Rightarrow> bool) \<Rightarrow> u8 list \<Rightarrow> 'b ble \<Rightarrow> 'b ble option" where
  \<comment> \<open>the argument is the string's bytes up to and with its terminator\<close>
  "BTStreamWriteS mem str s = le_put_all mem (takeWhile (\<lambda>c. c \<noteq> 0) str) s"

definition le_flush_tx_queue :: "'b ble \<Rightarrow> 'b ble" where
  "le_flush_tx_queue s = (if le_queue s \<noteq> [] then s\<lparr>le_queue := []\<rparr> else s)"

definition btStreamOpen :: "u32 \<Rightarrow> 'b ble \<Rightarrow> bool \<times> 'b ble" where
  "btStreamOpen baud_rate s =
     (if le_claimed s then (False, s)
      else (True, s\<lparr>le_claimed := (baud_rate \<noteq> 0 \<or> le_claimed s), le_stream := True\<rparr>))"

definition le_is_connected :: "'b ble \<Rightarrow> bool" where
  "le_is_connected s = le_dtr s"

definition le_pollTX :: "'b ble \<Rightarrow> 'b ble" where
  \<comment> \<open>one turn of the loop: with a connection it only goes around again\<close>
  "le_pollTX s = (if le_connection s \<noteq> 0xFFFF then s else s\<lparr>le_suspended := True\<rparr>)"

subsection \<open>The callback of the GATT server\<close>

datatype le_gap_event = ADV_DATA_RAW_SET_COMPLETE | ADV_START_COMPLETE bool | GAP_OTHER

definition gap_event_handler :: "le_gap_event \<Rightarrow> 'b ble \<Rightarrow> 'b ble" where
  "gap_event_handler ev s = (case ev of ADV_DATA_RAW_SET_COMPLETE \<Rightarrow> le_called Le_start_advertising s | _ \<Rightarrow> s)"

fun find_index :: "u16 \<Rightarrow> nat \<Rightarrow> u16 list \<Rightarrow> nat" where
  "find_index h i [] = 0xFF"
| "find_index h i (x # xs) = (if h = x then i else find_index h (i + 1) xs)"

definition find_char_and_desr_index :: "u16 \<Rightarrow> 'b ble \<Rightarrow> nat" where
  "find_char_and_desr_index h s = find_index h 0 (le_handles s)"

datatype le_event =
    GATTS_REG bool
  | GATTS_READ u16
  | GATTS_WRITE bool u16 "u8 list"
  | GATTS_EXEC_WRITE bool
  | GATTS_MTU u16
  | GATTS_CONNECT u16
  | GATTS_DISCONNECT
  | GATTS_CREAT_ATTR_TAB bool "u16 list"
  | GATTS_OTHER

record le_env =
  lee_alloc :: "wr_heap \<Rightarrow> nat option"
  lee_mem :: "u8 list \<Rightarrow> bool"
  lee_cmd_mem :: bool

definition le_write :: "le_env \<Rightarrow> nat \<Rightarrow> u8 list \<Rightarrow> 'b ble \<Rightarrow> le_fault + 'b ble" where
  \<comment> \<open>a write that is not prepared; \<open>res\<close> is the index of the attribute\<close>
  "le_write env res v s =
     (if res = SPP_IDX_SPP_COMMAND_VAL then
        (if \<not> lee_cmd_mem env then Inr s
         else if length v > unat (le_mtu s) - 3 then Inl Le_overrun
         else if \<not> le_cmd_queue s then Inl Le_null_queue
         else Inr s)
      else if res = SPP_IDX_SPP_DATA_NTF_CFG then
        Inr (if v = [1, 0] then s\<lparr>le_data_ntf := True\<rparr>
             else if v = [0, 0] then s\<lparr>le_data_ntf := False\<rparr> else s)
      else Inr s)"

definition le_prep_write :: "le_env \<Rightarrow> nat \<Rightarrow> u8 list \<Rightarrow> 'b ble \<Rightarrow> le_fault + 'b ble" where
  "le_prep_write env res v s =
     (if res = SPP_IDX_SPP_DATA_RECV_VAL
      then (case store_wr_buffer (lee_alloc env) (lee_mem env) v (le_writes s) of
              Inl e \<Rightarrow> Inl e
            | Inr (_, w) \<Rightarrow> Inr (s\<lparr>le_writes := w\<rparr>))
      else Inr s)"

definition le_connect :: "u8 \<Rightarrow> u16 \<Rightarrow> 'b ble \<Rightarrow> 'b ble" where
  "le_connect i conn s =
     (let s = s\<lparr>le_conn_id := conn, le_gatts_if := i\<rparr>;
          s = (if le_suspended s then s\<lparr>le_suspended := False\<rparr> else s)
      in s\<lparr>le_dtr := True\<rparr>)"

definition le_disconnect :: "'b ble \<Rightarrow> 'b ble" where
  "le_disconnect s =
     (let s = le_flush_tx_queue (s\<lparr>le_connection := 0xFFFF, le_client_mac := (le_client_mac s)[0 := 0]\<rparr>);
          s = s\<lparr>le_dtr := False\<rparr>;
          s = (if le_stream s then le_called Le_stream_disconnect s else s)
      in le_called Le_start_advertising (s\<lparr>le_stream := False, le_data_ntf := False\<rparr>))"

definition le_attr_table :: "bool \<Rightarrow> u16 list \<Rightarrow> 'b ble \<Rightarrow> 'b ble" where
  "le_attr_table ok handles s =
     (if \<not> ok \<or> length handles \<noteq> SPP_IDX_NB then s
      else le_called (Le_start_service (handles ! 0)) (s\<lparr>le_handles := handles\<rparr>))"

definition gatts_profile_event_handler :: "le_env \<Rightarrow> u8 \<Rightarrow> le_event \<Rightarrow> 'b ble \<Rightarrow> (le_fault + 'b ble) option" where
  \<comment> \<open>None: the list of prepared writes has no end\<close>
  "gatts_profile_event_handler env i ev s =
     (case ev of
        GATTS_REG ok \<Rightarrow> Some (Inr (le_called (Le_create_table i) (le_called Le_adv_data (le_called Le_set_name s))))
      | GATTS_READ h \<Rightarrow> Some (Inr s)
      | GATTS_WRITE is_prep h v \<Rightarrow>
          Some (let res = find_char_and_desr_index h s in
                if \<not> is_prep then le_write env res v s else le_prep_write env res v s)
      | GATTS_EXEC_WRITE flag \<Rightarrow>
          (case exec_write flag (le_writes s) of
             None \<Rightarrow> None
           | Some (Inl e) \<Rightarrow> Some (Inl e)
           | Some (Inr w) \<Rightarrow> Some (Inr (s\<lparr>le_writes := w\<rparr>)))
      | GATTS_MTU m \<Rightarrow> Some (Inr (s\<lparr>le_mtu := m\<rparr>))
      | GATTS_CONNECT conn \<Rightarrow> Some (Inr (le_connect i conn s))
      | GATTS_DISCONNECT \<Rightarrow> Some (Inr (le_disconnect s))
      | GATTS_CREAT_ATTR_TAB ok handles \<Rightarrow> Some (Inr (le_attr_table ok handles s))
      | GATTS_OTHER \<Rightarrow> Some (Inr s))"

definition gatts_event_handler :: "le_env \<Rightarrow> u8 \<Rightarrow> le_event \<Rightarrow> 'b ble \<Rightarrow> (le_fault + 'b ble) option" where
  \<comment> \<open>one profile; \<open>ESP_GATT_IF_NONE\<close> is for every profile\<close>
  "gatts_event_handler env i ev s =
     (if ev = GATTS_REG False then Some (Inr s)
      else let s = (if ev = GATTS_REG True then s\<lparr>le_profile_if := i\<rparr> else s)
           in if i = 0xFF \<or> i = le_profile_if s then gatts_profile_event_handler env i ev s else Some (Inr s))"

subsection \<open>Start and settings\<close>

text \<open>
  The resources are those of \<open>Bluetooth\<close>, created once and kept.  The last calls into the stack
  are the two registrations of the callback, the one of GAP and the one of the application; the
  result of the first registration is not looked at.
\<close>

definition le_stack_up :: "bt_start_env \<Rightarrow> bt_start \<Rightarrow> bool \<times> bt_start" where
  "le_stack_up env r =
     (if bse_mem_release env then
        (if (\<forall>i \<in> set [0, 1, 2, 3, 5, 6, 7]. bse_calls env ! i)
         then (True, r\<lparr>bts_registered := True, bts_is_up := True\<rparr>)
         else (False, r))
      else (bts_is_up r, r))"

definition le_start_local :: "bt_start_env \<Rightarrow> 'b ble \<Rightarrow> bt_start \<Rightarrow> bool \<times> 'b ble \<times> bt_start" where
  "le_start_local env s r =
     (let s = s\<lparr>le_client_mac := (le_client_mac s)[0 := 0]\<rparr> in
      if bse_name_empty env \<or> \<not> (bts_event_group r \<or> bse_event_group env) then (False, s, r)
      else
        let r = r\<lparr>bts_event_group := True\<rparr> in
        if \<not> (bts_tx_queue r \<or> bse_tx_queue env) then (False, s, r)
        else
          let r = r\<lparr>bts_tx_queue := True\<rparr> in
          if \<not> (bts_tx_busy r \<or> bse_tx_busy env) then (False, s, r)
          else
            let r = r\<lparr>bts_tx_busy := True\<rparr> in
            if \<not> bts_task r \<and> \<not> bse_task env then (False, s, r)
            else
              let s = (if bts_task r then s else s\<lparr>le_suspended := True\<rparr>);
                  (ok, r) = le_stack_up env (r\<lparr>bts_task := True\<rparr>)
              in (ok, s\<lparr>le_is_up := bts_is_up r\<rparr>, r))"

definition le_disable_local :: "'b ble \<Rightarrow> bool \<times> 'b ble" where
  \<comment> \<open>its body is a comment\<close>
  "le_disable_local s = (True, s)"

record bluetooth_settings =
  btc_device_name :: string
  btc_service_name :: string

type_synonym le_settings_store = "bluetooth_settings \<times> bluetooth_settings option"

definition le_settings_save :: "le_settings_store \<Rightarrow> le_settings_store" where
  "le_settings_save c = (fst c, Some (fst c))"

definition le_settings_restore :: "bluetooth_settings \<Rightarrow> le_settings_store \<Rightarrow> le_settings_store" where
  \<comment> \<open>\<open>BLUETOOTH_DEVICE\<close> and \<open>BLUETOOTH_SERVICE\<close>\<close>
  "le_settings_restore d c = le_settings_save (d, snd c)"

definition le_settings_load :: "bluetooth_settings \<Rightarrow> le_settings_store \<Rightarrow> le_settings_store" where
  "le_settings_load d c = (case snd c of Some x \<Rightarrow> (x, Some x) | None \<Rightarrow> le_settings_restore d c)"

lemma le_settings_roundtrip: "fst (le_settings_load d (e, snd (le_settings_save c))) = fst c"
  by (simp add: le_settings_load_def le_settings_save_def)

subsection \<open>What the unfinished port does\<close>

inductive le_step :: "le_env \<Rightarrow> (nat \<Rightarrow> bool) \<Rightarrow> nat \<Rightarrow> 'b ble \<Rightarrow> 'b ble \<Rightarrow> bool" for env mem N where
  gatts: "gatts_event_handler env i ev s = Some (Inr t) \<Longrightarrow> le_step env mem N s t"
| gap: "le_step env mem N s (gap_event_handler g s)"
| poll: "\<not> le_suspended s \<Longrightarrow> le_step env mem N s (le_pollTX s)"
| write_string: "BTStreamWriteS mem str s = Some t \<Longrightarrow> le_step env mem N s t"
| open_stream: "le_step env mem N s (snd (btStreamOpen baud s))"
| read: "le_step env mem N s (snd (BTStreamGetC N s))"
| flush: "le_step env mem N s (BTStreamFlush s)"
| cancel: "le_step env mem N s (BTStreamCancel N s)"
| start: "le_step env mem N s (fst (snd (le_start_local se s r)))"

inductive le_reach :: "le_env \<Rightarrow> (nat \<Rightarrow> bool) \<Rightarrow> nat \<Rightarrow> 'b rx_buffer \<Rightarrow> 'b ble \<Rightarrow> bool" for env mem N rb where
  init: "le_reach env mem N rb (ble_init rb)"
| step: "le_reach env mem N rb s \<Longrightarrow> le_step env mem N s t \<Longrightarrow> le_reach env mem N rb t"

definition le_dead :: "'b ble \<Rightarrow> bool" where
  \<comment> \<open>no connection is known, and the queue of the commands does not exist\<close>
  "le_dead s \<longleftrightarrow> le_connection s = 0xFFFF \<and> \<not> le_cmd_queue s \<and> length (le_queue s) \<le> BT_TX_QUEUE_ENTRIES"

lemma le_dead_put: "BTStreamPutC mem c s = Some (r, t) \<Longrightarrow> le_dead s \<Longrightarrow> le_dead t \<and> le_rx t = le_rx s"
  by (auto simp: BTStreamPutC_def le_store_def le_enqueue_tx_chunk_def le_dead_def Let_def split: if_splits)

lemma le_dead_put_all: "le_put_all mem cs s = Some t \<Longrightarrow> le_dead s \<Longrightarrow> le_dead t"
proof (induction cs arbitrary: s)
  case (Cons c cs)
  then obtain r u where "BTStreamPutC mem c s = Some (r, u)" "le_put_all mem cs u = Some t"
    by (auto split: option.splits)
  then show ?case using le_dead_put Cons by blast
qed simp

lemma gatts_frame:
  assumes "gatts_event_handler env i ev s = Some (Inr t)"
  shows "le_rx t = le_rx s" "le_dead s \<Longrightarrow> le_dead t"
proof -
  have "le_rx t = le_rx s \<and> (le_dead s \<longrightarrow> le_dead t)"
    using assms
    by (cases ev) (auto simp: gatts_event_handler_def gatts_profile_event_handler_def le_called_def le_write_def
        le_prep_write_def le_connect_def le_disconnect_def le_attr_table_def le_flush_tx_queue_def le_dead_def Let_def
        split: if_splits option.splits sum.splits)
  then show "le_rx t = le_rx s" "le_dead s \<Longrightarrow> le_dead t" by blast+
qed

lemma le_start_frame:
  "le_dead (fst (snd (le_start_local se s r))) = le_dead s"
  by (simp add: le_start_local_def le_dead_def Let_def split_beta)

lemma le_step_dead: "le_step env mem N s t \<Longrightarrow> le_dead s \<Longrightarrow> le_dead t"
proof (induction rule: le_step.induct)
  case (gatts i ev s t)
  then show ?case using gatts_frame(2) by blast
next
  case (write_string str s t)
  then show ?case using le_dead_put_all by (auto simp: BTStreamWriteS_def)
next
  case (start s se r)
  then show ?case by (simp add: le_start_frame)
qed (simp_all add: le_dead_def gap_event_handler_def le_called_def le_pollTX_def btStreamOpen_def BTStreamGetC_def
    BTStreamFlush_def BTStreamCancel_def split_beta split: le_gap_event.split)

text \<open>
  What the unfinished port does in every state it can reach: the number of the connection
  stays the one of no connection, so the poll task only suspends itself and a line that is queued
  is never sent; with 32 lines in the queue the end of a further line, if there is memory for it,
  waits for ever; nothing a client sends reaches the receive buffer; and a write to the command
  attribute, with memory for it, ends in an error.
\<close>

theorem le_never_transmits:
  assumes "le_reach env mem N rb s"
  shows "le_connection s = 0xFFFF \<and> le_pollTX s = s\<lparr>le_suspended := True\<rparr> \<and>
    (length (le_queue s) = BT_TX_QUEUE_ENTRIES \<and> mem (le_mallocs s) \<longrightarrow> BTStreamPutC mem 10 s = None) \<and>
    (\<forall>i ev t. gatts_event_handler env i ev s = Some (Inr t) \<longrightarrow> le_rx t = le_rx s) \<and>
    (\<forall>v. lee_cmd_mem env \<longrightarrow> (\<exists>e. le_write env SPP_IDX_SPP_COMMAND_VAL v s = Inl e))"
proof -
  have d: "le_dead s" using assms
  proof (induction rule: le_reach.induct)
    case init
    show ?case by (simp add: le_dead_def ble_init_def)
  next
    case (step s t)
    from le_step_dead [OF step(2) step(3)] show ?case .
  qed
  then have c: "le_connection s = 0xFFFF" "\<not> le_cmd_queue s" by (simp_all add: le_dead_def)
  have q: "le_queue (le_store c s) = le_queue s" "le_mallocs (le_store c s) = le_mallocs s" for c
    by (simp_all add: le_store_def)
  have "le_pollTX s = s\<lparr>le_suspended := True\<rparr>" using c by (simp add: le_pollTX_def)
  moreover have "length (le_queue s) = BT_TX_QUEUE_ENTRIES \<and> mem (le_mallocs s) \<longrightarrow> BTStreamPutC mem 10 s = None"
    by (simp add: BTStreamPutC_def le_enqueue_tx_chunk_def Let_def q)
  moreover have "\<forall>i ev t. gatts_event_handler env i ev s = Some (Inr t) \<longrightarrow> le_rx t = le_rx s"
    using gatts_frame(1) by blast
  moreover have "\<forall>v. lee_cmd_mem env \<longrightarrow> (\<exists>e. le_write env SPP_IDX_SPP_COMMAND_VAL v s = Inl e)"
    using c by (simp add: le_write_def)
  ultimately show ?thesis using c(1) by blast
qed

lemma le_put_lines:
  "length (le_queue s) + n \<le> BT_TX_QUEUE_ENTRIES \<Longrightarrow>
   \<exists>t. le_put_all (\<lambda>_. True) (replicate n 10) s = Some t \<and> length (le_queue t) = length (le_queue s) + n"
proof (induction n arbitrary: s)
  case (Suc n)
  have q: "le_queue (le_store c u) = le_queue u" for c and u :: "'a ble" by (simp add: le_store_def)
  have "\<exists>u. BTStreamPutC (\<lambda>_. True) 10 s = Some (True, u) \<and> length (le_queue u) = Suc (length (le_queue s))"
    using Suc.prems by (simp add: BTStreamPutC_def le_enqueue_tx_chunk_def Let_def q)
  then obtain u where u: "BTStreamPutC (\<lambda>_. True) 10 s = Some (True, u)" "length (le_queue u) = Suc (length (le_queue s))"
    by blast
  have "length (le_queue u) + n \<le> BT_TX_QUEUE_ENTRIES" using Suc.prems u(2) by simp
  from Suc.IH [OF this] u show ?case by simp
qed simp

definition le_env0 :: le_env where
  "le_env0 = \<lparr>lee_alloc = alloc_least, lee_mem = (\<lambda>v. True), lee_cmd_mem = True\<rparr>"

theorem le_never_transmits_witness:
  "\<exists>s. le_reach le_env0 (\<lambda>_. True) 4 ring0 s \<and> length (le_queue s) = 32 \<and> BTStreamPutC (\<lambda>_. True) 10 s = None \<and>
     le_connection s = 0xFFFF"
proof -
  have "length (le_queue (ble_init ring0)) + 32 \<le> BT_TX_QUEUE_ENTRIES" by (simp add: ble_init_def bt_sizes)
  from le_put_lines [OF this]
  obtain t where t: "le_put_all (\<lambda>_. True) (replicate 32 10) (ble_init ring0) = Some t" "length (le_queue t) = 32"
    by (auto simp: ble_init_def)
  have "takeWhile (\<lambda>c. c \<noteq> 0) (replicate 32 (10 :: u8) @ [0]) = replicate 32 10"
    by (simp add: takeWhile_append takeWhile_eq_all_conv)
  with t(1) have "BTStreamWriteS (\<lambda>_. True) (replicate 32 10 @ [0]) (ble_init ring0) = Some t"
    by (simp only: BTStreamWriteS_def)
  from le_reach.step [OF le_reach.init le_step.write_string [OF this]]
  have r: "le_reach le_env0 (\<lambda>_. True) 4 ring0 t" .
  from le_never_transmits [OF r] t(2) have "BTStreamPutC (\<lambda>_. True) 10 t = None" "le_connection t = 0xFFFF"
    by (simp_all add: bt_sizes)
  with r t(2) show ?thesis by blast
qed

end
