(* ===== verification/NetBase.thy ===== *)
theory NetBase
  imports Prelude
begin

text \<open>
  What \<open>main/wifi.c\<close> and \<open>main/enet.c\<close> share: the network services, the settings of an
  interface, the status flags, the calls into the daemons and into the rest of the system, and
  the contract of a group of settings.  The daemons, lwIP and the grbl core are outside the
  repository: calls are recorded in order, their results are arguments.
\<close>

subsection \<open>Services and settings\<close>

datatype service = Telnet | Websocket | Ftp | Http | Webdav | Ssdp | Mdns | Dns

datatype ip_mode = IpMode_Static | IpMode_DHCP | IpMode_AutoIP

datatype net_flag = Interface_up | Link_up | Ip_aquired | Ap_started | Ap_scan_completed

record net_settings =
  net_ip :: u32
  net_gateway :: u32
  net_mask :: u32
  net_ip_mode :: ip_mode
  net_hostname :: "u8 list"          \<comment> \<open>a C string without its terminator\<close>
  net_telnet_port :: u16
  net_websocket_port :: u16
  net_ftp_port :: u16
  net_http_port :: u16
  net_services :: "service set"

definition net_zero :: net_settings where
  "net_zero = \<lparr>net_ip = 0, net_gateway = 0, net_mask = 0, net_ip_mode = IpMode_Static, net_hostname = [],
     net_telnet_port = 0, net_websocket_port = 0, net_ftp_port = 0, net_http_port = 0, net_services = {}\<rparr>"

datatype status_code = Status_OK | Status_InvalidStatement | Status_Unhandled | Status_GcodeValueOutOfRange

datatype net_call =
    Svc_init service bool      \<comment> \<open>start of a daemon, and its result\<close>
  | Listen service u16         \<comment> \<open>the port the next start is given\<close>
  | Svc_stop service
  | Svc_close service          \<comment> \<open>its connections are closed\<close>
  | Svc_poll service
  | Mdns_announce "service list"
  | Publish bool "net_flag set" "net_flag set"   \<comment> \<open>of the station: whether; what changed, all flags\<close>
  | Report string
  | Scan_start | Esp_connect | Esp_disconnect | Esp_start | Esp_stop
  | Set_ip u32 u32 u32
  | Nvs_save

type_synonym net_log = "net_call list"     \<comment> \<open>newest last\<close>

text \<open>How often a daemon runs more than it was stopped.\<close>

fun runs :: "service \<Rightarrow> net_log \<Rightarrow> int" where
  "runs v [] = 0"
| "runs v (c # cs) = (case c of Svc_init w ok \<Rightarrow> if w = v \<and> ok then 1 else 0
                      | Svc_stop w \<Rightarrow> if w = v then - 1 else 0 | _ \<Rightarrow> 0) + runs v cs"

lemma runs_append [simp]: "runs v (xs @ ys) = runs v xs + runs v ys"
  by (induction xs) simp_all

subsection \<open>A group of settings\<close>

text \<open>
  Settings are assigned one by one, by number; an assignment is refused or stores what its text
  means.  Once the laws hold, a sequence of assignments leaves in every setting the last value
  that was accepted for it.
\<close>

fun puts :: "('i \<Rightarrow> 'v \<Rightarrow> 's \<Rightarrow> 's option) \<Rightarrow> ('i \<times> 'v) list \<Rightarrow> 's \<Rightarrow> 's" where
  "puts put [] s = s"
| "puts put ((i, v) # xs) s = puts put xs (case put i v s of None \<Rightarrow> s | Some t \<Rightarrow> t)"

fun last_put :: "('i \<Rightarrow> 'v \<Rightarrow> bool) \<Rightarrow> 'i \<Rightarrow> ('i \<times> 'v) list \<Rightarrow> 'v option" where
  "last_put accepts j [] = None"
| "last_put accepts j ((i, v) # xs) =
     (case last_put accepts j xs of Some w \<Rightarrow> Some w
      | None \<Rightarrow> if i = j \<and> accepts i v then Some v else None)"

locale setting_group =
  fixes put :: "'i \<Rightarrow> 'v \<Rightarrow> 's \<Rightarrow> 's option"
    and look :: "'i \<Rightarrow> 's \<Rightarrow> 'w"
    and meaning :: "'v \<Rightarrow> 'w"
    and accepts :: "'i \<Rightarrow> 'v \<Rightarrow> bool"
  assumes put_accepts: "(put i v s \<noteq> None) = accepts i v"
    and put_same: "put i v s = Some t \<Longrightarrow> look i t = meaning v"
    and put_other: "put i v s = Some t \<Longrightarrow> j \<noteq> i \<Longrightarrow> look j t = look j s"
begin

lemma puts_look:
  "look j (puts put xs s) = (case last_put accepts j xs of None \<Rightarrow> look j s | Some v \<Rightarrow> meaning v)"
proof (induction xs arbitrary: s)
  case (Cons x xs)
  obtain i v where x: "x = (i, v)" by (cases x)
  show ?case
  proof (cases "put i v s")
    case None
    then have "\<not> accepts i v" using put_accepts [of i v s] by simp
    with Cons.IH None show ?thesis by (auto simp: x split: option.splits)
  next
    case (Some t)
    then have a: "accepts i v" using put_accepts [of i v s] by simp
    have "look j t = (if i = j then meaning v else look j s)"
      using put_same [OF Some] put_other [OF Some, of j] by auto
    with Cons.IH Some a show ?thesis by (auto simp: x split: option.splits)
  qed
qed simp

end

end
