(* ===== verification/Wifi.thy ===== *)
theory Wifi
  imports NetBase Bluetooth
begin

text \<open>
  The Wi-Fi interface, \<open>main/wifi.c\<close>: station and access point, the services, the scan for access
  points, the events of the driver, start and stop, and the settings.  The build is one without
  MQTT; which services it has is a set.  The bits of the event group are Booleans; the mutex of
  the access point list is \<open>wf_list_held\<close>, true while a reader has the list.
\<close>

subsection \<open>State\<close>

datatype wifi_mode = WiFiMode_NULL | WiFiMode_STA | WiFiMode_AP | WiFiMode_APSTA
datatype esp_mode = WIFI_MODE_NULL | WIFI_MODE_AP | WIFI_MODE_STA | WIFI_MODE_APSTA

record wifi_settings =
  ws_mode :: wifi_mode
  ws_sta_ssid :: "u8 list"
  ws_sta_password :: "u8 list"
  ws_sta_net :: net_settings
  ws_ap_ssid :: "u8 list"
  ws_ap_password :: "u8 list"
  ws_ap_country :: string
  ws_ap_channel :: u8
  ws_ap_bssid :: "u8 list"        \<comment> \<open>six bytes, the last of the text first\<close>
  ws_ap_net :: net_settings

record sta_config =
  sc_ssid :: "u8 list"
  sc_password :: "u8 list"
  sc_bssid :: "u8 list option"

definition sta_config_zero :: sta_config where
  "sta_config_zero = \<lparr>sc_ssid = [], sc_password = [], sc_bssid = None\<rparr>"

record net_build =
  nb_services :: "service set"
  nb_softap :: bool
  nb_ethernet :: bool

record wifi_state =
  wf_cfg :: wifi_settings
  wf_network :: net_settings
  wf_services :: "service set"
  wf_allowed :: "service set"
  wf_sta_cfg :: sta_config
  wf_connected :: bool
  wf_scanning :: bool
  wf_apsta :: bool
  wf_records :: "nat list option"   \<comment> \<open>\<open>ap_list.ap_records\<close>\<close>
  wf_ap_num :: nat
  wf_list_held :: bool
  wf_selected :: "u8 list option"
  wf_list_ip :: u32
  wf_ap_status :: string
  wf_sta_flags :: "net_flag set"
  wf_ap_flags :: "net_flag set"
  wf_mode :: "esp_mode option"      \<comment> \<open>None: the driver is not initialised\<close>
  wf_sta_netif :: bool
  wf_ap_netif :: bool
  wf_sta_name :: string
  wf_ap_name :: string
  wf_timers :: nat                  \<comment> \<open>pending timeouts of \<open>lwIPHostTimerHandler\<close>\<close>
  wf_calls :: net_log

definition wf_call :: "net_call \<Rightarrow> wifi_state \<Rightarrow> wifi_state" where
  "wf_call c s = s\<lparr>wf_calls := wf_calls s @ [c]\<rparr>"

text \<open>What the daemons, the driver and the allocator answer during one operation.\<close>

record wifi_env =
  we_svc :: "service \<Rightarrow> bool"
  we_scan :: bool
  we_found :: "nat list"
  we_malloc :: bool
  we_connect :: bool

subsection \<open>Services\<close>

definition wf_start_svc :: "wifi_env \<Rightarrow> service \<Rightarrow> wifi_state \<Rightarrow> wifi_state" where
  \<comment> \<open>\<open>services.x = x_init(...)\<close>\<close>
  "wf_start_svc env v s =
     (wf_call (Svc_init v (we_svc env v)) s)\<lparr>wf_services :=
        (if we_svc env v then insert v (wf_services s) else wf_services s - {v})\<rparr>"

definition wf_start_if :: "net_build \<Rightarrow> wifi_env \<Rightarrow> service \<Rightarrow> wifi_state \<Rightarrow> wifi_state" where
  \<comment> \<open>\<open>if(network.services.x && !services.x)\<close>, compiled in or not\<close>
  "wf_start_if b env v s =
     (if v \<in> nb_services b \<and> v \<in> net_services (wf_network s) \<and> v \<notin> wf_services s
      then wf_start_svc env v s else s)"

definition wf_start_http :: "net_build \<Rightarrow> wifi_env \<Rightarrow> wifi_state \<Rightarrow> wifi_state" where
  "wf_start_http b env s =
     (if Http \<in> nb_services b \<and> Http \<in> net_services (wf_network s) \<and> Http \<notin> wf_services s
      then wf_start_if b env Webdav (wf_start_svc env Http s) else s)"

definition wf_start_ssdp :: "net_build \<Rightarrow> wifi_env \<Rightarrow> bool \<Rightarrow> wifi_state \<Rightarrow> wifi_state" where
  "wf_start_ssdp b env ssdp s =
     (if {Http, Ssdp} \<subseteq> nb_services b \<and> ssdp \<and> Http \<in> wf_services s \<and> Ssdp \<notin> wf_services s
      then wf_start_svc env Ssdp s else s)"

definition wf_start_mdns :: "net_build \<Rightarrow> wifi_env \<Rightarrow> wifi_state \<Rightarrow> wifi_state" where
  "wf_start_mdns b env s =
     (if Mdns \<in> nb_services b \<and> net_hostname (wf_network s) \<noteq> [] \<and> Mdns \<in> net_services (wf_network s) \<and>
         Mdns \<notin> wf_services s
      then let s1 = wf_start_svc env Mdns s in
           if we_svc env Mdns
           then wf_call (Mdns_announce [v \<leftarrow> [Http, Webdav, Ftp, Websocket, Telnet]. v \<in> wf_services s1]) s1
           else s1
      else s)"

definition start_services :: "net_build \<Rightarrow> wifi_env \<Rightarrow> bool \<Rightarrow> wifi_state \<Rightarrow> wifi_state" where
  "start_services b env start_ssdp s =
     (let s = wf_start_if b env Telnet s;
          s = wf_start_if b env Websocket s;
          s = wf_start_if b env Ftp s;
          s = wf_start_http b env s;
          s = wf_start_ssdp b env start_ssdp s;
          s = wf_start_mdns b env s
      in if {Telnet, Websocket, Ftp} \<inter> nb_services b \<noteq> {} then s\<lparr>wf_timers := wf_timers s + 1\<rparr> else s)"

definition wf_poll :: "net_build \<Rightarrow> service \<Rightarrow> wifi_state \<Rightarrow> wifi_state" where
  "wf_poll b v s = (if v \<in> nb_services b \<and> v \<in> wf_services s then wf_call (Svc_poll v) s else s)"

definition lwIPHostTimerHandler :: "net_build \<Rightarrow> wifi_state \<Rightarrow> wifi_state" where
  \<comment> \<open>one pending timeout ends\<close>
  "lwIPHostTimerHandler b s =
     (let s = s\<lparr>wf_timers := wf_timers s - 1\<rparr>;
          s = (if wf_services s \<noteq> {} then s\<lparr>wf_timers := wf_timers s + 1\<rparr> else s)
      in wf_poll b Ftp (wf_poll b Websocket (wf_poll b Telnet s)))"

definition wf_stop_if :: "net_build \<Rightarrow> service set \<Rightarrow> service \<Rightarrow> wifi_state \<Rightarrow> wifi_state" where
  "wf_stop_if b running v s = (if v \<in> nb_services b \<and> v \<in> running then wf_call (Svc_stop v) s else s)"

definition stop_services :: "net_build \<Rightarrow> wifi_state \<Rightarrow> wifi_state" where
  "stop_services b s =
     (let running = wf_services s;
          s = s\<lparr>wf_services := {}\<rparr>;
          s = wf_stop_if b running Telnet s;
          s = wf_stop_if b running Websocket s;
          s = wf_stop_if b running Mdns s;
          s = (if Dns \<in> running then wf_call (Svc_stop Dns) s else s)
      in s\<lparr>wf_connected := False, wf_scanning := False, wf_apsta := False\<rparr>)"

subsection \<open>Status events and scan\<close>

definition status_event_publish :: "net_flag set \<Rightarrow> wifi_state \<Rightarrow> wifi_state" where
  "status_event_publish changed s = wf_call (Publish True changed (wf_sta_flags s)) s"

definition status_ap_event_publish :: "net_flag set \<Rightarrow> wifi_state \<Rightarrow> wifi_state" where
  "status_ap_event_publish changed s = wf_call (Publish False changed (wf_ap_flags s)) s"

definition wf_begin_scan :: "wifi_env \<Rightarrow> wifi_state \<Rightarrow> wifi_state" where
  "wf_begin_scan env s =
     (if \<not> wf_scanning s
      then if we_scan env then (wf_call Scan_start s)\<lparr>wf_scanning := True\<rparr> else wf_call Scan_start s
      else s)"

definition wf_unflag_scan :: "wifi_state \<Rightarrow> wifi_state" where
  "wf_unflag_scan s =
     (if Ap_scan_completed \<in> wf_sta_flags s
      then status_event_publish {Ap_scan_completed} (s\<lparr>wf_sta_flags := wf_sta_flags s - {Ap_scan_completed}\<rparr>)
      else s)"

definition wifi_ap_scan :: "wifi_env \<Rightarrow> wifi_state \<Rightarrow> wifi_state" where
  "wifi_ap_scan env s = wf_unflag_scan (wf_begin_scan env s)"

definition wifi_get_aplist :: "wifi_state \<Rightarrow> nat list option \<times> wifi_state" where
  "wifi_get_aplist s =
     (if wf_records s \<noteq> None \<and> \<not> wf_list_held s then (wf_records s, s\<lparr>wf_list_held := True\<rparr>) else (None, s))"

definition wifi_release_aplist :: "wifi_state \<Rightarrow> wifi_state" where
  "wifi_release_aplist s = s\<lparr>wf_list_held := False\<rparr>"

subsection \<open>Events of the driver\<close>

definition wf_dns_start :: "wifi_env \<Rightarrow> wifi_state \<Rightarrow> wifi_state" where
  \<comment> \<open>\<open>services.dns = dns_server_start(sta_netif)\<close>\<close>
  "wf_dns_start env s = wf_start_svc env Dns s"

definition ip_connected :: "net_build \<Rightarrow> wifi_env \<Rightarrow> u32 \<Rightarrow> wifi_state \<Rightarrow> wifi_state" where
  "ip_connected b env ip s =
     start_services b env (Ssdp \<in> net_services (wf_network s))
       (s\<lparr>wf_connected := True, wf_selected := Some (sc_ssid (wf_sta_cfg s)), wf_list_ip := ip,
          wf_ap_status := ''Connected''\<rparr>)"

definition wf_dns_off :: "wifi_state \<Rightarrow> wifi_state" where
  "wf_dns_off s =
     (if Dns \<in> wf_services s then wf_call (Svc_stop Dns) (s\<lparr>wf_services := wf_services s - {Dns}\<rparr>) else s)"

definition wf_keep_credentials :: "wifi_env \<Rightarrow> wifi_state \<Rightarrow> wifi_state" where
  "wf_keep_credentials env s =
     (if wf_apsta s
      then s\<lparr>wf_cfg := (wf_cfg s)\<lparr>ws_sta_ssid := sc_ssid (wf_sta_cfg s), ws_sta_password := sc_password (wf_sta_cfg s)\<rparr>\<rparr>
      else wifi_ap_scan env s)"

definition wf_flag_ip :: "wifi_state \<Rightarrow> wifi_state" where
  "wf_flag_ip s =
     (if Ip_aquired \<notin> wf_sta_flags s
      then status_event_publish {Ip_aquired} (s\<lparr>wf_sta_flags := insert Ip_aquired (wf_sta_flags s)\<rparr>)
      else s)"

definition ip_got :: "net_build \<Rightarrow> wifi_env \<Rightarrow> u32 \<Rightarrow> wifi_state \<Rightarrow> wifi_state" where
  "ip_got b env ip s = wf_flag_ip (wf_keep_credentials env (wf_dns_off (ip_connected b env ip s)))"

definition ip_lost :: "wifi_state \<Rightarrow> wifi_state" where
  "ip_lost s =
     (if Ip_aquired \<in> wf_sta_flags s
      then status_event_publish {Ip_aquired} (s\<lparr>wf_sta_flags := wf_sta_flags s - {Ip_aquired}\<rparr>)
      else s)"

datatype ip_event = IP_EVENT_STA_GOT_IP u32 | IP_EVENT_STA_LOST_IP

definition ip_event_handler :: "net_build \<Rightarrow> wifi_env \<Rightarrow> ip_event \<Rightarrow> wifi_state \<Rightarrow> wifi_state" where
  "ip_event_handler b env ev s =
     (case ev of IP_EVENT_STA_GOT_IP ip \<Rightarrow> ip_got b env ip s | IP_EVENT_STA_LOST_IP \<Rightarrow> ip_lost s)"

datatype wifi_event =
    WIFI_EVENT_AP_START | WIFI_EVENT_AP_STACONNECTED | WIFI_EVENT_AP_STADISCONNECTED
  | WIFI_EVENT_STA_START | WIFI_EVENT_STA_DISCONNECTED | WIFI_EVENT_SCAN_DONE

definition ap_start :: "net_build \<Rightarrow> wifi_env \<Rightarrow> wifi_state \<Rightarrow> wifi_state" where
  "ap_start b env s =
     (let s = (if wf_apsta s then wf_dns_start env (start_services b env False s) else s)
      in if Ap_started \<notin> wf_ap_flags s
         then status_ap_event_publish {Ap_started, Ip_aquired}
                (s\<lparr>wf_ap_flags := {Ap_started, Ip_aquired} \<union> wf_ap_flags s\<rparr>)
         else s)"

definition ap_sta_connected :: "net_build \<Rightarrow> wifi_env \<Rightarrow> wifi_state \<Rightarrow> wifi_state" where
  "ap_sta_connected b env s =
     (let s = wf_call (Report ''WIFI AP CONNECTED'') s in
      if wf_apsta s
      then (if \<not> wf_connected s \<and> Dns \<notin> wf_services s then wf_dns_start env s else s)
      else start_services b env (Ssdp \<in> net_services (wf_network s)) s)"

definition wf_close_if :: "net_build \<Rightarrow> service \<Rightarrow> wifi_state \<Rightarrow> wifi_state" where
  "wf_close_if b v s = (if v \<in> nb_services b then wf_call (Svc_close v) s else s)"

definition ap_sta_disconnected :: "net_build \<Rightarrow> wifi_env \<Rightarrow> wifi_state \<Rightarrow> wifi_state" where
  "ap_sta_disconnected b env s =
     (let s = wf_close_if b Websocket (wf_close_if b Telnet s);
          s = (if wf_apsta s then wifi_ap_scan env s
               else if Ssdp \<in> nb_services b \<and> \<not> wf_connected s then wf_call (Svc_stop Ssdp) s else s)
      in wf_call (Report ''WIFI AP DISCONNECTED'') s)"

definition sta_start :: "wifi_state \<Rightarrow> wifi_state" where
  "sta_start s = (if sc_ssid (wf_sta_cfg s) \<noteq> [] then wf_call Esp_connect s else s)"

definition sta_disconnected :: "net_build \<Rightarrow> wifi_env \<Rightarrow> wifi_state \<Rightarrow> wifi_state" where
  "sta_disconnected b env s =
     (let s = wf_close_if b Websocket (wf_close_if b Telnet s);
          s = wf_call (Report ''WIFI STA DISCONNECTED'') s;
          s = s\<lparr>wf_sta_cfg := sta_config_zero\<rparr>;
          s = (if wf_apsta s \<and> \<not> wf_connected s \<and> Dns \<notin> wf_services s then wf_dns_start env s else s)
      in s\<lparr>wf_connected := False\<rparr>)"

definition scan_done :: "wifi_env \<Rightarrow> wifi_state \<Rightarrow> wifi_state" where
  "scan_done env s =
     (let s = s\<lparr>wf_scanning := False\<rparr> in
      if \<not> wf_list_held s then
        let s = s\<lparr>wf_ap_num := length (we_found env),
                  wf_records := (if we_malloc env then Some (we_found env) else None)\<rparr>
        in if Ap_scan_completed \<notin> wf_sta_flags s
           then status_event_publish {Ap_scan_completed} (s\<lparr>wf_sta_flags := insert Ap_scan_completed (wf_sta_flags s)\<rparr>)
           else s
      else s)"

definition wifi_event_handler :: "net_build \<Rightarrow> wifi_env \<Rightarrow> wifi_event \<Rightarrow> wifi_state \<Rightarrow> wifi_state" where
  "wifi_event_handler b env ev s =
     (case ev of
        WIFI_EVENT_AP_START \<Rightarrow> ap_start b env s
      | WIFI_EVENT_AP_STACONNECTED \<Rightarrow> ap_sta_connected b env s
      | WIFI_EVENT_AP_STADISCONNECTED \<Rightarrow> ap_sta_disconnected b env s
      | WIFI_EVENT_STA_START \<Rightarrow> sta_start s
      | WIFI_EVENT_STA_DISCONNECTED \<Rightarrow> sta_disconnected b env s
      | WIFI_EVENT_SCAN_DONE \<Rightarrow> scan_done env s)"

subsection \<open>Start, connect and stop\<close>

record net_defaults =
  nd_mode :: wifi_mode
  nd_telnet :: u16
  nd_websocket :: u16
  nd_http :: u16
  nd_ftp :: u16
  nd_sta :: net_settings       \<comment> \<open>host name, IP mode and addresses of the station\<close>
  nd_ap :: net_settings
  nd_ap_ssid :: "u8 list"
  nd_ap_password :: "u8 list"

definition init_adapter :: "net_defaults \<Rightarrow> net_settings \<Rightarrow> wifi_state \<Rightarrow> bool \<times> wifi_state" where
  "init_adapter d n s =
     (let n = (if net_telnet_port n = 0 then n\<lparr>net_telnet_port := nd_telnet d\<rparr> else n);
          n = (if net_websocket_port n = 0 then n\<lparr>net_websocket_port := nd_websocket d\<rparr> else n);
          n = (if net_http_port n = 0 then n\<lparr>net_http_port := nd_http d\<rparr> else n);
          n = (if net_ftp_port n = 0 then n\<lparr>net_ftp_port := nd_ftp d\<rparr> else n);
          s = s\<lparr>wf_network := n\<rparr>;
          s = (if net_ip_mode n = IpMode_Static then wf_call (Set_ip (net_ip n) (net_gateway n) (net_mask n)) s else s)
      in (net_ip_mode n = IpMode_DHCP, s))"

definition settingToMode :: "wifi_mode \<Rightarrow> esp_mode" where
  "settingToMode m =
     (if m = WiFiMode_AP then WIFI_MODE_AP else if m = WiFiMode_STA then WIFI_MODE_STA
      else if m = WiFiMode_APSTA then WIFI_MODE_APSTA else WIFI_MODE_NULL)"

text \<open>The results of the calls into ESP-IDF, in the order \<open>wifi_start\<close> makes them.\<close>

record wifi_start_env =
  wse_register :: bool
  wse_init :: bool
  wse_default :: esp_mode       \<comment> \<open>the mode after the initialisation\<close>
  wse_storage :: bool
  wse_set_null :: bool
  wse_set_mode_ap :: bool
  wse_set_config_ap :: bool
  wse_ap_name :: string
  wse_set_mode_sta :: bool
  wse_set_config_sta :: bool
  wse_sta_name :: string
  wse_start :: bool

definition wifi_boot :: "wifi_start_env \<Rightarrow> wifi_state \<Rightarrow> bool \<times> wifi_state" where
  \<comment> \<open>the first part of \<open>wifi_start\<close>: a new event group and a new mutex\<close>
  "wifi_boot env s =
     (if wf_mode s = None then
        let s = s\<lparr>wf_connected := False, wf_scanning := False, wf_apsta := False, wf_list_held := False\<rparr> in
        if \<not> wse_register env \<or> \<not> wse_init env then (False, s)
        else let s = s\<lparr>wf_mode := Some (wse_default env)\<rparr> in
             if \<not> wse_storage env \<or> \<not> wse_set_null env then (False, s)
             else (True, s\<lparr>wf_mode := Some WIFI_MODE_NULL\<rparr>)
      else (True, s))"

definition wifi_config_ap :: "net_defaults \<Rightarrow> wifi_start_env \<Rightarrow> wifi_state \<Rightarrow> bool \<times> wifi_state" where
  "wifi_config_ap d env s =
     (let s = s\<lparr>wf_ap_netif := True,
                wf_cfg := (wf_cfg s)\<lparr>ws_ap_net := (ws_ap_net (wf_cfg s))\<lparr>net_ip_mode := IpMode_Static\<rparr>\<rparr>\<rparr>;
          s = snd (init_adapter d (ws_ap_net (wf_cfg s)) s);
          ssid = ws_ap_ssid (wf_cfg s); pw = ws_ap_password (wf_cfg s)
      in if ssid = [] \<or> length ssid \<ge> 32 \<or> length pw \<ge> 64 then (False, s)
         else if \<not> wse_set_mode_ap env then (False, s)
         else let s = s\<lparr>wf_mode := Some (settingToMode (ws_mode (wf_cfg s)))\<rparr> in
              if \<not> wse_set_config_ap env then (False, s)
              else let s = s\<lparr>wf_ap_name := wse_ap_name env\<rparr> in
                   (True, if ws_mode (wf_cfg s) = WiFiMode_APSTA then s\<lparr>wf_apsta := True\<rparr> else s))"

definition bump_name :: "string \<Rightarrow> string" where
  \<comment> \<open>\<open>ap_if_name[2] += 1\<close>\<close>
  "bump_name n = n[2 := char_of (of_char (n ! 2) + 1 :: nat)]"

definition wifi_config_sta :: "net_defaults \<Rightarrow> wifi_start_env \<Rightarrow> wifi_state \<Rightarrow> bool \<times> wifi_state" where
  "wifi_config_sta d env s =
     (let s = s\<lparr>wf_sta_netif := True,
                wf_cfg := (wf_cfg s)\<lparr>ws_sta_net := (ws_sta_net (wf_cfg s))\<lparr>net_ip_mode := IpMode_DHCP\<rparr>\<rparr>\<rparr>;
          s = snd (init_adapter d (ws_sta_net (wf_cfg s)) s);
          s = s\<lparr>wf_sta_cfg := sta_config_zero\<rparr>;
          ssid = ws_sta_ssid (wf_cfg s); pw = ws_sta_password (wf_cfg s)
      in if ssid \<noteq> [] \<and> (length ssid \<ge> 32 \<or> length pw \<ge> 64)
         then (False, s\<lparr>wf_sta_cfg := (wf_sta_cfg s)\<lparr>sc_ssid := take 31 ssid,
                  sc_password := (if length ssid \<ge> 32 then [] else take 63 pw)\<rparr>\<rparr>)
         else let s = (if ssid \<noteq> [] then s\<lparr>wf_sta_cfg := (wf_sta_cfg s)\<lparr>sc_ssid := ssid, sc_password := pw\<rparr>\<rparr> else s);
                  bssid = ws_ap_bssid (wf_cfg s);
                  s = (if \<exists>x \<in> set bssid. x \<noteq> 0 then s\<lparr>wf_sta_cfg := (wf_sta_cfg s)\<lparr>sc_bssid := Some bssid\<rparr>\<rparr> else s)
              in if \<not> wse_set_mode_sta env then (False, s)
                 else let s = s\<lparr>wf_mode := Some (settingToMode (ws_mode (wf_cfg s)))\<rparr> in
                      if \<not> wse_set_config_sta env then (False, s)
                      else let s = s\<lparr>wf_sta_name := wse_sta_name env\<rparr> in
                           (True, if wf_ap_name s = wf_sta_name s then s\<lparr>wf_ap_name := bump_name (wf_ap_name s)\<rparr> else s))"

definition wifi_go :: "wifi_start_env \<Rightarrow> wifi_env \<Rightarrow> wifi_state \<Rightarrow> bool \<times> wifi_state" where
  \<comment> \<open>the end of \<open>wifi_start\<close>, from \<open>esp_wifi_start\<close> on\<close>
  "wifi_go env we s =
     (let s = wf_call Esp_start s; m = ws_mode (wf_cfg s) in
      if \<not> wse_start env then (False, s)
      else let s = (if m = WiFiMode_AP \<or> m = WiFiMode_APSTA
                    then status_ap_event_publish {Interface_up} (s\<lparr>wf_ap_flags := insert Interface_up (wf_ap_flags s)\<rparr>) else s);
               s = (if m = WiFiMode_STA \<or> m = WiFiMode_APSTA
                    then status_event_publish {Interface_up} (s\<lparr>wf_sta_flags := insert Interface_up (wf_sta_flags s)\<rparr>) else s)
           in (True, if m = WiFiMode_APSTA then wifi_ap_scan we s else s))"

definition wifi_start :: "net_build \<Rightarrow> net_defaults \<Rightarrow> nat \<Rightarrow> wifi_start_env \<Rightarrow> wifi_env \<Rightarrow> wifi_state \<Rightarrow> bool \<times> wifi_state" where
  \<comment> \<open>\<open>nvs_address\<close> as argument\<close>
  "wifi_start b d nvs_address env we s =
     (if nvs_address = 0 then (False, s)
      else
        let s = (if \<not> nb_softap b \<and> ws_mode (wf_cfg s) = WiFiMode_APSTA
                 then s\<lparr>wf_cfg := (wf_cfg s)\<lparr>ws_mode := nd_mode d\<rparr>\<rparr> else s);
            (ok, s) = wifi_boot env s; m = ws_mode (wf_cfg s); differs = (wf_mode s \<noteq> Some (settingToMode m))
        in if \<not> ok then (False, s)
           else let (ok, s) = (if differs \<and> (m = WiFiMode_AP \<or> m = WiFiMode_APSTA) then wifi_config_ap d env s else (True, s)) in
                if \<not> ok then (False, s)
                else let (ok, s) = (if differs \<and> (m = WiFiMode_STA \<or> m = WiFiMode_APSTA) then wifi_config_sta d env s else (True, s)) in
                     if \<not> ok then (False, s) else wifi_go env we s)"

definition wifi_ap_connect :: "nat \<Rightarrow> nat \<Rightarrow> wifi_env \<Rightarrow> u8 list option \<Rightarrow> u8 list \<Rightarrow> wifi_state \<Rightarrow> (bool \<times> wifi_state) option" where
  \<comment> \<open>\<open>sizeof(ssid_t)\<close> and \<open>sizeof(password_t)\<close>; None: \<open>strcpy\<close> writes behind the 32 bytes of the
     station's SSID or the 64 of its password\<close>
  "wifi_ap_connect ssid_size password_size env ssid pw s =
     (if \<not> (case ssid of None \<Rightarrow> True | Some x \<Rightarrow> length x > 0 \<and> length x < ssid_size \<and> length pw < password_size)
      then Some (False, s)
      else
        let s = (if wf_connected s then wf_call Esp_disconnect s else s);
            s = (if \<not> wf_list_held s
                 then s\<lparr>wf_selected := None, wf_list_ip := 0,
                        wf_ap_status := (if ssid = None then [] else ''Connecting...'')\<rparr> else s);
            s = s\<lparr>wf_sta_cfg := sta_config_zero\<rparr>
        in case ssid of
             None \<Rightarrow> Some (True, s)
           | Some x \<Rightarrow>
               if length x \<ge> 32 \<or> length pw \<ge> 64 then None
               else let s = s\<lparr>wf_sta_cfg := (wf_sta_cfg s)\<lparr>sc_ssid := x, sc_password := pw\<rparr>\<rparr>
                    in Some (we_connect env, wf_call Esp_connect s))"

definition wifi_stop :: "net_build \<Rightarrow> wifi_state \<Rightarrow> bool \<times> wifi_state" where
  "wifi_stop b s = (True, wf_call Esp_stop (stop_services b s))"

subsection \<open>The interface as a transition system\<close>

text \<open>
  The operations as steps, in any order: the events that are registered (of the IP events only
  the address of the station), the scan, the readers of the list, the timeouts, connecting,
  starting and stopping.  Events come from a driver that is initialised.
\<close>

inductive wifi_step :: "net_build \<Rightarrow> net_defaults \<Rightarrow> wifi_state \<Rightarrow> wifi_state \<Rightarrow> bool" for b d where
  got_ip: "wf_mode s \<noteq> None \<Longrightarrow> wifi_step b d s (ip_event_handler b env (IP_EVENT_STA_GOT_IP ip) s)"
| event: "wf_mode s \<noteq> None \<Longrightarrow> wifi_step b d s (wifi_event_handler b env ev s)"
| scan: "wf_mode s \<noteq> None \<Longrightarrow> wifi_step b d s (wifi_ap_scan env s)"
| get_list: "wifi_step b d s (snd (wifi_get_aplist s))"
| release: "wf_list_held s \<Longrightarrow> wifi_step b d s (wifi_release_aplist s)"
| timer: "wf_timers s > 0 \<Longrightarrow> wifi_step b d s (lwIPHostTimerHandler b s)"
| connect: "wf_mode s \<noteq> None \<Longrightarrow> wifi_ap_connect m n env ssid pw s = Some (r, t) \<Longrightarrow> wifi_step b d s t"
| stop: "wf_mode s \<noteq> None \<Longrightarrow> wifi_step b d s (snd (wifi_stop b s))"
| start: "wifi_step b d s (snd (wifi_start b d nvs env we s))"

definition wifi_zero :: "wifi_settings \<Rightarrow> service set \<Rightarrow> wifi_state" where
  "wifi_zero cfg allowed = \<lparr>wf_cfg = cfg, wf_network = net_zero, wf_services = {}, wf_allowed = allowed,
     wf_sta_cfg = sta_config_zero, wf_connected = False, wf_scanning = False, wf_apsta = False,
     wf_records = None, wf_ap_num = 0, wf_list_held = False, wf_selected = None, wf_list_ip = 0,
     wf_ap_status = [], wf_sta_flags = {}, wf_ap_flags = {}, wf_mode = None, wf_sta_netif = False,
     wf_ap_netif = False, wf_sta_name = [], wf_ap_name = [], wf_timers = 0, wf_calls = []\<rparr>"

inductive wifi_reach :: "net_build \<Rightarrow> net_defaults \<Rightarrow> wifi_state \<Rightarrow> bool" for b d where
  init: "wifi_reach b d (wifi_zero cfg allowed)"
| step: "wifi_reach b d s \<Longrightarrow> wifi_step b d s t \<Longrightarrow> wifi_reach b d t"

subsection \<open>What every operation keeps\<close>

definition tracked :: "service set" where "tracked = {Telnet, Websocket, Mdns}"

definition is_ip_event :: "net_call \<Rightarrow> bool" where
  "is_ip_event c = (case c of Publish sta changed flags \<Rightarrow> sta \<and> Ip_aquired \<in> changed | _ \<Rightarrow> False)"

definition wf_inv :: "net_build \<Rightarrow> wifi_state \<Rightarrow> bool" where
  "wf_inv b s \<longleftrightarrow>
     (\<forall>v \<in> tracked. runs v (wf_calls s) = (if v \<in> wf_services s then 1 else 0)) \<and>
     tracked \<inter> wf_services s \<subseteq> nb_services b \<and>
     length (filter is_ip_event (wf_calls s)) = (if Ip_aquired \<in> wf_sta_flags s then 1 else 0)"

definition wf_keeps :: "net_build \<Rightarrow> wifi_state \<Rightarrow> wifi_state \<Rightarrow> bool" where
  "wf_keeps b s t \<longleftrightarrow> (wf_inv b s \<longrightarrow> wf_inv b t) \<and> wf_records t = wf_records s \<and> wf_ap_num t = wf_ap_num s \<and>
     wf_list_held t = wf_list_held s \<and> wf_mode t = wf_mode s"

named_theorems wf_keeps_simps \<open>updates and calls that keep the Wi-Fi invariant\<close>

lemma wf_keeps_refl [simp]: "wf_keeps b s s"
  by (simp add: wf_keeps_def)

lemma wf_keeps_trans: "wf_keeps b s t \<Longrightarrow> wf_keeps b t u \<Longrightarrow> wf_keeps b s u"
  by (simp add: wf_keeps_def)

lemma wf_inv_frame:
  "wf_calls t = wf_calls s \<Longrightarrow> wf_services t = wf_services s \<Longrightarrow> wf_sta_flags t = wf_sta_flags s \<Longrightarrow> wf_inv b t = wf_inv b s"
  by (simp add: wf_inv_def)

lemma wf_keeps_updates [wf_keeps_simps]:
  "wf_keeps b s (t\<lparr>wf_cfg := x1\<rparr>) = wf_keeps b s t"
  "wf_keeps b s (t\<lparr>wf_network := x2\<rparr>) = wf_keeps b s t"
  "wf_keeps b s (t\<lparr>wf_sta_cfg := x3\<rparr>) = wf_keeps b s t"
  "wf_keeps b s (t\<lparr>wf_connected := x4\<rparr>) = wf_keeps b s t"
  "wf_keeps b s (t\<lparr>wf_scanning := x5\<rparr>) = wf_keeps b s t"
  "wf_keeps b s (t\<lparr>wf_apsta := x6\<rparr>) = wf_keeps b s t"
  "wf_keeps b s (t\<lparr>wf_selected := x7\<rparr>) = wf_keeps b s t"
  "wf_keeps b s (t\<lparr>wf_list_ip := x8\<rparr>) = wf_keeps b s t"
  "wf_keeps b s (t\<lparr>wf_ap_status := x9\<rparr>) = wf_keeps b s t"
  "wf_keeps b s (t\<lparr>wf_ap_flags := x10\<rparr>) = wf_keeps b s t"
  "wf_keeps b s (t\<lparr>wf_sta_netif := x11\<rparr>) = wf_keeps b s t"
  "wf_keeps b s (t\<lparr>wf_ap_netif := x11\<rparr>) = wf_keeps b s t"
  "wf_keeps b s (t\<lparr>wf_sta_name := x12\<rparr>) = wf_keeps b s t"
  "wf_keeps b s (t\<lparr>wf_ap_name := x12\<rparr>) = wf_keeps b s t"
  "wf_keeps b s (t\<lparr>wf_timers := x13\<rparr>) = wf_keeps b s t"
  by (simp_all add: wf_keeps_def wf_inv_def)

fun harmless :: "net_call \<Rightarrow> bool" where
  "harmless (Svc_init v ok) = (v \<notin> tracked)"
| "harmless (Svc_stop v) = (v \<notin> tracked)"
| "harmless (Publish sta changed flags) = (\<not> sta \<or> Ip_aquired \<notin> changed)"
| "harmless c = True"

lemma runs_harmless: "harmless c \<Longrightarrow> v \<in> tracked \<Longrightarrow> runs v [c] = 0"
  by (cases c rule: harmless.cases) auto

lemma ip_event_harmless: "harmless c \<Longrightarrow> \<not> is_ip_event c"
  by (cases c rule: harmless.cases) (auto simp: is_ip_event_def)

lemma wf_keeps_call [wf_keeps_simps]: "harmless c \<Longrightarrow> wf_keeps b s (wf_call c t) = wf_keeps b s t"
  by (auto simp: wf_keeps_def wf_inv_def wf_call_def runs_harmless ip_event_harmless simp del: runs.simps)

lemma wf_keeps_if [wf_keeps_simps]: "wf_keeps b s (if c then t else u) = ((c \<longrightarrow> wf_keeps b s t) \<and> (\<not> c \<longrightarrow> wf_keeps b s u))"
  by simp

lemma wf_keeps_start_svc:
  assumes "v \<notin> wf_services s \<or> v \<notin> tracked" "v \<in> nb_services b \<or> v \<notin> tracked"
  shows "wf_keeps b s (wf_start_svc env v s)"
  using assms
  by (auto simp: wf_keeps_def wf_inv_def wf_start_svc_def wf_call_def is_ip_event_def)

lemma wf_keeps_start_if: "wf_keeps b s (wf_start_if b env v s)"
  by (simp add: wf_start_if_def wf_keeps_start_svc)

lemma not_tracked [simp]: "Http \<notin> tracked" "Webdav \<notin> tracked" "Ftp \<notin> tracked" "Ssdp \<notin> tracked" "Dns \<notin> tracked"
  by (simp_all add: tracked_def)

lemma wf_keeps_start_http: "wf_keeps b s (wf_start_http b env s)"
proof -
  have "wf_keeps b s (wf_start_if b env Webdav (wf_start_svc env Http s))"
    by (rule wf_keeps_trans [OF wf_keeps_start_svc wf_keeps_start_if]) simp_all
  then show ?thesis by (simp add: wf_start_http_def)
qed

lemma wf_keeps_start_ssdp: "wf_keeps b s (wf_start_ssdp b env ssdp s)"
  by (simp add: wf_start_ssdp_def wf_keeps_start_svc)

lemma wf_keeps_start_mdns: "wf_keeps b s (wf_start_mdns b env s)"
  using wf_keeps_start_svc [of Mdns s b env]
  by (simp add: wf_start_mdns_def Let_def wf_keeps_simps)

lemma wf_keeps_start_services: "wf_keeps b s (start_services b env ssdp s)"
proof -
  let ?s1 = "wf_start_if b env Telnet s" and ?s2 = "wf_start_if b env Websocket (wf_start_if b env Telnet s)"
  let ?s3 = "wf_start_if b env Ftp ?s2"
  have "wf_keeps b s (wf_start_mdns b env (wf_start_ssdp b env ssdp (wf_start_http b env ?s3)))"
    by (intro wf_keeps_trans [OF _ wf_keeps_start_mdns] wf_keeps_trans [OF _ wf_keeps_start_ssdp]
        wf_keeps_trans [OF _ wf_keeps_start_http] wf_keeps_trans [OF _ wf_keeps_start_if]) simp
  then show ?thesis by (simp add: start_services_def Let_def wf_keeps_simps)
qed

lemma wf_keeps_poll: "wf_keeps b s (wf_poll c v s)"
  by (simp add: wf_poll_def wf_keeps_simps)

lemma wf_keeps_timer: "wf_keeps b s (lwIPHostTimerHandler b s)"
  unfolding lwIPHostTimerHandler_def Let_def
  by (intro wf_keeps_trans [OF _ wf_keeps_poll]) (simp add: wf_keeps_simps)

lemma wf_keeps_begin_scan: "wf_keeps b s (wf_begin_scan env s)"
  by (simp add: wf_begin_scan_def wf_keeps_simps)

lemma wf_keeps_unflag_scan: "wf_keeps b s (wf_unflag_scan s)"
proof -
  have "wf_keeps b s (s\<lparr>wf_sta_flags := wf_sta_flags s - {Ap_scan_completed}\<rparr>)"
    by (auto simp: wf_keeps_def wf_inv_def)
  then show ?thesis by (simp add: wf_unflag_scan_def status_event_publish_def wf_keeps_simps)
qed

lemma wf_keeps_scan: "wf_keeps b s (wifi_ap_scan env s)"
  unfolding wifi_ap_scan_def by (rule wf_keeps_trans [OF wf_keeps_begin_scan wf_keeps_unflag_scan])

lemma wf_keeps_flag_ip: "wf_keeps b s (wf_flag_ip s)"
  by (auto simp: wf_flag_ip_def wf_keeps_def wf_inv_def status_event_publish_def wf_call_def is_ip_event_def)

lemma wf_keeps_dns_off: "wf_keeps b s (wf_dns_off s)"
proof -
  have "wf_keeps b s (s\<lparr>wf_services := wf_services s - {Dns}\<rparr>)"
    by (auto simp: wf_keeps_def wf_inv_def tracked_def)
  then show ?thesis by (simp add: wf_dns_off_def wf_keeps_simps)
qed

lemma wf_keeps_credentials: "wf_keeps b s (wf_keep_credentials env s)"
  using wf_keeps_scan [of b s env] by (simp add: wf_keep_credentials_def wf_keeps_simps)

lemma wf_keeps_ip_connected: "wf_keeps b s (ip_connected b env ip s)"
  unfolding ip_connected_def by (rule wf_keeps_trans [OF _ wf_keeps_start_services]) (simp add: wf_keeps_simps)

lemma wf_keeps_ip_got: "wf_keeps b s (ip_got b env ip s)"
  unfolding ip_got_def
  by (intro wf_keeps_trans [OF _ wf_keeps_flag_ip] wf_keeps_trans [OF _ wf_keeps_credentials]
      wf_keeps_trans [OF _ wf_keeps_dns_off] wf_keeps_ip_connected)

lemma wf_keeps_dns_start: "wf_keeps b s (wf_dns_start env s)"
  by (simp add: wf_dns_start_def wf_keeps_start_svc)

lemma wf_keeps_ap_start: "wf_keeps b s (ap_start b env s)"
proof -
  let ?t = "if wf_apsta s then wf_dns_start env (start_services b env False s) else s"
  have 1: "wf_keeps b s ?t"
    using wf_keeps_trans [OF wf_keeps_start_services wf_keeps_dns_start] by simp
  show ?thesis unfolding ap_start_def Let_def
    using 1 by (simp add: status_ap_event_publish_def wf_keeps_simps)
qed

lemma wf_keeps_ap_sta_connected: "wf_keeps b s (ap_sta_connected b env s)"
proof -
  have 1: "wf_keeps b s (wf_call (Report x) s)" for x by (simp add: wf_keeps_simps)
  from wf_keeps_trans [OF 1 wf_keeps_dns_start] wf_keeps_trans [OF 1 wf_keeps_start_services] 1
  show ?thesis by (simp add: ap_sta_connected_def Let_def)
qed

lemma wf_keeps_close: "wf_keeps b s (wf_close_if c v s)"
  by (simp add: wf_close_if_def wf_keeps_simps)

lemma wf_keeps_ap_sta_disconnected: "wf_keeps b s (ap_sta_disconnected b env s)"
proof -
  have 1: "wf_keeps b s (wf_close_if b Websocket (wf_close_if b Telnet s))"
    by (rule wf_keeps_trans [OF wf_keeps_close wf_keeps_close])
  from 1 wf_keeps_trans [OF 1 wf_keeps_scan] show ?thesis
    by (simp add: ap_sta_disconnected_def Let_def wf_keeps_simps)
qed

lemma wf_keeps_sta_disconnected: "wf_keeps b s (sta_disconnected b env s)"
proof -
  let ?t = "(wf_call (Report ''WIFI STA DISCONNECTED'') (wf_close_if b Websocket (wf_close_if b Telnet s)))
      \<lparr>wf_sta_cfg := sta_config_zero\<rparr>"
  have 1: "wf_keeps b s ?t"
    using wf_keeps_trans [OF wf_keeps_close wf_keeps_close] by (simp add: wf_keeps_simps)
  from 1 wf_keeps_trans [OF 1 wf_keeps_dns_start] show ?thesis
    by (simp add: sta_disconnected_def Let_def wf_keeps_simps)
qed

lemma wf_keeps_stop_if:
  "v \<in> tracked \<Longrightarrow> v \<in> nb_services b \<Longrightarrow> runs w (wf_calls (wf_stop_if b running v s)) =
     runs w (wf_calls s) - (if w = v \<and> v \<in> running then 1 else 0)"
  by (simp add: wf_stop_if_def wf_call_def)

lemma stop_services_calls:
  "runs w (wf_calls (stop_services b s)) = runs w (wf_calls s) -
     (if w \<in> wf_services s \<and> (w \<in> tracked \<inter> nb_services b \<or> w = Dns) then 1 else 0)"
  by (cases w) (simp_all add: stop_services_def Let_def wf_stop_if_def wf_call_def tracked_def)

lemma stop_services_ip_events:
  "filter is_ip_event (wf_calls (stop_services b s)) = filter is_ip_event (wf_calls s)"
  by (simp add: stop_services_def Let_def wf_stop_if_def wf_call_def is_ip_event_def)

lemma stop_services_fields:
  "wf_services (stop_services b s) = {}" "wf_sta_flags (stop_services b s) = wf_sta_flags s"
  "wf_records (stop_services b s) = wf_records s" "wf_ap_num (stop_services b s) = wf_ap_num s"
  "wf_list_held (stop_services b s) = wf_list_held s" "wf_mode (stop_services b s) = wf_mode s"
  by (simp_all add: stop_services_def Let_def wf_stop_if_def wf_call_def)

lemma wf_keeps_stop: "wf_keeps b s (snd (wifi_stop b s))"
proof -
  have "wf_keeps b s (stop_services b s)"
    by (auto simp: wf_keeps_def wf_inv_def stop_services_calls stop_services_ip_events stop_services_fields)
  then show ?thesis by (simp add: wifi_stop_def wf_keeps_simps)
qed

lemma wf_keeps_connect:
  "wifi_ap_connect m n env ssid pw s = Some (r, t) \<Longrightarrow> wf_keeps b s t"
  by (auto simp: wifi_ap_connect_def Let_def wf_keeps_simps split: if_splits option.splits)

lemma wf_inv_scan_done: "wf_inv b s \<Longrightarrow> wf_inv b (scan_done env s)"
proof -
  assume s: "wf_inv b s"
  let ?t = "s\<lparr>wf_scanning := False, wf_ap_num := length (we_found env),
                  wf_records := (if we_malloc env then Some (we_found env) else None)\<rparr>"
  have 1: "wf_inv b ?t" "wf_inv b (s\<lparr>wf_scanning := False\<rparr>)" using s by (simp_all add: wf_inv_def)
  have 2: "wf_inv b (?t\<lparr>wf_sta_flags := insert Ap_scan_completed (wf_sta_flags ?t)\<rparr>)" using 1(1) by (simp add: wf_inv_def)
  have 3: "wf_inv b u \<Longrightarrow> wf_inv b (status_event_publish {Ap_scan_completed} u)" for u
    using wf_keeps_call [of "Publish True {Ap_scan_completed} (wf_sta_flags u)" b u u]
    by (simp add: status_event_publish_def wf_keeps_def)
  from 1 3 [OF 2] show ?thesis by (simp add: scan_done_def Let_def)
qed

lemma scan_done_held:
  "wf_list_held s \<Longrightarrow> scan_done env s = s\<lparr>wf_scanning := False\<rparr>"
  by (simp add: scan_done_def)

lemma scan_done_mode: "wf_mode (scan_done env s) = wf_mode s" "wf_list_held (scan_done env s) = wf_list_held s"
  by (simp_all add: scan_done_def Let_def status_event_publish_def wf_call_def)

lemma wf_keeps_event:
  "ev \<noteq> WIFI_EVENT_SCAN_DONE \<Longrightarrow> wf_keeps b s (wifi_event_handler b env ev s)"
  by (cases ev) (simp_all add: wifi_event_handler_def wf_keeps_ap_start wf_keeps_ap_sta_connected
      wf_keeps_ap_sta_disconnected wf_keeps_sta_disconnected sta_start_def wf_keeps_simps)

text \<open>The start keeps everything but the mode, and the mutex of a driver that was not initialised.\<close>

definition wf_started :: "net_build \<Rightarrow> wifi_state \<Rightarrow> wifi_state \<Rightarrow> bool" where
  "wf_started b s t \<longleftrightarrow> (wf_inv b s \<longrightarrow> wf_inv b t) \<and> wf_records t = wf_records s \<and> wf_ap_num t = wf_ap_num s \<and>
     (wf_mode s \<noteq> None \<longrightarrow> wf_mode t \<noteq> None \<and> wf_list_held t = wf_list_held s) \<and>
     (wf_list_held t \<longrightarrow> wf_list_held s)"

lemma wf_keeps_started: "wf_keeps b s t \<Longrightarrow> wf_started b s t"
  by (simp add: wf_keeps_def wf_started_def)

lemma wf_started_trans: "wf_started b s t \<Longrightarrow> wf_started b t u \<Longrightarrow> wf_started b s u"
  by (auto simp: wf_started_def)

lemma wf_started_mode: "wf_started b s (s\<lparr>wf_mode := Some m\<rparr>)"
  by (simp add: wf_started_def wf_inv_def)

lemma wf_keeps_init_adapter: "wf_keeps b s (snd (init_adapter d n s))"
  by (simp add: init_adapter_def Let_def wf_keeps_simps)

lemma wf_started_boot: "wf_started b s (snd (wifi_boot env s))"
proof (cases "wf_mode s")
  case None
  let ?t = "s\<lparr>wf_connected := False, wf_scanning := False, wf_apsta := False, wf_list_held := False\<rparr>"
  have 1: "wf_started b s ?t" using None by (simp add: wf_started_def wf_inv_def)
  from wf_started_trans [OF 1 wf_started_mode] 1 None
    wf_started_trans [OF wf_started_trans [OF 1 wf_started_mode] wf_started_mode] show ?thesis
    by (simp add: wifi_boot_def Let_def)
next
  case (Some m)
  then show ?thesis by (simp add: wifi_boot_def wf_keeps_started)
qed

lemma wf_started_config_ap: "wf_started b s (snd (wifi_config_ap d env s))"
proof -
  let ?n = "(ws_ap_net (wf_cfg s))\<lparr>net_ip_mode := IpMode_Static\<rparr>"
  let ?t = "snd (init_adapter d ?n (s\<lparr>wf_ap_netif := True, wf_cfg := (wf_cfg s)\<lparr>ws_ap_net := ?n\<rparr>\<rparr>))"
  have 1: "wf_started b s ?t"
    by (intro wf_keeps_started wf_keeps_trans [OF _ wf_keeps_init_adapter]) (simp add: wf_keeps_simps)
  have 2: "wf_started b s (?t\<lparr>wf_mode := Some m\<rparr>)" for m by (rule wf_started_trans [OF 1 wf_started_mode])
  have 3: "wf_started b s (?t\<lparr>wf_mode := Some m, wf_ap_name := x\<rparr>)"
    "wf_started b s (?t\<lparr>wf_mode := Some m, wf_ap_name := x, wf_apsta := True\<rparr>)" for m x
    by (rule wf_started_trans [OF 2 [of m] wf_keeps_started], simp add: wf_keeps_simps)+
  show ?thesis using 1 2 3 by (simp add: wifi_config_ap_def Let_def)
qed

lemma wf_started_update [wf_keeps_simps]:
  "wf_started b s (t\<lparr>wf_sta_cfg := x3\<rparr>) = wf_started b s t"
  "wf_started b s (t\<lparr>wf_cfg := x1\<rparr>) = wf_started b s t"
  "wf_started b s (t\<lparr>wf_sta_name := x12\<rparr>) = wf_started b s t"
  "wf_started b s (t\<lparr>wf_ap_name := x12\<rparr>) = wf_started b s t"
  "wf_started b s (t\<lparr>wf_ap_flags := x10\<rparr>) = wf_started b s t"
  by (simp_all add: wf_started_def wf_inv_def)

lemma wf_started_call [wf_keeps_simps]: "harmless c \<Longrightarrow> wf_started b s t \<Longrightarrow> wf_started b s (wf_call c t)"
  using wf_started_trans [of b s t] wf_keeps_started [of b t "wf_call c t"] by (simp add: wf_keeps_simps)

lemma wf_started_config_sta: "wf_started b s (snd (wifi_config_sta d env s))"
proof -
  let ?n = "(ws_sta_net (wf_cfg s))\<lparr>net_ip_mode := IpMode_DHCP\<rparr>"
  define t where "t = snd (init_adapter d ?n (s\<lparr>wf_sta_netif := True, wf_cfg := (wf_cfg s)\<lparr>ws_sta_net := ?n\<rparr>\<rparr>))"
  have 1: "wf_started b s t" unfolding t_def
    by (intro wf_keeps_started wf_keeps_trans [OF _ wf_keeps_init_adapter]) (simp add: wf_keeps_simps)
  have 2: "wf_started b s (t\<lparr>wf_sta_cfg := c, wf_mode := Some m\<rparr>)" for c m
    by (rule wf_started_trans [OF _ wf_started_mode]) (simp add: 1 wf_keeps_simps)
  show ?thesis
    unfolding wifi_config_sta_def Let_def t_def [symmetric]
    by (simp add: t_def [symmetric] 1 2 wf_keeps_simps)
qed

lemma wf_started_sta_flag: "wf_started b s (s\<lparr>wf_sta_flags := insert Interface_up (wf_sta_flags s)\<rparr>)"
  by (simp add: wf_started_def wf_inv_def)

definition wf_up :: "bool \<Rightarrow> wifi_state \<Rightarrow> wifi_state" where
  "wf_up sta s =
     (if sta then status_event_publish {Interface_up} (s\<lparr>wf_sta_flags := insert Interface_up (wf_sta_flags s)\<rparr>)
      else status_ap_event_publish {Interface_up} (s\<lparr>wf_ap_flags := insert Interface_up (wf_ap_flags s)\<rparr>))"

lemma wf_started_up: "wf_started b s (wf_up sta s)"
  using wf_started_sta_flag [of b s]
  by (simp add: wf_up_def status_event_publish_def status_ap_event_publish_def wf_keeps_simps wf_keeps_started)

lemma wf_started_go: "wf_started b s (snd (wifi_go env we s))"
proof -
  let ?m = "ws_mode (wf_cfg s)"
  define t where "t = wf_call Esp_start s"
  have m: "ws_mode (wf_cfg t) = ?m" by (simp add: t_def wf_call_def)
  have 0: "wf_started b s t" by (simp add: t_def wf_keeps_started wf_keeps_simps)
  define u where "u = (if ?m = WiFiMode_AP \<or> ?m = WiFiMode_APSTA then wf_up False t else t)"
  have 1: "wf_started b s u" using 0 wf_started_trans [OF 0 wf_started_up] by (simp add: u_def)
  define v where "v = (if ?m = WiFiMode_STA \<or> ?m = WiFiMode_APSTA then wf_up True u else u)"
  have 2: "wf_started b s v" using 1 wf_started_trans [OF 1 wf_started_up] by (simp add: v_def)
  have 3: "wf_started b s (wifi_ap_scan we v)" by (rule wf_started_trans [OF 2 wf_keeps_started [OF wf_keeps_scan]])
  have "snd (wifi_go env we s) = (if wse_start env then if ?m = WiFiMode_APSTA then wifi_ap_scan we v else v else t)"
    by (simp add: wifi_go_def Let_def t_def u_def v_def wf_up_def wf_call_def)
  with 0 2 3 show ?thesis by simp
qed

lemma wf_started_start: "wf_started b s (snd (wifi_start bb d nvs env we s))"
proof (cases "nvs = 0")
  case True
  then show ?thesis by (simp add: wifi_start_def wf_keeps_started)
next
  case False
  define t where "t = (if \<not> nb_softap bb \<and> ws_mode (wf_cfg s) = WiFiMode_APSTA
                 then s\<lparr>wf_cfg := (wf_cfg s)\<lparr>ws_mode := nd_mode d\<rparr>\<rparr> else s)"
  have 0: "wf_started b s t" by (simp add: t_def wf_keeps_started wf_keeps_simps)
  obtain ok1 u where u: "wifi_boot env t = (ok1, u)" by (cases "wifi_boot env t")
  have 1: "wf_started b s u" using wf_started_trans [OF 0 wf_started_boot, of env] u by simp
  let ?m = "ws_mode (wf_cfg u)" and ?df = "wf_mode u \<noteq> Some (settingToMode (ws_mode (wf_cfg u)))"
  obtain ok2 v where v: "(if ?df \<and> (?m = WiFiMode_AP \<or> ?m = WiFiMode_APSTA) then wifi_config_ap d env u else (True, u)) = (ok2, v)"
    by (cases "if ?df \<and> (?m = WiFiMode_AP \<or> ?m = WiFiMode_APSTA) then wifi_config_ap d env u else (True, u)")
  have 2: "wf_started b s v" using wf_started_trans [OF 1 wf_started_config_ap, of d env] 1 v by (auto split: if_splits)
  obtain ok3 w where w: "(if ?df \<and> (?m = WiFiMode_STA \<or> ?m = WiFiMode_APSTA) then wifi_config_sta d env v else (True, v)) = (ok3, w)"
    by (cases "if ?df \<and> (?m = WiFiMode_STA \<or> ?m = WiFiMode_APSTA) then wifi_config_sta d env v else (True, v)")
  have 3: "wf_started b s w" using wf_started_trans [OF 2 wf_started_config_sta, of d env] 2 w by (auto split: if_splits)
  have 4: "wf_started b s (snd (wifi_go env we w))" by (rule wf_started_trans [OF 3 wf_started_go])
  have "snd (wifi_start bb d nvs env we s) \<in> {u, v, w, snd (wifi_go env we w)}"
    using False u v w by (simp add: wifi_start_def Let_def t_def [symmetric])
  with 1 2 3 4 show ?thesis by auto
qed

definition wf_stepped :: "net_build \<Rightarrow> wifi_state \<Rightarrow> wifi_state \<Rightarrow> bool" where
  "wf_stepped b s t \<longleftrightarrow> (wf_inv b s \<longrightarrow> wf_inv b t) \<and> (wf_mode s \<noteq> None \<longrightarrow> wf_mode t \<noteq> None) \<and>
    (wf_mode t = None \<longrightarrow> wf_records s = None \<and> \<not> wf_list_held s \<longrightarrow> wf_records t = None \<and> \<not> wf_list_held t) \<and>
    (wf_list_held s \<and> wf_mode s \<noteq> None \<longrightarrow> wf_records t = wf_records s \<and> wf_ap_num t = wf_ap_num s)"

lemma wf_started_stepped: "wf_started b s t \<Longrightarrow> wf_stepped b s t"
  by (auto simp: wf_started_def wf_stepped_def)

lemma wf_keeps_stepped: "wf_keeps b s t \<Longrightarrow> wf_stepped b s t"
  by (rule wf_started_stepped [OF wf_keeps_started])

lemma wf_step_stepped: "wifi_step b d s t \<Longrightarrow> wf_stepped b s t"
proof (induction rule: wifi_step.induct)
  case (got_ip s env ip)
  show ?case by (simp add: ip_event_handler_def wf_keeps_stepped wf_keeps_ip_got)
next
  case (event s env ev)
  show ?case
  proof (cases "ev = WIFI_EVENT_SCAN_DONE")
    case True
    with event wf_inv_scan_done [of b s env] scan_done_held [of s env] show ?thesis
      by (auto simp: wifi_event_handler_def wf_stepped_def scan_done_mode)
  qed (simp add: wf_keeps_stepped wf_keeps_event)
next
  case (get_list s)
  show ?case by (auto simp: wf_stepped_def wifi_get_aplist_def wf_inv_def)
next
  case (release s)
  then show ?case by (simp add: wf_stepped_def wifi_release_aplist_def wf_inv_def)
next
  case (connect s m n env ssid pw r t)
  then show ?case using wf_keeps_connect wf_keeps_stepped by blast
qed (simp_all add: wf_keeps_stepped wf_keeps_scan wf_keeps_timer wf_keeps_stop wf_started_stepped wf_started_start)

lemma wifi_reach_inv:
  "wifi_reach b d s \<Longrightarrow> wf_inv b s \<and> (wf_mode s = None \<longrightarrow> wf_records s = None \<and> \<not> wf_list_held s)"
proof (induction rule: wifi_reach.induct)
  case (init cfg allowed)
  show ?case by (simp add: wifi_zero_def wf_inv_def)
next
  case (step s t)
  with wf_step_stepped [OF step.hyps(2)] show ?case by (auto simp: wf_stepped_def)
qed

text \<open>
  C33. In every state the interface can reach, whatever the events, scans, connections, timeouts,
  starts and stops and their results, each of Telnet, WebSocket and mDNS has been started
  exactly once more than it was stopped if it is marked as running, and as often as it was
  stopped if not: none is started twice, none is stopped that does not run.  The acquired
  address is published once at most, since the event of its loss is not registered: a
  reconnecting station is not announced.
\<close>

theorem wifi_services_balanced:
  assumes "wifi_reach b d s" "v \<in> {Telnet, Websocket, Mdns}"
  shows "runs v (wf_calls s) = (if v \<in> wf_services s then 1 else 0) \<and> (v \<in> wf_services s \<longrightarrow> v \<in> nb_services b) \<and>
    length (filter is_ip_event (wf_calls s)) \<le> 1"
proof -
  have v: "v \<in> tracked" using assms(2) by (simp add: tracked_def)
  from wifi_reach_inv [OF assms(1)] have i: "wf_inv b s" by blast
  have "runs v (wf_calls s) = (if v \<in> wf_services s then 1 else 0)" "tracked \<inter> wf_services s \<subseteq> nb_services b"
    "length (filter is_ip_event (wf_calls s)) = (if Ip_aquired \<in> wf_sta_flags s then 1 else 0)"
    using i v unfolding wf_inv_def by blast+
  then show ?thesis using v by auto
qed


subsection \<open>A run\<close>

definition net0 :: net_settings where
  "net0 = net_zero\<lparr>net_ip := 167772161, net_hostname := [103], net_services := {Telnet, Websocket, Mdns, Http}\<rparr>"

definition wifi_cfg0 :: wifi_settings where
  "wifi_cfg0 = \<lparr>ws_mode = WiFiMode_APSTA, ws_sta_ssid = [104], ws_sta_password = [], ws_sta_net = net0,
     ws_ap_ssid = [103, 114], ws_ap_password = [], ws_ap_country = ''SE'', ws_ap_channel = 1,
     ws_ap_bssid = [0, 0, 0, 0, 0, 0], ws_ap_net = net0\<rparr>"

definition net_build0 :: net_build where
  "net_build0 = \<lparr>nb_services = {Telnet, Websocket, Mdns, Http}, nb_softap = True, nb_ethernet = False\<rparr>"

definition net_defaults0 :: net_defaults where
  "net_defaults0 = \<lparr>nd_mode = WiFiMode_STA, nd_telnet = 23, nd_websocket = 81, nd_http = 80, nd_ftp = 21,
     nd_sta = net0, nd_ap = net0, nd_ap_ssid = [103], nd_ap_password = []\<rparr>"

definition wifi_env0 :: wifi_env where
  "wifi_env0 = \<lparr>we_svc = (\<lambda>v. v \<noteq> Mdns), we_scan = True, we_found = [7, 9], we_malloc = True, we_connect = True\<rparr>"

definition wifi_start_env0 :: wifi_start_env where
  "wifi_start_env0 = \<lparr>wse_register = True, wse_init = True, wse_default = WIFI_MODE_STA, wse_storage = True,
     wse_set_null = True, wse_set_mode_ap = True, wse_set_config_ap = True, wse_ap_name = ''ap1'',
     wse_set_mode_sta = True, wse_set_config_sta = True, wse_sta_name = ''st1'', wse_start = True\<rparr>"

definition wifi1 :: wifi_state where
  \<comment> \<open>started as access point and station\<close>
  "wifi1 = wifi_event_handler net_build0 wifi_env0 WIFI_EVENT_AP_START
     (snd (wifi_start net_build0 net_defaults0 1 wifi_start_env0 wifi_env0 (wifi_zero wifi_cfg0 {})))"

definition wifi2 :: wifi_state where
  \<comment> \<open>the scan has ended and a reader has the list\<close>
  "wifi2 = snd (wifi_get_aplist (wifi_event_handler net_build0 wifi_env0 WIFI_EVENT_SCAN_DONE wifi1))"

lemmas wifi_run_defs = wifi1_def wifi2_def net0_def wifi_cfg0_def net_build0_def net_defaults0_def wifi_env0_def
  wifi_start_env0_def

lemma wifi1_facts:
  "wf_mode (snd (wifi_start net_build0 net_defaults0 1 wifi_start_env0 wifi_env0 (wifi_zero wifi_cfg0 {}))) \<noteq> None"
  "wf_mode wifi1 \<noteq> None" "Telnet \<in> wf_services wifi1" "wf_apsta wifi1" "wf_timers wifi1 = 1"
  by (simp_all add: wifi_run_defs wifi_event_handler_def ap_start_def wifi_start_def wifi_boot_def wifi_config_ap_def
      wifi_config_sta_def wifi_go_def init_adapter_def settingToMode_def wifi_zero_def sta_config_zero_def net_zero_def
      wifi_ap_scan_def wf_begin_scan_def wf_unflag_scan_def wf_call_def status_event_publish_def status_ap_event_publish_def
      start_services_def wf_start_if_def wf_start_http_def wf_start_ssdp_def wf_start_mdns_def wf_dns_start_def
      wf_start_svc_def Let_def)


lemma wifi1_reach: "wifi_reach net_build0 net_defaults0 wifi1"
  unfolding wifi1_def
  by (rule wifi_reach.step [OF wifi_reach.step [OF wifi_reach.init wifi_step.start] wifi_step.event [OF wifi1_facts(1)]])


theorem wifi_services_balanced_witness:
  "runs Telnet (wf_calls wifi1) = 1 \<and> length (filter is_ip_event (wf_calls wifi1)) \<le> 1"
  using wifi_services_balanced [OF wifi1_reach, of Telnet] wifi1_facts(3) by simp


subsection \<open>What a restart and repeated events do\<close>

lemma timers_start_svc [simp]: "wf_timers (wf_start_svc env v s) = wf_timers s"
  by (simp add: wf_start_svc_def wf_call_def)

lemma timers_start_if [simp]: "wf_timers (wf_start_if b env v s) = wf_timers s"
  by (simp add: wf_start_if_def)

lemma timers_start_http [simp]: "wf_timers (wf_start_http b env s) = wf_timers s"
  by (simp add: wf_start_http_def)

lemma timers_start_ssdp [simp]: "wf_timers (wf_start_ssdp b env ssdp s) = wf_timers s"
  by (simp add: wf_start_ssdp_def)

lemma timers_start_mdns [simp]: "wf_timers (wf_start_mdns b env s) = wf_timers s"
  by (simp add: wf_start_mdns_def Let_def) (simp add: wf_call_def)

lemma apsta_start_svc [simp]: "wf_apsta (wf_start_svc env v s) = wf_apsta s"
  by (simp add: wf_start_svc_def wf_call_def)

lemma apsta_start_services [simp]: "wf_apsta (start_services b env ssdp s) = wf_apsta s"
proof -
  have 1: "wf_apsta (wf_start_if b env v s) = wf_apsta s" for v s by (simp add: wf_start_if_def)
  have 2: "wf_apsta (wf_start_http b env s) = wf_apsta s" for s by (simp add: wf_start_http_def 1)
  have 3: "wf_apsta (wf_start_ssdp b env ssdp s) = wf_apsta s" for s by (simp add: wf_start_ssdp_def)
  have 4: "wf_apsta (wf_start_mdns b env s) = wf_apsta s" for s
    by (simp add: wf_start_mdns_def Let_def) (simp add: wf_call_def)
  show ?thesis by (simp add: start_services_def Let_def 1 2 3 4)
qed

lemma start_services_timers:
  "wf_timers (start_services b env ssdp s) =
     wf_timers s + (if {Telnet, Websocket, Ftp} \<inter> nb_services b \<noteq> {} then 1 else 0)"
  by (simp add: start_services_def Let_def)

text \<open>
  Every address acquired by the station and every station that joins the access point starts one
  more chain of timeouts, and a chain goes on for as long as any service runs: the daemons are
  polled more often with every connection.
\<close>

lemma wifi_timers_accumulate:
  assumes "Telnet \<in> nb_services b" "\<not> wf_apsta s"
  shows "wf_timers (((\<lambda>s. ap_sta_connected b env s) ^^ n) s) = wf_timers s + n"
    and "wf_services t \<noteq> {} \<Longrightarrow> wf_timers t > 0 \<Longrightarrow> wf_timers (lwIPHostTimerHandler b t) = wf_timers t"
proof -
  have a: "\<not> wf_apsta u \<Longrightarrow> \<not> wf_apsta (ap_sta_connected b env u)" for u
    by (simp add: ap_sta_connected_def wf_call_def)
  have t: "\<not> wf_apsta u \<Longrightarrow> wf_timers (ap_sta_connected b env u) = wf_timers u + 1" for u
    using assms(1) by (auto simp: ap_sta_connected_def Let_def start_services_timers wf_call_def)
  have "\<not> wf_apsta (((\<lambda>s. ap_sta_connected b env s) ^^ n) s) \<and>
      wf_timers (((\<lambda>s. ap_sta_connected b env s) ^^ n) s) = wf_timers s + n"
    using assms(2) by (induction n) (simp_all add: a t)
  then show "wf_timers (((\<lambda>s. ap_sta_connected b env s) ^^ n) s) = wf_timers s + n" by blast
qed (simp add: lwIPHostTimerHandler_def Let_def wf_poll_def wf_call_def)

text \<open>
  After a stop the next start finds the mode unchanged and configures nothing: the bit that says
  that access point and station run together stays clear, so the events are handled as in plain
  access point mode.
\<close>

lemma wifi_restart_loses_apsta:
  assumes "wf_mode s = Some WIFI_MODE_APSTA" "ws_mode (wf_cfg s) = WiFiMode_APSTA" "nb_softap b" "nvs \<noteq> 0"
  shows "\<not> wf_apsta (snd (wifi_start b d nvs env we (snd (wifi_stop b s))))"
proof -
  have f: "wf_mode (snd (wifi_stop b s)) = Some WIFI_MODE_APSTA" "ws_mode (wf_cfg (snd (wifi_stop b s))) = WiFiMode_APSTA"
    "\<not> wf_apsta (snd (wifi_stop b s))"
    using assms by (simp_all add: wifi_stop_def stop_services_def Let_def wf_stop_if_def wf_call_def)
  have "snd (wifi_start b d nvs env we (snd (wifi_stop b s))) = snd (wifi_go env we (snd (wifi_stop b s)))"
    using assms(3,4) f by (simp add: wifi_start_def wifi_boot_def settingToMode_def Let_def)
  also have "\<not> wf_apsta (snd (wifi_go env we (snd (wifi_stop b s))))"
    using f by (simp add: wifi_go_def Let_def wifi_ap_scan_def wf_unflag_scan_def wf_begin_scan_def
        status_event_publish_def status_ap_event_publish_def wf_call_def)
  finally show ?thesis by simp
qed

text \<open>An SSID the settings accept, of 32 characters or more, is copied behind the end of the driver's field.\<close>

lemma wifi_connect_overrun:
  assumes "32 \<le> length ssid" "length ssid < ssid_size" "length pw < password_size"
  shows "wifi_ap_connect ssid_size password_size env (Some ssid) pw s = None"
  using assms by (auto simp: wifi_ap_connect_def Let_def)

end
