(* ===== verification/WifiSettings.thy ===== *)
theory WifiSettings
  imports Wifi
begin

text \<open>
  The settings of the Wi-Fi interface, \<open>main/wifi.c\<close> from \<open>wifi_set_bssid\<close> on: text and number
  settings, restoring the defaults, loading and checking what the settings memory holds, and the
  reports.  \<open>inet_pton\<close>, \<open>inet_ntop\<close>, \<open>strcaps\<close> and \<open>LCAPS\<close> belong to lwIP and to the core and
  are arguments; C strings are lists without their terminator.
\<close>

subsection \<open>The address of an access point\<close>

definition is_space :: "u8 \<Rightarrow> bool" where
  "is_space c \<longleftrightarrow> c = 32 \<or> (9 \<le> c \<and> c \<le> 13)"

definition hex_value :: "u8 \<Rightarrow> nat option" where
  "hex_value c =
     (if 48 \<le> c \<and> c \<le> 57 then Some (unat c - 48)
      else if 65 \<le> c \<and> c \<le> 70 then Some (unat c - 55)
      else if 97 \<le> c \<and> c \<le> 102 then Some (unat c - 87) else None)"

fun scan_hex2 :: "u8 list \<Rightarrow> (u32 \<times> u8 list) option" where
  \<comment> \<open>\<open>%2X\<close> after white space: two characters at most, a sign among them; \<open>0x\<close> is a prefix without
     a number\<close>
  "scan_hex2 [] = None"
| "scan_hex2 [c] = (case hex_value c of Some v \<Rightarrow> Some (of_nat v, []) | None \<Rightarrow> None)"
| "scan_hex2 (c # d # r) =
     (if c = 43 \<or> c = 45
      then (case hex_value d of None \<Rightarrow> None | Some v \<Rightarrow> Some (if c = 45 then - of_nat v else of_nat v, r))
      else case hex_value c of
             None \<Rightarrow> None
           | Some v \<Rightarrow>
               if c = 48 \<and> (d = 88 \<or> d = 120) then None
               else (case hex_value d of None \<Rightarrow> Some (of_nat v, d # r) | Some w \<Rightarrow> Some (of_nat (16 * v + w), r)))"

fun scan_mac :: "nat \<Rightarrow> u8 list \<Rightarrow> u32 list option" where
  \<comment> \<open>\<open>%2X:%2X:...\<close> with \<open>n\<close> numbers: all of them, or None\<close>
  "scan_mac 0 s = Some []"
| "scan_mac (Suc n) s =
     (case scan_hex2 (dropWhile is_space s) of
        None \<Rightarrow> None
      | Some (v, r) \<Rightarrow>
          if n = 0 then Some [v]
          else (case r of [] \<Rightarrow> None
                | c # r' \<Rightarrow> if c = 58 then (case scan_mac n r' of None \<Rightarrow> None | Some vs \<Rightarrow> Some (v # vs)) else None))"

definition wifi_set_bssid :: "(u8 \<Rightarrow> u8) \<Rightarrow> u8 list \<Rightarrow> wifi_settings \<Rightarrow> status_code \<times> wifi_settings" where
  "wifi_set_bssid lcaps value cfg =
     (if value \<noteq> [] then
        (case scan_mac 6 value of
           Some bssid \<Rightarrow>
             let c = lcaps (last value) in
             if \<not> ((48 \<le> c \<and> c \<le> 57) \<or> (97 \<le> c \<and> c \<le> 102)) then (Status_InvalidStatement, cfg)
             else (Status_OK, cfg\<lparr>ws_ap_bssid := map ucast (rev bssid)\<rparr>)
         | None \<Rightarrow> (Status_InvalidStatement, cfg))
      else (Status_OK, cfg\<lparr>ws_ap_bssid := replicate 6 0\<rparr>))"

definition wifi_get_bssid :: "wifi_settings \<Rightarrow> u8 list" where
  "wifi_get_bssid cfg =
     (if \<forall>x \<in> set (ws_ap_bssid cfg). x = 0 then [] else mac_string (rev (ws_ap_bssid cfg)))"

subsection \<open>The country\<close>

definition country_codes :: "string list" where
  "country_codes =
     [''01'', ''AT'', ''AU'', ''BE'', ''BG'', ''BR'', ''CA'', ''CH'', ''CN'', ''CY'', ''CZ'', ''DE'', ''DK'',
      ''EE'', ''ES'', ''FI'', ''FR'', ''GB'', ''GR'', ''HK'', ''HR'', ''HU'', ''IE'', ''IN'', ''IS'', ''IT'',
      ''JP'', ''KR'', ''LI'', ''LT'', ''LU'', ''LV'', ''MT'', ''MX'', ''NL'', ''NO'', ''NZ'', ''PL'', ''PT'',
      ''RO'', ''SE'', ''SI'', ''SK'', ''TW'', ''US'', []]"

fun find_country :: "string list \<Rightarrow> string \<Rightarrow> bool" where
  "find_country [] c = False"
| "find_country (x # xs) c = (if x = [] then False else if c = x then True else find_country xs c)"

definition validate_country_code :: "string \<Rightarrow> bool" where
  "validate_country_code c = (if c \<noteq> [] then find_country country_codes c else False)"

definition wifi_set_country :: "(string \<Rightarrow> string) \<Rightarrow> string \<Rightarrow> wifi_settings \<Rightarrow> status_code \<times> wifi_settings" where
  "wifi_set_country strcaps value cfg =
     (let v = strcaps value in
      if validate_country_code v then (Status_OK, cfg\<lparr>ws_ap_country := v\<rparr>) else (Status_GcodeValueOutOfRange, cfg))"

definition wifi_get_country :: "wifi_settings \<Rightarrow> string" where
  "wifi_get_country cfg = ws_ap_country cfg"

definition is_wifi_enabled :: "net_build \<Rightarrow> wifi_settings \<Rightarrow> bool" where
  "is_wifi_enabled b cfg = (if nb_ethernet b then ws_mode cfg \<noteq> WiFiMode_NULL else True)"

subsection \<open>Numbers\<close>

datatype wifi_int_id = Setting_NetworkServices | Setting_TelnetPort3 | Setting_FtpPort3 | Setting_HttpPort3
  | Setting_WebSocketPort3 | Setting_other_int

definition set_both :: "(net_settings \<Rightarrow> net_settings) \<Rightarrow> wifi_settings \<Rightarrow> wifi_settings" where
  "set_both f cfg = cfg\<lparr>ws_ap_net := f (ws_ap_net cfg), ws_sta_net := f (ws_sta_net cfg)\<rparr>"

definition wifi_set_int :: "net_build \<Rightarrow> (u8 \<Rightarrow> service set) \<Rightarrow> service set \<Rightarrow> wifi_int_id \<Rightarrow> u32 \<Rightarrow> wifi_settings \<Rightarrow>
    status_code \<times> wifi_settings" where
  \<comment> \<open>\<open>svcs\<close> is the set a mask stands for\<close>
  "wifi_set_int b svcs allowed i value cfg =
     (Status_OK,
      case i of
        Setting_NetworkServices \<Rightarrow> set_both (net_services_update (\<lambda>_. svcs (ucast value) \<inter> allowed)) cfg
      | Setting_TelnetPort3 \<Rightarrow>
          if Telnet \<in> nb_services b then set_both (net_telnet_port_update (\<lambda>_. ucast value)) cfg else cfg
      | Setting_FtpPort3 \<Rightarrow>
          if Ftp \<in> nb_services b then set_both (net_ftp_port_update (\<lambda>_. ucast value)) cfg else cfg
      | Setting_HttpPort3 \<Rightarrow>
          if Http \<in> nb_services b then set_both (net_http_port_update (\<lambda>_. ucast value)) cfg else cfg
      | Setting_WebSocketPort3 \<Rightarrow>
          if Websocket \<in> nb_services b then set_both (net_websocket_port_update (\<lambda>_. ucast value)) cfg else cfg
      | Setting_other_int \<Rightarrow> cfg)"

definition wifi_get_port :: "net_build \<Rightarrow> wifi_int_id \<Rightarrow> wifi_settings \<Rightarrow> u32" where
  \<comment> \<open>\<open>wifi_get_int\<close> but for the services\<close>
  "wifi_get_port b i cfg =
     (case i of
        Setting_TelnetPort3 \<Rightarrow> if Telnet \<in> nb_services b then ucast (net_telnet_port (ws_sta_net cfg)) else 0
      | Setting_FtpPort3 \<Rightarrow> if Ftp \<in> nb_services b then ucast (net_ftp_port (ws_sta_net cfg)) else 0
      | Setting_HttpPort3 \<Rightarrow> if Http \<in> nb_services b then ucast (net_http_port (ws_sta_net cfg)) else 0
      | Setting_WebSocketPort3 \<Rightarrow> if Websocket \<in> nb_services b then ucast (net_websocket_port (ws_sta_net cfg)) else 0
      | _ \<Rightarrow> 0)"

definition wifi_get_services :: "service set \<Rightarrow> wifi_settings \<Rightarrow> service set" where
  \<comment> \<open>\<open>wifi_get_int\<close> for the services\<close>
  "wifi_get_services allowed cfg = net_services (ws_sta_net cfg) \<inter> allowed"

subsection \<open>Addresses\<close>

datatype wifi_ip_id = Setting_IpAddress3 | Setting_Gateway3 | Setting_NetMask3
  | Setting_IpAddress2 | Setting_Gateway2 | Setting_NetMask2 | Setting_other_ip

definition wifi_set_ip :: "net_build \<Rightarrow> (u8 list \<Rightarrow> u32 option) \<Rightarrow> wifi_ip_id \<Rightarrow> u8 list \<Rightarrow> wifi_settings \<Rightarrow>
    status_code \<times> wifi_settings" where
  "wifi_set_ip b pton i value cfg =
     (case pton value of
        None \<Rightarrow> (Status_InvalidStatement, cfg)
      | Some a \<Rightarrow>
          (case i of
             Setting_IpAddress3 \<Rightarrow> (Status_OK, cfg\<lparr>ws_sta_net := (ws_sta_net cfg)\<lparr>net_ip := a\<rparr>\<rparr>)
           | Setting_Gateway3 \<Rightarrow> (Status_OK, cfg\<lparr>ws_sta_net := (ws_sta_net cfg)\<lparr>net_gateway := a\<rparr>\<rparr>)
           | Setting_NetMask3 \<Rightarrow> (Status_OK, cfg\<lparr>ws_sta_net := (ws_sta_net cfg)\<lparr>net_mask := a\<rparr>\<rparr>)
           | Setting_IpAddress2 \<Rightarrow>
               if nb_softap b then (Status_OK, cfg\<lparr>ws_ap_net := (ws_ap_net cfg)\<lparr>net_ip := a\<rparr>\<rparr>) else (Status_Unhandled, cfg)
           | Setting_Gateway2 \<Rightarrow>
               if nb_softap b then (Status_OK, cfg\<lparr>ws_ap_net := (ws_ap_net cfg)\<lparr>net_gateway := a\<rparr>\<rparr>) else (Status_Unhandled, cfg)
           | Setting_NetMask2 \<Rightarrow>
               if nb_softap b then (Status_OK, cfg\<lparr>ws_ap_net := (ws_ap_net cfg)\<lparr>net_mask := a\<rparr>\<rparr>) else (Status_Unhandled, cfg)
           | Setting_other_ip \<Rightarrow> (Status_Unhandled, cfg)))"

definition wifi_ip_field :: "net_build \<Rightarrow> wifi_ip_id \<Rightarrow> wifi_settings \<Rightarrow> u32 option" where
  "wifi_ip_field b i cfg =
     (case i of
        Setting_IpAddress3 \<Rightarrow> Some (net_ip (ws_sta_net cfg))
      | Setting_Gateway3 \<Rightarrow> Some (net_gateway (ws_sta_net cfg))
      | Setting_NetMask3 \<Rightarrow> Some (net_mask (ws_sta_net cfg))
      | Setting_IpAddress2 \<Rightarrow> if nb_softap b then Some (net_ip (ws_ap_net cfg)) else None
      | Setting_Gateway2 \<Rightarrow> if nb_softap b then Some (net_gateway (ws_ap_net cfg)) else None
      | Setting_NetMask2 \<Rightarrow> if nb_softap b then Some (net_mask (ws_ap_net cfg)) else None
      | Setting_other_ip \<Rightarrow> None)"

definition wifi_get_ip :: "net_build \<Rightarrow> (u32 \<Rightarrow> u8 list) \<Rightarrow> wifi_ip_id \<Rightarrow> wifi_settings \<Rightarrow> u8 list" where
  "wifi_get_ip b ntop i cfg = (case wifi_ip_field b i cfg of None \<Rightarrow> [] | Some a \<Rightarrow> ntop a)"

subsection \<open>Defaults, loading and saving\<close>

definition wifi_settings_zero :: wifi_settings where
  "wifi_settings_zero = \<lparr>ws_mode = WiFiMode_NULL, ws_sta_ssid = [], ws_sta_password = [], ws_sta_net = net_zero,
     ws_ap_ssid = [], ws_ap_password = [], ws_ap_country = [], ws_ap_channel = 0, ws_ap_bssid = replicate 6 0,
     ws_ap_net = net_zero\<rparr>"

definition net_common :: "net_defaults \<Rightarrow> service set \<Rightarrow> net_settings \<Rightarrow> net_settings" where
  \<comment> \<open>what station and access point have in common\<close>
  "net_common d allowed n = n\<lparr>net_telnet_port := nd_telnet d, net_ftp_port := nd_ftp d, net_http_port := nd_http d,
     net_websocket_port := nd_websocket d, net_services := allowed\<rparr>"

definition wifi_settings_defaults :: "net_build \<Rightarrow> net_defaults \<Rightarrow> service set \<Rightarrow> wifi_settings" where
  \<comment> \<open>an address of the defaults whose text is none is zero\<close>
  "wifi_settings_defaults b d allowed =
     (let cfg = wifi_settings_zero\<lparr>ws_mode := nd_mode d\<rparr>;
          sta = (ws_sta_net cfg)\<lparr>net_hostname := net_hostname (nd_sta d), net_ip_mode := net_ip_mode (nd_sta d),
                   net_ip := net_ip (nd_sta d), net_gateway := net_gateway (nd_sta d), net_mask := net_mask (nd_sta d)\<rparr>;
          cfg = cfg\<lparr>ws_sta_net := sta\<rparr>;
          ap = (ws_ap_net cfg)\<lparr>net_ip_mode := IpMode_Static, net_hostname := net_hostname (nd_ap d),
                  net_ip := net_ip (nd_ap d), net_gateway := net_gateway (nd_ap d), net_mask := net_mask (nd_ap d)\<rparr>;
          cfg = (if nb_softap b
                 then cfg\<lparr>ws_ap_net := ap, ws_ap_ssid := nd_ap_ssid d, ws_ap_password := nd_ap_password d\<rparr> else cfg)
      in cfg\<lparr>ws_sta_net := net_common d allowed (ws_sta_net cfg), ws_ap_net := net_common d allowed (ws_ap_net cfg)\<rparr>)"

text \<open>The settings and the settings memory; None: it holds no valid copy.\<close>

type_synonym wifi_store = "wifi_settings \<times> wifi_settings option"

definition wifi_settings_save :: "wifi_store \<Rightarrow> wifi_store" where
  "wifi_settings_save s = (fst s, Some (fst s))"

definition wifi_settings_restore :: "net_build \<Rightarrow> net_defaults \<Rightarrow> service set \<Rightarrow> wifi_store \<Rightarrow> wifi_store" where
  "wifi_settings_restore b d allowed s =
     (wifi_settings_defaults b d allowed, Some (wifi_settings_defaults b d allowed))"

definition check_ports :: "net_settings \<Rightarrow> net_settings" where
  "check_ports n =
     (if {Http, Websocket} \<subseteq> net_services n \<and> net_websocket_port n = net_http_port n
      then n\<lparr>net_websocket_port := net_websocket_port n + 1\<rparr> else n)"

definition check_channel :: "wifi_settings \<Rightarrow> wifi_settings" where
  "check_channel cfg =
     (if ws_ap_channel cfg = 0 \<or> ws_ap_channel cfg > 13 then cfg\<lparr>ws_ap_channel := 1\<rparr> else cfg)"

definition check_country :: "wifi_settings \<Rightarrow> wifi_settings" where
  "check_country cfg =
     (if \<not> validate_country_code (ws_ap_country cfg) then cfg\<lparr>ws_ap_country := hd country_codes\<rparr> else cfg)"

definition check_net :: "service set \<Rightarrow> net_settings \<Rightarrow> net_settings" where
  "check_net allowed n = check_ports (n\<lparr>net_services := net_services n \<inter> allowed\<rparr>)"

definition wifi_settings_check :: "service set \<Rightarrow> wifi_settings \<Rightarrow> wifi_settings" where
  \<comment> \<open>\<open>wifi_settings_load\<close> after the transfer\<close>
  "wifi_settings_check allowed cfg =
     (let cfg = check_country (check_channel cfg) in
      cfg\<lparr>ws_sta_net := check_net allowed (ws_sta_net cfg), ws_ap_net := check_net allowed (ws_ap_net cfg)\<rparr>)"

definition wifi_settings_load :: "net_build \<Rightarrow> net_defaults \<Rightarrow> service set \<Rightarrow> wifi_store \<Rightarrow> wifi_store" where
  "wifi_settings_load b d allowed s =
     (let s = (case snd s of Some c \<Rightarrow> (c, Some c) | None \<Rightarrow> wifi_settings_restore b d allowed s)
      in (wifi_settings_check allowed (fst s), snd s))"

definition net_ok :: "service set \<Rightarrow> net_settings \<Rightarrow> bool" where
  "net_ok allowed n \<longleftrightarrow> net_services n \<subseteq> allowed \<and>
     ({Http, Websocket} \<subseteq> net_services n \<longrightarrow> net_websocket_port n \<noteq> net_http_port n)"

definition wifi_settings_ok :: "service set \<Rightarrow> wifi_settings \<Rightarrow> bool" where
  "wifi_settings_ok allowed cfg \<longleftrightarrow> 1 \<le> ws_ap_channel cfg \<and> ws_ap_channel cfg \<le> 13 \<and>
     validate_country_code (ws_ap_country cfg) \<and> net_ok allowed (ws_sta_net cfg) \<and> net_ok allowed (ws_ap_net cfg)"

lemma find_country_iff: "find_country xs c \<longleftrightarrow> c \<in> set (takeWhile (\<lambda>x. x \<noteq> []) xs)"
  by (induction xs) auto

lemma check_ports_ok: "net_services n \<subseteq> allowed \<Longrightarrow> net_ok allowed (check_ports n)"
  by (simp add: net_ok_def check_ports_def)

lemma check_ports_id: "net_ok allowed n \<Longrightarrow> check_ports n = n"
  by (auto simp: net_ok_def check_ports_def)

lemma hd_country: "validate_country_code (hd country_codes)"
  by (simp add: validate_country_code_def country_codes_def)

lemma check_channel_ok: "1 \<le> ws_ap_channel (check_channel cfg) \<and> ws_ap_channel (check_channel cfg) \<le> 13"
  by (auto simp: check_channel_def word_le_nat_alt word_less_nat_alt unat_gt_0 Suc_le_eq)

lemma check_country_ok:
  "validate_country_code (ws_ap_country (check_country cfg))" "ws_ap_channel (check_country cfg) = ws_ap_channel cfg"
  by (simp_all add: check_country_def hd_country)

lemma wifi_settings_check_ok: "wifi_settings_ok allowed (wifi_settings_check allowed cfg)"
  using check_channel_ok [of cfg]
  by (simp add: wifi_settings_ok_def wifi_settings_check_def Let_def check_net_def check_ports_ok check_country_ok)

lemma wifi_settings_check_id:
  assumes "wifi_settings_ok allowed cfg"
  shows "wifi_settings_check allowed cfg = cfg"
proof -
  have ch: "\<not> (ws_ap_channel cfg = 0 \<or> ws_ap_channel cfg > 13)" using assms by (auto simp: wifi_settings_ok_def)
  have n: "check_net allowed (ws_sta_net cfg) = ws_sta_net cfg" "check_net allowed (ws_ap_net cfg) = ws_ap_net cfg"
    using assms check_ports_id [of allowed "ws_sta_net cfg"] check_ports_id [of allowed "ws_ap_net cfg"]
    by (simp_all add: wifi_settings_ok_def check_net_def net_ok_def Int_absorb2)
  have "check_country (check_channel cfg) = cfg"
    using ch assms by (simp add: check_channel_def check_country_def wifi_settings_ok_def)
  then show ?thesis by (simp add: wifi_settings_check_def n)
qed

text \<open>
  C35. Whatever the settings memory holds, after loading the channel is one of the thirteen, the
  country is one of the list, only services the build allows are enabled, and the web and the
  web socket server have different ports when both are; valid settings are loaded as they were
  saved.
\<close>

theorem wifi_settings_load_valid:
  "wifi_settings_ok allowed (fst (wifi_settings_load b d allowed s)) \<and>
   (wifi_settings_ok allowed (fst t) \<longrightarrow> wifi_settings_load b d allowed (wifi_settings_save t) = (fst t, Some (fst t)))"
  by (simp add: wifi_settings_load_def Let_def wifi_settings_check_ok wifi_settings_save_def wifi_settings_check_id)

theorem wifi_settings_load_valid_witness:
  "wifi_settings_load net_build0 net_defaults0 {Telnet, Websocket, Mdns, Http}
     (wifi_settings_save (wifi_cfg0\<lparr>ws_ap_net := net0\<lparr>net_http_port := 80, net_websocket_port := 81\<rparr>,
        ws_sta_net := net0\<lparr>net_http_port := 80, net_websocket_port := 81\<rparr>\<rparr>, None)) =
   (wifi_cfg0\<lparr>ws_ap_net := net0\<lparr>net_http_port := 80, net_websocket_port := 81\<rparr>,
        ws_sta_net := net0\<lparr>net_http_port := 80, net_websocket_port := 81\<rparr>\<rparr>,
    Some (wifi_cfg0\<lparr>ws_ap_net := net0\<lparr>net_http_port := 80, net_websocket_port := 81\<rparr>,
        ws_sta_net := net0\<lparr>net_http_port := 80, net_websocket_port := 81\<rparr>\<rparr>))"
proof -
  let ?c = "wifi_cfg0\<lparr>ws_ap_net := net0\<lparr>net_http_port := 80, net_websocket_port := 81\<rparr>,
        ws_sta_net := net0\<lparr>net_http_port := 80, net_websocket_port := 81\<rparr>\<rparr>"
  have "wifi_settings_ok {Telnet, Websocket, Mdns, Http} ?c"
    by (simp add: wifi_settings_ok_def wifi_cfg0_def net0_def net_zero_def net_ok_def validate_country_code_def
        country_codes_def)
  with wifi_settings_load_valid [of "{Telnet, Websocket, Mdns, Http}" net_build0 net_defaults0 "(?c, None)" "(?c, None)"]
  show ?thesis by simp
qed

subsection \<open>Addresses read back\<close>

text \<open>A hexadecimal digit as the number is printed, and what reading it back relies on.\<close>

definition good_digit :: "nat \<Rightarrow> u8 \<Rightarrow> bool" where
  "good_digit n c \<longleftrightarrow> hex_value c = Some n \<and> c \<noteq> 43 \<and> c \<noteq> 45 \<and> c \<noteq> 88 \<and> c \<noteq> 120 \<and> \<not> is_space c \<and>
     (48 \<le> c \<and> c \<le> 57 \<or> 65 \<le> c \<and> c \<le> 70)"

lemma hex_digits: "\<forall>n \<in> set [0..<16]. good_digit n (hex_digit (of_nat n))"
  by code_simp

lemma hex_digit_good:
  assumes "d < 16" shows "good_digit (unat d) (hex_digit d)"
proof -
  have "unat d < 16" using assms by (simp add: word_less_nat_alt)
  then have "unat d \<in> set [0..<16]" by simp
  from hex_digits [rule_format, OF this] show ?thesis by simp
qed

lemma nibbles: "unat (drop_bit 4 b) = unat b div 16" "unat (b AND 15) = unat b mod 16" for b :: u8
proof -
  show "unat (drop_bit 4 b) = unat b div 16" by (simp only: unat_drop_bit_eq) (simp add: drop_bit_eq_div)
  have "(15 :: u8) = Bit_Operations.mask 4" by (simp add: mask_eq_decr_exp)
  then have "b AND 15 = take_bit 4 b" by (simp add: take_bit_eq_mask)
  then show "unat (b AND 15) = unat b mod 16" by (simp only: unsigned_take_bit_eq) (simp add: take_bit_eq_mod)
qed

lemma good_nibbles: 
  "good_digit (unat b div 16) (hex_digit (drop_bit 4 b))" "good_digit (unat b mod 16) (hex_digit (b AND 15))" for b :: u8
proof -
  have "unat b < 256" using unsigned_less [of b] by simp
  then have "drop_bit 4 b < 16" "b AND 15 < 16" by (simp_all add: word_less_nat_alt nibbles)
  from this [THEN hex_digit_good] show "good_digit (unat b div 16) (hex_digit (drop_bit 4 b))"
    "good_digit (unat b mod 16) (hex_digit (b AND 15))" by (simp_all add: nibbles)
qed

lemma scan_hex2_byte: "scan_hex2 (hex_byte b @ r) = Some (ucast b, r)"
proof -
  have "of_nat (16 * (unat b div 16) + unat b mod 16) = (ucast b :: u32)"
    by (simp only: mult_div_mod_eq) simp
  then have "16 * of_nat (unat b div 16) + of_nat (unat b mod 16) = (ucast b :: u32)" by (simp only: of_nat_add of_nat_mult of_nat_numeral)
  with good_nibbles [of b] show ?thesis by (simp add: hex_byte_def good_digit_def)
qed

lemma hex_byte_no_space [simp]: "dropWhile is_space (hex_byte b @ r) = hex_byte b @ r"
  using good_nibbles [of b] by (simp add: hex_byte_def good_digit_def)

lemma mac_string_Cons: "bs \<noteq> [] \<Longrightarrow> mac_string (b # bs) = hex_byte b @ 58 # mac_string bs"
  by (cases bs) simp_all

lemma mac_string_ne: "bs \<noteq> [] \<Longrightarrow> mac_string bs \<noteq> []"
  by (induction bs rule: mac_string.induct) (simp_all add: hex_byte_def)

lemma last_mac_string: "bs \<noteq> [] \<Longrightarrow> last (mac_string bs) = hex_digit (last bs AND 15)"
proof (induction bs)
  case (Cons b bs)
  then show ?case
    by (cases "bs = []") (simp_all add: mac_string_Cons mac_string_ne, simp add: hex_byte_def)
qed simp

lemma scan_mac_string: "bs \<noteq> [] \<Longrightarrow> scan_mac (length bs) (mac_string bs) = Some (map ucast bs)"
proof (induction bs)
  case (Cons b bs)
  show ?case
  proof (cases "bs = []")
    case True
    then show ?thesis using scan_hex2_byte [of b "[]"] hex_byte_no_space [of b "[]"] by simp
  next
    case c: False
    then have "scan_mac (length bs) (mac_string bs) = Some (map ucast bs)" by (rule Cons.IH)
    then show ?thesis using c by (simp add: mac_string_Cons scan_hex2_byte)
  qed
qed simp

definition lcaps_ok :: "(u8 \<Rightarrow> u8) \<Rightarrow> bool" where
  \<comment> \<open>digits kept, upper case letters to lower case\<close>
  "lcaps_ok lcaps \<longleftrightarrow> (\<forall>c. 48 \<le> c \<and> c \<le> 57 \<longrightarrow> lcaps c = c) \<and> (\<forall>c. 65 \<le> c \<and> c \<le> 90 \<longrightarrow> lcaps c = c + 32)"

lemma lcaps_hex:
  assumes l: "lcaps_ok lcaps" and g: "good_digit n c"
  shows "(48 \<le> lcaps c \<and> lcaps c \<le> 57) \<or> (97 \<le> lcaps c \<and> lcaps c \<le> 102)"
proof (cases "48 \<le> c \<and> c \<le> 57")
  case True
  then have "lcaps c = c" using l by (simp add: lcaps_ok_def)
  with True show ?thesis by simp
next
  case False
  with g have c: "65 \<le> c" "c \<le> 70" by (auto simp: good_digit_def)
  have "c \<le> 90" by (rule order.trans [OF c(2)]) simp
  with c l have "lcaps c = c + 32" by (simp add: lcaps_ok_def)
  moreover have "unat (c + 32) = unat c + 32" using c by (simp add: word_le_nat_alt unat_word_ariths)
  ultimately show ?thesis using c by (simp add: word_le_nat_alt)
qed

lemma ucast_back: "ucast (ucast x :: u32) = x" for x :: u8
  by transfer simp

text \<open>
  The address of an access point, as it is shown, is accepted and stored as it was, the
  empty text for no address included.
\<close>

theorem wifi_bssid_roundtrip:
  assumes "lcaps_ok lcaps" "length (ws_ap_bssid cfg) = 6"
  shows "wifi_set_bssid lcaps (wifi_get_bssid cfg) cfg' = (Status_OK, cfg'\<lparr>ws_ap_bssid := ws_ap_bssid cfg\<rparr>)"
proof (cases "\<forall>x \<in> set (ws_ap_bssid cfg). x = 0")
  case True
  then have "ws_ap_bssid cfg = replicate 6 0" using assms(2) by (metis replicate_eqI)
  then show ?thesis by (simp add: wifi_get_bssid_def wifi_set_bssid_def)
next
  case False
  let ?b = "rev (ws_ap_bssid cfg)"
  have ne: "?b \<noteq> []" "length ?b = 6" using assms(2) by auto
  have sc: "scan_mac 6 (mac_string ?b) = Some (map ucast ?b)" using scan_mac_string [OF ne(1)] ne(2) by simp
  have "(48 \<le> lcaps (last (mac_string ?b)) \<and> lcaps (last (mac_string ?b)) \<le> 57) \<or>
      (97 \<le> lcaps (last (mac_string ?b)) \<and> lcaps (last (mac_string ?b)) \<le> 102)"
    using lcaps_hex [OF assms(1) good_nibbles(2)] unfolding last_mac_string [OF ne(1)] by blast
  moreover have "wifi_get_bssid cfg = mac_string ?b"
    by (simp only: wifi_get_bssid_def if_not_P [OF False])
  ultimately show ?thesis using sc mac_string_ne [OF ne(1)]
    by (simp add: wifi_set_bssid_def Let_def rev_map o_def ucast_back)
qed

theorem wifi_bssid_roundtrip_witness:
  "wifi_set_bssid (\<lambda>c. if 65 \<le> c \<and> c \<le> 90 then c + 32 else c)
     (wifi_get_bssid (wifi_settings_zero\<lparr>ws_ap_bssid := [1, 2, 3, 4, 5, 0xAB]\<rparr>)) wifi_settings_zero =
   (Status_OK, wifi_settings_zero\<lparr>ws_ap_bssid := [1, 2, 3, 4, 5, 0xAB]\<rparr>)"
proof -
  have "lcaps_ok (\<lambda>c. if 65 \<le> c \<and> c \<le> 90 then c + 32 else c)"
    unfolding lcaps_ok_def by (auto simp: word_le_nat_alt)
  from wifi_bssid_roundtrip [OF this, of "wifi_settings_zero\<lparr>ws_ap_bssid := [1, 2, 3, 4, 5, 0xAB]\<rparr>"]
  show ?thesis by simp
qed

subsection \<open>The addresses as a group of settings\<close>

definition wifi_put_ip :: "net_build \<Rightarrow> (u8 list \<Rightarrow> u32 option) \<Rightarrow> wifi_ip_id \<Rightarrow> u8 list \<Rightarrow> wifi_settings \<Rightarrow>
    wifi_settings option" where
  \<comment> \<open>\<open>wifi_set_ip\<close> as the core uses it: an assignment that is not OK is refused\<close>
  "wifi_put_ip b pton i v cfg = (case wifi_set_ip b pton i v cfg of (r, c) \<Rightarrow> if r = Status_OK then Some c else None)"

definition wifi_accepts_ip :: "net_build \<Rightarrow> (u8 list \<Rightarrow> u32 option) \<Rightarrow> wifi_ip_id \<Rightarrow> u8 list \<Rightarrow> bool" where
  "wifi_accepts_ip b pton i v \<longleftrightarrow>
     pton v \<noteq> None \<and> i \<noteq> Setting_other_ip \<and>
     (i \<in> {Setting_IpAddress2, Setting_Gateway2, Setting_NetMask2} \<longrightarrow> nb_softap b)"

lemmas wifi_ip_defs = wifi_put_ip_def wifi_accepts_ip_def wifi_set_ip_def wifi_ip_field_def

interpretation wifi_ip: setting_group "wifi_put_ip b pton" "wifi_ip_field b" pton "wifi_accepts_ip b pton"
  for b :: net_build and pton :: "u8 list \<Rightarrow> u32 option"
proof unfold_locales
  fix i :: wifi_ip_id and v s
  show "(wifi_put_ip b pton i v s \<noteq> None) = wifi_accepts_ip b pton i v"
    by (cases i) (auto simp: wifi_ip_defs split: option.splits)
next
  fix i :: wifi_ip_id and v s t assume "wifi_put_ip b pton i v s = Some t"
  then show "wifi_ip_field b i t = pton v"
    by (cases i) (auto simp: wifi_ip_defs split: option.splits if_splits)
next
  fix i j :: wifi_ip_id and v s t assume "wifi_put_ip b pton i v s = Some t" "j \<noteq> i"
  then show "wifi_ip_field b j t = wifi_ip_field b j s"
    by (cases i; cases j) (auto simp: wifi_ip_defs split: option.splits if_splits)
qed

text \<open>
  C36. The addresses of the two interfaces: after any sequence of assignments, each reads as the
  last text that was accepted for it, printed; the station's and the access point's never mix,
  and a text that is no address changes nothing.
\<close>

theorem wifi_ip_settings:
  "wifi_get_ip b ntop j (puts (wifi_put_ip b pton) xs cfg) =
   (case last_put (wifi_accepts_ip b pton) j xs of
      None \<Rightarrow> wifi_get_ip b ntop j cfg
    | Some v \<Rightarrow> (case pton v of None \<Rightarrow> [] | Some a \<Rightarrow> ntop a))"
  by (simp add: wifi_get_ip_def wifi_ip.puts_look split: option.split)

end
