(* ===== verification/Enet.thy ===== *)
theory Enet
  imports WifiSettings
begin

text \<open>
  The Ethernet interface, \<open>main/enet.c\<close>: the services, the events of the driver, the information
  about the interface, the settings and the hooks, and how the driver starts it beside the Wi-Fi
  interface (\<open>main/driver.c\<close>, \<open>settings_changed\<close> and \<open>driver_setup\<close>).  The pointer \<open>ip_info\<close> is
  NULL or the addresses it points to; reading through NULL is an error value.  The SPI and PHY set
  up between the checks of \<open>enet_start\<close> is not modelled.
\<close>

subsection \<open>State\<close>

datatype stream_type = StreamType_Null | StreamType_Serial | StreamType_Telnet | StreamType_WebSocket
  | StreamType_SDCard | StreamType_other

type_synonym ip_addresses = "u32 \<times> u32 \<times> u32"      \<comment> \<open>address, gateway, mask\<close>

record enet_state =
  en_enabled :: bool
  en_network :: net_settings        \<comment> \<open>in use: a copy made at the start\<close>
  en_ethernet :: net_settings       \<comment> \<open>the settings\<close>
  en_stored :: "net_settings option"
  en_services :: "service set"
  en_allowed :: "service set"
  en_mac :: string
  en_ip_info :: "ip_addresses option"
  en_flags :: "net_flag set"
  en_stream :: stream_type
  en_tasks :: nat                   \<comment> \<open>\<open>start_services\<close> waiting in the task queue\<close>
  en_timers :: nat                  \<comment> \<open>pending timeouts of \<open>lwIPHostTimerHandler\<close>\<close>
  en_log :: net_log

definition enet_zero :: enet_state where
  "enet_zero = \<lparr>en_enabled = False, en_network = net_zero, en_ethernet = net_zero, en_stored = None, en_services = {},
     en_allowed = {}, en_mac = [], en_ip_info = None, en_flags = {}, en_stream = StreamType_Null, en_tasks = 0,
     en_timers = 0, en_log = []\<rparr>"

definition enet_call :: "net_call \<Rightarrow> enet_state \<Rightarrow> enet_state" where
  "enet_call c s = s\<lparr>en_log := en_log s @ [c]\<rparr>"

definition enet_event_publish :: "net_flag set \<Rightarrow> enet_state \<Rightarrow> enet_state" where
  "enet_event_publish changed s = enet_call (Publish True changed (en_flags s)) s"

subsection \<open>Services\<close>

definition enet_start_if :: "net_build \<Rightarrow> (service \<Rightarrow> bool) \<Rightarrow> service \<Rightarrow> u16 \<Rightarrow> enet_state \<Rightarrow> enet_state" where
  \<comment> \<open>\<open>if(network.services.x && !services.x) services.x = x_init(port)\<close>; \<open>ans\<close> are the results\<close>
  "enet_start_if b ans v port s =
     (if v \<in> nb_services b \<and> v \<in> net_services (en_network s) \<and> v \<notin> en_services s
      then (enet_call (Svc_init v (ans v)) (enet_call (Listen v port) s))
             \<lparr>en_services := (if ans v then insert v (en_services s) else en_services s - {v})\<rparr>
      else s)"

definition port_or :: "u16 \<Rightarrow> u16 \<Rightarrow> u16" where
  "port_or p dflt = (if p = 0 then dflt else p)"

definition enet_flag_ip :: "enet_state \<Rightarrow> enet_state" where
  "enet_flag_ip s =
     (if Ip_aquired \<notin> en_flags s
      then enet_event_publish {Ip_aquired} (s\<lparr>en_flags := insert Ip_aquired (en_flags s)\<rparr>) else s)"

definition enet_start_services :: "net_build \<Rightarrow> net_defaults \<Rightarrow> (service \<Rightarrow> bool) \<Rightarrow> enet_state \<Rightarrow> enet_state" where
  "enet_start_services b d ans s =
     (let n = en_network s;
          s = enet_start_if b ans Telnet (port_or (net_telnet_port n) (nd_telnet d)) s;
          s = enet_start_if b ans Websocket (port_or (net_websocket_port n) (nd_websocket d)) s;
          s = enet_start_if b ans Ftp (port_or (net_ftp_port n) (nd_ftp d)) s;
          s = enet_start_if b ans Http (net_http_port n) s;
          s = (if {Telnet, Websocket, Ftp} \<inter> nb_services b \<noteq> {} then s\<lparr>en_timers := en_timers s + 1\<rparr> else s)
      in enet_flag_ip s)"

definition enet_poll :: "net_build \<Rightarrow> service \<Rightarrow> enet_state \<Rightarrow> enet_state" where
  "enet_poll b v s = (if v \<in> nb_services b \<and> v \<in> en_services s then enet_call (Svc_poll v) s else s)"

definition enet_timer :: "net_build \<Rightarrow> enet_state \<Rightarrow> enet_state" where
  \<comment> \<open>\<open>lwIPHostTimerHandler\<close>: one pending timeout ends\<close>
  "enet_timer b s =
     (let s = s\<lparr>en_timers := en_timers s - 1\<rparr>;
          s = (if en_services s \<noteq> {} then s\<lparr>en_timers := en_timers s + 1\<rparr> else s)
      in enet_poll b Ftp (enet_poll b Websocket (enet_poll b Telnet s)))"

subsection \<open>Events\<close>

datatype eth_event = ETHERNET_EVENT_CONNECTED string | ETHERNET_EVENT_DISCONNECTED | ETHERNET_EVENT_OTHER

definition net_addresses :: "net_settings \<Rightarrow> ip_addresses" where
  "net_addresses n = (net_ip n, net_gateway n, net_mask n)"

fun eth_event_handler :: "eth_event \<Rightarrow> enet_state \<Rightarrow> enet_state" where
  "eth_event_handler (ETHERNET_EVENT_CONNECTED mac) s =
     (let s = s\<lparr>en_mac := mac, en_flags := insert Link_up (en_flags s)\<rparr>;
          s = (if net_ip_mode (en_network s) \<noteq> IpMode_DHCP
               then s\<lparr>en_ip_info := Some (net_addresses (en_network s)), en_tasks := en_tasks s + 1\<rparr> else s)
      in enet_event_publish {Link_up} s)"
| "eth_event_handler ETHERNET_EVENT_DISCONNECTED s =
     enet_event_publish {Link_up} (s\<lparr>en_ip_info := None, en_flags := en_flags s - {Link_up}\<rparr>)"
| "eth_event_handler ETHERNET_EVENT_OTHER s = s"

definition got_ip_event_handler :: "net_build \<Rightarrow> net_defaults \<Rightarrow> (service \<Rightarrow> bool) \<Rightarrow> ip_addresses \<Rightarrow> enet_state \<Rightarrow> enet_state" where
  "got_ip_event_handler b d ans info s = enet_start_services b d ans (s\<lparr>en_ip_info := Some info\<rparr>)"

subsection \<open>Start\<close>

text \<open>What ESP-IDF answers: a check that fails aborts the program, None.\<close>

record enet_env =
  ee_netif_init :: bool
  ee_event_loop :: bool          \<comment> \<open>\<open>esp_event_loop_create_default\<close>\<close>
  ee_checks :: bool              \<comment> \<open>the other checks\<close>
  ee_mac :: "string option"      \<comment> \<open>\<open>esp_read_mac\<close>\<close>

definition enet_netif :: "enet_state \<Rightarrow> ip_addresses option" where
  \<comment> \<open>the addresses the interface is created with; None: those of DHCP\<close>
  "enet_netif s = (if net_ip_mode (en_network s) \<noteq> IpMode_DHCP then Some (net_addresses (en_network s)) else None)"

definition enet_up :: "enet_env \<Rightarrow> enet_state \<Rightarrow> enet_state" where
  "enet_up env s =
     (let s = (case ee_mac env of Some m \<Rightarrow> s\<lparr>en_mac := m\<rparr> | None \<Rightarrow> s)
      in enet_event_publish {Interface_up} (s\<lparr>en_flags := insert Interface_up (en_flags s)\<rparr>))"

definition enet_start :: "enet_env \<Rightarrow> enet_state \<Rightarrow> (bool \<times> enet_state) option" where
  "enet_start env s =
     (if \<not> en_enabled s \<or> \<not> ee_netif_init env then Some (False, s)
      else let s = s\<lparr>en_network := en_ethernet s\<rparr> in
           if \<not> ee_event_loop env \<or> \<not> ee_checks env then None
           else Some (True, enet_up env
                  (case enet_netif s of Some (a, g, m) \<Rightarrow> enet_call (Set_ip a g m) s | None \<Rightarrow> s)))"

subsection \<open>Information\<close>

datatype iface = If_enet | If_sta | If_ap
datatype net_fault = Null_ip_info

record net_info =
  ni_interface :: iface
  ni_is_ethernet :: bool
  ni_link_up :: bool
  ni_services :: "service set"
  ni_mac :: string
  ni_ip :: string
  ni_gateway :: string
  ni_mask :: string
  ni_network :: net_settings

text \<open>
  The default interface of lwIP is there or not; its gateway and mask are what lwIP holds.
  Addresses and the MAC are printed by functions outside the program.
\<close>

definition enet_ip_address :: "(u32 \<Rightarrow> string) \<Rightarrow> enet_state \<Rightarrow> net_fault + string" where
  "enet_ip_address ntop s = (case en_ip_info s of None \<Rightarrow> Inl Null_ip_info | Some (a, _) \<Rightarrow> Inr (ntop a))"

definition enet_get_info :: "(u32 \<Rightarrow> string) \<Rightarrow> (u32 \<times> u32) option \<Rightarrow> (iface \<Rightarrow> net_fault + net_info option) option \<Rightarrow>
    iface \<Rightarrow> enet_state \<Rightarrow> net_fault + net_info option" where
  \<comment> \<open>\<open>netif\<close>: gateway and mask of the default interface; then \<open>wifi_get_info\<close>\<close>
  "enet_get_info ntop netif wifi i s =
     (if i = If_enet then
        let info = \<lparr>ni_interface = If_enet, ni_is_ethernet = True, ni_link_up = Link_up \<in> en_flags s,
                    ni_services = en_services s, ni_mac = [], ni_ip = [], ni_gateway = [], ni_mask = [],
                    ni_network = en_network s\<rparr>
        in (case netif of
              None \<Rightarrow> Inr (Some info)
            | Some (gw, nm) \<Rightarrow>
                let info = info\<lparr>ni_mac := en_mac s\<rparr> in
                if Link_up \<in> en_flags s
                then (case enet_ip_address ntop s of
                        Inl e \<Rightarrow> Inl e
                      | Inr ip \<Rightarrow> Inr (Some (info\<lparr>ni_ip := ip, ni_gateway := ntop gw, ni_mask := ntop nm\<rparr>)))
                else Inr (Some info))
      else (case wifi of Some f \<Rightarrow> f i | None \<Rightarrow> Inr None))"

definition wifi_addr :: "(u32 \<Rightarrow> string) \<Rightarrow> u32 \<Rightarrow> string" where
  \<comment> \<open>left empty when it is zero\<close>
  "wifi_addr ntop a = (if a = 0 then [] else ntop a)"

definition wifi_get_info :: "(u32 \<Rightarrow> string) \<Rightarrow> (iface \<Rightarrow> string option) \<Rightarrow> (iface \<Rightarrow> ip_addresses option) \<Rightarrow>
    wifi_state \<Rightarrow> iface \<Rightarrow> net_info option" where
  \<comment> \<open>\<open>get_info\<close> of \<open>wifi.c\<close>; \<open>esp_netif_get_mac\<close> and \<open>esp_netif_get_ip_info\<close> as arguments\<close>
  "wifi_get_info ntop mac ips s i =
     (if i = If_sta \<or> i = If_ap then
        let info = \<lparr>ni_interface = i, ni_is_ethernet = False, ni_link_up = False, ni_services = wf_services s,
                    ni_mac = [], ni_ip = [], ni_gateway = [], ni_mask = [], ni_network = wf_network s\<rparr>
        in Some
          (if (if i = If_sta then wf_sta_netif s else wf_ap_netif s)
           then let info = (case mac i of Some m \<Rightarrow> info\<lparr>ni_mac := m\<rparr> | None \<Rightarrow> info)
                in (case ips i of
                      None \<Rightarrow> info
                    | Some (a, gw, nm) \<Rightarrow> info\<lparr>ni_ip := wifi_addr ntop a, ni_gateway := wifi_addr ntop gw,
                                              ni_mask := wifi_addr ntop nm\<rparr>)
           else info)
      else None)"

subsection \<open>Reports\<close>

definition eol :: string where "eol = [char_of (13 :: nat), char_of (10 :: nat)]"

definition report_netcon :: "stream_type \<Rightarrow> string" where
  "report_netcon t =
     (if t = StreamType_Telnet \<or> t = StreamType_WebSocket
      then ''[NETCON:'' @ (if t = StreamType_Telnet then ''Telnet'' else ''Websocket'') @ '']'' @ eol else [])"

definition enet_report :: "(u32 \<Rightarrow> string) \<Rightarrow> (u32 \<times> u32) option \<Rightarrow> net_build \<Rightarrow> bool \<Rightarrow> enet_state \<Rightarrow> net_fault + string" where
  \<comment> \<open>\<open>report_options\<close> after the report of the hook it replaced\<close>
  "enet_report ntop netif b newopt s =
     (if newopt
      then Inr ('',ETH'' @ (if Ftp \<in> nb_services b \<and> Ftp \<in> en_services s then '',FTP'' else []))
      else (case enet_get_info ntop netif None If_enet s of
              Inl e \<Rightarrow> Inl e
            | Inr None \<Rightarrow> Inr []
            | Inr (Some n) \<Rightarrow>
                Inr (''[MAC:'' @ ni_mac n @ '']'' @ eol @ ''[IP:'' @ ni_ip n @ '']'' @ eol @ report_netcon (en_stream s))))"

definition wifi_report_if :: "string \<Rightarrow> string \<Rightarrow> string \<Rightarrow> net_info option \<Rightarrow> string" where
  "wifi_report_if name mac_head ip_head info =
     (if name \<noteq> []
      then (case info of None \<Rightarrow> []
            | Some n \<Rightarrow> mac_head @ ni_mac n @ '']'' @ eol @ ip_head @ ni_ip n @ '']'' @ eol) else [])"

definition reportIP :: "(iface \<Rightarrow> net_info option) \<Rightarrow> net_build \<Rightarrow> bool \<Rightarrow> stream_type \<Rightarrow> wifi_state \<Rightarrow> string" where
  \<comment> \<open>of \<open>wifi.c\<close>, after the report of the hook it replaced\<close>
  "reportIP info b newopt active s =
     (if newopt
      then '',WIFI'' @
           concat [t. (v, t) \<leftarrow> [(Ftp, '',FTP''), (Webdav, '',WebDAV''), (Mdns, '',mDNS''), (Ssdp, '',SSDP'')],
                      v \<in> nb_services b \<and> v \<in> wf_services s]
      else wifi_report_if (wf_sta_name s) ''[WIFI STA MAC:'' ''[STA IP:'' (info If_sta) @
           wifi_report_if (wf_ap_name s) ''[WIFI AP MAC:'' ''[AP IP:'' (info If_ap) @
           report_netcon active)"

subsection \<open>Settings\<close>

datatype enet_ip_id = Setting_IpAddress | Setting_Gateway | Setting_NetMask | Setting_no_ip

definition parse_ip4_addr :: "(string \<Rightarrow> (bool \<times> u32) option) \<Rightarrow> string \<Rightarrow> u32 option" where
  \<comment> \<open>\<open>aton\<close>: lwIP's \<open>ipaddr_aton\<close>, whether the address is of version 4 with it\<close>
  "parse_ip4_addr aton v = (case aton v of Some (v4, a) \<Rightarrow> if v4 then Some a else None | None \<Rightarrow> None)"

definition ethernet_set_ip :: "(string \<Rightarrow> (bool \<times> u32) option) \<Rightarrow> enet_ip_id \<Rightarrow> string \<Rightarrow> enet_state \<Rightarrow> status_code \<times> enet_state" where
  "ethernet_set_ip aton i value s =
     (case parse_ip4_addr aton value of
        None \<Rightarrow> (Status_InvalidStatement, s)
      | Some a \<Rightarrow>
          (case i of
             Setting_IpAddress \<Rightarrow> (Status_OK, s\<lparr>en_ethernet := (en_ethernet s)\<lparr>net_ip := a\<rparr>\<rparr>)
           | Setting_Gateway \<Rightarrow> (Status_OK, s\<lparr>en_ethernet := (en_ethernet s)\<lparr>net_gateway := a\<rparr>\<rparr>)
           | Setting_NetMask \<Rightarrow> (Status_OK, s\<lparr>en_ethernet := (en_ethernet s)\<lparr>net_mask := a\<rparr>\<rparr>)
           | Setting_no_ip \<Rightarrow> (Status_Unhandled, s)))"

definition enet_ip_field :: "enet_ip_id \<Rightarrow> enet_state \<Rightarrow> u32 option" where
  "enet_ip_field i s =
     (case i of Setting_IpAddress \<Rightarrow> Some (net_ip (en_ethernet s)) | Setting_Gateway \<Rightarrow> Some (net_gateway (en_ethernet s))
      | Setting_NetMask \<Rightarrow> Some (net_mask (en_ethernet s)) | Setting_no_ip \<Rightarrow> None)"

definition ethernet_get_ip :: "(u32 \<Rightarrow> string) \<Rightarrow> enet_ip_id \<Rightarrow> enet_state \<Rightarrow> string" where
  "ethernet_get_ip ntop i s = (case enet_ip_field i s of None \<Rightarrow> [] | Some a \<Rightarrow> ntop a)"

definition ethernet_set_services :: "service set \<Rightarrow> enet_state \<Rightarrow> status_code \<times> enet_state" where
  "ethernet_set_services v s =
     (Status_OK, s\<lparr>en_ethernet := (en_ethernet s)\<lparr>net_services := v \<inter> en_allowed s\<rparr>\<rparr>)"

definition ethernet_get_services :: "enet_state \<Rightarrow> service set" where
  "ethernet_get_services s = net_services (en_ethernet s) \<inter> en_allowed s"

definition is_eth_enabled :: "bool \<Rightarrow> bool \<Rightarrow> wifi_mode \<Rightarrow> enet_state \<Rightarrow> bool" where
  \<comment> \<open>with Wi-Fi or not; of the setting of the services or another\<close>
  "is_eth_enabled with_wifi services mode s =
     (if with_wifi \<and> services then en_enabled s \<and> mode = WiFiMode_NULL else en_enabled s)"

definition ethernet_settings_save :: "enet_state \<Rightarrow> enet_state" where
  "ethernet_settings_save s = s\<lparr>en_stored := Some (en_ethernet s)\<rparr>"

definition enet_defaults :: "net_build \<Rightarrow> net_defaults \<Rightarrow> service set \<Rightarrow> net_settings" where
  \<comment> \<open>\<open>nd_sta\<close>: the host name, the mode and the addresses of the build\<close>
  "enet_defaults b d allowed =
     net_zero\<lparr>net_hostname := net_hostname (nd_sta d), net_ip_mode := net_ip_mode (nd_sta d),
       net_ip := net_ip (nd_sta d), net_gateway := net_gateway (nd_sta d), net_mask := net_mask (nd_sta d),
       net_ftp_port := nd_ftp d, net_telnet_port := nd_telnet d, net_http_port := nd_http d,
       net_websocket_port := (if Http \<in> nb_services b \<and> nd_websocket d = nd_http d then nd_http d + 1 else nd_websocket d),
       net_services := allowed\<rparr>"

definition ethernet_settings_restore :: "net_build \<Rightarrow> net_defaults \<Rightarrow> enet_state \<Rightarrow> enet_state" where
  "ethernet_settings_restore b d s = ethernet_settings_save (s\<lparr>en_ethernet := enet_defaults b d (en_allowed s)\<rparr>)"

definition ethernet_settings_load :: "net_build \<Rightarrow> net_defaults \<Rightarrow> enet_state \<Rightarrow> enet_state" where
  \<comment> \<open>None in the settings memory: the transfer fails\<close>
  "ethernet_settings_load b d s =
     (let s = (case en_stored s of Some n \<Rightarrow> s\<lparr>en_ethernet := n\<rparr> | None \<Rightarrow> ethernet_settings_restore b d s);
          n = en_ethernet s;
          n = (if {Http, Websocket} \<subseteq> nb_services b \<and> net_websocket_port n = net_http_port n
               then n\<lparr>net_websocket_port := net_http_port n + 1\<rparr> else n)
      in s\<lparr>en_ethernet := n\<lparr>net_services := net_services n \<inter> en_allowed s\<rparr>\<rparr>)"

subsection \<open>Hooks\<close>

text \<open>
  Both interfaces hook into the core: a hook keeps the function it replaced and calls it.  A
  chain has the newest hook first; behind its end is what the core had.
\<close>

datatype hook = Hook_wifi | Hook_enet

record net_sys =
  ns_wifi :: wifi_state
  ns_enet :: enet_state
  ns_wifi_stream :: stream_type      \<comment> \<open>\<open>active_stream\<close> of \<open>wifi.c\<close>\<close>
  ns_reports :: "hook list"
  ns_streams :: "hook list"
  ns_infos :: "hook list"
  ns_wifi_nvs :: nat                 \<comment> \<open>\<open>nvs_address\<close> of \<open>wifi.c\<close>\<close>
  ns_wifi_cap :: bool
  ns_eth_cap :: bool                 \<comment> \<open>\<open>hal.driver_cap.ethernet\<close>\<close>
  ns_wifi_ok :: bool
  ns_loop :: bool                    \<comment> \<open>the default event loop exists\<close>

definition wifi_init :: "nat \<Rightarrow> service set \<Rightarrow> net_sys \<Rightarrow> bool \<times> net_sys" where
  \<comment> \<open>the address \<open>nvs_alloc\<close> gives, or 0; the services of the build\<close>
  "wifi_init addr svcs y =
     (let y = y\<lparr>ns_wifi_nvs := addr, ns_wifi_cap := addr \<noteq> 0\<rparr>;
          y = (if addr \<noteq> 0
               then y\<lparr>ns_reports := Hook_wifi # ns_reports y, ns_streams := Hook_wifi # ns_streams y,
                      ns_infos := [Hook_wifi], ns_wifi := (ns_wifi y)\<lparr>wf_allowed := svcs\<rparr>\<rparr> else y)
      in (addr \<noteq> 0, y))"

definition enet_init :: "nat \<Rightarrow> service set \<Rightarrow> net_sys \<Rightarrow> bool \<times> net_sys" where
  "enet_init addr svcs y =
     (let y = y\<lparr>ns_enet := (ns_enet y)\<lparr>en_enabled := ns_eth_cap y\<rparr>, ns_eth_cap := addr \<noteq> 0\<rparr>;
          y = (if addr \<noteq> 0
               then y\<lparr>ns_reports := Hook_enet # ns_reports y, ns_streams := Hook_enet # ns_streams y,
                      ns_infos := Hook_enet # ns_infos y, ns_enet := (ns_enet y)\<lparr>en_allowed := svcs\<rparr>\<rparr> else y)
      in (True, y))"

definition wifi_stream_changed :: "stream_type \<Rightarrow> net_sys \<Rightarrow> net_sys" where
  "wifi_stream_changed t y = (if t \<noteq> StreamType_SDCard then y\<lparr>ns_wifi_stream := t\<rparr> else y)"

definition enet_stream_changed :: "stream_type \<Rightarrow> net_sys \<Rightarrow> net_sys" where
  "enet_stream_changed t y =
     (if t \<noteq> StreamType_SDCard then y\<lparr>ns_enet := (ns_enet y)\<lparr>en_stream := t\<rparr>\<rparr> else y)"

fun stream_changed :: "hook list \<Rightarrow> stream_type \<Rightarrow> net_sys \<Rightarrow> net_sys" where
  "stream_changed [] t y = y"
| "stream_changed (Hook_wifi # r) t y = stream_changed r t (wifi_stream_changed t y)"
| "stream_changed (Hook_enet # r) t y = stream_changed r t (enet_stream_changed t y)"

text \<open>What the world outside answers to a report.\<close>

record net_dev =
  dv_ntop :: "u32 \<Rightarrow> string"
  dv_netif :: "(u32 \<times> u32) option"
  dv_mac :: "iface \<Rightarrow> string option"
  dv_ips :: "iface \<Rightarrow> ip_addresses option"

fun net_get_info :: "net_dev \<Rightarrow> net_sys \<Rightarrow> hook list \<Rightarrow> iface \<Rightarrow> net_fault + net_info option" where
  "net_get_info dv y [] i = Inr None"
| "net_get_info dv y (Hook_wifi # r) i = Inr (wifi_get_info (dv_ntop dv) (dv_mac dv) (dv_ips dv) (ns_wifi y) i)"
| "net_get_info dv y (Hook_enet # r) i =
     enet_get_info (dv_ntop dv) (dv_netif dv) (if r = [] then None else Some (net_get_info dv y r)) i (ns_enet y)"

definition report_own :: "net_dev \<Rightarrow> net_build \<Rightarrow> bool \<Rightarrow> net_sys \<Rightarrow> hook \<Rightarrow> net_fault + string" where
  "report_own dv b newopt y h =
     (case h of
        Hook_wifi \<Rightarrow> Inr (reportIP (wifi_get_info (dv_ntop dv) (dv_mac dv) (dv_ips dv) (ns_wifi y)) b newopt
                       (ns_wifi_stream y) (ns_wifi y))
      | Hook_enet \<Rightarrow> enet_report (dv_ntop dv) (dv_netif dv) b newopt (ns_enet y))"

fun net_report :: "net_dev \<Rightarrow> net_build \<Rightarrow> bool \<Rightarrow> net_sys \<Rightarrow> hook list \<Rightarrow> net_fault + string" where
  \<comment> \<open>the hook that was replaced reports first\<close>
  "net_report dv b newopt y [] = Inr []"
| "net_report dv b newopt y (h # r) =
     (case net_report dv b newopt y r of
        Inl e \<Rightarrow> Inl e
      | Inr t \<Rightarrow> (case report_own dv b newopt y h of Inl e \<Rightarrow> Inl e | Inr u \<Rightarrow> Inr (t @ u)))"

subsection \<open>How the driver starts the interfaces\<close>

definition settings_changed_wifi :: "net_build \<Rightarrow> net_defaults \<Rightarrow> wifi_start_env \<Rightarrow> wifi_env \<Rightarrow> net_sys \<Rightarrow> net_sys" where
  \<comment> \<open>once it was started it is not again; \<open>wifi_start\<close> makes the event loop when the Wi-Fi driver is
     not initialised\<close>
  "settings_changed_wifi b d env we y =
     (if ns_wifi_ok y then y
      else let (ok, w) = wifi_start b d (ns_wifi_nvs y) env we (ns_wifi y)
           in y\<lparr>ns_wifi := w, ns_wifi_ok := ok,
                ns_loop := (ns_loop y \<or> (ns_wifi_nvs y \<noteq> 0 \<and> wf_mode (ns_wifi y) = None))\<rparr>)"

definition driver_setup_enet :: "bool \<Rightarrow> enet_env \<Rightarrow> net_sys \<Rightarrow> net_sys option" where
  \<comment> \<open>\<open>esp_event_loop_create_default\<close> fails when there is a default event loop\<close>
  "driver_setup_enet with_wifi env y =
     (let y = (if with_wifi then y\<lparr>ns_eth_cap := ns_eth_cap y \<and> ws_mode (wf_cfg (ns_wifi y)) = WiFiMode_NULL\<rparr> else y) in
      if with_wifi \<and> \<not> ns_eth_cap y then Some y
      else (case enet_start (env\<lparr>ee_event_loop := \<not> ns_loop y\<rparr>) (ns_enet y) of
              None \<Rightarrow> None
            | Some (r, e) \<Rightarrow> Some (y\<lparr>ns_enet := e, ns_loop := ns_loop y \<or> r\<rparr>)))"

definition driver_network :: "net_build \<Rightarrow> net_defaults \<Rightarrow> bool \<Rightarrow> wifi_start_env \<Rightarrow> wifi_env \<Rightarrow> enet_env \<Rightarrow> net_sys \<Rightarrow> net_sys option" where
  "driver_network b d with_wifi wenv we env y =
     driver_setup_enet with_wifi env (if with_wifi then settings_changed_wifi b d wenv we y else y)"

subsection \<open>The addresses as a group of settings\<close>

definition enet_put_ip :: "(string \<Rightarrow> (bool \<times> u32) option) \<Rightarrow> enet_ip_id \<Rightarrow> string \<Rightarrow> enet_state \<Rightarrow> enet_state option" where
  \<comment> \<open>\<open>ethernet_set_ip\<close> as the core uses it: an assignment that is not OK is refused\<close>
  "enet_put_ip aton i v s = (case ethernet_set_ip aton i v s of (r, t) \<Rightarrow> if r = Status_OK then Some t else None)"

definition enet_accepts_ip :: "(string \<Rightarrow> (bool \<times> u32) option) \<Rightarrow> enet_ip_id \<Rightarrow> string \<Rightarrow> bool" where
  "enet_accepts_ip aton i v \<longleftrightarrow> parse_ip4_addr aton v \<noteq> None \<and> i \<noteq> Setting_no_ip"

lemmas enet_ip_defs = enet_put_ip_def enet_accepts_ip_def ethernet_set_ip_def enet_ip_field_def

interpretation enet_ip: setting_group "enet_put_ip aton" enet_ip_field "parse_ip4_addr aton" "enet_accepts_ip aton"
  for aton :: "string \<Rightarrow> (bool \<times> u32) option"
proof unfold_locales
  fix i :: enet_ip_id and v s
  show "(enet_put_ip aton i v s \<noteq> None) = enet_accepts_ip aton i v"
    by (cases i) (auto simp: enet_ip_defs split: option.splits)
next
  fix i :: enet_ip_id and v s t assume "enet_put_ip aton i v s = Some t"
  then show "enet_ip_field i t = parse_ip4_addr aton v"
    by (cases i) (auto simp: enet_ip_defs split: option.splits if_splits)
next
  fix i j :: enet_ip_id and v s t assume "enet_put_ip aton i v s = Some t" "j \<noteq> i"
  then show "enet_ip_field j t = enet_ip_field j s"
    by (cases i; cases j) (auto simp: enet_ip_defs split: option.splits if_splits)
qed

lemma enet_ip_settings:
  "ethernet_get_ip ntop j (puts (enet_put_ip aton) xs s) =
   (case last_put (enet_accepts_ip aton) j xs of
      None \<Rightarrow> ethernet_get_ip ntop j s
    | Some v \<Rightarrow> (case parse_ip4_addr aton v of None \<Rightarrow> [] | Some a \<Rightarrow> ntop a))"
  by (simp add: ethernet_get_ip_def enet_ip.puts_look split: option.split)

lemma ethernet_settings_load_ok:
  "net_services (en_ethernet (ethernet_settings_load b d s)) \<subseteq> en_allowed s"
  "{Http, Websocket} \<subseteq> nb_services b \<Longrightarrow>
     net_websocket_port (en_ethernet (ethernet_settings_load b d s)) \<noteq> net_http_port (en_ethernet (ethernet_settings_load b d s))"
  by (auto simp: ethernet_settings_load_def ethernet_settings_restore_def ethernet_settings_save_def Let_def
      split: option.splits)

subsection \<open>The interface in time\<close>

text \<open>What happens to a started interface, in any order.\<close>

datatype enet_ev = Ev_eth eth_event | Ev_got_ip ip_addresses "service \<Rightarrow> bool" | Ev_task "service \<Rightarrow> bool"
  | Ev_timeout | Ev_set_ip enet_ip_id string | Ev_set_services "service set"

fun enet_do :: "net_build \<Rightarrow> net_defaults \<Rightarrow> (string \<Rightarrow> (bool \<times> u32) option) \<Rightarrow> enet_ev \<Rightarrow> enet_state \<Rightarrow> enet_state" where
  "enet_do b d aton (Ev_eth e) s = eth_event_handler e s"
| "enet_do b d aton (Ev_got_ip info ans) s = got_ip_event_handler b d ans info s"
| "enet_do b d aton (Ev_task ans) s =
     (if en_tasks s = 0 then s else enet_start_services b d ans (s\<lparr>en_tasks := en_tasks s - 1\<rparr>))"
| "enet_do b d aton Ev_timeout s = (if en_timers s = 0 then s else enet_timer b s)"
| "enet_do b d aton (Ev_set_ip i v) s = snd (ethernet_set_ip aton i v s)"
| "enet_do b d aton (Ev_set_services v) s = snd (ethernet_set_services v s)"

definition enet_run :: "net_build \<Rightarrow> net_defaults \<Rightarrow> (string \<Rightarrow> (bool \<times> u32) option) \<Rightarrow> enet_ev list \<Rightarrow> enet_state \<Rightarrow> enet_state" where
  "enet_run b d aton es s = fold (enet_do b d aton) es s"

text \<open>The part of the state the information depends on, and what leaves it alone.\<close>

definition en_view :: "enet_state \<Rightarrow> bool \<times> ip_addresses option \<times> net_settings" where
  "en_view s = (Link_up \<in> en_flags s, en_ip_info s, en_network s)"

lemma en_view_simps [simp]:
  "en_view (enet_call c s) = en_view s" "en_view (enet_start_if b ans v p s) = en_view s"
  "en_view (enet_flag_ip s) = en_view s" "en_view (s\<lparr>en_timers := n\<rparr>) = en_view s"
  "en_view (enet_poll b v s) = en_view s" "en_view (s\<lparr>en_tasks := m\<rparr>) = en_view s"
  "en_view (s\<lparr>en_ethernet := e\<rparr>) = en_view s"
  by (simp_all add: en_view_def enet_call_def enet_start_if_def enet_flag_ip_def enet_event_publish_def enet_poll_def)

lemma en_view_services [simp]: "en_view (enet_start_services b d ans s) = en_view s"
  by (simp add: enet_start_services_def Let_def)

lemma en_view_timer [simp]: "en_view (enet_timer b s) = en_view s"
  by (simp add: enet_timer_def Let_def)

lemma en_view_set_ip [simp]: "en_view (snd (ethernet_set_ip aton i v s)) = en_view s"
  by (cases i) (simp_all add: ethernet_set_ip_def split: option.split)

definition is_connect :: "enet_ev \<Rightarrow> bool" where
  "is_connect e = (case e of Ev_eth (ETHERNET_EVENT_CONNECTED _) \<Rightarrow> True | _ \<Rightarrow> False)"

definition is_disconnect :: "enet_ev \<Rightarrow> bool" where
  "is_disconnect e = (case e of Ev_eth ETHERNET_EVENT_DISCONNECTED \<Rightarrow> True | _ \<Rightarrow> False)"

definition is_lease :: "enet_ev \<Rightarrow> bool" where
  "is_lease e = (case e of Ev_got_ip _ _ \<Rightarrow> True | _ \<Rightarrow> False)"

lemmas is_ev_defs = is_connect_def is_disconnect_def is_lease_def

definition since_disconnect :: "enet_ev list \<Rightarrow> enet_ev list" where
  \<comment> \<open>newest first\<close>
  "since_disconnect es = takeWhile (\<lambda>e. \<not> is_disconnect e) (rev es)"

lemma since_disconnect_snoc:
  "since_disconnect [] = []"
  "since_disconnect (es @ [e]) = (if is_disconnect e then [] else e # since_disconnect es)"
  by (simp_all add: since_disconnect_def)

lemma en_view_connected:
  "en_view (eth_event_handler (ETHERNET_EVENT_CONNECTED m) s) =
     (True, if net_ip_mode (en_network s) \<noteq> IpMode_DHCP then Some (net_addresses (en_network s)) else en_ip_info s, en_network s)"
  by (simp add: enet_event_publish_def Let_def) (simp add: en_view_def)

lemma en_view_do:
  "en_view (enet_do b d aton e s) =
     (if is_disconnect e then (False, None, en_network s)
      else (is_connect e \<or> Link_up \<in> en_flags s,
            (case e of Ev_got_ip info _ \<Rightarrow> Some info
             | _ \<Rightarrow> if is_connect e \<and> net_ip_mode (en_network s) \<noteq> IpMode_DHCP
                    then Some (net_addresses (en_network s)) else en_ip_info s), en_network s))"
proof (cases e)
  case (Ev_eth x)
  then show ?thesis
    by (cases x) (simp_all only: enet_do.simps en_view_connected, 
      simp_all add: is_ev_defs enet_event_publish_def enet_call_def en_view_def)
next
  case (Ev_got_ip info ans)
  then show ?thesis by (simp add: got_ip_event_handler_def is_ev_defs) (simp add: en_view_def)
qed (simp_all add: is_ev_defs ethernet_set_services_def, simp_all add: en_view_def)

lemma en_view_facts:
  "(Link_up \<in> en_flags (enet_do b d aton e s)) = (\<not> is_disconnect e \<and> (is_connect e \<or> Link_up \<in> en_flags s))"
  "(en_ip_info (enet_do b d aton e s) \<noteq> None) =
     (\<not> is_disconnect e \<and>
      (is_lease e \<or> (is_connect e \<and> net_ip_mode (en_network s) \<noteq> IpMode_DHCP) \<or> en_ip_info s \<noteq> None))"
  "en_network (enet_do b d aton e s) = en_network s"
proof -
  note v = en_view_do [of b d aton e s, unfolded en_view_def]
  from v show "(Link_up \<in> en_flags (enet_do b d aton e s)) = (\<not> is_disconnect e \<and> (is_connect e \<or> Link_up \<in> en_flags s))"
    by (simp split: if_splits)
  from v show "en_network (enet_do b d aton e s) = en_network s" by (simp split: if_splits)
  from v have "en_ip_info (enet_do b d aton e s) =
     (if is_disconnect e then None
      else case e of Ev_got_ip info _ \<Rightarrow> Some info
           | _ \<Rightarrow> if is_connect e \<and> net_ip_mode (en_network s) \<noteq> IpMode_DHCP
                  then Some (net_addresses (en_network s)) else en_ip_info s)"
    by (cases "is_disconnect e") simp_all
  then show "(en_ip_info (enet_do b d aton e s) \<noteq> None) =
     (\<not> is_disconnect e \<and>
      (is_lease e \<or> (is_connect e \<and> net_ip_mode (en_network s) \<noteq> IpMode_DHCP) \<or> en_ip_info s \<noteq> None))"
    by (cases e) (simp_all add: is_lease_def is_disconnect_def is_connect_def del: enet_do.simps not_None_eq, blast)
qed

lemma en_view_run:
  assumes "Link_up \<notin> en_flags s" "en_ip_info s = None"
  shows "(Link_up \<in> en_flags (enet_run b d aton es s)) = (\<exists>e \<in> set (since_disconnect es). is_connect e) \<and>
    (en_ip_info (enet_run b d aton es s) \<noteq> None) =
      (\<exists>e \<in> set (since_disconnect es). is_lease e \<or> (is_connect e \<and> net_ip_mode (en_network s) \<noteq> IpMode_DHCP)) \<and>
    en_network (enet_run b d aton es s) = en_network s"
proof (induction es rule: rev_induct)
  case Nil
  then show ?case using assms by (simp add: enet_run_def since_disconnect_snoc)
next
  case (snoc e es)
  have r: "enet_run b d aton (es @ [e]) s = enet_do b d aton e (enet_run b d aton es s)" by (simp add: enet_run_def)
  have n: "en_network (enet_run b d aton es s) = en_network s" using snoc by blast
  show ?case
  proof (cases "is_disconnect e")
    case True
    then show ?thesis using n by (simp only: r en_view_facts since_disconnect_snoc) simp
  next
    case False
    have l: "(Link_up \<in> en_flags (enet_run b d aton es s)) = (\<exists>e \<in> set (since_disconnect es). is_connect e)"
      "(en_ip_info (enet_run b d aton es s) \<noteq> None) =
        (\<exists>e \<in> set (since_disconnect es). is_lease e \<or> (is_connect e \<and> net_ip_mode (en_network s) \<noteq> IpMode_DHCP))"
      using snoc by blast+
    show ?thesis using False n
      by (simp only: r en_view_facts l since_disconnect_snoc) auto
  qed
qed

lemma enet_start_eq:
  assumes "enet_start env s0 = Some (True, s)"
  shows "s = enet_up env (case enet_netif (s0\<lparr>en_network := en_ethernet s0\<rparr>) of
      Some (a, g, m) \<Rightarrow> enet_call (Set_ip a g m) (s0\<lparr>en_network := en_ethernet s0\<rparr>)
    | None \<Rightarrow> s0\<lparr>en_network := en_ethernet s0\<rparr>)"
  using assms by (simp add: enet_start_def Let_def split: if_splits)

lemma enet_up_frame [simp]:
  "Link_up \<in> en_flags (enet_up env s) = (Link_up \<in> en_flags s)" "en_ip_info (enet_up env s) = en_ip_info s"
  "en_network (enet_up env s) = en_network s"
  by (simp_all add: enet_up_def enet_event_publish_def enet_call_def Let_def split: option.split)

lemma enet_start_view:
  assumes "enet_start env s0 = Some (True, s)" "Link_up \<notin> en_flags s0" "en_ip_info s0 = None"
  shows "Link_up \<notin> en_flags s" "en_ip_info s = None" "en_network s = en_ethernet s0"
  using assms(2,3) by (simp_all add: enet_start_eq [OF assms(1)] enet_call_def split: option.split prod.split)

text \<open>
  C37. The information about the Ethernet interface is read through a NULL pointer exactly while
  the interface is configured for DHCP, the link has come up since it was last down and no
  address has been assigned since then; with static addresses it never is, whatever the order of
  events, tasks, timeouts and settings.
\<close>

theorem enet_info_fault:
  assumes "enet_start env s0 = Some (True, s)" "Link_up \<notin> en_flags s0" "en_ip_info s0 = None"
  shows "(enet_get_info ntop netif wifi If_enet (enet_run b d aton es s) = Inl Null_ip_info) =
    (netif \<noteq> None \<and> net_ip_mode (en_ethernet s0) = IpMode_DHCP \<and>
     (\<exists>e \<in> set (since_disconnect es). is_connect e) \<and> (\<forall>e \<in> set (since_disconnect es). \<not> is_lease e))"
proof -
  note v = enet_start_view [OF assms]
  note r = en_view_run [OF v(1,2), of b d aton es]
  let ?t = "enet_run b d aton es s"
  have "(enet_get_info ntop netif wifi If_enet ?t = Inl Null_ip_info) =
      (netif \<noteq> None \<and> Link_up \<in> en_flags ?t \<and> \<not> en_ip_info ?t \<noteq> None)"
    by (simp add: enet_get_info_def Let_def enet_ip_address_def split: option.split)
  also have "\<dots> = (netif \<noteq> None \<and> net_ip_mode (en_ethernet s0) = IpMode_DHCP \<and>
     (\<exists>e \<in> set (since_disconnect es). is_connect e) \<and> (\<forall>e \<in> set (since_disconnect es). \<not> is_lease e))"
    using r v(3) by (simp del: not_None_eq) blast
  finally show ?thesis .
qed

subsection \<open>Services run once\<close>

definition en_inv :: "net_build \<Rightarrow> enet_state \<Rightarrow> bool" where
  "en_inv b s \<longleftrightarrow>
     (\<forall>v. runs v (en_log s) = (if v \<in> en_services s then 1 else 0)) \<and>
     en_services s \<subseteq> nb_services b \<inter> net_services (en_network s) \<and>
     length (filter is_ip_event (en_log s)) = (if Ip_aquired \<in> en_flags s then 1 else 0)"

fun quiet :: "net_call \<Rightarrow> bool" where
  "quiet (Svc_init _ _) = False"
| "quiet (Svc_stop _) = False"
| "quiet (Publish _ changed _) = (Ip_aquired \<notin> changed)"
| "quiet _ = True"

lemma quiet_call: "quiet c \<Longrightarrow> en_inv b (enet_call c s) = en_inv b s"
  by (cases c) (auto simp: en_inv_def enet_call_def is_ip_event_def)

lemma en_inv_frame [simp]:
  "en_inv b (s\<lparr>en_ethernet := e\<rparr>) = en_inv b s" "en_inv b (s\<lparr>en_tasks := n\<rparr>) = en_inv b s"
  "en_inv b (s\<lparr>en_timers := m\<rparr>) = en_inv b s" "en_inv b (s\<lparr>en_ip_info := i\<rparr>) = en_inv b s"
  by (simp_all add: en_inv_def)

lemma en_inv_start_if: "en_inv b s \<Longrightarrow> en_inv b (enet_start_if b ans v p s)"
  by (auto simp: en_inv_def enet_start_if_def enet_call_def is_ip_event_def)

lemma en_inv_flag_ip: "en_inv b s \<Longrightarrow> en_inv b (enet_flag_ip s)"
  by (auto simp: en_inv_def enet_flag_ip_def enet_event_publish_def enet_call_def is_ip_event_def)

lemma en_inv_services: "en_inv b s \<Longrightarrow> en_inv b (enet_start_services b d ans s)"
  unfolding enet_start_services_def Let_def
  by (intro en_inv_flag_ip) (simp add: en_inv_start_if)

lemma en_inv_poll: "en_inv b s \<Longrightarrow> en_inv b (enet_poll b v s)"
  by (simp add: enet_poll_def quiet_call)

lemma en_inv_timer: "en_inv b s \<Longrightarrow> en_inv b (enet_timer b s)"
  unfolding enet_timer_def Let_def
  by (intro en_inv_poll) simp

lemma en_inv_publish: "Ip_aquired \<notin> changed \<Longrightarrow> en_inv b (enet_event_publish changed s) = en_inv b s"
  by (simp add: enet_event_publish_def quiet_call)

lemma en_inv_eth: "en_inv b s \<Longrightarrow> en_inv b (eth_event_handler e s)"
  by (cases e) (simp_all add: en_inv_publish Let_def, simp_all add: en_inv_def)

lemma en_inv_do: "en_inv b s \<Longrightarrow> en_inv b (enet_do b d aton e s)"
  by (cases e)
    (simp_all add: en_inv_eth en_inv_timer en_inv_services got_ip_event_handler_def ethernet_set_services_def
      ethernet_set_ip_def split: option.split enet_ip_id.split)

lemma en_inv_run: "en_inv b s \<Longrightarrow> en_inv b (enet_run b d aton es s)"
  unfolding enet_run_def by (induction es arbitrary: s) (simp_all add: en_inv_do)

lemma en_inv_start:
  assumes "enet_start env s0 = Some (True, s)" "en_log s0 = []" "en_services s0 = {}" "en_flags s0 = {}"
  shows "en_inv b s"
proof -
  have "en_inv b (s0\<lparr>en_network := en_ethernet s0\<rparr>)" using assms(2-) by (simp add: en_inv_def)
  moreover have "en_inv b u \<Longrightarrow> en_inv b (enet_up env u)" for u
    by (simp add: enet_up_def en_inv_publish Let_def split: option.split) (simp add: en_inv_def)
  ultimately show ?thesis
    by (simp add: enet_start_eq [OF assms(1)] quiet_call split: option.split prod.split)
qed

text \<open>
  On a started Ethernet interface, whatever happens and whatever the daemons answer, each
  service marked as running was started exactly once and is one that is built in and enabled, a
  service not marked was never started successfully, and the acquired address is announced at
  most once: a link that went down and came back is not.
\<close>

theorem enet_services_once:
  assumes "enet_start env s0 = Some (True, s)" "en_log s0 = []" "en_services s0 = {}" "en_flags s0 = {}"
  shows "runs v (en_log (enet_run b d aton es s)) = (if v \<in> en_services (enet_run b d aton es s) then 1 else 0) \<and>
    (v \<in> en_services (enet_run b d aton es s) \<longrightarrow> v \<in> nb_services b \<inter> net_services (en_network (enet_run b d aton es s))) \<and>
    length (filter is_ip_event (en_log (enet_run b d aton es s))) \<le> 1"
  using en_inv_run [OF en_inv_start [OF assms], of b d aton es] by (auto simp: en_inv_def)

text \<open>Every time the link comes up, static addresses start one more chain of timeouts.\<close>

lemma enet_start_if_timers [simp]: "en_timers (enet_start_if b ans v p s) = en_timers s"
  by (simp add: enet_start_if_def enet_call_def)

lemma enet_timers_accumulate:
  assumes "Telnet \<in> nb_services b"
  shows "en_timers (enet_start_services b d ans s) = en_timers s + 1"
    and "en_services t \<noteq> {} \<Longrightarrow> en_timers t > 0 \<Longrightarrow> en_timers (enet_timer b t) = en_timers t"
  using assms
  by (auto simp: enet_start_services_def Let_def enet_flag_ip_def enet_event_publish_def enet_call_def
      enet_timer_def enet_poll_def)

subsection \<open>Both interfaces\<close>

lemma net_hooks_both:
  assumes "a \<noteq> 0" "a' \<noteq> 0" "ns_reports y0 = []" "ns_streams y0 = []"
    and y: "y = snd (enet_init a' svcs' (snd (wifi_init a svcs y0)))"
  shows "ns_reports y = [Hook_enet, Hook_wifi] \<and> ns_streams y = [Hook_enet, Hook_wifi] \<and> ns_infos y = [Hook_enet, Hook_wifi]"
  using assms(1-4) by (simp add: y enet_init_def wifi_init_def Let_def)

text \<open>Asking for the options fails exactly when the information does; asking for the new ones never does.\<close>

lemma enet_report_fault:
  "(enet_report ntop netif b False s = Inl e) = (enet_get_info ntop netif None If_enet s = Inl e)"
  "enet_report ntop netif b True s \<noteq> Inl e"
  by (auto simp: enet_report_def split: sum.splits option.splits)

text \<open>
  With both interfaces hooked in, a change of the stream reaches both, but for the SD card,
  which neither takes for a stream of its own; the information about a Wi-Fi interface is what
  Wi-Fi says, whatever the state of the Ethernet interface; and the report of the options is the
  Wi-Fi text followed by the Ethernet text, or fails exactly when the Ethernet information does.
\<close>

theorem net_hooks_chain:
  assumes "a \<noteq> 0" "a' \<noteq> 0" "ns_reports y0 = []" "ns_streams y0 = []"
    and "y = snd (enet_init a' svcs' (snd (wifi_init a svcs y0)))"
  shows "en_stream (ns_enet (stream_changed (ns_streams y) t z)) = (if t = StreamType_SDCard then en_stream (ns_enet z) else t) \<and>
    ns_wifi_stream (stream_changed (ns_streams y) t z) = (if t = StreamType_SDCard then ns_wifi_stream z else t) \<and>
    net_get_info dv z (ns_infos y) If_sta = Inr (wifi_get_info (dv_ntop dv) (dv_mac dv) (dv_ips dv) (ns_wifi z) If_sta) \<and>
    net_get_info dv z (ns_infos y) If_ap = Inr (wifi_get_info (dv_ntop dv) (dv_mac dv) (dv_ips dv) (ns_wifi z) If_ap) \<and>
    net_report dv b newopt z (ns_reports y) =
      (case enet_report (dv_ntop dv) (dv_netif dv) b newopt (ns_enet z) of
         Inl e \<Rightarrow> Inl e
       | Inr u \<Rightarrow> Inr (reportIP (wifi_get_info (dv_ntop dv) (dv_mac dv) (dv_ips dv) (ns_wifi z)) b newopt
                        (ns_wifi_stream z) (ns_wifi z) @ u))"
proof -
  note h = net_hooks_both [OF assms]
  have "en_stream (ns_enet (stream_changed (ns_streams y) t z)) = (if t = StreamType_SDCard then en_stream (ns_enet z) else t)"
    "ns_wifi_stream (stream_changed (ns_streams y) t z) = (if t = StreamType_SDCard then ns_wifi_stream z else t)"
    using h by (simp_all add: wifi_stream_changed_def enet_stream_changed_def)
  with h show ?thesis by (simp add: enet_get_info_def report_own_def)
qed

lemma wifi_boot_cfg: "wf_cfg (snd (wifi_boot env s)) = wf_cfg s"
  by (simp add: wifi_boot_def Let_def)

lemma init_adapter_cfg: "wf_cfg (snd (init_adapter d n s)) = wf_cfg s"
  by (simp add: init_adapter_def Let_def wf_call_def)

lemma wifi_config_mode:
  "ws_mode (wf_cfg (snd (wifi_config_ap d env s))) = ws_mode (wf_cfg s)"
  "ws_mode (wf_cfg (snd (wifi_config_sta d env s))) = ws_mode (wf_cfg s)"
  by (simp_all add: wifi_config_ap_def wifi_config_sta_def Let_def init_adapter_cfg)

lemma wifi_go_cfg: "wf_cfg (snd (wifi_go env we s)) = wf_cfg s"
  by (simp add: wifi_go_def Let_def wf_call_def status_event_publish_def status_ap_event_publish_def wifi_ap_scan_def
      wf_begin_scan_def wf_unflag_scan_def)

definition mode_started :: "net_build \<Rightarrow> net_defaults \<Rightarrow> wifi_mode \<Rightarrow> wifi_mode" where
  \<comment> \<open>without an access point both modes together are not possible\<close>
  "mode_started b d m = (if \<not> nb_softap b \<and> m = WiFiMode_APSTA then nd_mode d else m)"

lemma wifi_start_mode:
  assumes "nvs \<noteq> 0"
  shows "ws_mode (wf_cfg (snd (wifi_start b d nvs env we s))) = mode_started b d (ws_mode (wf_cfg s))"
  using assms
  by (simp add: wifi_start_def mode_started_def Let_def wifi_go_cfg wifi_config_mode wifi_boot_cfg split_beta)

text \<open>
  C38. With Wi-Fi and Ethernet both built in, and as ESP-IDF documents that a second default
  event loop is refused: the first start of the networks aborts the program exactly when Ethernet
  is the interface that is to be started, that is when it is enabled, the Wi-Fi mode is NULL and
  lwIP initialises.  Starting Wi-Fi makes the event loop first, whatever its mode, and the check
  in \<open>enet_start\<close> does not tolerate one.
\<close>

theorem driver_network_aborts:
  assumes "\<not> ns_wifi_ok y" "ns_wifi_nvs y \<noteq> 0" "wf_mode (ns_wifi y) = None"
  shows "(driver_network b d True wenv we env y = None) =
    (ns_eth_cap y \<and> mode_started b d (ws_mode (wf_cfg (ns_wifi y))) = WiFiMode_NULL \<and>
     en_enabled (ns_enet y) \<and> ee_netif_init env)"
proof -
  let ?w = "wifi_start b d (ns_wifi_nvs y) wenv we (ns_wifi y)"
  let ?y = "settings_changed_wifi b d wenv we y"
  have y: "ns_loop ?y" "ns_eth_cap ?y = ns_eth_cap y" "ns_enet ?y = ns_enet y" "ns_wifi ?y = snd ?w"
    using assms by (simp_all add: settings_changed_wifi_def split_beta)
  have m: "ws_mode (wf_cfg (ns_wifi ?y)) = mode_started b d (ws_mode (wf_cfg (ns_wifi y)))"
    using assms(2) by (simp add: y wifi_start_mode)
  show ?thesis
    by (auto simp: driver_network_def driver_setup_enet_def Let_def y(1-3) m enet_start_def)
qed

subsection \<open>A run\<close>

definition enet0 :: enet_state where
  "enet0 = enet_zero\<lparr>en_enabled := True,
     en_ethernet := net_zero\<lparr>net_ip_mode := IpMode_DHCP, net_services := {Telnet, Http}\<rparr>\<rparr>"

definition enet_env0 :: enet_env where
  "enet_env0 = \<lparr>ee_netif_init = True, ee_event_loop = True, ee_checks = True, ee_mac = Some ''02:00''\<rparr>"

definition enet1 :: enet_state where
  "enet1 = enet_up enet_env0 (enet0\<lparr>en_network := en_ethernet enet0\<rparr>)"

lemma enet1_start: "enet_start enet_env0 enet0 = Some (True, enet1)"
  by (simp add: enet_start_def enet1_def enet_env0_def enet0_def enet_zero_def enet_netif_def)

lemma enet0_zero: "Link_up \<notin> en_flags enet0" "en_ip_info enet0 = None" "en_log enet0 = []" "en_services enet0 = {}"
  "en_flags enet0 = {}"
  by (simp_all add: enet0_def enet_zero_def)

theorem enet_info_fault_witness:
  "enet_get_info (\<lambda>a. []) (Some (1, 2)) None If_enet
     (enet_run net_build0 net_defaults0 (\<lambda>v. None) [Ev_eth (ETHERNET_EVENT_CONNECTED ''02:01'')] enet1) = Inl Null_ip_info"
  using enet_info_fault [OF enet1_start enet0_zero(1,2), of "\<lambda>a. []" "Some (1, 2)" None net_build0 net_defaults0 "\<lambda>v. None"
      "[Ev_eth (ETHERNET_EVENT_CONNECTED ''02:01'')]"]
  by (simp add: since_disconnect_def is_ev_defs enet0_def)

definition enet_evs0 :: "enet_ev list" where
  "enet_evs0 = [Ev_eth (ETHERNET_EVENT_CONNECTED ''02:01''), Ev_got_ip (1, 2, 3) (\<lambda>v. v = Telnet),
     Ev_eth ETHERNET_EVENT_DISCONNECTED, Ev_eth (ETHERNET_EVENT_CONNECTED ''02:01''), Ev_got_ip (1, 2, 3) (\<lambda>v. True)]"

theorem enet_services_once_witness:
  "runs Telnet (en_log (enet_run net_build0 net_defaults0 (\<lambda>v. None) enet_evs0 enet1)) =
     (if Telnet \<in> en_services (enet_run net_build0 net_defaults0 (\<lambda>v. None) enet_evs0 enet1) then 1 else 0) \<and>
   length (filter is_ip_event (en_log (enet_run net_build0 net_defaults0 (\<lambda>v. None) enet_evs0 enet1))) \<le> 1"
  using enet_services_once [OF enet1_start enet0_zero(3,4,5), of Telnet net_build0 net_defaults0 "\<lambda>v. None" enet_evs0] by blast

definition net_sys0 :: net_sys where
  "net_sys0 = \<lparr>ns_wifi = wifi_zero (wifi_settings_zero) {}, ns_enet = enet0, ns_wifi_stream = StreamType_Null,
     ns_reports = [], ns_streams = [], ns_infos = [], ns_wifi_nvs = 1024, ns_wifi_cap = True, ns_eth_cap = True,
     ns_wifi_ok = False, ns_loop = False\<rparr>"

definition wifi_start_env1 :: wifi_start_env where
  "wifi_start_env1 = \<lparr>wse_register = True, wse_init = True, wse_default = WIFI_MODE_NULL, wse_storage = True,
     wse_set_null = True, wse_set_mode_ap = True, wse_set_config_ap = True, wse_ap_name = [], wse_set_mode_sta = True,
     wse_set_config_sta = True, wse_sta_name = [], wse_start = True\<rparr>"

theorem net_hooks_chain_witness:
  "en_stream (ns_enet (stream_changed (ns_streams (snd (enet_init 2048 {Telnet} (snd (wifi_init 1024 {Telnet} net_sys0)))))
     StreamType_Telnet net_sys0)) = StreamType_Telnet"
  using net_hooks_chain [of 1024 2048 net_sys0, OF _ _ _ _ HOL.refl, of "{Telnet}" "{Telnet}" StreamType_Telnet net_sys0]
  by (simp add: net_sys0_def)

theorem driver_network_aborts_witness:
  "driver_network net_build0 net_defaults0 True wifi_start_env1 wifi_env0 enet_env0 net_sys0 = None"
  using driver_network_aborts [of net_sys0 net_build0 net_defaults0 wifi_start_env1 wifi_env0 enet_env0]
  by (simp add: net_sys0_def mode_started_def wifi_zero_def wifi_settings_zero_def enet0_def enet_env0_def)

end
