(* ===== verification/DriverMisc.thy ===== *)
theory DriverMisc
  imports Prelude
begin

text \<open>
  Parts of \<open>main/driver.c\<close> that stand alone: the delay of the core with its one timer, the bit
  operations under a critical section, the switch of the MPG and the idle hook, and the
  enumeration of the pins with the list of peripheral pins.  The timers of FreeRTOS are a list
  of those that exist; an assertion of FreeRTOS that fails is an error value.
\<close>

subsection \<open>The delay\<close>

text \<open>A callback is an action, after which it may ask for another delay.\<close>

datatype delay_cb = Cb_do nat | Cb_delay nat u32 delay_cb

datatype delay_fault = Delay_assert

record delay_state =
  dl_timer :: "nat option"                  \<comment> \<open>\<open>xDelayTimer\<close>\<close>
  dl_timers :: "(nat \<times> delay_cb) list"      \<comment> \<open>the timers that exist, with their callback\<close>
  dl_fresh :: nat
  dl_log :: "nat list"                      \<comment> \<open>actions of the callbacks\<close>
  dl_waits :: nat                           \<comment> \<open>turns of the blocking wait\<close>


text \<open>The conversion to ticks, and whether there is memory for a timer.\<close>

record delay_env =
  de_ticks :: "u32 \<Rightarrow> nat"
  de_mem :: bool

definition drop_timer :: "delay_state \<Rightarrow> delay_state" where
  \<comment> \<open>\<open>if(xDelayTimer)\<close> delete it\<close>
  "drop_timer s =
     (case dl_timer s of
        None \<Rightarrow> s
      | Some h \<Rightarrow> s\<lparr>dl_timers := filter (\<lambda>t. fst t \<noteq> h) (dl_timers s), dl_timer := None\<rparr>)"

definition start_timer :: "delay_env \<Rightarrow> u32 \<Rightarrow> delay_cb \<Rightarrow> delay_state \<Rightarrow> delay_fault + delay_state" where
  \<comment> \<open>\<open>xTimerCreate\<close> asserts a period, \<open>xTimerStartFromISR\<close> a timer\<close>
  "start_timer env ms cb s =
     (if de_ticks env ms = 0 \<or> \<not> de_mem env then Inl Delay_assert
      else Inr (s\<lparr>dl_timer := Some (dl_fresh s), dl_timers := (dl_fresh s, cb) # dl_timers s, dl_fresh := dl_fresh s + 1\<rparr>))"

definition delay_act :: "nat \<Rightarrow> delay_state \<Rightarrow> delay_state" where
  "delay_act a s = s\<lparr>dl_log := dl_log s @ [a]\<rparr>"

fun run_cb :: "delay_env \<Rightarrow> delay_cb \<Rightarrow> delay_state \<Rightarrow> delay_fault + delay_state" where
  \<comment> \<open>the second equation has the call of \<open>driver_delay_ms\<close> written out\<close>
  "run_cb env (Cb_do a) s = Inr (delay_act a s)"
| "run_cb env (Cb_delay a ms cb) s =
     (if ms \<noteq> 0 then start_timer env ms cb (drop_timer (delay_act a s)) else run_cb env cb (drop_timer (delay_act a s)))"

function delay_wait :: "u32 \<Rightarrow> delay_state \<Rightarrow> delay_state" where
  "delay_wait ms s =
     (if ms = 0 then s else delay_wait (ms - (if ms > 1 then 2 else 1)) (s\<lparr>dl_waits := dl_waits s + 1\<rparr>))"
  by pat_completeness auto
termination
proof (relation "measure (\<lambda>(ms, s). unat ms)")
  fix ms :: u32 and s :: delay_state assume "ms \<noteq> 0"
  then have "unat ms \<noteq> 0" by (simp add: unat_eq_0)
  then show "((ms - (if ms > 1 then 2 else 1), s\<lparr>dl_waits := dl_waits s + 1\<rparr>), ms, s) \<in> measure (\<lambda>(ms, s). unat ms)"
    by (auto simp: word_less_nat_alt unat_sub_if')
qed simp

declare delay_wait.simps [simp del]

definition driver_delay_ms :: "delay_env \<Rightarrow> u32 \<Rightarrow> delay_cb option \<Rightarrow> delay_state \<Rightarrow> delay_fault + delay_state" where
  "driver_delay_ms env ms callback s =
     (case callback of
        Some cb \<Rightarrow> let s = drop_timer s in if ms \<noteq> 0 then start_timer env ms cb s else run_cb env cb s
      | None \<Rightarrow> Inr (delay_wait ms (drop_timer s)))"

definition vTimerCallback :: "delay_env \<Rightarrow> nat \<Rightarrow> delay_state \<Rightarrow> delay_fault + delay_state" where
  \<comment> \<open>of the timer \<open>h\<close>; it deletes what \<open>xDelayTimer\<close> holds after the callback\<close>
  "vTimerCallback env h s =
     (case map_of (dl_timers s) h of
        None \<Rightarrow> Inr s
      | Some cb \<Rightarrow>
          (case run_cb env cb s of
             Inl e \<Rightarrow> Inl e
           | Inr s \<Rightarrow> if dl_timer s = None then Inl Delay_assert else Inr (drop_timer s)))"

text \<open>A callback that asks for another delay loses it; asking for none ends in an assertion.\<close>

lemma run_cb_again:
  "run_cb env (Cb_delay a ms cb) s = driver_delay_ms env ms (Some cb) (delay_act a s)"
  by (simp add: driver_delay_ms_def Let_def)

lemma delay_chain_lost:
  assumes "dl_timer s = Some h" "dl_timers s = [(h, Cb_delay a ms cb)]" "h < dl_fresh s"
    and "de_mem env" "de_ticks env ms > 0" "ms \<noteq> 0"
  shows "\<exists>t. vTimerCallback env h s = Inr t \<and> dl_timers t = [] \<and> dl_log t = dl_log s @ [a]"
  using assms by (simp add: vTimerCallback_def start_timer_def drop_timer_def delay_act_def)

lemma delay_chain_assert:
  assumes "dl_timer s = Some h" "dl_timers s = [(h, Cb_delay a 0 (Cb_do c))]"
  shows "vTimerCallback env h s = Inl Delay_assert"
  using assms by (simp add: vTimerCallback_def drop_timer_def delay_act_def)

subsection \<open>One delay at a time\<close>












subsection \<open>Bits under a critical section\<close>

definition bitsSetAtomic :: "u32 \<Rightarrow> u32 \<Rightarrow> u32" where
  "bitsSetAtomic v bits = v OR bits"

definition bitsClearAtomic :: "u32 \<Rightarrow> u32 \<Rightarrow> u32 \<times> u32" where
  \<comment> \<open>the value before, the value after\<close>
  "bitsClearAtomic v bits = (v, v AND NOT bits)"

definition valueSetAtomic :: "u32 \<Rightarrow> u32 \<Rightarrow> u32 \<times> u32" where
  "valueSetAtomic v x = (v, x)"

lemma bits_clear_set:
  assumes "v AND bits = 0"
  shows "snd (bitsClearAtomic (bitsSetAtomic v bits) bits) = v"
proof -
  have "\<not> (bit v n \<and> bit bits n)" for n using arg_cong [OF assms, of "\<lambda>x. bit x n"] by (simp add: bit_and_iff)
  then show ?thesis by (intro bit_word_eqI) (auto simp: bitsClearAtomic_def bitsSetAtomic_def bit_simps)
qed

subsection \<open>The switch of the MPG and the idle hook\<close>

datatype idle_call = Stream_mpg_enable bool | Task_delay | Execute_realtime

record idle_state =
  id_ms :: u32               \<comment> \<open>\<open>ms\<close> of \<open>wdt_tickler\<close>\<close>
  id_mpg_event :: bool
  id_calls :: "idle_call list"

definition idle_emit :: "idle_call \<Rightarrow> idle_state \<Rightarrow> idle_state" where
  "idle_emit c s = s\<lparr>id_calls := id_calls s @ [c]\<rparr>"

definition gpio_mpg_isr :: "idle_state \<Rightarrow> idle_state" where
  "gpio_mpg_isr s = s\<lparr>id_mpg_event := True\<rparr>"

definition mpg_select :: "bool \<Rightarrow> bool \<Rightarrow> idle_state \<Rightarrow> idle_state" where
  \<comment> \<open>whether a call is already under way, the level of the pin\<close>
  "mpg_select mux pin s = (if \<not> mux then idle_emit (Stream_mpg_enable (\<not> pin)) s else s)"

definition mpg_enable :: "bool \<Rightarrow> bool \<Rightarrow> idle_state \<Rightarrow> idle_state" where
  \<comment> \<open>\<open>sys.mpg_mode\<close>, the level of the pin\<close>
  "mpg_enable mode pin s = (if mode = pin then idle_emit (Stream_mpg_enable True) s else s)"

definition wdt_tickler :: "bool \<Rightarrow> bool \<Rightarrow> bool \<Rightarrow> u32 \<Rightarrow> u32 \<Rightarrow> idle_state \<Rightarrow> idle_state" where
  \<comment> \<open>with the MPG built in or not; the tick count is read twice\<close>
  "wdt_tickler mpg mux pin t1 t2 s =
     (let s = (if mpg \<and> id_mpg_event s then mpg_select mux pin (s\<lparr>id_mpg_event := False\<rparr>) else s)
      in if t1 - id_ms s > 250 then idle_emit Task_delay (s\<lparr>id_ms := t2\<rparr>) else idle_emit Execute_realtime s)"

text \<open>
  Of two turns within a quarter of a second after the first, the second runs the real-time hook,
  also across the wrap of the tick count.
\<close>

lemma wdt_tickler_alternates:
  assumes "t1 - id_ms s > 250" "t3 - t2 \<le> 250"
  shows "last (id_calls (wdt_tickler mpg mux pin t1 t2 s)) = Task_delay"
    "last (id_calls (wdt_tickler mpg mux' pin' t3 t4 (wdt_tickler mpg mux pin t1 t2 s))) = Execute_realtime"
proof -
  have "\<not> t3 - t2 > 250" using assms(2) by (simp only: not_less)
  then show "last (id_calls (wdt_tickler mpg mux pin t1 t2 s)) = Task_delay"
    "last (id_calls (wdt_tickler mpg mux' pin' t3 t4 (wdt_tickler mpg mux pin t1 t2 s))) = Execute_realtime"
    using assms(1) by (simp_all add: wdt_tickler_def mpg_select_def idle_emit_def Let_def)
qed

subsection \<open>Pins\<close>

datatype pin_group = PinGroup_SpindlePWM | PinGroup_AuxInputAnalog | PinGroup_other nat
datatype pin_mode_bit = Mode_input | Mode_output | Mode_pwm | Mode_other nat

record input_pin =
  ipn_pin :: u8
  ipn_id :: nat
  ipn_group :: pin_group
  ipn_analog :: bool
  ipn_description :: "string option"

record output_pin =
  opn_pin :: u8
  opn_id :: nat
  opn_group :: pin_group
  opn_description :: "string option"

record periph_pin =
  ppn_pin :: u8
  ppn_function :: nat
  ppn_group :: pin_group
  ppn_mode :: "pin_mode_bit set"
  ppn_description :: "string option"

record xpin =
  xp_id :: nat
  xp_pin :: u8
  xp_port :: "string option"
  xp_function :: nat
  xp_group :: pin_group
  xp_mode :: "pin_mode_bit set"
  xp_description :: "string option"

definition xpin_zero :: xpin where
  \<comment> \<open>the static variable before the first call; group zero is one of the others\<close>
  "xpin_zero = \<lparr>xp_id = 0, xp_pin = 0, xp_port = None, xp_function = 0, xp_group = PinGroup_other 0, xp_mode = {},
     xp_description = None\<rparr>"

text \<open>The next number, the static variable, and what was passed to \<open>pin_info\<close>.\<close>

type_synonym enum_state = "nat \<times> xpin \<times> xpin list"

fun enum_input :: "input_pin \<Rightarrow> enum_state \<Rightarrow> enum_state" where
  "enum_input i (n, p, out) =
     (let p = p\<lparr>xp_id := n, xp_pin := ipn_pin i, xp_function := ipn_id i, xp_group := ipn_group i,
                xp_mode := (if ipn_group i = PinGroup_SpindlePWM then insert Mode_pwm (xp_mode p) else xp_mode p - {Mode_pwm}),
                xp_description := ipn_description i\<rparr>
      in (n + 1, p, if ipn_group i \<noteq> PinGroup_AuxInputAnalog \<or> ipn_analog i then out @ [p] else out))"

definition I2S_OUT_PIN_BASE :: u8 where "I2S_OUT_PIN_BASE = 64"

fun enum_output :: "bool \<Rightarrow> output_pin \<Rightarrow> enum_state \<Rightarrow> enum_state" where
  "enum_output low_level o' (n, p, out) =
     (let p = p\<lparr>xp_id := n,
                xp_pin := opn_pin o' - (if opn_pin o' < I2S_OUT_PIN_BASE then 0 else I2S_OUT_PIN_BASE),
                xp_port := (if low_level \<or> opn_pin o' < I2S_OUT_PIN_BASE then None else Some ''I2S''),
                xp_function := opn_id o', xp_group := opn_group o', xp_description := opn_description o'\<rparr>
      in (n + 1, p, out @ [p]))"

fun enum_periph :: "(pin_group \<Rightarrow> string) \<Rightarrow> periph_pin \<Rightarrow> enum_state \<Rightarrow> enum_state" where
  "enum_periph describe q (n, p, out) =
     (let p = p\<lparr>xp_id := n, xp_pin := ppn_pin q, xp_function := ppn_function q, xp_group := ppn_group q,
                xp_mode := ppn_mode q,
                xp_description := (case ppn_description q of None \<Rightarrow> Some (describe (ppn_group q)) | Some t \<Rightarrow> Some t)\<rparr>
      in (n + 1, p, out @ [p]))"

definition enumeratePins :: "(pin_group \<Rightarrow> string) \<Rightarrow> bool \<Rightarrow> input_pin list \<Rightarrow> output_pin list \<Rightarrow> periph_pin list \<Rightarrow>
    xpin \<Rightarrow> xpin list \<times> xpin" where
  \<comment> \<open>the static variable of the call before is an argument\<close>
  "enumeratePins describe low_level ins outs periphs p =
     (let (n, p, out) = fold enum_input ins (0, p\<lparr>xp_mode := insert Mode_input (xp_mode p)\<rparr>, []);
          (n, p, out) = fold (enum_output low_level) outs (n, p\<lparr>xp_mode := {Mode_output}\<rparr>, out);
          (n, p, out) = fold (enum_periph describe) periphs (n, p\<lparr>xp_port := None\<rparr>, out)
      in (out, p))"

fun periph_append :: "periph_pin \<Rightarrow> periph_pin list \<Rightarrow> periph_pin list" where
  \<comment> \<open>behind the last of the linked list\<close>
  "periph_append x [] = [x]"
| "periph_append x (y # ys) = y # periph_append x ys"

definition registerPeriphPin :: "bool \<Rightarrow> periph_pin \<Rightarrow> periph_pin list \<Rightarrow> periph_pin list" where
  \<comment> \<open>whether \<open>malloc\<close> succeeds\<close>
  "registerPeriphPin mem pin ps = (if \<not> mem then ps else periph_append pin ps)"

fun setPeriphPinDescription :: "nat \<Rightarrow> pin_group \<Rightarrow> string option \<Rightarrow> periph_pin list \<Rightarrow> periph_pin list" where
  \<comment> \<open>the first that matches: the loop ends there\<close>
  "setPeriphPinDescription f g d [] = []"
| "setPeriphPinDescription f g d (q # qs) =
     (if ppn_function q = f \<and> ppn_group q = g then q\<lparr>ppn_description := d\<rparr> # qs
      else q # setPeriphPinDescription f g d qs)"

text \<open>What each pass adds, with the numbers counting on.\<close>

lemma periph_append_eq [simp]: "periph_append x ps = ps @ [x]"
  by (induction ps) simp_all

definition periph_view :: "(pin_group \<Rightarrow> string) \<Rightarrow> periph_pin \<Rightarrow> u8 \<times> nat \<times> pin_group \<times> pin_mode_bit set \<times> string option" where
  "periph_view describe q = (ppn_pin q, ppn_function q, ppn_group q, ppn_mode q,
     case ppn_description q of None \<Rightarrow> Some (describe (ppn_group q)) | Some t \<Rightarrow> Some t)"

definition xpin_view :: "xpin \<Rightarrow> u8 \<times> nat \<times> pin_group \<times> pin_mode_bit set \<times> string option" where
  "xpin_view p = (xp_pin p, xp_function p, xp_group p, xp_mode p, xp_description p)"

definition numbered :: "enum_state \<Rightarrow> bool" where
  "numbered e \<longleftrightarrow> sorted_wrt (<) (map xp_id (snd (snd e))) \<and> (\<forall>p \<in> set (snd (snd e)). xp_id p < fst e)"

lemma numbered_add:
  assumes "numbered (n, p, out)" "xp_id q = n"
  shows "numbered (n + 1, p', out @ [q])" "numbered (n + 1, p', out)"
proof -
  have l: "sorted_wrt (<) (map xp_id out)" "\<And>x. x \<in> set out \<Longrightarrow> xp_id x < n" using assms(1) by (simp_all add: numbered_def)
  then show "numbered (n + 1, p', out)" by (auto simp: numbered_def less_Suc_eq)
  show "numbered (n + 1, p', out @ [q])" using l assms(2) by (auto simp: numbered_def less_Suc_eq sorted_wrt_append)
qed

lemma numbered_steps:
  assumes e: "numbered e"
  shows "numbered (enum_input i e)" "numbered (enum_output l o' e)" "numbered (enum_periph d q e)"
proof -
  obtain n p out where [simp]: "e = (n, p, out)" by (cases e)
  note a = numbered_add [OF e [simplified]]
  show "numbered (enum_input i e)" unfolding \<open>e = (n, p, out)\<close> enum_input.simps Let_def
    by (cases "ipn_group i \<noteq> PinGroup_AuxInputAnalog \<or> ipn_analog i")
      (simp_all only: if_True if_False, rule a, simp, rule a(2) [of "p\<lparr>xp_id := n\<rparr>"], simp)
  show "numbered (enum_output l o' e)" unfolding \<open>e = (n, p, out)\<close> enum_output.simps Let_def by (rule a) simp
  show "numbered (enum_periph d q e)" unfolding \<open>e = (n, p, out)\<close> enum_periph.simps Let_def by (rule a) simp
qed

lemma numbered_fold:
  assumes "\<And>x e. numbered e \<Longrightarrow> numbered (f x e)"
  shows "numbered e \<Longrightarrow> numbered (fold f xs e)"
  by (induction xs arbitrary: e) (simp_all add: assms)

lemma enum_periph_views:
  "map xpin_view (snd (snd (fold (enum_periph d) qs (n, p, out)))) = map xpin_view out @ map (periph_view d) qs"
  by (induction qs arbitrary: n p out) (simp_all add: Let_def xpin_view_def periph_view_def)

lemma enumeratePins_eq:
  "fst (enumeratePins d low ins outs ps p) = snd (snd (fold (enum_periph d) ps
     (let e = fold (enum_output low) outs
        (let e = fold enum_input ins (0, p\<lparr>xp_mode := insert Mode_input (xp_mode p)\<rparr>, [])
         in (fst e, (fst (snd e))\<lparr>xp_mode := {Mode_output}\<rparr>, snd (snd e)))
      in (fst e, (fst (snd e))\<lparr>xp_port := None\<rparr>, snd (snd e)))))"
  by (simp add: enumeratePins_def Let_def split_beta)

lemma numbered_mode: "numbered e \<Longrightarrow> numbered (fst e, p, snd (snd e))"
  by (simp add: numbered_def)

text \<open>The numbers of the pins reported are all different and rise.\<close>

lemma enumerate_numbers: "sorted_wrt (<) (map xp_id (fst (enumeratePins d low ins outs ps p)))"
proof -
  have i: "numbered (fold enum_input ins (0, q, []))" for q
    by (rule numbered_fold [OF numbered_steps(1)]) (simp_all add: numbered_def)
  have o: "numbered (fold (enum_output low) outs e)" if "numbered e" for e
    by (rule numbered_fold [OF numbered_steps(2) that]) simp
  have p: "numbered (fold (enum_periph d) ps e)" if "numbered e" for e
    by (rule numbered_fold [OF numbered_steps(3) that]) simp
  note e = p [OF numbered_mode [OF o [OF numbered_mode [OF i]]]]
  show ?thesis unfolding enumeratePins_eq Let_def using e [unfolded numbered_def] by blast
qed

text \<open>The peripheral pins registered are reported, in the order they were, behind the others.\<close>

lemma enumerate_registered:
  "\<exists>xs. map xpin_view (fst (enumeratePins d low ins outs (fold (registerPeriphPin True) qs []) p)) =
     xs @ map (periph_view d) qs"
proof -
  have "fold (registerPeriphPin True) qs ps = ps @ qs" for ps
    by (induction qs arbitrary: ps) (simp_all add: registerPeriphPin_def)
  then show ?thesis unfolding enumeratePins_eq Let_def enum_periph_views by auto
qed

text \<open>
  Only \<open>input\<close> is set before the inputs are reported, the other bits are those the call before
  left: from the second call on an input is reported as an output too.
\<close>

lemma enumerate_stale_mode:
  assumes "ipn_group i \<noteq> PinGroup_AuxInputAnalog"
  shows "xp_mode (hd (fst (enumeratePins d low [i] [] [] xpin_zero))) - {Mode_pwm} = {Mode_input}"
    and "snd (enumeratePins d low [i] [] [] xpin_zero) = p \<Longrightarrow>
      xp_mode (hd (fst (enumeratePins d low [i] [] [] p))) - {Mode_pwm} = {Mode_input, Mode_output}"
  using assms by (auto simp: enumeratePins_def Let_def xpin_zero_def)

end
